(* ===== verification/Prelude.thy ===== *)
theory Prelude
  imports Main "HOL-Library.Word"
begin

text \<open>
  Shared vocabulary of the development: fixed-width integer types, the errno values the C code
  returns, device handles, and the generic lemmas on words and byte ranges that the component
  theories use.

  Conventions of every component theory:
  \<^item> a C struct is a record, an enum a datatype or a numeric constant of the enum's value;
  \<^item> a pointer that the code compares with NULL is an option, None being NULL;
  \<^item> a function that mutates through a pointer returns the mutated value beside its result;
  \<^item> a driver that is not part of the repository is a record of functions over a world type,
    and what the code relies on is a locale over that record.
\<close>

unbundle bit_operations_syntax

section \<open>Machine types\<close>

type_synonym u8 = "8 word"
type_synonym u16 = "16 word"
type_synonym u32 = "32 word"
type_synonym u64 = "64 word"

text \<open>An opaque, non-null device handle (const struct device *).\<close>

type_synonym dev = nat

section \<open>errno values\<close>

text \<open>The positive errno numbers of the C library the firmware is built with; the code returns
  them negated.\<close>

abbreviation (input) ENOENT :: int where "ENOENT \<equiv> 2"
abbreviation (input) EIO :: int where "EIO \<equiv> 5"
abbreviation (input) EAGAIN :: int where "EAGAIN \<equiv> 11"
abbreviation (input) EWOULDBLOCK :: int where "EWOULDBLOCK \<equiv> 11"
abbreviation (input) EACCES :: int where "EACCES \<equiv> 13"
abbreviation (input) EFAULT :: int where "EFAULT \<equiv> 14"
abbreviation (input) EBUSY :: int where "EBUSY \<equiv> 16"
abbreviation (input) EEXIST :: int where "EEXIST \<equiv> 17"
abbreviation (input) ENODEV :: int where "ENODEV \<equiv> 19"
abbreviation (input) EINVAL :: int where "EINVAL \<equiv> 22"
abbreviation (input) ENOSPC :: int where "ENOSPC \<equiv> 28"
abbreviation (input) ENOBUFS :: int where "ENOBUFS \<equiv> 105"
abbreviation (input) EALREADY :: int where "EALREADY \<equiv> 120"
abbreviation (input) EMSGSIZE :: int where "EMSGSIZE \<equiv> 122"
abbreviation (input) ENOTSUP :: int where "ENOTSUP \<equiv> 134"
abbreviation (input) EILSEQ :: int where "EILSEQ \<equiv> 138"

section \<open>Lemma collections\<close>

named_theorems word_facts \<open>facts on machine words shared by the components\<close>

section \<open>Words\<close>

lemma flag_clear [simp]: "m AND 2 ^ n = 0 \<longleftrightarrow> \<not> bit m n" for m :: "'a::len word"
  by (rule and_exp_eq_0_iff_not_bit)

lemma u8_of_nat_inj [word_facts]:
  "m < 256 \<Longrightarrow> n < 256 \<Longrightarrow> (of_nat m :: u8) = of_nat n \<longleftrightarrow> m = n"
  by (simp add: word_of_nat_eq_iff take_bit_nat_eq_self)

lemma unat_u8_of_nat [word_facts]: "n < 256 \<Longrightarrow> unat (of_nat n :: u8) = n"
  by (simp add: unat_of_nat)

lemma unat_u32_of_nat [word_facts]: "n < 4294967296 \<Longrightarrow> unat (of_nat n :: u32) = n"
  by (simp add: unat_of_nat)

text \<open>Equality of 32-bit words, bit by bit.\<close>

lemma u32_bits: "x = y \<longleftrightarrow> list_all (\<lambda>n. bit x n = bit y n) (0 # 1 # [2..<32])" for x y :: u32
proof -
  have "0 # 1 # [2..<32] = [0..<32::nat]" by (simp add: upt_rec)
  then show ?thesis by (auto simp: list_all_iff intro!: bit_word_eqI)
qed

section \<open>Byte ranges of a memory\<close>

text \<open>A memory is a function from byte addresses to bytes; \<open>mem_range\<close> reads a range.\<close>

definition mem_range :: "(nat \<Rightarrow> 'a) \<Rightarrow> nat \<Rightarrow> nat \<Rightarrow> 'a list" where
  "mem_range m off n = map m [off..<off + n]"

definition same_outside :: "nat \<Rightarrow> nat \<Rightarrow> (nat \<Rightarrow> 'a) \<Rightarrow> (nat \<Rightarrow> 'a) \<Rightarrow> bool" where
  "same_outside off n m m' \<longleftrightarrow> (\<forall>i. i < off \<or> off + n \<le> i \<longrightarrow> m' i = m i)"

lemma length_mem_range [simp]: "length (mem_range m off n) = n"
  by (simp add: mem_range_def)

lemma nth_mem_range [simp]: "i < n \<Longrightarrow> mem_range m off n ! i = m (off + i)"
  by (simp add: mem_range_def)

lemma take_mem_range: "k \<le> n \<Longrightarrow> take k (mem_range m off n) = mem_range m off k"
  by (simp add: list_eq_iff_nth_eq)

lemma drop_mem_range: "k \<le> n \<Longrightarrow> drop k (mem_range m off n) = mem_range m (off + k) (n - k)"
  by (simp add: list_eq_iff_nth_eq add.assoc)

lemma mem_range_cong:
  "(\<And>i. off \<le> i \<Longrightarrow> i < off + n \<Longrightarrow> m i = m' i) \<Longrightarrow> mem_range m off n = mem_range m' off n"
  by (simp add: mem_range_def)

lemma same_outside_refl [simp]: "same_outside off n m m"
  by (simp add: same_outside_def)

lemma same_outside_trans:
  "same_outside off n m1 m2 \<Longrightarrow> same_outside off n m2 m3 \<Longrightarrow> same_outside off n m1 m3"
  by (simp add: same_outside_def)

lemma same_outside_mono:
  "same_outside a k m m' \<Longrightarrow> off \<le> a \<Longrightarrow> a + k \<le> off + n \<Longrightarrow> same_outside off n m m'"
  by (auto simp: same_outside_def)

lemma mem_range_outside:
  "same_outside a k m m' \<Longrightarrow> off + n \<le> a \<or> a + k \<le> off \<Longrightarrow>
     mem_range m' off n = mem_range m off n"
  by (rule mem_range_cong) (auto simp: same_outside_def)

lemma mem_range_eq_iff:
  "mem_range m off n = xs \<longleftrightarrow> length xs = n \<and> (\<forall>i < n. m (off + i) = xs ! i)"
  by (auto simp: list_eq_iff_nth_eq)

end
