(* ===== verification/Fault_Log.thy ===== *)
theory Fault_Log
  imports Prelude
begin

text \<open>
  labs/lab24_eeprom_fault_logger_zephyr/src/fault_log.c: an eight-slot ring of fault records in
  an EEPROM.  The EEPROM driver is Zephyr's and is a parameter (\<open>eeprom_api\<close>); the contract the
  logger relies on is the locale \<open>eeprom_driver\<close>.
\<close>

section \<open>Data\<close>

abbreviation (input) FAULT_LOG_SLOT_COUNT :: nat where "FAULT_LOG_SLOT_COUNT \<equiv> 8"
abbreviation (input) FAULT_LOG_SLOT_SIZE :: nat where "FAULT_LOG_SLOT_SIZE \<equiv> 32"
abbreviation (input) FAULT_LOG_BYTES :: nat where "FAULT_LOG_BYTES \<equiv> 256"
abbreviation (input) FAULT_LOG_BODY_SIZE :: nat where "FAULT_LOG_BODY_SIZE \<equiv> 16"
abbreviation (input) FAULT_LOG_COMMIT_OFFSET :: nat where "FAULT_LOG_COMMIT_OFFSET \<equiv> 24"
abbreviation (input) FAULT_LOG_COMMIT_SIZE :: nat where "FAULT_LOG_COMMIT_SIZE \<equiv> 8"
abbreviation (input) FAULT_LOG_NO_SLOT :: u8 where "FAULT_LOG_NO_SLOT \<equiv> 255"

record fault_log =
  fl_dev :: "dev option"
  fl_sequence :: u32
  fl_newest_slot :: u8
  fl_initialized :: bool

text \<open>The EEPROM driver: readiness, size, read (result code, bytes, world), write.\<close>

record 'w eeprom_api =
  ee_ready :: "dev \<Rightarrow> 'w \<Rightarrow> bool"
  ee_size :: "dev \<Rightarrow> 'w \<Rightarrow> nat"
  ee_read :: "dev \<Rightarrow> int \<Rightarrow> nat \<Rightarrow> 'w \<Rightarrow> int \<times> u8 list \<times> 'w"
  ee_write :: "dev \<Rightarrow> int \<Rightarrow> u8 list \<Rightarrow> 'w \<Rightarrow> int \<times> 'w"

definition magic :: "u8 list" where
  "magic = [0x46, 0x4C, 0x54, 0x31]"

definition committed :: "u8 list" where
  "committed = [0xa5, 0x5a, 0xc3, 0x3c, 0x96, 0x69, 0xf0, 0x0f]"

definition invalid :: "u8 list" where
  "invalid = replicate FAULT_LOG_COMMIT_SIZE 0"

section \<open>Helpers\<close>

definition load_le32 :: "u8 list \<Rightarrow> u32" where
  "load_le32 p =
     ucast (p ! 0) OR push_bit 8 (ucast (p ! 1)) OR
     (push_bit 16 (ucast (p ! 2)) OR push_bit 24 (ucast (p ! 3)))"

text \<open>\<open>store_le32 p off v\<close> is the C call on the pointer \<open>p + off\<close>.\<close>

definition store_le32 :: "u8 list \<Rightarrow> nat \<Rightarrow> u32 \<Rightarrow> u8 list" where
  "store_le32 p off v = fold (\<lambda>i p. p[off + i := ucast (drop_bit (8 * i) v)]) [0..<4] p"

definition crc32_bit :: "u32 \<Rightarrow> u32" where
  "crc32_bit crc = drop_bit 1 crc XOR (if crc AND 1 \<noteq> 0 then 0xedb88320 else 0)"

definition crc32_byte :: "u8 \<Rightarrow> u32 \<Rightarrow> u32" where
  "crc32_byte b crc = (crc32_bit ^^ 8) (crc XOR ucast b)"

definition crc32 :: "u8 list \<Rightarrow> nat \<Rightarrow> u32" where
  "crc32 p n = fold crc32_byte (take n p) 0xFFFFFFFF XOR 0xFFFFFFFF"

definition slot_offset :: "u8 \<Rightarrow> int" where
  "slot_offset slot = int (unat slot * FAULT_LOG_SLOT_SIZE)"

definition record_valid :: "u8 list \<Rightarrow> bool" where
  "record_valid data \<longleftrightarrow>
     take FAULT_LOG_COMMIT_SIZE (drop FAULT_LOG_COMMIT_OFFSET data) = committed \<and>
     take 4 data = magic \<and>
     load_le32 (drop 12 data) = crc32 data 12"

definition newer :: "u32 \<Rightarrow> u32 \<Rightarrow> bool" where
  "newer a b = (let delta = a - b in delta \<noteq> 0 \<and> delta < 0x80000000)"

definition usable :: "'w eeprom_api \<Rightarrow> fault_log option \<Rightarrow> 'w \<Rightarrow> int" where
  "usable api log w =
     (case log of None \<Rightarrow> - EINVAL
      | Some l \<Rightarrow>
        (case fl_dev l of None \<Rightarrow> - EINVAL
         | Some d \<Rightarrow>
           if \<not> fl_initialized l then - EIO
           else if fl_newest_slot l \<noteq> FAULT_LOG_NO_SLOT \<and> fl_newest_slot l \<ge> of_nat FAULT_LOG_SLOT_COUNT
             then - EINVAL
           else if ee_ready api d w then 0 else - ENODEV))"

section \<open>Initialisation\<close>

text \<open>The scan loop: \<open>recovered\<close>, \<open>sequences\<close>, \<open>valid_mask\<close> are the C locals.\<close>

fun fl_scan :: "'w eeprom_api \<Rightarrow> dev \<Rightarrow> nat list \<Rightarrow> fault_log \<Rightarrow> u32 list \<Rightarrow> u8 \<Rightarrow> 'w \<Rightarrow>
    int \<times> fault_log \<times> u32 list \<times> u8 \<times> 'w" where
  "fl_scan api d [] recovered sequences valid_mask w = (0, recovered, sequences, valid_mask, w)"
| "fl_scan api d (slot # slots) recovered sequences valid_mask w =
     (case ee_read api d (slot_offset (of_nat slot)) FAULT_LOG_SLOT_SIZE w of (rc, bytes, w1) \<Rightarrow>
        if rc \<noteq> 0 then (rc, recovered, sequences, valid_mask, w1)
        else if \<not> record_valid bytes then
          fl_scan api d slots recovered sequences valid_mask w1
        else
          let seq = load_le32 (drop 4 bytes);
              sequences' = sequences[slot := seq];
              valid_mask' = valid_mask OR push_bit slot 1;
              recovered' =
                (if fl_newest_slot recovered = FAULT_LOG_NO_SLOT \<or> newer seq (fl_sequence recovered)
                 then recovered\<lparr>fl_sequence := seq, fl_newest_slot := of_nat slot\<rparr>
                 else recovered)
          in fl_scan api d slots recovered' sequences' valid_mask' w1)"

fun fl_check_ages :: "nat list \<Rightarrow> fault_log \<Rightarrow> u32 list \<Rightarrow> u8 \<Rightarrow> int" where
  "fl_check_ages [] recovered sequences valid_mask = 0"
| "fl_check_ages (slot # slots) recovered sequences valid_mask =
     (if valid_mask AND push_bit slot 1 \<noteq> 0 \<and> of_nat slot \<noteq> fl_newest_slot recovered then
        let age = fl_sequence recovered - sequences ! slot in
        if age = 0 \<or> age \<ge> of_nat FAULT_LOG_SLOT_COUNT then - EILSEQ
        else fl_check_ages slots recovered sequences valid_mask
      else fl_check_ages slots recovered sequences valid_mask)"

definition fl_blank :: fault_log where
  "fl_blank = \<lparr>fl_dev = None, fl_sequence = 0, fl_newest_slot = FAULT_LOG_NO_SLOT,
     fl_initialized = False\<rparr>"

definition fault_log_init :: "'w eeprom_api \<Rightarrow> fault_log option \<Rightarrow> dev option \<Rightarrow> 'w \<Rightarrow>
    int \<times> fault_log option \<times> 'w" where
  "fault_log_init api log dv w =
     (case log of None \<Rightarrow> (- EINVAL, None, w)
      | Some _ \<Rightarrow>
        (let log = Some fl_blank in
         case dv of None \<Rightarrow> (- EINVAL, log, w)
         | Some d \<Rightarrow>
           if \<not> ee_ready api d w then (- ENODEV, log, w)
           else if ee_size api d w < FAULT_LOG_BYTES then (- ENOSPC, log, w)
           else
             (case fl_scan api d [0..<FAULT_LOG_SLOT_COUNT] (fl_blank\<lparr>fl_dev := Some d\<rparr>)
                     (replicate FAULT_LOG_SLOT_COUNT 0) 0 w of
                (rc, recovered, sequences, valid_mask, w1) \<Rightarrow>
                  if rc \<noteq> 0 then (rc, log, w1)
                  else
                    let rc = fl_check_ages [0..<FAULT_LOG_SLOT_COUNT] recovered sequences valid_mask in
                    if rc \<noteq> 0 then (rc, log, w1)
                    else (0, Some (recovered\<lparr>fl_initialized := True\<rparr>), w1))))"

section \<open>Append\<close>

definition fl_body :: "u32 \<Rightarrow> u32 \<Rightarrow> u8 list" where
  "fl_body sequence fault_code =
     (let body = magic @ replicate 12 0;
          body = store_le32 body 4 sequence;
          body = store_le32 body 8 fault_code
      in store_le32 body 12 (crc32 body 12))"

definition fault_log_append :: "'w eeprom_api \<Rightarrow> fault_log option \<Rightarrow> u32 \<Rightarrow> 'w \<Rightarrow>
    int \<times> fault_log option \<times> 'w" where
  "fault_log_append api log fault_code w =
     (let rc = usable api log w in
      if rc \<noteq> 0 then (rc, log, w)
      else
        let l = the log; d = the (fl_dev l);
            empty = (fl_newest_slot l = FAULT_LOG_NO_SLOT);
            target = (if empty then 0 else ucast ((ucast (fl_newest_slot l) + 1 :: u32) mod 8) :: u8);
            sequence = (if empty then 1 else fl_sequence l + 1);
            base = slot_offset target;
            body = fl_body sequence fault_code;
            l = l\<lparr>fl_initialized := False\<rparr>
        in
        case ee_write api d (base + int FAULT_LOG_COMMIT_OFFSET) invalid w of (rc, w1) \<Rightarrow>
        if rc \<noteq> 0 then (rc, Some l, w1) else
        case ee_read api d (base + int FAULT_LOG_COMMIT_OFFSET) FAULT_LOG_COMMIT_SIZE w1 of (rc, chk1, w2) \<Rightarrow>
        if rc \<noteq> 0 then (rc, Some l, w2) else
        if chk1 \<noteq> invalid then (- EIO, Some l, w2) else
        case ee_write api d base body w2 of (rc, w3) \<Rightarrow>
        if rc \<noteq> 0 then (rc, Some l, w3) else
        case ee_read api d base FAULT_LOG_BODY_SIZE w3 of (rc, chk2, w4) \<Rightarrow>
        if rc \<noteq> 0 then (rc, Some l, w4) else
        if chk2 \<noteq> body then (- EIO, Some l, w4) else
        case ee_write api d (base + int FAULT_LOG_COMMIT_OFFSET) committed w4 of (rc, w5) \<Rightarrow>
        if rc \<noteq> 0 then (rc, Some l, w5) else
        case ee_read api d base FAULT_LOG_SLOT_SIZE w5 of (rc, chk3, w6) \<Rightarrow>
        if rc \<noteq> 0 then (rc, Some l, w6) else
        if \<not> record_valid chk3 \<or> take FAULT_LOG_BODY_SIZE chk3 \<noteq> body then (- EIO, Some l, w6)
        else (0, Some (l\<lparr>fl_sequence := sequence, fl_newest_slot := target, fl_initialized := True\<rparr>), w6))"

section \<open>Latest\<close>

text \<open>\<open>out\<close> is the pointer \<open>fault_code\<close>: None for NULL, else the caller's current value.\<close>

definition fault_log_latest :: "'w eeprom_api \<Rightarrow> fault_log option \<Rightarrow> u32 option \<Rightarrow> 'w \<Rightarrow>
    int \<times> fault_log option \<times> u32 option \<times> 'w" where
  "fault_log_latest api log out w =
     (case out of None \<Rightarrow> (- EINVAL, log, None, w)
      | Some old \<Rightarrow>
        (let rc = usable api log w in
         if rc \<noteq> 0 then (rc, log, out, w)
         else
           let l = the log; d = the (fl_dev l) in
           if fl_newest_slot l = FAULT_LOG_NO_SLOT then (- ENOENT, log, out, w)
           else
             case ee_read api d (slot_offset (fl_newest_slot l)) FAULT_LOG_SLOT_SIZE w of (rc, bytes, w1) \<Rightarrow>
             if rc \<noteq> 0 then (rc, log, out, w1)
             else if \<not> record_valid bytes \<or> load_le32 (drop 4 bytes) \<noteq> fl_sequence l
               then (- EILSEQ, Some (l\<lparr>fl_initialized := False\<rparr>), out, w1)
             else (0, log, Some (load_le32 (drop 8 bytes)), w1)))"

section \<open>Byte codecs\<close>

lemma byte_split:
  assumes "n < 32" obtains q r where "n = 8 * q + r" "q < 4" "r < (8::nat)"
proof
  show "n = 8 * (n div 8) + n mod 8" by simp
  show "n div 8 < 4" using assms by linarith
  show "n mod 8 < 8" by simp
qed

lemma less_4_cases: "(q::nat) < 4 \<Longrightarrow> q = 0 \<or> q = 1 \<or> q = 2 \<or> q = 3"
  by linarith

lemma load_le32_bit:
  "q < 4 \<Longrightarrow> r < 8 \<Longrightarrow> bit (load_le32 p) (8 * q + r) \<longleftrightarrow> bit (p ! q) r"
  using less_4_cases [of q]
  by (auto simp: load_le32_def bit_simps dest: bit_imp_le_length)

lemma length_store_le32 [simp]: "length (store_le32 p off v) = length p"
  by (simp add: store_le32_def upt_rec)

lemma store_le32_nth:
  "off + 4 \<le> length p \<Longrightarrow> store_le32 p off v ! i =
     (if off \<le> i \<and> i < off + 4 then ucast (drop_bit (8 * (i - off)) v) else p ! i)"
  by (auto simp: store_le32_def upt_rec nth_list_update not_less dest!: less_4_cases [of "i - off", OF iffD2 [OF less_diff_conv2]])

lemma load_store_le32:
  assumes "off + 4 \<le> length p" shows "load_le32 (drop off (store_le32 p off v)) = v"
proof (rule bit_eqI)
  fix n assume "possible_bit TYPE(u32) n"
  then have "n < 32" by (simp add: possible_bit_word)
  then obtain q r where n: "n = 8 * q + r" "q < 4" "r < 8" by (rule byte_split)
  with assms show "bit (load_le32 (drop off (store_le32 p off v))) n \<longleftrightarrow> bit v n"
    by (simp add: load_le32_bit store_le32_nth bit_simps)
qed

lemma load_le32_cong: "(\<And>i. i < 4 \<Longrightarrow> p ! i = q ! i) \<Longrightarrow> load_le32 p = load_le32 q"
  by (simp add: load_le32_def)

lemma load_store_le32_other:
  "off + 4 \<le> length p \<Longrightarrow> k + 4 \<le> off \<or> off + 4 \<le> k \<Longrightarrow> k + 4 \<le> length p \<Longrightarrow>
     load_le32 (drop k (store_le32 p off v)) = load_le32 (drop k p)"
  by (rule load_le32_cong) (auto simp: store_le32_nth)

lemma take_store_le32: "off + 4 \<le> length p \<Longrightarrow> k \<le> off \<Longrightarrow> take k (store_le32 p off v) = take k p"
  by (auto simp: list_eq_iff_nth_eq store_le32_nth)

lemma crc32_take: "crc32 (take n p) n = crc32 p n"
  by (simp add: crc32_def)

lemma crc32_cong: "take n p = take n q \<Longrightarrow> crc32 p n = crc32 q n"
  by (simp add: crc32_def)

section \<open>Records in a slot\<close>

lemma length_fl_body [simp]: "length (fl_body s f) = 16"
  by (simp add: fl_body_def magic_def Let_def)

lemma fl_body_fields:
  shows take_fl_body: "take 4 (fl_body s f) = magic"
    and fl_body_seq: "load_le32 (drop 4 (fl_body s f)) = s"
    and fl_body_code: "load_le32 (drop 8 (fl_body s f)) = f"
    and fl_body_crc: "load_le32 (drop 12 (fl_body s f)) = crc32 (fl_body s f) 12"
proof -
  let ?b0 = "magic @ replicate 12 (0 :: u8)"
  have l: "length magic = 4" by (simp add: magic_def)
  have 12: "crc32 (store_le32 p 12 c) 12 = crc32 p 12" if "length p = 16" for p c
    using that by (intro crc32_cong take_store_le32) auto
  show "take 4 (fl_body s f) = magic"
    by (simp add: fl_body_def take_store_le32 l Let_def)
  show "load_le32 (drop 4 (fl_body s f)) = s" "load_le32 (drop 8 (fl_body s f)) = f"
    by (simp_all add: fl_body_def load_store_le32 load_store_le32_other l Let_def)
  show "load_le32 (drop 12 (fl_body s f)) = crc32 (fl_body s f) 12"
    by (simp add: fl_body_def load_store_le32 12 l Let_def)
qed

definition slot_bytes :: "(nat \<Rightarrow> u8) \<Rightarrow> nat \<Rightarrow> u8 list" where
  "slot_bytes c i = mem_range c (32 * i) 32"

definition slot_ok :: "(nat \<Rightarrow> u8) \<Rightarrow> nat \<Rightarrow> bool" where
  "slot_ok c i = record_valid (slot_bytes c i)"

definition slot_seq :: "(nat \<Rightarrow> u8) \<Rightarrow> nat \<Rightarrow> u32" where
  "slot_seq c i = load_le32 (drop 4 (slot_bytes c i))"

definition slot_code :: "(nat \<Rightarrow> u8) \<Rightarrow> nat \<Rightarrow> u32" where
  "slot_code c i = load_le32 (drop 8 (slot_bytes c i))"

lemma slot_ok_parts:
  "slot_ok c i \<longleftrightarrow> mem_range c (32 * i + 24) 8 = committed \<and> mem_range c (32 * i) 4 = magic \<and>
     load_le32 (mem_range c (32 * i + 12) 20) = crc32 (mem_range c (32 * i) 12) 12"
  by (simp add: slot_ok_def slot_bytes_def record_valid_def drop_mem_range take_mem_range
        crc32_take [of 12 "mem_range c (32 * i) 32", symmetric])

lemma slot_body_fields:
  assumes body: "mem_range c (32 * i) 16 = fl_body s f"
  shows "slot_seq c i = s" and "slot_code c i = f"
    and "slot_ok c i \<longleftrightarrow> mem_range c (32 * i + 24) 8 = committed"
proof -
  have nth: "slot_bytes c i ! k = fl_body s f ! k" if "k < 16" for k
    using that body by (simp add: slot_bytes_def mem_range_eq_iff)
  have slot_len: "length (slot_bytes c i) = 32" by (simp add: slot_bytes_def)
  have ld: "load_le32 (drop k (slot_bytes c i)) = load_le32 (drop k (fl_body s f))"
    if "k + 4 \<le> 16" for k
    using that by (intro load_le32_cong) (simp add: nth slot_len)
  have tk: "take k (slot_bytes c i) = take k (fl_body s f)" if "k \<le> 16" for k
    using that by (simp add: list_eq_iff_nth_eq nth slot_len)
  show "slot_seq c i = s" "slot_code c i = f"
    by (simp_all add: slot_seq_def slot_code_def ld fl_body_seq fl_body_code)
  have "crc32 (slot_bytes c i) 12 = crc32 (fl_body s f) 12"
    by (rule crc32_cong) (simp add: tk)
  then show "slot_ok c i \<longleftrightarrow> mem_range c (32 * i + 24) 8 = committed"
    by (simp add: slot_ok_def record_valid_def ld tk take_fl_body fl_body_crc)
       (simp add: slot_bytes_def drop_mem_range take_mem_range)
qed

lemma slot_frame:
  assumes "same_outside a k c c'" and "32 * i + 32 \<le> a \<or> a + k \<le> 32 * i"
  shows "slot_ok c' i = slot_ok c i" "slot_seq c' i = slot_seq c i" "slot_code c' i = slot_code c i"
  using mem_range_outside [OF assms(1), of "32 * i" 32] assms(2)
  by (simp_all add: slot_ok_def slot_seq_def slot_code_def slot_bytes_def)

section \<open>The abstract log: newest slot and sequence number\<close>

text \<open>
  The abstract state of a well-formed ring: no record, or the newest slot with its sequence
  number.  Every other valid slot holds the record that was appended as many steps earlier as its
  distance from the newest slot, backwards around the ring.
\<close>

type_synonym ring_state = "(nat \<times> u32) option"

definition ring_age :: "nat \<Rightarrow> nat \<Rightarrow> nat" where
  "ring_age n i = (n + 8 - i) mod 8"

definition ring :: "(nat \<Rightarrow> u8) \<Rightarrow> ring_state \<Rightarrow> bool" where
  "ring c r =
     (case r of None \<Rightarrow> \<forall>i < 8. \<not> slot_ok c i
      | Some (n, s) \<Rightarrow> n < 8 \<and> slot_ok c n \<and>
          (\<forall>i < 8. slot_ok c i \<longrightarrow> slot_seq c i = s - of_nat (ring_age n i)))"

definition ring_next :: "ring_state \<Rightarrow> nat \<times> u32" where
  "ring_next r = (case r of None \<Rightarrow> (0, 1) | Some (n, s) \<Rightarrow> ((n + 1) mod 8, s + 1))"

definition log_shows :: "fault_log \<Rightarrow> ring_state \<Rightarrow> bool" where
  "log_shows l r \<longleftrightarrow>
     fl_newest_slot l = (case r of None \<Rightarrow> FAULT_LOG_NO_SLOT | Some (n, s) \<Rightarrow> of_nat n) \<and>
     (case r of None \<Rightarrow> fl_sequence l = 0 | Some (n, s) \<Rightarrow> n < 8 \<and> fl_sequence l = s)"

lemma ring_age_less [simp]: "ring_age n i < 8"
  by (simp add: ring_age_def)

lemma ring_age_if:
  "n < 8 \<Longrightarrow> i < 8 \<Longrightarrow> ring_age n i = (if i \<le> n then n - i else n + 8 - i)"
proof (cases "i \<le> n")
  case True
  assume "n < 8" "i < 8"
  with True have "n + 8 - i = (n - i) + 8" "n - i < 8" by auto
  then show ?thesis using True unfolding ring_age_def by (metis mod_add_self2 mod_less)
qed (auto simp: ring_age_def)

lemma succ_mod_8: "(n::nat) < 8 \<Longrightarrow> Suc n mod 8 = (if n = 7 then 0 else Suc n)"
  by auto

lemma ring_age_zero: "n < 8 \<Longrightarrow> i < 8 \<Longrightarrow> ring_age n i = 0 \<longleftrightarrow> i = n"
  by (auto simp: ring_age_if)

lemma ring_age_step:
  "n < 8 \<Longrightarrow> i < 8 \<Longrightarrow> i \<noteq> Suc n mod 8 \<Longrightarrow> ring_age (Suc n mod 8) i = Suc (ring_age n i)"
  by (auto simp: ring_age_if succ_mod_8)

lemma newer_age:
  assumes "d < 8" "e < 8"
  shows "newer (s - of_nat d) (s - of_nat e) \<longleftrightarrow> d < e"
proof -
  have u: "unat (of_nat k :: u32) = k" if "k < 8" for k
    using that by (simp add: unat_u32_of_nat)
  have pos: "newer (s - of_nat d) (s - of_nat e) \<longleftrightarrow> d < e" if "d \<le> e"
  proof -
    have "s - of_nat d - (s - of_nat e) = (of_nat (e - d) :: u32)"
      using that by (simp add: of_nat_diff)
    moreover have "unat (of_nat (e - d) :: u32) = e - d" using assms by (intro u) simp
    ultimately show ?thesis
      using that assms by (auto simp: newer_def Let_def word_less_nat_alt unat_eq_zero [symmetric] simp del: of_nat_diff)
  qed
  have neg: "\<not> newer (s - of_nat d) (s - of_nat e)" if "e < d"
  proof -
    have "s - of_nat d - (s - of_nat e) = (of_nat (4294967296 - (d - e)) :: u32)"
      using that assms by (simp add: of_nat_diff)
    then show ?thesis
      using that assms
      by (simp add: newer_def Let_def word_less_nat_alt unat_of_nat del: of_nat_diff) (intro disjI2, linarith)
  qed
  show ?thesis using pos neg by (cases "d \<le> e") auto
qed

text \<open>Writing the record of \<open>ring_next\<close> into its slot advances the ring; spoiling that slot leaves
  the ring as it was.\<close>

lemma ring_next_slot: "ring c r \<Longrightarrow> fst (ring_next r) < 8"
  by (auto simp: ring_next_def split: option.splits)

lemma ring_advance:
  assumes r: "ring c r" and nx: "ring_next r = (t, s)"
    and fr: "same_outside (32 * t) 32 c c'" and ok: "slot_ok c' t" and sq: "slot_seq c' t = s"
  shows "ring c' (Some (t, s))"
proof -
  have t: "t < 8" using ring_next_slot [OF r] nx by simp
  have keep: "slot_ok c' i = slot_ok c i" "slot_seq c' i = slot_seq c i" if "i \<noteq> t" for i
    using that by (auto intro!: slot_frame [OF fr])
  have "slot_seq c' i = s - of_nat (ring_age t i)" if i: "i < 8" "slot_ok c' i" for i
  proof (cases "i = t")
    case True
    then show ?thesis using sq t by (simp add: ring_age_def)
  next
    case False
    then obtain n s0 where r': "r = Some (n, s0)" "n < 8" "t = Suc n mod 8" "s = s0 + 1"
      using r nx keep i by (auto simp: ring_def ring_next_def split: option.splits)
    with r i keep [OF False] have "slot_seq c' i = s0 - of_nat (ring_age n i)"
      by (auto simp: ring_def)
    with r' i False show ?thesis by (simp add: ring_age_step)
  qed
  then show ?thesis using t ok by (simp add: ring_def)
qed

lemma ring_spoil:
  assumes r: "ring c r" and t: "t = fst (ring_next r)" and fr: "same_outside (32 * t) 32 c c'"
    and bad: "slot_ok c' t \<Longrightarrow> slot_ok c t \<and> slot_seq c' t = slot_seq c t"
  shows "ring c' r"
proof -
  have keep: "slot_ok c' i = slot_ok c i" "slot_seq c' i = slot_seq c i" if "i \<noteq> t" for i
    using that by (auto intro!: slot_frame [OF fr])
  have ok: "slot_ok c' i \<Longrightarrow> slot_ok c i \<and> slot_seq c' i = slot_seq c i" for i
    using keep [of i] bad by (cases "i = t") auto
  show ?thesis
  proof (cases r)
    case None
    then show ?thesis using r ok by (auto simp: ring_def)
  next
    case (Some p)
    then obtain n s where r': "r = Some (n, s)" "n < 8" by (cases p) (use r in \<open>auto simp: ring_def\<close>)
    then have "n \<noteq> t" unfolding t by (auto simp: ring_next_def succ_mod_8 split: if_splits)
    then show ?thesis using r ok r' keep [of n] by (auto simp: ring_def)
  qed
qed

section \<open>The driver contract\<close>

text \<open>
  What the logger relies on of the EEPROM driver, over the log's 256 bytes.  A read that reports
  success returns the stored bytes.  A write, whatever it reports, leaves every byte outside its
  range alone and every byte inside it at its old or its new value: this covers completed writes,
  failing ones, silently dropped ones and a supply that fails in the middle of a page.
  A power cut inside a driver call is a call that reports an error: the code touches the device no
  more after the first error.
\<close>

definition old_or_new :: "nat \<Rightarrow> u8 list \<Rightarrow> (nat \<Rightarrow> u8) \<Rightarrow> (nat \<Rightarrow> u8) \<Rightarrow> bool" where
  "old_or_new off bs m m' \<longleftrightarrow> same_outside off (length bs) m m' \<and>
     (\<forall>i < length bs. m' (off + i) = m (off + i) \<or> m' (off + i) = bs ! i)"

locale eeprom_driver =
  fixes api :: "'w eeprom_api"
    and contents :: "'w \<Rightarrow> nat \<Rightarrow> u8"
    and inv :: "'w \<Rightarrow> bool"
  assumes read_law: "inv w \<Longrightarrow> off + n \<le> 256 \<Longrightarrow> ee_read api d (int off) n w = (rc, bs, w') \<Longrightarrow>
      inv w' \<and> contents w' = contents w \<and> (rc = 0 \<longrightarrow> bs = mem_range (contents w) off n)"
    and write_law: "inv w \<Longrightarrow> off + length bs \<le> 256 \<Longrightarrow> ee_write api d (int off) bs w = (rc, w') \<Longrightarrow>
      inv w' \<and> old_or_new off bs (contents w) (contents w')"
begin

lemma slot_offset_of_nat: "i < 8 \<Longrightarrow> slot_offset (of_nat i) = int (32 * i)"
  by (simp add: slot_offset_def unat_u8_of_nat)

lemma read_slot:
  assumes "inv w" "i < 8" "ee_read api d (slot_offset (of_nat i)) 32 w = (rc, bs, w')"
  shows "inv w'" "contents w' = contents w" "rc = 0 \<Longrightarrow> bs = slot_bytes (contents w) i"
  using read_law [of w "32 * i" 32 d rc bs w'] assms
  by (simp_all add: slot_offset_of_nat slot_bytes_def)

end

text \<open>The scan finds the newest slot of a ring, and the mask and sequences of the valid ones.\<close>

definition scanned :: "(nat \<Rightarrow> u8) \<Rightarrow> nat set \<Rightarrow> u32 list \<Rightarrow> u8 \<Rightarrow> bool" where
  "scanned c seen sequences m \<longleftrightarrow> length sequences = 8 \<and>
     (\<forall>i < 8. (bit m i \<longleftrightarrow> i \<in> seen \<and> slot_ok c i) \<and>
        (i \<in> seen \<and> slot_ok c i \<longrightarrow> sequences ! i = slot_seq c i))"

definition scan_newest :: "ring_state \<Rightarrow> nat set \<Rightarrow> fault_log \<Rightarrow> bool" where
  "scan_newest r seen l \<longleftrightarrow>
     (case r of None \<Rightarrow> fl_newest_slot l = FAULT_LOG_NO_SLOT \<and> fl_sequence l = 0
      | Some (n, s) \<Rightarrow>
          if n \<in> seen then fl_newest_slot l = of_nat n \<and> fl_sequence l = s
          else fl_newest_slot l = FAULT_LOG_NO_SLOT \<or>
            (\<exists>k. 0 < k \<and> k < 8 \<and> fl_sequence l = s - of_nat k))"

definition scan_take :: "(nat \<Rightarrow> u8) \<Rightarrow> nat \<Rightarrow> fault_log \<Rightarrow> fault_log" where
  "scan_take c i l =
     (if fl_newest_slot l = FAULT_LOG_NO_SLOT \<or> newer (slot_seq c i) (fl_sequence l)
      then l\<lparr>fl_sequence := slot_seq c i, fl_newest_slot := of_nat i\<rparr> else l)"

lemma slot_not_none: "i < 8 \<Longrightarrow> (of_nat i :: u8) \<noteq> 255"
  using u8_of_nat_inj [of i 255] by simp

lemma scanned_skip: "scanned c seen sequences m \<Longrightarrow> \<not> slot_ok c i \<Longrightarrow> scanned c (insert i seen) sequences m"
  by (auto simp: scanned_def)

lemma scanned_take:
  "scanned c seen sequences m \<Longrightarrow> slot_ok c i \<Longrightarrow> i < 8 \<Longrightarrow>
     scanned c (insert i seen) (sequences[i := slot_seq c i]) (m OR 2 ^ i)"
  by (auto simp: scanned_def bit_simps nth_list_update)

lemma scan_newest_skip:
  "scan_newest r seen l \<Longrightarrow> ring c r \<Longrightarrow> \<not> slot_ok c i \<Longrightarrow> scan_newest r (insert i seen) l"
  by (auto simp: scan_newest_def ring_def split: option.splits)

lemma scan_newest_take:
  assumes l: "scan_newest r seen l" and r: "ring c r" and i: "slot_ok c i" "i < 8"
  shows "scan_newest r (insert i seen) (scan_take c i l)"
proof -
  obtain n s where r': "r = Some (n, s)" "n < 8"
    using r i by (auto simp: ring_def split: option.splits)
  have sq: "slot_seq c i = s - of_nat (ring_age n i)" using r i r' by (simp add: ring_def)
  note age = ring_age_zero [OF r'(2) i(2)]
  show ?thesis
  proof (cases "n \<in> seen")
    case True
    then have "fl_newest_slot l = of_nat n" "fl_sequence l = s" using l r' by (auto simp: scan_newest_def)
    moreover have "\<not> newer (slot_seq c i) s" using newer_age [of "ring_age n i" 0 s] sq by simp
    ultimately show ?thesis using True r' by (simp add: scan_newest_def scan_take_def slot_not_none)
  next
    case False
    then consider "fl_newest_slot l = FAULT_LOG_NO_SLOT"
      | k where "0 < k" "k < 8" "fl_sequence l = s - of_nat k"
      using l r' by (auto simp: scan_newest_def)
    then show ?thesis
    proof cases
      case 1
      then show ?thesis using False r' sq age
        by (cases "i = n") (auto simp: scan_newest_def scan_take_def intro!: exI [of _ "ring_age n i"])
    next
      case 2
      then have "newer (slot_seq c i) (fl_sequence l) \<longleftrightarrow> ring_age n i < k"
        using sq newer_age [of "ring_age n i" k s] by simp
      then show ?thesis using False r' sq age 2
        by (cases "i = n") (auto simp: scan_newest_def scan_take_def intro: exI [of _ "ring_age n i"] exI [of _ k])
    qed
  qed
qed

context eeprom_driver begin

lemma fl_scan_ring:
  assumes "inv w" "ring (contents w) r" "set slots \<subseteq> {..<8}"
    and "scan_newest r seen l" "scanned (contents w) seen sequences m"
    and "fl_scan api d slots l sequences m w = (rc, l', sequences', m', w')"
  shows "inv w' \<and> contents w' = contents w \<and> (rc = 0 \<longrightarrow>
    scan_newest r (set slots \<union> seen) l' \<and> scanned (contents w) (set slots \<union> seen) sequences' m' \<and>
    fl_dev l' = fl_dev l)"
  using assms
proof (induction slots arbitrary: l sequences m w seen)
  case Nil
  then show ?case by simp
next
  case (Cons i slots)
  obtain rc1 bs w1 where rd: "ee_read api d (slot_offset (of_nat i)) 32 w = (rc1, bs, w1)"
    by (metis prod_cases3)
  have i: "i < 8" using Cons.prems by simp
  note w1 = read_slot [OF Cons.prems(1) i rd]
  show ?case
  proof (cases "rc1 = 0")
    case False
    then show ?thesis using Cons.prems rd w1 by simp
  next
    case True
    then have bs: "bs = slot_bytes (contents w) i" using w1 by simp
    show ?thesis
    proof (cases "slot_ok (contents w) i")
      case False
      have "fl_scan api d slots l sequences m w1 = (rc, l', sequences', m', w')"
        using Cons.prems(6) rd True False bs by (simp add: slot_ok_def)
      with Cons.prems False w1 show ?thesis
        using Cons.IH [of w1 "insert i seen" l sequences m]
        by (auto simp: scanned_skip scan_newest_skip)
    next
      case ok: True
      let ?l = "scan_take (contents w) i l"
      have "fl_scan api d slots ?l (sequences[i := slot_seq (contents w) i]) (m OR 2 ^ i) w1
          = (rc, l', sequences', m', w')"
        using Cons.prems(6) rd True ok bs
        by (simp add: slot_ok_def slot_seq_def scan_take_def Let_def split del: if_split cong: if_cong)
      moreover have "fl_dev ?l = fl_dev l" by (simp add: scan_take_def)
      ultimately show ?thesis
        using Cons.prems ok w1 i
          Cons.IH [of w1 "insert i seen" ?l "sequences[i := slot_seq (contents w) i]" "m OR 2 ^ i"]
        by (auto simp: scanned_take scan_newest_take)
    qed
  qed
qed

end

lemma fl_check_ages_ring:
  assumes "ring c r" "log_shows l r" "scanned c {..<8} sequences m" "set slots \<subseteq> {..<8}"
  shows "fl_check_ages slots l sequences m = 0"
  using assms(4)
proof (induction slots)
  case Nil
  then show ?case by simp
next
  case (Cons i slots)
  then have i: "i < 8" by simp
  have bit: "bit m i \<longleftrightarrow> slot_ok c i" and sq: "slot_ok c i \<Longrightarrow> sequences ! i = slot_seq c i"
    using assms(3) i by (auto simp: scanned_def)
  show ?case
  proof (cases "slot_ok c i \<and> of_nat i \<noteq> fl_newest_slot l")
    case True
    then obtain n s where r: "r = Some (n, s)" "n < 8" "n \<noteq> i"
      using assms(1,2) i by (auto simp: ring_def log_shows_def split: option.splits)
    then have "fl_sequence l - sequences ! i = of_nat (ring_age n i)"
      using assms(1,2) True sq i by (simp add: ring_def log_shows_def)
    moreover have u: "unat (of_nat (ring_age n i) :: u32) = ring_age n i"
      by (rule unat_u32_of_nat) (rule less_trans [OF ring_age_less], simp)
    moreover have "(of_nat (ring_age n i) :: u32) \<noteq> 0"
      using u ring_age_zero [of n i] r i by (metis unat_0)
    moreover have "\<not> 8 \<le> (of_nat (ring_age n i) :: u32)"
      using u ring_age_less [of n i] by (simp add: word_le_nat_alt not_le)
    ultimately show ?thesis using Cons by simp
  qed (use Cons bit in auto)
qed

lemma scan_newest_shows: "ring c r \<Longrightarrow> scan_newest r {..<8} l \<Longrightarrow> log_shows l r"
  by (auto simp: scan_newest_def ring_def log_shows_def split: option.splits)

lemma scan_start:
  "scan_newest r {} (fl_blank\<lparr>fl_dev := Some d\<rparr>)" "scanned c {} (replicate 8 0) 0"
  by (auto simp: scan_newest_def scanned_def fl_blank_def split: option.splits)

context eeprom_driver begin

lemma fault_log_init_ring:
  assumes "inv w" "ring (contents w) r"
    and "fault_log_init api (Some l0) (Some d) w = (rc, log', w')"
  shows "inv w'" "contents w' = contents w"
    and "rc = 0 \<Longrightarrow> \<exists>l'. log' = Some l' \<and> log_shows l' r \<and> fl_dev l' = Some d \<and> fl_initialized l'"
    and "rc \<noteq> 0 \<Longrightarrow> log' = Some fl_blank"
proof -
  obtain rc1 l1 sq m w1 where scan:
    "fl_scan api d [0..<8] (fl_blank\<lparr>fl_dev := Some d\<rparr>) (replicate 8 0) 0 w = (rc1, l1, sq, m, w1)"
    by (metis prod_cases5)
  have *: "inv w1 \<and> contents w1 = contents w \<and> (rc1 = 0 \<longrightarrow>
      scan_newest r {..<8} l1 \<and> scanned (contents w) {..<8} sq m \<and> fl_dev l1 = Some d)"
    using fl_scan_ring [OF assms(1,2) _ scan_start scan] by (simp add: lessThan_atLeast0)
  have ages: "rc1 = 0 \<Longrightarrow> fl_check_ages [0..<8] l1 sq m = 0 \<and> log_shows l1 r"
    using * assms(2) by (auto intro!: fl_check_ages_ring intro: scan_newest_shows)
  have eq: "fault_log_init api (Some l0) (Some d) w =
      (if \<not> ee_ready api d w then (- ENODEV, Some fl_blank, w)
       else if ee_size api d w < 256 then (- ENOSPC, Some fl_blank, w)
       else if rc1 \<noteq> 0 then (rc1, Some fl_blank, w1)
       else (0, Some (l1\<lparr>fl_initialized := True\<rparr>), w1))"
    using ages by (simp add: fault_log_init_def scan)
  have shows_init: "log_shows (l1\<lparr>fl_initialized := b\<rparr>) r \<longleftrightarrow> log_shows l1 r" for b
    by (auto simp: log_shows_def split: option.splits)
  show "inv w'" "contents w' = contents w"
    using assms(1,3) * unfolding eq by (auto split: if_splits)
  show "\<exists>l'. log' = Some l' \<and> log_shows l' r \<and> fl_dev l' = Some d \<and> fl_initialized l'" if "rc = 0"
    using assms(3) * ages that shows_init unfolding eq by (auto split: if_splits)
  show "log' = Some fl_blank" if "rc \<noteq> 0"
    using assms(3) that unfolding eq by (auto split: if_splits)
qed

end

section \<open>What an append leaves in its slot\<close>

lemma old_or_new_outside: "old_or_new off bs m m' \<Longrightarrow> same_outside off (length bs) m m'"
  by (simp add: old_or_new_def)

lemma length_invalid [simp]: "length invalid = 8" and length_committed [simp]: "length committed = 8"
  by (simp_all add: invalid_def committed_def)

lemma committed_nonzero: "i < 8 \<Longrightarrow> committed ! i \<noteq> 0"
proof -
  assume "i < 8"
  then have "i \<in> {0..<8}" by simp
  also have "{0..<8} = {0, 1, 2, 3, 4, 5, 6, 7 :: nat}" by auto
  finally show ?thesis by (auto simp: committed_def)
qed

lemma invalid_not_committed: "invalid \<noteq> committed"
proof
  assume "invalid = committed"
  then have "committed ! 0 = invalid ! 0" by simp
  then show False using committed_nonzero [of 0] by (simp add: invalid_def)
qed

lemma torn_invalidate:
  assumes w: "old_or_new (32 * t + 24) invalid c c'" and ok: "slot_ok c' t"
  shows "slot_bytes c' t = slot_bytes c t"
proof -
  have keep1: "c' (32 * t + 24 + k) = c (32 * t + 24 + k)" if "k < 8" for k
  proof -
    have "mem_range c' (32 * t + 24) 8 ! k = committed ! k" using ok by (simp add: slot_ok_parts)
    then have "c' (32 * t + 24 + k) \<noteq> 0" using that committed_nonzero [of k] by simp
    then show ?thesis using w that by (auto simp: old_or_new_def invalid_def)
  qed
  have keep2: "c' i = c i" if "i < 32 * t + 24" for i
    using w that by (simp add: old_or_new_def same_outside_def)
  show ?thesis
    unfolding slot_bytes_def
  proof (intro mem_range_cong)
    fix i assume "32 * t \<le> i" "i < 32 * t + 32"
    show "c' i = c i"
    proof (cases "i < 32 * t + 24")
      case False
      then obtain k where "i = 32 * t + 24 + k" by (metis le_Suc_ex not_less)
      then show ?thesis using \<open>i < 32 * t + 32\<close> keep1 [of k] by simp
    qed (rule keep2)
  qed
qed

lemma invalid_slot: "mem_range c (32 * t + 24) 8 = invalid \<Longrightarrow> \<not> slot_ok c t"
  using invalid_not_committed by (simp add: slot_ok_parts)

lemma append_target:
  assumes "ring c r" "log_shows l r" "ring_next r = (t, s)"
  shows "(if fl_newest_slot l = FAULT_LOG_NO_SLOT then 0
          else ucast ((ucast (fl_newest_slot l) + 1 :: u32) mod 8) :: u8) = of_nat t"
    and "(if fl_newest_slot l = FAULT_LOG_NO_SLOT then 1 else fl_sequence l + 1) = s"
proof -
  have small: "ucast ((ucast (of_nat n :: u8) + 1 :: u32) mod 8) = (of_nat (Suc n mod 8) :: u8)" if "n < 8" for n
  proof -
    from that have "n \<in> {0..<8}" by simp
    also have "{0..<8} = {0, 1, 2, 3, 4, 5, 6, 7 :: nat}" by auto
    finally show ?thesis by auto
  qed
  show "(if fl_newest_slot l = FAULT_LOG_NO_SLOT then 0
          else ucast ((ucast (fl_newest_slot l) + 1 :: u32) mod 8) :: u8) = of_nat t"
    and "(if fl_newest_slot l = FAULT_LOG_NO_SLOT then 1 else fl_sequence l + 1) = s"
    using assms small slot_not_none
    by (auto simp: ring_def log_shows_def ring_next_def split: option.splits)
qed

text \<open>The fate of the target slot: untouched, not valid, or the new record.\<close>

definition slot_fate :: "nat \<Rightarrow> u32 \<Rightarrow> u32 \<Rightarrow> (nat \<Rightarrow> u8) \<Rightarrow> (nat \<Rightarrow> u8) \<Rightarrow> bool" where
  "slot_fate t s code c c' \<longleftrightarrow> same_outside (32 * t) 32 c c' \<and>
     (slot_ok c' t \<longrightarrow> slot_bytes c' t = slot_bytes c t \<or> (slot_seq c' t = s \<and> slot_code c' t = code))"

lemma fate_invalidating:
  "old_or_new (32 * t + 24) invalid c c' \<Longrightarrow> slot_fate t s code c c'"
  using torn_invalidate [of t c c'] old_or_new_outside [of "32 * t + 24" invalid c c']
  by (auto simp: slot_fate_def intro: same_outside_mono)

lemma fate_body:
  assumes "same_outside (32 * t) 32 c c1" "mem_range c1 (32 * t + 24) 8 = invalid"
    and "old_or_new (32 * t) (fl_body s code) c1 c'"
  shows "slot_fate t s code c c'"
proof -
  have so: "same_outside (32 * t) 16 c1 c'" using old_or_new_outside [OF assms(3)] by simp
  then have "mem_range c' (32 * t + 24) 8 = invalid"
    using mem_range_outside [of "32 * t" 16 c1 c' "32 * t + 24" 8] assms(2) by simp
  then show ?thesis
    using invalid_slot so assms(1)
    by (auto simp: slot_fate_def intro: same_outside_trans [OF assms(1) same_outside_mono])
qed

lemma fate_publish:
  assumes "same_outside (32 * t) 32 c c1" "mem_range c1 (32 * t) 16 = fl_body s code"
    and "old_or_new (32 * t + 24) committed c1 c'"
  shows "slot_fate t s code c c'" "slot_seq c' t = s" "slot_code c' t = code"
proof -
  have so: "same_outside (32 * t + 24) 8 c1 c'" using old_or_new_outside [OF assms(3)] by simp
  then have "mem_range c' (32 * t) 16 = fl_body s code"
    using mem_range_outside [of "32 * t + 24" 8 c1 c' "32 * t" 16] assms(2) by simp
  then show "slot_seq c' t = s" "slot_code c' t = code" by (rule slot_body_fields)+
  then show "slot_fate t s code c c'"
    using so assms(1) by (auto simp: slot_fate_def intro: same_outside_trans [OF assms(1) same_outside_mono])
qed

lemma usable_ok:
  assumes "usable api (Some l) w = 0"
  obtains d where "fl_dev l = Some d" "ee_ready api d w" "fl_initialized l"
  using assms by (auto simp: usable_def split: option.splits if_splits)

definition append_post :: "fault_log \<Rightarrow> ring_state \<Rightarrow> nat \<Rightarrow> u32 \<Rightarrow> u32 \<Rightarrow> (nat \<Rightarrow> u8) \<Rightarrow>
    int \<Rightarrow> fault_log option \<Rightarrow> (nat \<Rightarrow> u8) \<Rightarrow> bool" where
  "append_post l r t s code c rc log' c' \<longleftrightarrow> slot_fate t s code c c' \<and>
     (rc = 0 \<longrightarrow> slot_ok c' t \<and> slot_seq c' t = s \<and> slot_code c' t = code \<and>
        log' = Some (l\<lparr>fl_sequence := s, fl_newest_slot := of_nat t, fl_initialized := True\<rparr>)) \<and>
     (rc \<noteq> 0 \<longrightarrow> log' = Some (l\<lparr>fl_initialized := False\<rparr>))"

context eeprom_driver begin

lemma fault_log_append_post:
  assumes w: "inv w" and r: "ring (contents w) r" and l: "log_shows l r"
    and nx: "ring_next r = (t, s)" and u: "usable api (Some l) w = 0"
    and app: "fault_log_append api (Some l) code w = (rc, log', w')"
  shows "inv w'" "append_post l r t s code (contents w) rc log' (contents w')"
proof -
  obtain d where d: "fl_dev l = Some d" "fl_initialized l" using u by (rule usable_ok)
  have t: "t < 8" using ring_next_slot [OF r] nx by simp
  note tgt = append_target [OF r l nx]
  let ?B = "32 * t" and ?body = "fl_body s code"
  let ?l = "l\<lparr>fl_initialized := False\<rparr>"
  obtain rc1 w1 where W1: "ee_write api d (int (?B + 24)) invalid w = (rc1, w1)" by fastforce
  obtain rc2 b2 w2 where R2: "ee_read api d (int (?B + 24)) 8 w1 = (rc2, b2, w2)" by (metis prod_cases3)
  obtain rc3 w3 where W3: "ee_write api d (int ?B) ?body w2 = (rc3, w3)" by fastforce
  obtain rc4 b4 w4 where R4: "ee_read api d (int ?B) 16 w3 = (rc4, b4, w4)" by (metis prod_cases3)
  obtain rc5 w5 where W5: "ee_write api d (int (?B + 24)) committed w4 = (rc5, w5)" by fastforce
  obtain rc6 b6 w6 where R6: "ee_read api d (int ?B) 32 w5 = (rc6, b6, w6)" by (metis prod_cases3)
  have off: "slot_offset (of_nat t) = int ?B" using t by (rule slot_offset_of_nat)
  have run: "(rc, log', w') =
      (if rc1 \<noteq> 0 then (rc1, Some ?l, w1) else if rc2 \<noteq> 0 then (rc2, Some ?l, w2)
       else if b2 \<noteq> invalid then (- EIO, Some ?l, w2) else if rc3 \<noteq> 0 then (rc3, Some ?l, w3)
       else if rc4 \<noteq> 0 then (rc4, Some ?l, w4) else if b4 \<noteq> ?body then (- EIO, Some ?l, w4)
       else if rc5 \<noteq> 0 then (rc5, Some ?l, w5) else if rc6 \<noteq> 0 then (rc6, Some ?l, w6)
       else if \<not> record_valid b6 \<or> take 16 b6 \<noteq> ?body then (- EIO, Some ?l, w6)
       else (0, Some (l\<lparr>fl_sequence := s, fl_newest_slot := of_nat t, fl_initialized := True\<rparr>), w6))"
    using app [symmetric] u d W1 R2 W3 R4 W5 R6
    by (simp add: fault_log_append_def Let_def tgt off int_ops split del: if_split cong: if_cong)
  note L1 = write_law [OF w _ W1]
  have c1: "inv w1" "old_or_new (?B + 24) invalid (contents w) (contents w1)" using L1 t by auto
  have c2: "inv w2" "contents w2 = contents w1" "rc2 = 0 \<Longrightarrow> b2 = mem_range (contents w1) (?B + 24) 8"
    using read_law [OF c1(1) _ R2] t by auto
  have c3: "inv w3" "old_or_new ?B ?body (contents w1) (contents w3)"
    using write_law [OF c2(1) _ W3] t c2 by auto
  have c4: "inv w4" "contents w4 = contents w3" "rc4 = 0 \<Longrightarrow> b4 = mem_range (contents w3) ?B 16"
    using read_law [OF c3(1) _ R4] t by auto
  have c5: "inv w5" "old_or_new (?B + 24) committed (contents w3) (contents w5)"
    using write_law [OF c4(1) _ W5] t c4 by auto
  have c6: "inv w6" "contents w6 = contents w5" "rc6 = 0 \<Longrightarrow> b6 = slot_bytes (contents w5) t"
    using read_law [OF c5(1) _ R6] t by (auto simp: slot_bytes_def)
  show "inv w'" using run c1 c2 c3 c4 c5 c6 by (auto split: if_splits)
  note f1 = fate_invalidating [OF c1(2), of s code]
  then have so1: "same_outside ?B 32 (contents w) (contents w1)" by (simp add: slot_fate_def)
  have f3: "slot_fate t s code (contents w) (contents w3)" if "rc2 = 0" "b2 = invalid"
    using fate_body [OF so1 _ c3(2)] c2(3) that by simp
  then have so3: "same_outside ?B 32 (contents w) (contents w3)" if "rc2 = 0" "b2 = invalid"
    using that by (simp add: slot_fate_def)
  have body: "mem_range (contents w3) ?B 16 = ?body" if "rc4 = 0" "b4 = ?body"
    using c4(3) that by simp
  have f5: "slot_fate t s code (contents w) (contents w5)" "slot_seq (contents w5) t = s"
    "slot_code (contents w5) t = code" if "rc2 = 0" "b2 = invalid" "rc4 = 0" "b4 = ?body"
    by (rule fate_publish [OF so3 [OF that(1,2)] body [OF that(3,4)] c5(2)])+
  show "append_post l r t s code (contents w) rc log' (contents w')"
    using run f1 f3 f5 c2 c4 c6 d unfolding append_post_def
    by (auto simp: slot_ok_def split: if_splits)
qed

end

section \<open>A device that works\<close>

text \<open>
  \<open>ok d w\<close>: the device is ready, large enough, and serves every access within the log's bytes
  until a fault is injected; its writes take effect.
\<close>

locale eeprom_working = eeprom_driver +
  fixes ok :: "dev \<Rightarrow> 'a \<Rightarrow> bool"
  assumes ok_inv: "ok d w \<Longrightarrow> inv w"
    and ok_ready: "ok d w \<Longrightarrow> ee_ready api d w"
    and ok_size: "ok d w \<Longrightarrow> 256 \<le> ee_size api d w"
    and ok_read: "ok d w \<Longrightarrow> off + n \<le> 256 \<Longrightarrow> ee_read api d (int off) n w = (rc, bs, w') \<Longrightarrow>
      rc = 0 \<and> ok d w'"
    and ok_write: "ok d w \<Longrightarrow> off + length bs \<le> 256 \<Longrightarrow> ee_write api d (int off) bs w = (rc, w') \<Longrightarrow>
      rc = 0 \<and> ok d w' \<and> mem_range (contents w') off (length bs) = bs"
begin

lemma fl_scan_ok:
  assumes "ok d w" "set slots \<subseteq> {..<8}"
  shows "\<exists>l' sq' m' w'. fl_scan api d slots l sq m w = (0, l', sq', m', w') \<and> ok d w'"
  using assms
proof (induction slots arbitrary: l sq m w)
  case Nil
  then show ?case by simp
next
  case (Cons i slots)
  obtain rc bs w1 where rd: "ee_read api d (slot_offset (of_nat i)) 32 w = (rc, bs, w1)"
    by (metis prod_cases3)
  then have "rc = 0 \<and> ok d w1"
    using ok_read [of d w "32 * i" 32 rc bs w1] Cons.prems by (auto simp: slot_offset_of_nat)
  then show ?case using Cons rd by (auto simp: Let_def)
qed

lemma fault_log_init_ok:
  assumes w: "ok d w" and r: "ring (contents w) r"
  shows "\<exists>l' w'. fault_log_init api (Some l0) (Some d) w = (0, Some l', w') \<and> ok d w' \<and>
    contents w' = contents w \<and> log_shows l' r \<and> fl_dev l' = Some d \<and> fl_initialized l'"
proof -
  obtain rc log' w' where run: "fault_log_init api (Some l0) (Some d) w = (rc, log', w')"
    by (metis prod_cases3)
  obtain l1 sq m w1 where scan: "fl_scan api d [0..<8] (fl_blank\<lparr>fl_dev := Some d\<rparr>)
      (replicate 8 0) 0 w = (0, l1, sq, m, w1)" "ok d w1"
    using fl_scan_ok [OF w, of "[0..<8]"] by (fastforce simp: lessThan_atLeast0)
  have s: "scan_newest r {..<8} l1" "scanned (contents w) {..<8} sq m"
    using fl_scan_ring [OF ok_inv [OF w] r _ scan_start scan(1)] by (simp_all add: lessThan_atLeast0)
  then have "fl_check_ages [0..<8] l1 sq m = 0"
    using r by (auto intro!: fl_check_ages_ring intro: scan_newest_shows)
  then have "rc = 0" "ok d w'"
    using run scan ok_ready [OF w] ok_size [OF w] by (auto simp: fault_log_init_def Let_def not_le)
  then show ?thesis using run fault_log_init_ring [OF ok_inv [OF w] r run] by auto
qed

lemma usable_working:
  "ok d w \<Longrightarrow> ring (contents w) r \<Longrightarrow> log_shows l r \<Longrightarrow> fl_dev l = Some d \<Longrightarrow> fl_initialized l \<Longrightarrow>
     usable api (Some l) w = 0"
  using ok_ready [of d w] unat_u8_of_nat
  by (auto simp: usable_def log_shows_def word_le_nat_alt split: option.splits)

lemma fault_log_latest_ok:
  assumes w: "ok d w" and r: "ring (contents w) r"
    and l: "log_shows l r" "fl_dev l = Some d" "fl_initialized l"
  shows "\<exists>w'. ok d w' \<and> contents w' = contents w \<and> fault_log_latest api (Some l) (Some old) w =
    (case r of None \<Rightarrow> (- ENOENT, Some l, Some old, w')
     | Some (n, s) \<Rightarrow> (0, Some l, Some (slot_code (contents w) n), w'))"
proof -
  note u = usable_working [OF w r l]
  show ?thesis
  proof (cases r)
    case None
    then show ?thesis using u l w by (auto simp: fault_log_latest_def log_shows_def)
  next
    case (Some p)
    then obtain n s where r': "r = Some (n, s)" "n < 8" "fl_newest_slot l = of_nat n" "fl_sequence l = s"
      using l(1) by (cases p) (auto simp: log_shows_def)
    obtain rc bs w1 where rd: "ee_read api d (slot_offset (of_nat n)) 32 w = (rc, bs, w1)"
      by (metis prod_cases3)
    have "rc = 0 \<and> ok d w1"
      using ok_read [of d w "32 * n" 32 rc bs w1] w rd r' by (auto simp: slot_offset_of_nat)
    moreover have "rc = 0 \<Longrightarrow> bs = slot_bytes (contents w) n" "contents w1 = contents w"
      using read_slot [OF ok_inv [OF w] r'(2) rd] by auto
    moreover have "slot_ok (contents w) n" "slot_seq (contents w) n = s"
      using r r' by (auto simp: ring_def ring_age_def)
    ultimately show ?thesis using u l rd r' slot_not_none [OF r'(2)]
      by (auto simp: fault_log_latest_def Let_def slot_ok_def slot_seq_def slot_code_def)
  qed
qed

lemma fault_log_append_ok:
  assumes w: "ok d w" and r: "ring (contents w) r" and nx: "ring_next r = (t, s)"
    and l: "log_shows l r" "fl_dev l = Some d" "fl_initialized l"
  shows "\<exists>w'. ok d w' \<and> fault_log_append api (Some l) code w =
    (0, Some (l\<lparr>fl_sequence := s, fl_newest_slot := of_nat t, fl_initialized := True\<rparr>), w')"
proof -
  have t: "t < 8" using ring_next_slot [OF r] nx by simp
  note u = usable_working [OF w r l]
  note tgt = append_target [OF r l(1) nx]
  let ?B = "32 * t" and ?body = "fl_body s code"
  obtain rc1 w1 where W1: "ee_write api d (int (?B + 24)) invalid w = (rc1, w1)" by fastforce
  have k1: "rc1 = 0" "ok d w1" "mem_range (contents w1) (?B + 24) 8 = invalid"
    using ok_write [OF w _ W1] t by auto
  obtain rc2 b2 w2 where R2: "ee_read api d (int (?B + 24)) 8 w1 = (rc2, b2, w2)" by (metis prod_cases3)
  have k2: "rc2 = 0" "ok d w2" "b2 = invalid"
    using ok_read [OF k1(2) _ R2] read_law [OF ok_inv [OF k1(2)] _ R2] k1 t by auto
  obtain rc3 w3 where W3: "ee_write api d (int ?B) ?body w2 = (rc3, w3)" by fastforce
  have k3: "rc3 = 0" "ok d w3" "mem_range (contents w3) ?B 16 = ?body"
    using ok_write [OF k2(2) _ W3] t by auto
  obtain rc4 b4 w4 where R4: "ee_read api d (int ?B) 16 w3 = (rc4, b4, w4)" by (metis prod_cases3)
  have k4: "rc4 = 0" "ok d w4" "b4 = ?body" "contents w4 = contents w3"
    using ok_read [OF k3(2) _ R4] read_law [OF ok_inv [OF k3(2)] _ R4] k3 t by auto
  obtain rc5 w5 where W5: "ee_write api d (int (?B + 24)) committed w4 = (rc5, w5)" by fastforce
  have k5: "rc5 = 0" "ok d w5" "mem_range (contents w5) (?B + 24) 8 = committed"
    using ok_write [OF k4(2) _ W5] t by auto
  have body5: "mem_range (contents w5) ?B 16 = ?body"
    using write_law [OF ok_inv [OF k4(2)] _ W5] t k3 k4
      mem_range_outside [of "?B + 24" 8 "contents w4" "contents w5" ?B 16]
    by (auto simp: old_or_new_def)
  obtain rc6 b6 w6 where R6: "ee_read api d (int ?B) 32 w5 = (rc6, b6, w6)" by (metis prod_cases3)
  have k6: "rc6 = 0" "ok d w6" "b6 = slot_bytes (contents w5) t"
    using ok_read [OF k5(2) _ R6] read_law [OF ok_inv [OF k5(2)] _ R6] t by (auto simp: slot_bytes_def)
  have "record_valid b6" using slot_body_fields(3) [OF body5] k5 k6 by (simp add: slot_ok_def)
  moreover have "take 16 b6 = ?body" using body5 k6 by (simp add: slot_bytes_def take_mem_range)
  moreover have "slot_offset (of_nat t) = int ?B" using t by (rule slot_offset_of_nat)
  ultimately show ?thesis
    using u l W1 R2 W3 R4 W5 R6 k1 k2 k3 k4 k5 k6
    by (simp add: fault_log_append_def Let_def tgt int_ops split del: if_split cong: if_cong)
qed

end

end
