(* ===== verification/Eeprom_Double.thy ===== *)
theory Eeprom_Double
  imports Fault_Log
begin

text \<open>
  The EEPROM double of labs/lab24_eeprom_fault_logger_zephyr/tests/host_contract.c, the driver the
  repository runs the fault logger against: 512 bytes with controls that fail, drop, truncate or
  corrupt an access or cut the supply after a byte, inside a page or after a read.  It is the
  provider of the contracts \<open>eeprom_driver\<close> and \<open>eeprom_working\<close>.

  The CHECK macros stop the test and have no counterpart; longjmp, which abandons the logger, is an
  error result.  The counters are natural numbers; the random page contents are not modelled.
\<close>

record eeprom_double =
  ed_memory :: "u8 list"
  ed_ready :: bool
  ed_size :: nat
  ed_reads :: nat
  ed_writes :: nat
  ed_byte_count :: nat
  ed_page_count :: nat
  ed_fail_read :: int
  ed_fail_write :: int
  ed_silent_write :: int
  ed_partial :: int
  ed_corrupt_read :: int
  ed_read_error :: int
  ed_write_error :: int
  ed_cut_byte :: int
  ed_cut_page :: int
  ed_cut_read :: int
  ed_tear_mask :: u32

definition ETIMEDOUT :: int where "ETIMEDOUT = 116"

definition power_cut :: int where "power_cut = - 1"

definition ed_clean_controls :: "eeprom_double \<Rightarrow> eeprom_double" where
  "ed_clean_controls w = w\<lparr>ed_reads := 0, ed_writes := 0, ed_byte_count := 0, ed_page_count := 0,
     ed_fail_read := 0, ed_fail_write := 0, ed_silent_write := 0, ed_partial := 0,
     ed_corrupt_read := 0, ed_read_error := - ETIMEDOUT, ed_write_error := - EIO,
     ed_cut_byte := - 1, ed_cut_page := - 1, ed_cut_read := - 1, ed_tear_mask := 0\<rparr>"

definition ed_blank :: "u8 \<Rightarrow> eeprom_double" where
  "ed_blank v = ed_clean_controls
     \<lparr>ed_memory = replicate 256 v @ replicate 256 0x6d, ed_ready = True, ed_size = 512,
      ed_reads = 0, ed_writes = 0, ed_byte_count = 0, ed_page_count = 0, ed_fail_read = 0,
      ed_fail_write = 0, ed_silent_write = 0, ed_partial = 0, ed_corrupt_read = 0,
      ed_read_error = 0, ed_write_error = 0, ed_cut_byte = 0, ed_cut_page = 0, ed_cut_read = 0,
      ed_tear_mask = 0\<rparr>"

fun ed_memcpy :: "nat \<Rightarrow> u8 list \<Rightarrow> u8 list \<Rightarrow> u8 list" where
  "ed_memcpy off [] m = m"
| "ed_memcpy off (b # bs) m = ed_memcpy (Suc off) bs (m[off := b])"

definition ed_read :: "int \<Rightarrow> nat \<Rightarrow> eeprom_double \<Rightarrow> int \<times> u8 list \<times> eeprom_double" where
  "ed_read offset n w =
     (let w = w\<lparr>ed_reads := Suc (ed_reads w)\<rparr> in
      if int (ed_reads w) = ed_fail_read w then (ed_read_error w, [], w)
      else
        let out = take n (drop (nat offset) (ed_memory w));
            out = (if int (ed_reads w) = ed_corrupt_read w \<and> n \<noteq> 0
                   then out[0 := out ! 0 XOR 1] else out)
        in if int (ed_reads w) = ed_cut_read w then (power_cut, out, w) else (0, out, w))"

fun ed_program_bytes :: "nat \<Rightarrow> u8 list \<Rightarrow> eeprom_double \<Rightarrow> bool \<times> eeprom_double" where
  "ed_program_bytes off [] w = (False, w)"
| "ed_program_bytes off (b # bs) w =
     (let w = w\<lparr>ed_memory := (ed_memory w)[off := b], ed_byte_count := Suc (ed_byte_count w)\<rparr> in
      if int (ed_byte_count w) = ed_cut_byte w then (True, w)
      else ed_program_bytes (Suc off) bs w)"

fun ed_tear :: "nat \<Rightarrow> nat \<Rightarrow> u8 list \<Rightarrow> u32 \<Rightarrow> u8 list \<Rightarrow> u8 list" where
  "ed_tear off k [] tm m = m"
| "ed_tear off k (b # bs) tm m =
     ed_tear off (Suc k) bs tm (if tm AND push_bit k 1 \<noteq> 0 then m[off + k := b] else m)"

function ed_program :: "nat \<Rightarrow> u8 list \<Rightarrow> eeprom_double \<Rightarrow> bool \<times> eeprom_double" where
  "ed_program off p w =
     (if p = [] then (False, w)
      else
        let w = w\<lparr>ed_page_count := Suc (ed_page_count w)\<rparr> in
        if int (ed_page_count w) = ed_cut_page w
        then (True, w\<lparr>ed_memory := ed_tear off 0 (take 8 p) (ed_tear_mask w) (ed_memory w)\<rparr>)
        else case ed_program_bytes off (take 8 p) w of (lost, w) \<Rightarrow>
          if lost then (True, w) else ed_program (off + 8) (drop 8 p) w)"
  by pat_completeness auto
termination
  by (relation "measure (\<lambda>(off, p, w). length p)") auto

declare ed_program.simps [simp del]

definition ed_write :: "int \<Rightarrow> u8 list \<Rightarrow> eeprom_double \<Rightarrow> int \<times> eeprom_double" where
  "ed_write offset p w =
     (let w = w\<lparr>ed_writes := Suc (ed_writes w)\<rparr>; off = nat offset in
      if int (ed_writes w) = ed_silent_write w then (0, w)
      else if int (ed_writes w) = ed_fail_write w then
        let count = (if nat (ed_partial w) > length p then length p else nat (ed_partial w))
        in (ed_write_error w, w\<lparr>ed_memory := ed_memcpy off (take count p) (ed_memory w)\<rparr>)
      else if ed_cut_byte w = 0 then (power_cut, w)
      else case ed_program off p w of (lost, w) \<Rightarrow> if lost then (power_cut, w) else (0, w))"

definition ed_api :: "eeprom_double eeprom_api" where
  "ed_api = \<lparr>ee_ready = (\<lambda>d w. ed_ready w), ee_size = (\<lambda>d w. ed_size w),
     ee_read = (\<lambda>d. ed_read), ee_write = (\<lambda>d. ed_write)\<rparr>"

definition ed_contents :: "eeprom_double \<Rightarrow> nat \<Rightarrow> u8" where
  "ed_contents w i = ed_memory w ! i"

text \<open>Reads are honest and failing reads report an error.\<close>

definition ed_honest :: "eeprom_double \<Rightarrow> bool" where
  "ed_honest w \<longleftrightarrow> length (ed_memory w) = 512 \<and> ed_corrupt_read w = 0 \<and> ed_read_error w \<noteq> 0"

definition ed_faultless :: "dev \<Rightarrow> eeprom_double \<Rightarrow> bool" where
  "ed_faultless d w \<longleftrightarrow> ed_honest w \<and> ed_ready w \<and> 256 \<le> ed_size w \<and> ed_fail_read w = 0 \<and>
     ed_fail_write w = 0 \<and> ed_silent_write w = 0 \<and> ed_cut_byte w = - 1 \<and> ed_cut_page w = - 1 \<and>
     ed_cut_read w = - 1"

section \<open>The double keeps the contract\<close>

text \<open>Every store of a write goes to a byte of its range and puts the byte of the buffer there.\<close>

definition byte_stores :: "nat \<Rightarrow> u8 list \<Rightarrow> u8 list \<Rightarrow> u8 list \<Rightarrow> bool" where
  "byte_stores off bs m m' \<longleftrightarrow> length m' = length m \<and>
     (\<forall>i. m' ! i = m ! i \<or> (\<exists>k < length bs. i = off + k \<and> m' ! i = bs ! k))"

lemma byte_stores_refl [simp]: "byte_stores off bs m m"
  by (simp add: byte_stores_def)

lemma byte_stores_trans: "byte_stores off bs m m1 \<Longrightarrow> byte_stores off bs m1 m2 \<Longrightarrow> byte_stores off bs m m2"
  unfolding byte_stores_def by metis

lemma byte_stores_one:
  assumes "k < length bs" shows "byte_stores off bs m (m[off + k := bs ! k])"
proof -
  have "m[off + k := bs ! k] ! i = m ! i \<or> i = off + k \<and> m[off + k := bs ! k] ! i = bs ! k" for i
    by (cases "off + k < length m") (auto simp: nth_list_update list_update_beyond)
  then show ?thesis using assms unfolding byte_stores_def by (metis length_list_update)
qed

lemma byte_stores_drop:
  assumes "byte_stores (off + k) (drop k bs) m m'" shows "byte_stores off bs m m'"
  unfolding byte_stores_def
proof (intro conjI allI)
  fix i
  from assms have "m' ! i = m ! i \<or> (\<exists>j < length (drop k bs). i = off + k + j \<and> m' ! i = drop k bs ! j)"
    by (simp add: byte_stores_def)
  then show "m' ! i = m ! i \<or> (\<exists>j < length bs. i = off + j \<and> m' ! i = bs ! j)"
  proof
    assume "\<exists>j < length (drop k bs). i = off + k + j \<and> m' ! i = drop k bs ! j"
    then obtain j where "j < length bs - k" "i = off + k + j" "m' ! i = bs ! (k + j)" by auto
    then show ?thesis by (intro disjI2 exI [of _ "k + j"]) auto
  qed simp
qed (use assms in \<open>simp add: byte_stores_def\<close>)

lemma byte_stores_take:
  assumes "byte_stores off (take k bs) m m'" shows "byte_stores off bs m m'"
  using assms unfolding byte_stores_def by (metis length_take min_less_iff_conj nth_take)

lemma byte_stores_Cons:
  "byte_stores (Suc off) bs (m[off := b]) m' \<Longrightarrow> byte_stores off (b # bs) m m'"
  using byte_stores_one [of 0 "b # bs" off m] byte_stores_drop [of off 1 "b # bs" "m[off := b]" m']
  by (auto intro: byte_stores_trans)

lemma ed_memcpy_stores: "byte_stores off bs m (ed_memcpy off bs m)"
  by (induction off bs m rule: ed_memcpy.induct) (auto intro: byte_stores_Cons)

lemma ed_tear_stores: "byte_stores (off + k) bs m (ed_tear off k bs tm m)"
proof (induction off k bs tm m rule: ed_tear.induct)
  case (2 off k b bs tm m)
  then show ?case
    using byte_stores_Cons [of "off + k" bs m b] byte_stores_drop [of "off + k" 1 "b # bs" m] by auto
qed simp

text \<open>The controls are what the driver calls never change; a faultless call stores everything.\<close>

definition ed_controls :: "eeprom_double \<Rightarrow> eeprom_double" where
  "ed_controls w = w\<lparr>ed_memory := [], ed_reads := 0, ed_writes := 0, ed_byte_count := 0, ed_page_count := 0\<rparr>"

lemma ed_controls_fields:
  "ed_controls w' = ed_controls w \<Longrightarrow>
     ed_ready w' = ed_ready w \<and> ed_size w' = ed_size w \<and> ed_fail_read w' = ed_fail_read w \<and>
     ed_fail_write w' = ed_fail_write w \<and> ed_silent_write w' = ed_silent_write w \<and>
     ed_corrupt_read w' = ed_corrupt_read w \<and> ed_read_error w' = ed_read_error w \<and>
     ed_cut_byte w' = ed_cut_byte w \<and> ed_cut_page w' = ed_cut_page w \<and> ed_cut_read w' = ed_cut_read w"
  by (cases w; cases w') (simp add: ed_controls_def)

lemma ed_program_bytes_spec:
  assumes "ed_program_bytes off bs w = (lost, w')"
  shows "byte_stores off bs (ed_memory w) (ed_memory w') \<and> ed_controls w' = ed_controls w \<and>
    (ed_cut_byte w < 0 \<longrightarrow> \<not> lost \<and> ed_memory w' = ed_memcpy off bs (ed_memory w))"
  using assms
proof (induction off bs w rule: ed_program_bytes.induct)
  case (2 off b bs w)
  let ?w = "w\<lparr>ed_memory := (ed_memory w)[off := b], ed_byte_count := Suc (ed_byte_count w)\<rparr>"
  have c: "ed_controls ?w = ed_controls w" by (simp add: ed_controls_def)
  show ?case
  proof (cases "int (ed_byte_count ?w) = ed_cut_byte w")
    case True
    then show ?thesis using 2(2) c byte_stores_one [of 0 "b # bs" off "ed_memory w"] by auto
  next
    case False
    then show ?thesis using 2 c byte_stores_Cons [of off bs "ed_memory w" b] by (auto simp: Let_def)
  qed
qed simp

lemma ed_memcpy_append: "ed_memcpy off (xs @ ys) m = ed_memcpy (off + length xs) ys (ed_memcpy off xs m)"
  by (induction off xs m rule: ed_memcpy.induct) auto

lemma ed_program_spec:
  assumes "ed_program off p w = (lost, w')"
  shows "byte_stores off p (ed_memory w) (ed_memory w') \<and> ed_controls w' = ed_controls w \<and>
    (ed_cut_byte w < 0 \<and> ed_cut_page w < 0 \<longrightarrow> \<not> lost \<and> ed_memory w' = ed_memcpy off p (ed_memory w))"
  using assms
proof (induction "length p" arbitrary: off p w rule: less_induct)
  case less
  show ?case
  proof (cases "p = []")
    case True
    then show ?thesis using less.prems by (simp add: ed_program.simps)
  next
    case False
    let ?w = "w\<lparr>ed_page_count := Suc (ed_page_count w)\<rparr>"
    have c: "ed_controls ?w = ed_controls w" by (simp add: ed_controls_def)
    show ?thesis
    proof (cases "int (ed_page_count ?w) = ed_cut_page w")
      case True
      then show ?thesis using less.prems False byte_stores_take [OF ed_tear_stores [of off 0, simplified]]
        by (auto simp: ed_program.simps [of off p w] ed_controls_def)
    next
      case nocut: False
      obtain l1 w1 where pb: "ed_program_bytes off (take 8 p) ?w = (l1, w1)" by fastforce
      note s1 = ed_program_bytes_spec [OF pb]
      show ?thesis
      proof (cases l1)
        case True
        then show ?thesis using less.prems False nocut pb s1 c
          by (auto simp: ed_program.simps [of off p w] dest: byte_stores_take)
      next
        case go: False
        have "ed_program (off + 8) (drop 8 p) w1 = (lost, w')"
          using less.prems False nocut pb go by (simp add: ed_program.simps [of off p w])
        moreover have "length (drop 8 p) < length p" using False by simp
        ultimately have s2: "byte_stores (off + 8) (drop 8 p) (ed_memory w1) (ed_memory w') \<and>
            ed_controls w' = ed_controls w1 \<and> (ed_cut_byte w1 < 0 \<and> ed_cut_page w1 < 0 \<longrightarrow>
            \<not> lost \<and> ed_memory w' = ed_memcpy (off + 8) (drop 8 p) (ed_memory w1))"
          using less.hyps by blast
        have cc: "ed_cut_byte w1 = ed_cut_byte w \<and> ed_cut_page w1 = ed_cut_page w"
          using s1 c ed_controls_fields [of w1 w] by auto
        have "ed_memcpy off p m = ed_memcpy (off + 8) (drop 8 p) (ed_memcpy off (take 8 p) m)" for m
          using ed_memcpy_append [of off "take 8 p" "drop 8 p" m] by (cases "length p \<le> 8") auto
        then show ?thesis using s1 s2 c cc
          by (auto intro: byte_stores_trans [OF byte_stores_take byte_stores_drop])
      qed
    qed
  qed
qed

lemma length_ed_memcpy [simp]: "length (ed_memcpy off bs m) = length m"
  using ed_memcpy_stores by (simp add: byte_stores_def)

lemma ed_memcpy_nth:
  "off + length bs \<le> length m \<Longrightarrow> ed_memcpy off bs m ! i =
     (if off \<le> i \<and> i < off + length bs then bs ! (i - off) else m ! i)"
proof (induction off bs m rule: ed_memcpy.induct)
  case (2 off b bs m)
  moreover have "(b # bs) ! (i - off) = bs ! (i - Suc off)" if "Suc off \<le> i"
    using that by (simp add: Suc_diff_le [symmetric] nth_Cons')
  ultimately show ?case by (auto simp: nth_list_update le_Suc_eq dest: le_neq_implies_less)
qed auto

lemma ed_write_spec:
  assumes "ed_write (int off) bs w = (rc, w')"
  shows "byte_stores off bs (ed_memory w) (ed_memory w') \<and> ed_controls w' = ed_controls w \<and>
    (ed_fail_write w = 0 \<and> ed_silent_write w = 0 \<and> ed_cut_byte w = - 1 \<and> ed_cut_page w = - 1 \<longrightarrow>
     rc = 0 \<and> ed_memory w' = ed_memcpy off bs (ed_memory w))"
proof -
  let ?w = "w\<lparr>ed_writes := Suc (ed_writes w)\<rparr>"
  have c: "ed_controls (w\<lparr>ed_writes := a\<rparr>) = ed_controls w" "ed_controls (w\<lparr>ed_writes := a, ed_memory := m\<rparr>) = ed_controls w" for a m
    by (simp_all add: ed_controls_def)
  obtain lost w1 where p: "ed_program off bs ?w = (lost, w1)" by fastforce
  show ?thesis
    using assms c p ed_program_spec [OF p] byte_stores_take [OF ed_memcpy_stores]
    by (auto simp: ed_write_def Let_def ed_memcpy_stores split: if_splits)
qed

lemma ed_read_spec:
  assumes "ed_read (int off) n w = (rc, bs, w')"
  shows "ed_controls w' = ed_controls w \<and> ed_memory w' = ed_memory w \<and>
    (rc = 0 \<and> ed_corrupt_read w = 0 \<and> ed_read_error w \<noteq> 0 \<longrightarrow> bs = take n (drop off (ed_memory w))) \<and>
    (ed_fail_read w = 0 \<and> ed_cut_read w = - 1 \<longrightarrow> rc = 0)"
  using assms by (auto simp: ed_read_def Let_def ed_controls_def power_cut_def split: if_splits)

lemma ed_range: "length m = 512 \<Longrightarrow> off + n \<le> 256 \<Longrightarrow> take n (drop off m) = mem_range (\<lambda>i. m ! i) off n"
  by (simp add: list_eq_iff_nth_eq)

interpretation ed: eeprom_working ed_api ed_contents ed_honest ed_faultless
proof
  fix w off n d rc bs w'
  assume w: "ed_honest w" and b: "off + n \<le> 256" and r: "ee_read ed_api d (int off) n w = (rc, bs, w')"
  have *: "ed_controls w' = ed_controls w \<and> ed_memory w' = ed_memory w \<and> (rc = 0 \<longrightarrow> bs = take n (drop off (ed_memory w)))"
    using ed_read_spec [of off n w rc bs w'] w r by (auto simp: ed_api_def ed_honest_def)
  then show "ed_honest w' \<and> ed_contents w' = ed_contents w \<and> (rc = 0 \<longrightarrow> bs = mem_range (ed_contents w) off n)"
    using w b ed_range [of "ed_memory w" off n] ed_controls_fields [of w' w]
    by (auto simp: ed_honest_def ed_contents_def fun_eq_iff mem_range_def)
next
  fix w off bs d rc w'
  assume w: "ed_honest w" and r: "ee_write ed_api d (int off) bs w = (rc, w')"
  have "byte_stores off bs (ed_memory w) (ed_memory w') \<and> ed_controls w' = ed_controls w"
    using ed_write_spec [of off bs w rc w'] r by (auto simp: ed_api_def)
  then show "ed_honest w' \<and> old_or_new off bs (ed_contents w) (ed_contents w')"
    using w ed_controls_fields [of w' w]
    by (fastforce simp: ed_honest_def byte_stores_def old_or_new_def same_outside_def ed_contents_def)
next
  fix d w
  assume "ed_faultless d w"
  then show "ed_honest w" "ee_ready ed_api d w" "256 \<le> ee_size ed_api d w"
    by (simp_all add: ed_faultless_def ed_api_def)
next
  fix d w off n rc bs w'
  assume "ed_faultless d w" "ee_read ed_api d (int off) n w = (rc, bs, w')"
  then show "rc = 0 \<and> ed_faultless d w'"
    using ed_read_spec [of off n w rc bs w'] ed_controls_fields [of w' w]
    by (auto simp: ed_faultless_def ed_honest_def ed_api_def)
next
  fix d w off bs rc w'
  assume w: "ed_faultless d w" and b: "off + length bs \<le> 256" and r: "ee_write ed_api d (int off) bs w = (rc, w')"
  then show "rc = 0 \<and> ed_faultless d w' \<and> mem_range (ed_contents w') off (length bs) = bs"
    using ed_write_spec [of off bs w rc w'] ed_controls_fields [of w' w]
    by (auto simp: ed_faultless_def ed_honest_def ed_api_def mem_range_eq_iff ed_contents_def ed_memcpy_nth)
qed

lemma ed_blank_faultless [simp]: "ed_faultless d (ed_blank v)"
  by (simp add: ed_faultless_def ed_honest_def ed_blank_def ed_clean_controls_def ETIMEDOUT_def)

lemma ed_blank_ring: "ring (ed_contents (ed_blank v)) None"
proof -
  have "\<not> slot_ok (ed_contents (ed_blank v)) i" if "i < 8" for i
  proof
    assume "slot_ok (ed_contents (ed_blank v)) i"
    then have "mem_range (ed_contents (ed_blank v)) (32 * i) 4 = magic" by (simp add: slot_ok_parts)
    then have "ed_contents (ed_blank v) (32 * i + 0) = magic ! 0" "ed_contents (ed_blank v) (32 * i + 1) = magic ! 1"
      by (auto simp: mem_range_eq_iff dest: spec [of _ "0::nat"] spec [of _ "1::nat"])
    moreover have "ed_contents (ed_blank v) k = v" if "k < 256" for k
      using that by (simp add: ed_contents_def ed_blank_def ed_clean_controls_def nth_append)
    ultimately show False using \<open>i < 8\<close> by (simp add: magic_def)
  qed
  then show ?thesis by (simp add: ring_def)
qed

end
