(* ===== verification/Fault_Log_Main.thy ===== *)
theory Fault_Log_Main
  imports Eeprom_Double
begin

text \<open>
  labs/lab24_eeprom_fault_logger_zephyr/src/main.c, the boot sequence that recovers the log, appends
  a record and checks it after a second recovery, and the properties of the fault logger.

  The program parks in an endless loop at its end and in \<open>fail_lab\<close>; the model returns the globals
  it parks with.  printk is output only and is left out.
\<close>

section \<open>The boot sequence\<close>

datatype lab24_stage =
  LAB24_STAGE_RESET | LAB24_STAGE_INIT | LAB24_STAGE_READ_INITIAL | LAB24_STAGE_APPEND |
  LAB24_STAGE_RECOVER | LAB24_STAGE_VERIFY | LAB24_STAGE_DONE | LAB24_STAGE_ERROR

record lab24 =
  g_log :: fault_log
  g_recovered_log :: fault_log
  g_lab24_stage :: lab24_stage
  g_failed_stage :: lab24_stage
  g_init_rc :: int
  g_initial_latest_rc :: int
  g_append_rc :: int
  g_recover_rc :: int
  g_latest_rc :: int
  g_compare_rc :: int
  g_initial_sequence :: u32
  g_committed_sequence :: u32
  g_initial_slot :: u8
  g_committed_slot :: u8
  g_initial_fault_code :: u32
  g_latest_fault_code :: u32
  g_fault_to_append :: u32
  g_attempted_fault_code :: u32
  g_i2c_mmio_base :: u32
  g_eeprom_size :: nat

abbreviation (input) NOT_RUN :: int where "NOT_RUN \<equiv> - 999"

definition lab24_reset :: lab24 where
  "lab24_reset = \<lparr>g_log = \<lparr>fl_dev = None, fl_sequence = 0, fl_newest_slot = 0, fl_initialized = False\<rparr>,
     g_recovered_log = \<lparr>fl_dev = None, fl_sequence = 0, fl_newest_slot = 0, fl_initialized = False\<rparr>,
     g_lab24_stage = LAB24_STAGE_RESET, g_failed_stage = LAB24_STAGE_RESET,
     g_init_rc = NOT_RUN, g_initial_latest_rc = NOT_RUN, g_append_rc = NOT_RUN, g_recover_rc = NOT_RUN,
     g_latest_rc = NOT_RUN, g_compare_rc = NOT_RUN, g_initial_sequence = 0, g_committed_sequence = 0,
     g_initial_slot = FAULT_LOG_NO_SLOT, g_committed_slot = FAULT_LOG_NO_SLOT,
     g_initial_fault_code = 0, g_latest_fault_code = 0, g_fault_to_append = 0x10010001,
     g_attempted_fault_code = 0, g_i2c_mmio_base = 0, g_eeprom_size = 0\<rparr>"

definition lab24_fail :: "lab24 \<Rightarrow> lab24" where
  "lab24_fail g = g\<lparr>g_failed_stage := g_lab24_stage g, g_lab24_stage := LAB24_STAGE_ERROR\<rparr>"

definition lab24_verify :: "u32 \<Rightarrow> lab24 \<Rightarrow> lab24" where
  "lab24_verify value g =
     (let g = g\<lparr>g_latest_fault_code := value,
                g_committed_sequence := fl_sequence (g_recovered_log g),
                g_committed_slot := fl_newest_slot (g_recovered_log g)\<rparr>;
          expected_sequence =
            (if g_initial_slot g = FAULT_LOG_NO_SLOT then 1 else g_initial_sequence g + 1);
          expected_slot =
            (if g_initial_slot g = FAULT_LOG_NO_SLOT then 0
             else ucast ((ucast (g_initial_slot g) + 1 :: u32) mod 8) :: u8);
          g = g\<lparr>g_compare_rc :=
            (if value = g_attempted_fault_code g \<and> g_committed_sequence g = expected_sequence \<and>
                g_committed_slot g = expected_slot then 0 else - EIO)\<rparr>
      in if g_compare_rc g \<noteq> 0 then lab24_fail g else g\<lparr>g_lab24_stage := LAB24_STAGE_DONE\<rparr>)"

text \<open>\<open>d\<close> is \<open>g_eeprom\<close>, the device of the devicetree node; 0x4002a000 is the base address the
  build asserts.\<close>

definition lab24_main :: "'w eeprom_api \<Rightarrow> dev \<Rightarrow> lab24 \<Rightarrow> 'w \<Rightarrow> lab24 \<times> 'w" where
  "lab24_main api d g w =
     (let value = 0;
          g = g\<lparr>g_i2c_mmio_base := 0x4002a000, g_lab24_stage := LAB24_STAGE_INIT\<rparr>
      in case fault_log_init api (Some (g_log g)) (Some d) w of (rc, log, w) \<Rightarrow>
      let g = g\<lparr>g_init_rc := rc, g_log := the log\<rparr> in
      if g_init_rc g \<noteq> 0 then (lab24_fail g, w) else
      let g = g\<lparr>g_eeprom_size := ee_size api d w, g_initial_sequence := fl_sequence (g_log g),
                g_initial_slot := fl_newest_slot (g_log g),
                g_lab24_stage := LAB24_STAGE_READ_INITIAL\<rparr>
      in case fault_log_latest api (Some (g_log g)) (Some value) w of (rc, log, out, w) \<Rightarrow>
      let value = the out; g = g\<lparr>g_initial_latest_rc := rc, g_log := the log\<rparr> in
      if g_initial_latest_rc g \<noteq> 0 \<and> g_initial_latest_rc g \<noteq> - ENOENT then (lab24_fail g, w) else
      let g = (if g_initial_latest_rc g = 0 then g\<lparr>g_initial_fault_code := value\<rparr> else g);
          g = g\<lparr>g_lab24_stage := LAB24_STAGE_APPEND, g_attempted_fault_code := g_fault_to_append g\<rparr>
      in case fault_log_append api (Some (g_log g)) (g_attempted_fault_code g) w of (rc, log, w) \<Rightarrow>
      let g = g\<lparr>g_append_rc := rc, g_log := the log\<rparr> in
      if g_append_rc g \<noteq> 0 then (lab24_fail g, w) else
      let g = g\<lparr>g_lab24_stage := LAB24_STAGE_RECOVER\<rparr>
      in case fault_log_init api (Some (g_recovered_log g)) (Some d) w of (rc, log, w) \<Rightarrow>
      let g = g\<lparr>g_recover_rc := rc, g_recovered_log := the log\<rparr> in
      if g_recover_rc g \<noteq> 0 then (lab24_fail g, w) else
      let g = g\<lparr>g_lab24_stage := LAB24_STAGE_VERIFY\<rparr>
      in case fault_log_latest api (Some (g_recovered_log g)) (Some value) w of (rc, log, out, w) \<Rightarrow>
      let value = the out; g = g\<lparr>g_latest_rc := rc, g_recovered_log := the log\<rparr> in
      if g_latest_rc g \<noteq> 0 then (lab24_fail g, w) else (lab24_verify value g, w))"

section \<open>The log as a history of fault codes\<close>

text \<open>
  \<open>log_holds c r cs\<close>: the ring \<open>r\<close> stores the fault codes \<open>cs\<close>, newest first.  At most eight
  are kept.
\<close>

definition slot_back :: "nat \<Rightarrow> nat \<Rightarrow> nat" where
  "slot_back n k = (n + 8 - k) mod 8"

definition log_holds :: "(nat \<Rightarrow> u8) \<Rightarrow> ring_state \<Rightarrow> u32 list \<Rightarrow> bool" where
  "log_holds c r cs \<longleftrightarrow> length cs \<le> 8 \<and> (r = None \<longleftrightarrow> cs = []) \<and>
     (case r of None \<Rightarrow> True
      | Some (n, s) \<Rightarrow> \<forall>k < length cs. slot_ok c (slot_back n k) \<and>
            slot_code c (slot_back n k) = cs ! k)"

lemma ring_back:
  assumes "n < 8" "k < 7"
  shows "slot_back n k \<noteq> (n + 1) mod 8"
    and "slot_back ((n + 1) mod 8) (Suc k) = slot_back n k"
proof -
  have "slot_back n k = (if k \<le> n then n - k else n + 8 - k)"
    using assms ring_age_if [of n k] by (simp add: slot_back_def ring_age_def)
  moreover have "slot_back ((n + 1) mod 8) (Suc k) =
      (if Suc k \<le> (n + 1) mod 8 then (n + 1) mod 8 - Suc k else (n + 1) mod 8 + 8 - Suc k)"
    using assms ring_age_if [of "(n + 1) mod 8" "Suc k"] by (simp add: slot_back_def ring_age_def)
  ultimately show "slot_back n k \<noteq> (n + 1) mod 8" "slot_back ((n + 1) mod 8) (Suc k) = slot_back n k"
    using assms by (auto simp: succ_mod_8)
qed

lemma slot_frame_other:
  "same_outside (32 * t) 32 c c' \<Longrightarrow> i \<noteq> t \<Longrightarrow> slot_ok c' i = slot_ok c i \<and> slot_code c' i = slot_code c i"
  using slot_frame [of "32 * t" 32 c c' i] by (simp add: neq_iff) linarith

lemma log_holds_frame:
  assumes h: "log_holds c r cs" and r: "ring c r" and t: "t = fst (ring_next r)"
    and fr: "same_outside (32 * t) 32 c c'"
  shows "log_holds c' r (take 7 cs)"
proof (cases r)
  case (Some p)
  then obtain n s where r': "r = Some (n, s)" "n < 8" "t = (n + 1) mod 8"
    using r t by (cases p) (auto simp: ring_def ring_next_def)
  have "slot_ok c' (slot_back n k) = slot_ok c (slot_back n k) \<and>
      slot_code c' (slot_back n k) = slot_code c (slot_back n k)" if "k < 7" for k
    using slot_frame_other [OF fr] ring_back(1) [OF r'(2) that] r'(3) by simp
  then show ?thesis using h r' by (auto simp: log_holds_def)
qed (use h in \<open>simp add: log_holds_def\<close>)

lemma log_holds_push:
  assumes h: "log_holds c r cs" and r: "ring c r" and nx: "ring_next r = (t, s)"
    and fr: "same_outside (32 * t) 32 c c'" and ok: "slot_ok c' t" "slot_code c' t = code"
  shows "log_holds c' (Some (t, s)) (code # take 7 cs)"
proof -
  have t8: "t < 8" using ring_next_slot [OF r] nx by simp
  have "slot_ok c' (slot_back t k) \<and> slot_code c' (slot_back t k) = (code # take 7 cs) ! k"
    if k: "k < length (code # take 7 cs)" for k
  proof (cases k)
    case 0
    then show ?thesis using ok t8 by (simp add: slot_back_def)
  next
    case (Suc j)
    then obtain n s0 where r': "r = Some (n, s0)" "n < 8" "t = (n + 1) mod 8"
      using r nx h k by (auto simp: ring_def ring_next_def log_holds_def split: option.splits)
    have j: "j < 7" "j < length cs" using k Suc by auto
    have "log_holds c' r (take 7 cs)" using log_holds_frame [OF h r _ fr] nx by simp
    then show ?thesis using ring_back(2) [OF r'(2) j(1)] r' j Suc by (auto simp: log_holds_def)
  qed
  then show ?thesis by (simp add: log_holds_def)
qed

text \<open>What an append leaves behind, seen by a later recovery.\<close>

lemma fate_rings:
  assumes r: "ring c r" and nx: "ring_next r = (t, s)" and f: "slot_fate t s code c c'"
    and h: "log_holds c r cs"
  shows "(ring c' r \<and> log_holds c' r (take 7 cs) \<and> \<not> (slot_ok c' t \<and> slot_seq c' t = s \<and> slot_code c' t = code)) \<or>
    (ring c' (Some (t, s)) \<and> log_holds c' (Some (t, s)) (code # take 7 cs))"
proof (cases "slot_ok c' t \<and> slot_seq c' t = s \<and> slot_code c' t = code")
  case True
  have fr: "same_outside (32 * t) 32 c c'" using f by (simp add: slot_fate_def)
  have "ring c' (Some (t, s))" using True by (intro ring_advance [OF r nx fr]) auto
  moreover have "log_holds c' (Some (t, s)) (code # take 7 cs)" using log_holds_push [OF h r nx fr] True by simp
  ultimately show ?thesis by simp
next
  case False
  then have "slot_ok c' t \<Longrightarrow> slot_bytes c' t = slot_bytes c t" using f by (auto simp: slot_fate_def)
  then have "ring c' r"
    using f nx by (intro ring_spoil [OF r, of t]) (auto simp: slot_fate_def slot_ok_def slot_seq_def)
  moreover have "log_holds c' r (take 7 cs)"
    using log_holds_frame [OF h r, of t c'] f nx by (simp add: slot_fate_def)
  ultimately show ?thesis using False by simp
qed

lemma log_holds_take: "log_holds c r cs \<Longrightarrow> log_holds c r (take 7 cs)"
  by (auto simp: log_holds_def split: option.splits)

lemma log_holds_newest:
  "log_holds c (Some (n, s)) cs \<Longrightarrow> n < 8 \<Longrightarrow> cs \<noteq> [] \<and> slot_code c n = hd cs"
  by (cases cs) (auto simp: log_holds_def slot_back_def dest: spec [of _ 0])

lemma log_shows_next: "log_shows (l\<lparr>fl_sequence := s, fl_newest_slot := of_nat t, fl_initialized := b\<rparr>) (Some (t, s)) \<longleftrightarrow> t < 8"
  by (auto simp: log_shows_def)

context eeprom_driver begin

lemma append_outcome:
  assumes w: "inv w" and r: "ring (contents w) r" and h: "log_holds (contents w) r cs"
    and l: "log_shows l r" and app: "fault_log_append api (Some l) code w = (rc, log', w')"
  shows "inv w'"
    and "rc = 0 \<Longrightarrow> ring (contents w') (Some (ring_next r)) \<and>
      log_holds (contents w') (Some (ring_next r)) (code # take 7 cs) \<and>
      (\<exists>l'. log' = Some l' \<and> log_shows l' (Some (ring_next r)) \<and> fl_dev l' = fl_dev l \<and> fl_initialized l')"
    and "rc \<noteq> 0 \<Longrightarrow> ring (contents w') r \<and> log_holds (contents w') r (take 7 cs) \<or>
      ring (contents w') (Some (ring_next r)) \<and> log_holds (contents w') (Some (ring_next r)) (code # take 7 cs)"
proof -
  obtain t s where nx: "ring_next r = (t, s)" by fastforce
  have t: "t < 8" using ring_next_slot [OF r] nx by simp
  show "inv w'"
    using fault_log_append_post(1) [OF w r l nx _ app] w app
    by (cases "usable api (Some l) w = 0") (auto simp: fault_log_append_def)
  have post: "append_post l r t s code (contents w) rc log' (contents w')" if "usable api (Some l) w = 0"
    by (rule fault_log_append_post(2) [OF w r l nx that app])
  have bad: "rc \<noteq> 0 \<and> w' = w" if "usable api (Some l) w \<noteq> 0"
    using app that by (auto simp: fault_log_append_def)
  note fate = fate_rings [OF r nx _ h, of code "contents w'"]
  show "ring (contents w') (Some (ring_next r)) \<and>
      log_holds (contents w') (Some (ring_next r)) (code # take 7 cs) \<and>
      (\<exists>l'. log' = Some l' \<and> log_shows l' (Some (ring_next r)) \<and> fl_dev l' = fl_dev l \<and> fl_initialized l')"
    if "rc = 0"
  proof -
    have "append_post l r t s code (contents w) rc log' (contents w')" using that bad post by blast
    then show ?thesis using that fate nx t by (auto simp: append_post_def log_shows_next)
  qed
  show "ring (contents w') r \<and> log_holds (contents w') r (take 7 cs) \<or>
      ring (contents w') (Some (ring_next r)) \<and> log_holds (contents w') (Some (ring_next r)) (code # take 7 cs)"
    if "rc \<noteq> 0"
  proof (cases "usable api (Some l) w = 0")
    case True
    then have "slot_fate t s code (contents w) (contents w')" using post by (simp add: append_post_def)
    then show ?thesis using fate nx by auto
  next
    case False
    then show ?thesis using bad r h log_holds_take by simp
  qed
qed

end

context eeprom_working begin

lemma latest_shows:
  assumes w: "ok d w" and r: "ring (contents w) r" and h: "log_holds (contents w) r cs"
    and l: "log_shows l r" "fl_dev l = Some d" "fl_initialized l"
  shows "\<exists>w'. ok d w' \<and> contents w' = contents w \<and> fault_log_latest api (Some l) (Some old) w =
    (if cs = [] then - ENOENT else 0, Some l, Some (if cs = [] then old else hd cs), w')"
proof (cases r)
  case None
  then have "cs = []" using h by (simp add: log_holds_def)
  with None show ?thesis using fault_log_latest_ok [OF w r l, of old] by simp
next
  case (Some p)
  then obtain n s where r': "r = Some (n, s)" "n < 8" using l(1) by (cases p) (simp add: log_shows_def)
  then have "cs \<noteq> []" "slot_code (contents w) n = hd cs" using log_holds_newest h by auto
  with r' show ?thesis using fault_log_latest_ok [OF w r l, of old] by simp
qed

lemma recover_shows:
  assumes w: "ok d w" and r: "ring (contents w) r" and h: "log_holds (contents w) r cs"
  shows "\<exists>l w1 w2. fault_log_init api (Some l0) (Some d) w = (0, Some l, w1) \<and>
    log_shows l r \<and> fl_dev l = Some d \<and> fl_initialized l \<and> ok d w1 \<and> contents w1 = contents w \<and>
    ok d w2 \<and> contents w2 = contents w \<and> fault_log_latest api (Some l) (Some old) w1 =
    (if cs = [] then - ENOENT else 0, Some l, Some (if cs = [] then old else hd cs), w2)"
proof -
  obtain l w1 where i: "fault_log_init api (Some l0) (Some d) w = (0, Some l, w1)" "ok d w1"
    "contents w1 = contents w" "log_shows l r" "fl_dev l = Some d" "fl_initialized l"
    using fault_log_init_ok [OF w r] by blast
  obtain w2 where "ok d w2" "contents w2 = contents w1" "fault_log_latest api (Some l) (Some old) w1 =
    (if cs = [] then - ENOENT else 0, Some l, Some (if cs = [] then old else hd cs), w2)"
    using latest_shows [OF i(2) _ _ i(4,5,6)] r h i(3) by metis
  with i show ?thesis by (intro exI [of _ l] exI [of _ w1] exI [of _ w2]) simp
qed

lemma append_works:
  assumes w: "ok d w" and r: "ring (contents w) r" and h: "log_holds (contents w) r cs"
    and l: "log_shows l r" "fl_dev l = Some d" "fl_initialized l"
  shows "\<exists>l' w'. fault_log_append api (Some l) code w = (0, Some l', w') \<and> ok d w' \<and>
    log_shows l' (Some (ring_next r)) \<and> fl_dev l' = Some d \<and> fl_initialized l' \<and>
    ring (contents w') (Some (ring_next r)) \<and>
    log_holds (contents w') (Some (ring_next r)) (code # take 7 cs)"
proof -
  obtain t s where nx: "ring_next r = (t, s)" by fastforce
  obtain w' where a: "ok d w'" "fault_log_append api (Some l) code w =
      (0, Some (l\<lparr>fl_sequence := s, fl_newest_slot := of_nat t, fl_initialized := True\<rparr>), w')"
    using fault_log_append_ok [OF w r nx l] by blast
  show ?thesis using a append_outcome(2) [OF ok_inv [OF w] r h l(1) a(2)] l(2) by auto
qed

end


section \<open>The boot sequence on a working device\<close>

lemma lab24_verify_done:
  assumes "log_shows l0 r" "log_shows (g_recovered_log g) (Some (ring_next r))" "ring c r"
    and "g_initial_slot g = fl_newest_slot l0" "g_initial_sequence g = fl_sequence l0"
    and "value = g_attempted_fault_code g"
  shows "g_lab24_stage (lab24_verify value g) = LAB24_STAGE_DONE"
    "g_latest_fault_code (lab24_verify value g) = value"
proof -
  obtain t s where nx: "ring_next r = (t, s)" by fastforce
  then have l2: "fl_newest_slot (g_recovered_log g) = of_nat t" "fl_sequence (g_recovered_log g) = s"
    using assms(2) by (simp_all add: log_shows_def)
  show "g_lab24_stage (lab24_verify value g) = LAB24_STAGE_DONE"
    "g_latest_fault_code (lab24_verify value g) = value"
    using append_target [OF assms(3,1) nx] assms(4-6) l2
    by (simp_all add: lab24_verify_def Let_def split del: if_split cong: if_cong)
qed

context eeprom_working begin

lemma lab24_main_works:
  assumes w: "ok d w" and r: "ring (contents w) r" and h: "log_holds (contents w) r cs"
  shows "\<exists>g' w'. lab24_main api d g w = (g', w') \<and> g_lab24_stage g' = LAB24_STAGE_DONE \<and>
    g_latest_fault_code g' = g_fault_to_append g \<and> ok d w' \<and>
    ring (contents w') (Some (ring_next r)) \<and>
    log_holds (contents w') (Some (ring_next r)) (g_fault_to_append g # take 7 cs)"
proof -
  let ?code = "g_fault_to_append g" and ?v = "if cs = [] then 0 else hd cs"
  obtain l w1 w2 where s1: "fault_log_init api (Some (g_log g)) (Some d) w = (0, Some l, w1)"
    "log_shows l r" "fl_dev l = Some d" "fl_initialized l"
    "ok d w2" "contents w2 = contents w" "fault_log_latest api (Some l) (Some 0) w1 =
      (if cs = [] then - ENOENT else 0, Some l, Some ?v, w2)"
    using recover_shows [OF w r h] by blast
  obtain l' w3 where s2: "fault_log_append api (Some l) ?code w2 = (0, Some l', w3)" "ok d w3"
    "ring (contents w3) (Some (ring_next r))" "log_holds (contents w3) (Some (ring_next r)) (?code # take 7 cs)"
    using append_works [OF s1(5) _ _ s1(2,3,4), of cs ?code] r h s1(6) by auto
  obtain l2 w4 w5 where s3: "fault_log_init api (Some (g_recovered_log g)) (Some d) w3 = (0, Some l2, w4)"
    "log_shows l2 (Some (ring_next r))" "ok d w5" "contents w5 = contents w3"
    "fault_log_latest api (Some l2) (Some ?v) w4 = (0, Some l2, Some ?code, w5)"
    using recover_shows [OF s2(2,3,4)] by force
  obtain g' where g': "lab24_main api d g w = (lab24_verify ?code g', w5)"
    "g_recovered_log g' = l2" "g_initial_slot g' = fl_newest_slot l" "g_initial_sequence g' = fl_sequence l"
    "g_attempted_fault_code g' = ?code"
    using s1(1,7) s2(1) s3(1,5) by (cases "cs = []") (simp_all add: lab24_main_def)
  show ?thesis
    using lab24_verify_done [OF s1(2) _ r, of g' ?code] g' s2 s3 by (intro exI [of _ "lab24_verify ?code g'"] exI [of _ w5]) simp
qed

end


section \<open>CRC-32 against its bit-serial definition\<close>

text \<open>
  tests/host_contract.c checks the records with \<open>oracle_crc\<close>, the most-significant-bit-first
  CRC of the polynomial 0x04c11db7 on reflected input.
\<close>

definition reverse32 :: "u32 \<Rightarrow> u32" where
  "reverse32 n = fst (((\<lambda>(r, n). (push_bit 1 r OR (n AND 1), drop_bit 1 n)) ^^ 32) (0, n))"

definition oracle_bit :: "u32 \<Rightarrow> u32" where
  "oracle_bit c = (if c AND 0x80000000 \<noteq> 0 then push_bit 1 c XOR 0x04c11db7 else push_bit 1 c)"

definition oracle_crc :: "u8 list \<Rightarrow> nat \<Rightarrow> u32" where
  "oracle_crc p n =
     reverse32 (fold (\<lambda>b c. (oracle_bit ^^ 8) (c XOR reverse32 (ucast b))) (take n p) 0xFFFFFFFF) XOR 0xFFFFFFFF"

lemma bit_twice: "bit (r * 2 :: u32) i \<longleftrightarrow> 0 < i \<and> i < 32 \<and> bit r (i - 1)"
  using bit_double_iff [of r i] by (auto simp: mult.commute)

lemma reverse32_loop:
  "k \<le> 32 \<Longrightarrow> (\<forall>i < 32. bit (fst (((\<lambda>(r, n). (push_bit 1 r OR (n AND 1), drop_bit 1 n)) ^^ k) (0 :: u32, n :: u32))) i
      \<longleftrightarrow> i < k \<and> bit n (k - 1 - i)) \<and>
    snd (((\<lambda>(r, n). (push_bit 1 r OR (n AND 1), drop_bit 1 n)) ^^ k) (0 :: u32, n)) = drop_bit k n"
proof (induction k)
  case (Suc k)
  obtain r m where it: "((\<lambda>(r, n). (push_bit 1 r OR (n AND 1), drop_bit 1 n)) ^^ k) (0 :: u32, n) = (r, m)"
    by fastforce
  have m: "m = drop_bit k n" and r: "\<And>i. i < 32 \<Longrightarrow> bit r i \<longleftrightarrow> i < k \<and> bit n (k - 1 - i)"
    using Suc it by auto
  have "bit (push_bit 1 r OR (m AND 1)) i \<longleftrightarrow> i < Suc k \<and> bit n (Suc k - 1 - i)" if i: "i < 32" for i
  proof (cases i)
    case 0
    then show ?thesis by (simp add: bit_simps bit_twice m)
  next
    case (Suc j)
    then show ?thesis using r [of j] i by (auto simp: bit_simps bit_twice)
  qed
  then show ?case using it m by simp
qed simp

lemma bit_reverse32: "i < 32 \<Longrightarrow> bit (reverse32 n) i \<longleftrightarrow> bit n (31 - i)"
  using reverse32_loop [of 32 n] by (simp add: reverse32_def)

lemma u32_eqI: "(\<And>i. i < 32 \<Longrightarrow> bit x i \<longleftrightarrow> bit y i) \<Longrightarrow> x = (y :: u32)"
  by (rule bit_word_eqI) simp

lemma reverse32_reverse32 [simp]: "reverse32 (reverse32 n) = n"
  by (rule u32_eqI) (simp add: bit_reverse32)

lemma reverse32_xor: "reverse32 (a XOR b) = reverse32 a XOR reverse32 b"
  by (rule u32_eqI) (simp add: bit_reverse32 bit_xor_iff)

lemma reverse32_drop: "reverse32 (drop_bit (Suc 0) a) = reverse32 a * 2"
proof (rule u32_eqI)
  fix i :: nat assume i: "i < 32"
  show "bit (reverse32 (drop_bit (Suc 0) a)) i \<longleftrightarrow> bit (reverse32 a * 2) i"
  proof (cases i)
    case 0
    then show ?thesis using bit_imp_le_length [of a 32] by (auto simp: bit_reverse32 bit_simps bit_twice)
  next
    case (Suc j)
    then have "Suc (31 - Suc j) = 31 - j" using i by simp
    then show ?thesis using Suc i by (simp add: bit_reverse32 bit_simps bit_twice)
  qed
qed

lemma reverse32_poly: "reverse32 0xedb88320 = 0x04c11db7" "reverse32 0 = 0" "reverse32 0xFFFFFFFF = 0xFFFFFFFF"
  by code_simp+

lemma crc32_bit_oracle: "reverse32 (crc32_bit c) = oracle_bit (reverse32 c)"
proof -
  have "reverse32 c AND 2 ^ 31 \<noteq> 0 \<longleftrightarrow> c AND 2 ^ 0 \<noteq> 0"
    unfolding flag_clear using bit_reverse32 [of 31 c] by simp
  then have "reverse32 c AND 0x80000000 \<noteq> 0 \<longleftrightarrow> c AND 1 \<noteq> 0" by simp
  then show ?thesis by (simp add: crc32_bit_def oracle_bit_def reverse32_xor reverse32_drop reverse32_poly)
qed

lemma crc32_oracle: "crc32 p n = oracle_crc p n"
proof -
  have byte: "reverse32 ((crc32_bit ^^ k) c) = (oracle_bit ^^ k) (reverse32 c)" for k c
    by (induction k) (simp_all add: crc32_bit_oracle)
  have "reverse32 (fold crc32_byte bs c) =
      fold (\<lambda>b c. (oracle_bit ^^ 8) (c XOR reverse32 (ucast b))) bs (reverse32 c)" for bs c
    by (induction bs arbitrary: c) (simp_all add: crc32_byte_def byte reverse32_xor)
  then have "reverse32 (fold crc32_byte (take n p) 0xFFFFFFFF) =
      fold (\<lambda>b c. (oracle_bit ^^ 8) (c XOR reverse32 (ucast b))) (take n p) 0xFFFFFFFF"
    by (simp add: reverse32_poly)
  then show ?thesis unfolding crc32_def oracle_crc_def by (metis reverse32_reverse32)
qed

section \<open>Properties\<close>

lemma append_failure_locks:
  assumes "fault_log_append api (Some l) code w = (rc, log', w')" "rc \<noteq> 0"
  shows "log' = Some l \<and> w' = w \<and> rc = usable api (Some l) w \<or>
    log' = Some (l\<lparr>fl_initialized := False\<rparr>) \<and> usable api (Some l) w = 0"
proof (cases "usable api (Some l) w = 0")
  case True
  then show ?thesis using assms
    by (simp add: fault_log_append_def Let_def split: prod.splits if_split_asm)
qed (use assms in \<open>auto simp: fault_log_append_def\<close>)

text \<open>C1.  Crash safety.  Whatever an append reports, and wherever the supply failed inside it, a
  recovery from the bytes it left behind succeeds on a working device and finds a well-formed log:
  either the new record in front of the seven newest old ones, or those seven old ones.  If the
  append reported success the new record is there.\<close>

theorem fault_log_crash_safe:
  assumes drv: "eeprom_working api contents I ok"
    and w: "I w" "ring (contents w) r" "log_holds (contents w) r cs" "log_shows l r"
    and app: "fault_log_append api (Some l) code w = (rc, log', w1)"
    and reboot: "ok d w2" "contents w2 = contents w1"
  shows "\<exists>cs' l2 w3 w4. (cs' = code # take 7 cs \<or> rc \<noteq> 0 \<and> cs' = take 7 cs) \<and>
    fault_log_init api (Some l0) (Some d) w2 = (0, Some l2, w3) \<and>
    (\<exists>r'. log_shows l2 r' \<and> ring (contents w4) r' \<and> log_holds (contents w4) r' cs') \<and>
    fault_log_latest api (Some l2) (Some old) w3 =
      (if cs' = [] then - ENOENT else 0, Some l2, Some (if cs' = [] then old else hd cs'), w4)"
proof -
  note out = eeprom_driver.append_outcome [OF eeprom_working.axioms(1) [OF drv] w app]
  obtain cs' r' where c: "cs' = code # take 7 cs \<or> rc \<noteq> 0 \<and> cs' = take 7 cs"
    "ring (contents w2) r'" "log_holds (contents w2) r' cs'"
    using out(2,3) reboot(2) by (cases "rc = 0") auto
  show ?thesis using eeprom_working.recover_shows [OF drv reboot(1) c(2,3), of l0 old] c by metis
qed

text \<open>C5.  What a successful append means, for any driver that keeps the contract: the ring has
  advanced to the next slot and sequence number, the history has the new code in front, and the
  handle shows the new state.\<close>

theorem fault_log_append_commits:
  assumes "eeprom_driver api contents I"
    and "I w" "ring (contents w) r" "log_holds (contents w) r cs" "log_shows l r"
    and "fault_log_append api (Some l) code w = (0, log', w')"
  shows "I w' \<and> ring (contents w') (Some (ring_next r)) \<and>
    log_holds (contents w') (Some (ring_next r)) (code # take 7 cs) \<and>
    (\<exists>l'. log' = Some l' \<and> log_shows l' (Some (ring_next r)) \<and> fl_dev l' = fl_dev l \<and> fl_initialized l')"
  using eeprom_driver.append_outcome(1,2) [OF assms] by simp

text \<open>C19.  On a working device an append on a recovered handle succeeds, and \<open>fault_log_latest\<close>
  then returns its code.\<close>

theorem fault_log_append_then_latest:
  assumes drv: "eeprom_working api contents I ok"
    and w: "ok d w" "ring (contents w) r" "log_holds (contents w) r cs"
    and l: "log_shows l r" "fl_dev l = Some d" "fl_initialized l"
  shows "\<exists>l' w' w''. fault_log_append api (Some l) code w = (0, Some l', w') \<and>
    fault_log_latest api (Some l') (Some old) w' = (0, Some l', Some code, w'') \<and> ok d w'' \<and>
    log_shows l' (Some (ring_next r)) \<and> ring (contents w'') (Some (ring_next r)) \<and>
    log_holds (contents w'') (Some (ring_next r)) (code # take 7 cs)"
proof -
  obtain l' w' where a: "fault_log_append api (Some l) code w = (0, Some l', w')" "ok d w'"
    "ring (contents w') (Some (ring_next r))" "log_holds (contents w') (Some (ring_next r)) (code # take 7 cs)"
    "log_shows l' (Some (ring_next r))" "fl_dev l' = Some d" "fl_initialized l'"
    using eeprom_working.append_works [OF drv w l] by metis
  show ?thesis using eeprom_working.latest_shows [OF drv a(2-7), of old] a by force
qed

text \<open>C23.  Recovery, for any driver that keeps the contract: \<open>fault_log_init\<close> writes nothing; if
  it succeeds, the handle shows exactly the ring in the device, and if it fails, the handle is the
  blank one, which every operation refuses.\<close>

theorem fault_log_init_recovers:
  assumes "eeprom_driver api contents I" "I w" "ring (contents w) r"
    and "fault_log_init api (Some l0) (Some d) w = (rc, log', w')"
  shows "contents w' = contents w \<and>
    (if rc = 0 then \<exists>l'. log' = Some l' \<and> log_shows l' r \<and> fl_dev l' = Some d \<and> fl_initialized l'
     else log' = Some fl_blank \<and> usable api log' w' = - EINVAL)"
  using eeprom_driver.fault_log_init_ring [OF assms] by (simp add: usable_def fl_blank_def)

text \<open>Note.  No blind retry: after an append that failed once it had passed its entry checks, the
  handle refuses every append and every read with -EIO, without touching the device, until it is
  initialised again.  This needs no driver contract.\<close>

theorem fault_log_failure_locks:
  assumes "fault_log_append api (Some l) code w = (rc, log', w')" "rc \<noteq> 0" "usable api (Some l) w = 0"
  shows "fault_log_append api log' code' w2 = (- EIO, log', w2) \<and>
    fault_log_latest api log' (Some old) w2 = (- EIO, log', Some old, w2)"
proof -
  obtain d where "fl_dev l = Some d" using assms(3) by (rule usable_ok)
  moreover have "usable api (Some l) w \<noteq> rc" using assms(2,3) by simp
  ultimately have "log' = Some (l\<lparr>fl_initialized := False\<rparr>)" "usable api log' w2 = - EIO"
    using append_failure_locks [OF assms(1,2)] by (auto simp: usable_def)
  then show ?thesis by (simp add: fault_log_append_def fault_log_latest_def)
qed

text \<open>Note.  The table-free CRC of the records is the CRC-32 of the bit-serial definition the host
  contract uses, for every message.\<close>

theorem crc32_is_oracle_crc: "crc32 p n = oracle_crc p n"
  by (rule crc32_oracle)

text \<open>Note.  The four-byte little-endian codec: a stored word is read back, and a store leaves the
  words beside it alone.\<close>

theorem le32_round_trip:
  assumes "off + 4 \<le> length p" "k + 4 \<le> length p" "k = off \<or> k + 4 \<le> off \<or> off + 4 \<le> k"
  shows "load_le32 (drop k (store_le32 p off v)) = (if k = off then v else load_le32 (drop k p))"
  using assms load_store_le32 load_store_le32_other by auto

text \<open>Note.  The boot sequence of main reaches LAB24_STAGE_DONE on a working device, whatever log the
  device held, and leaves the log one record longer.\<close>

theorem lab24_main_done:
  assumes "eeprom_working api contents I ok" "ok d w" "ring (contents w) r" "log_holds (contents w) r cs"
  shows "\<exists>g' w'. lab24_main api d g w = (g', w') \<and> g_lab24_stage g' = LAB24_STAGE_DONE \<and>
    g_latest_fault_code g' = g_fault_to_append g \<and>
    ring (contents w') (Some (ring_next r)) \<and>
    log_holds (contents w') (Some (ring_next r)) (g_fault_to_append g # take 7 cs)"
  using eeprom_working.lab24_main_works [OF assms] by blast


section \<open>Witnesses on the EEPROM double\<close>

definition fresh_log :: fault_log where
  "fresh_log = fl_blank\<lparr>fl_dev := Some 0, fl_initialized := True\<rparr>"

lemma fresh_log_shows [simp]:
  "log_shows fresh_log None" "fl_dev fresh_log = Some 0" "fl_initialized fresh_log"
  by (simp_all add: fresh_log_def fl_blank_def log_shows_def)

lemma log_holds_empty [simp]: "log_holds c None []"
  by (simp add: log_holds_def)

lemma ed_working: "eeprom_working ed_api ed_contents ed_honest ed_faultless"
  by (rule ed.eeprom_working_axioms)

lemma ed_driver: "eeprom_driver ed_api ed_contents ed_honest"
  by (rule ed.eeprom_driver_axioms)

lemma fresh_append:
  "\<exists>l' w'. fault_log_append ed_api (Some fresh_log) code (ed_blank 255) = (0, Some l', w')"
  using ed.append_works [of 0 "ed_blank 255" None "[]" fresh_log code] ed_blank_ring [of 255] by auto

text \<open>The supply fails after the third byte of the invalidation; the device comes back faultless.\<close>

definition cut_world :: eeprom_double where
  "cut_world = (ed_blank 255)\<lparr>ed_cut_byte := 3\<rparr>"

lemma cut_append:
  "\<exists>w1. fault_log_append ed_api (Some fresh_log) 0x42 cut_world = (power_cut, Some (fresh_log\<lparr>fl_initialized := False\<rparr>), w1) \<and>
    ed_faultless 0 (ed_clean_controls w1) \<and> ed_contents (ed_clean_controls w1) = ed_contents w1"
  by (simp add: fault_log_append_def usable_def fresh_log_def fl_blank_def cut_world_def ed_api_def
      ed_blank_def ed_clean_controls_def ed_write_def ed_program.simps invalid_def slot_offset_def
      numeral_eq_Suc power_cut_def ed_faultless_def ed_honest_def ETIMEDOUT_def ed_contents_def fun_eq_iff)

lemma cut_honest: "ed_honest cut_world" "ring (ed_contents cut_world) None"
proof -
  have "ed_contents cut_world = ed_contents (ed_blank 255)"
    by (simp add: cut_world_def ed_contents_def fun_eq_iff)
  then show "ring (ed_contents cut_world) None" using ed_blank_ring by simp
  show "ed_honest cut_world"
    by (simp add: cut_world_def ed_honest_def ed_blank_def ed_clean_controls_def ETIMEDOUT_def)
qed

lemma fault_log_crash_safe_witness:
  "\<exists>w1 l2 w3 w4 cs'. fault_log_append ed_api (Some fresh_log) 0x42 cut_world =
      (power_cut, Some (fresh_log\<lparr>fl_initialized := False\<rparr>), w1) \<and>
    fault_log_init ed_api (Some fl_blank) (Some 0) (ed_clean_controls w1) = (0, Some l2, w3) \<and>
    (cs' = [0x42] \<or> cs' = []) \<and>
    fault_log_latest ed_api (Some l2) (Some 0) w3 =
      (if cs' = [] then - ENOENT else 0, Some l2, Some (if cs' = [] then 0 else hd cs'), w4)"
proof -
  obtain w1 where w1: "fault_log_append ed_api (Some fresh_log) 0x42 cut_world =
      (power_cut, Some (fresh_log\<lparr>fl_initialized := False\<rparr>), w1)"
    "ed_faultless 0 (ed_clean_controls w1)" "ed_contents (ed_clean_controls w1) = ed_contents w1"
    using cut_append by blast
  show ?thesis
    using fault_log_crash_safe [OF ed_working cut_honest log_holds_empty fresh_log_shows(1) w1, of fl_blank 0] w1(1)
    by fastforce
qed

lemma fault_log_append_commits_witness:
  "\<exists>log' w'. fault_log_append ed_api (Some fresh_log) 7 (ed_blank 255) = (0, log', w') \<and>
    ring (ed_contents w') (Some (0, 1)) \<and> log_holds (ed_contents w') (Some (0, 1)) [7]"
proof -
  obtain l' w' where a: "fault_log_append ed_api (Some fresh_log) 7 (ed_blank 255) = (0, Some l', w')"
    using fresh_append by blast
  show ?thesis
    using fault_log_append_commits [OF ed_driver ed.ok_inv [OF ed_blank_faultless] ed_blank_ring log_holds_empty fresh_log_shows(1) a] a
    by (auto simp: ring_next_def)
qed

lemma fault_log_append_then_latest_witness:
  "\<exists>l' w' w''. fault_log_append ed_api (Some fresh_log) 7 (ed_blank 255) = (0, Some l', w') \<and>
    fault_log_latest ed_api (Some l') (Some 0) w' = (0, Some l', Some 7, w'')"
  using fault_log_append_then_latest [where w = "ed_blank 255" and old = 0 and code = 7, OF ed_working ed_blank_faultless ed_blank_ring log_holds_empty fresh_log_shows]
  by blast

lemma fault_log_init_recovers_witness:
  "\<exists>l' w'. fault_log_init ed_api (Some fl_blank) (Some 0) (ed_blank 255) = (0, Some l', w') \<and>
    log_shows l' None \<and> ed_contents w' = ed_contents (ed_blank 255)"
proof -
  obtain l' w' where i: "fault_log_init ed_api (Some fl_blank) (Some 0) (ed_blank 255) = (0, Some l', w')"
    using ed.fault_log_init_ok [OF ed_blank_faultless ed_blank_ring] by blast
  show ?thesis
    using fault_log_init_recovers [OF ed_driver ed.ok_inv [OF ed_blank_faultless] ed_blank_ring i] i by auto
qed

lemma fault_log_failure_locks_witness:
  "\<exists>log' w1. fault_log_append ed_api (Some fresh_log) 0x42 cut_world = (power_cut, log', w1) \<and>
    fault_log_append ed_api log' 1 w1 = (- EIO, log', w1)"
proof -
  obtain w1 where w1: "fault_log_append ed_api (Some fresh_log) 0x42 cut_world =
      (power_cut, Some (fresh_log\<lparr>fl_initialized := False\<rparr>), w1)"
    using cut_append by blast
  have "usable ed_api (Some fresh_log) cut_world = 0"
    by (simp add: usable_def fresh_log_def fl_blank_def cut_world_def ed_api_def ed_blank_def ed_clean_controls_def)
  then show ?thesis using fault_log_failure_locks [OF w1, of 1 w1] w1 by (auto simp: power_cut_def)
qed

lemma le32_round_trip_witness:
  "load_le32 (drop 4 (store_le32 (replicate 16 0) 8 0xDEADBEEF)) = 0 \<and>
    load_le32 (drop 8 (store_le32 (replicate 16 0) 8 0xDEADBEEF)) = 0xDEADBEEF"
  using le32_round_trip [of 8 "replicate 16 0" 4 "0xDEADBEEF"] le32_round_trip [of 8 "replicate 16 0" 8 "0xDEADBEEF"]
  by (simp add: load_le32_def)

lemma lab24_main_done_witness:
  "\<exists>g' w'. lab24_main ed_api 0 lab24_reset (ed_blank 255) = (g', w') \<and>
    g_lab24_stage g' = LAB24_STAGE_DONE \<and> g_latest_fault_code g' = 0x10010001 \<and>
    log_holds (ed_contents w') (Some (0, 1)) [0x10010001]"
proof -
  have "g_fault_to_append lab24_reset = 0x10010001" by (simp add: lab24_reset_def)
  then show ?thesis
    using lab24_main_done [where w = "ed_blank 255" and g = lab24_reset,
        OF ed_working ed_blank_faultless ed_blank_ring log_holds_empty]
    by (simp add: ring_next_def) metis
qed

end
