(* ===== verification/Boot_Log.thy ===== *)
theory Boot_Log
  imports Prelude
begin

text \<open>
  labs/lab23_flash_boot_event_logger_zephyr/src/boot_log.c: an append-only log of 16-byte boot
  events in a flash partition.  The flash driver is Zephyr's and is a parameter (\<open>flash_api\<close>);
  the contract the logger relies on is the locale \<open>flash_driver\<close>.
\<close>

section \<open>Data\<close>

abbreviation (input) BOOT_LOG_RECORD_SIZE :: nat where "BOOT_LOG_RECORD_SIZE \<equiv> 16"

record boot_log =
  bl_dev :: "dev option"
  bl_base :: int
  bl_region_size :: nat
  bl_next_slot :: nat
  bl_erase_value :: u8
  bl_initialized :: bool

text \<open>The flash driver: readiness, write block size, the erase value of its parameter block (None
  for NULL), read (result code, bytes, world) and write.\<close>

record 'w flash_api =
  fa_ready :: "dev \<Rightarrow> 'w \<Rightarrow> bool"
  fa_write_block :: "dev \<Rightarrow> 'w \<Rightarrow> nat"
  fa_params :: "dev \<Rightarrow> 'w \<Rightarrow> u8 option"
  fa_read :: "dev \<Rightarrow> int \<Rightarrow> nat \<Rightarrow> 'w \<Rightarrow> int \<times> u8 list \<times> 'w"
  fa_write :: "dev \<Rightarrow> int \<Rightarrow> u8 list \<Rightarrow> 'w \<Rightarrow> int \<times> 'w"

section \<open>Operations\<close>

definition is_erased :: "u8 list \<Rightarrow> u8 \<Rightarrow> bool" where
  "is_erased data erase_value = list_all (\<lambda>i. data ! i = erase_value) [0..<BOOT_LOG_RECORD_SIZE]"

definition bl_slot_offset :: "boot_log \<Rightarrow> nat \<Rightarrow> int" where
  "bl_slot_offset log index = bl_base log + int (index * BOOT_LOG_RECORD_SIZE)"

definition bl_zero :: boot_log where
  "bl_zero = \<lparr>bl_dev = None, bl_base = 0, bl_region_size = 0, bl_next_slot = 0, bl_erase_value = 0,
     bl_initialized = False\<rparr>"

fun bl_scan :: "'w flash_api \<Rightarrow> dev \<Rightarrow> nat list \<Rightarrow> boot_log \<Rightarrow> bool \<Rightarrow> 'w \<Rightarrow> int \<times> boot_log \<times> 'w" where
  "bl_scan api d [] log found_empty w = (0, log, w)"
| "bl_scan api d (index # rest) log found_empty w =
     (case fa_read api d (bl_slot_offset log index) BOOT_LOG_RECORD_SIZE w of (rc, data, w) \<Rightarrow>
        if rc \<noteq> 0 then (rc, log, w)
        else if is_erased data (bl_erase_value log) then bl_scan api d rest log True w
        else if found_empty then (- EILSEQ, log, w)
        else bl_scan api d rest (log\<lparr>bl_next_slot := index + 1\<rparr>) found_empty w)"

text \<open>\<open>off_size\<close> is \<open>sizeof(off_t)\<close>, a property of the target's C library.\<close>

definition boot_log_init :: "'w flash_api \<Rightarrow> nat \<Rightarrow> boot_log option \<Rightarrow> dev option \<Rightarrow> int \<Rightarrow> nat \<Rightarrow> 'w \<Rightarrow>
    int \<times> boot_log option \<times> 'w" where
  "boot_log_init api off_size log dv base region_size w =
     (case log of None \<Rightarrow> (- EINVAL, None, w)
      | Some _ \<Rightarrow>
        (let log = bl_zero in
         if dv = None \<or> base < 0 \<or> region_size < BOOT_LOG_RECORD_SIZE \<or>
            region_size mod BOOT_LOG_RECORD_SIZE \<noteq> 0
           then (- EINVAL, Some log, w)
         else
           let d = the dv; off_max = (if off_size \<le> 4 then 2 ^ 31 - 1 else 2 ^ 63 - 1) in
           if base > off_max \<or> int region_size > off_max - base then (- EINVAL, Some log, w)
           else if \<not> fa_ready api d w then (- ENODEV, Some log, w)
           else
             let write_block = fa_write_block api d w in
             if write_block = 0 \<or> BOOT_LOG_RECORD_SIZE mod write_block \<noteq> 0 \<or> base mod int write_block \<noteq> 0
               then (- ENOTSUP, Some log, w)
             else
               (case fa_params api d w of None \<Rightarrow> (- ENOTSUP, Some log, w)
                | Some erase_value \<Rightarrow>
                    let log = log\<lparr>bl_dev := Some d, bl_base := base, bl_region_size := region_size,
                                  bl_erase_value := erase_value\<rparr>;
                        capacity = region_size div BOOT_LOG_RECORD_SIZE
                    in case bl_scan api d [0..<capacity] log False w of (rc, log, w) \<Rightarrow>
                         if rc \<noteq> 0 then (rc, Some log, w)
                         else (0, Some (log\<lparr>bl_initialized := True\<rparr>), w))))"

definition boot_log_append :: "'w flash_api \<Rightarrow> boot_log option \<Rightarrow> u8 list option \<Rightarrow> 'w \<Rightarrow>
    int \<times> boot_log option \<times> 'w" where
  "boot_log_append api log rec w =
     (case (log, rec) of
        (Some l, Some record) \<Rightarrow>
          if \<not> bl_initialized l \<or> bl_dev l = None then (- EINVAL, log, w)
          else
            let d = the (bl_dev l) in
            if \<not> fa_ready api d w then (- ENODEV, log, w)
            else if is_erased record (bl_erase_value l) then (- EINVAL, log, w)
            else if bl_next_slot l \<ge> bl_region_size l div BOOT_LOG_RECORD_SIZE then (- ENOSPC, log, w)
            else
              let offset = bl_slot_offset l (bl_next_slot l) in
              case fa_read api d offset BOOT_LOG_RECORD_SIZE w of (rc, check1, w1) \<Rightarrow>
              if rc \<noteq> 0 then (rc, log, w1)
              else if \<not> is_erased check1 (bl_erase_value l)
                then (- EEXIST, Some (l\<lparr>bl_initialized := False\<rparr>), w1)
              else
                let l = l\<lparr>bl_initialized := False\<rparr> in
                case fa_write api d offset record w1 of (rc, w2) \<Rightarrow>
                if rc \<noteq> 0 then (rc, Some l, w2)
                else
                  case fa_read api d offset BOOT_LOG_RECORD_SIZE w2 of (rc, check2, w3) \<Rightarrow>
                  if rc \<noteq> 0 then (rc, Some l, w3)
                  else if take BOOT_LOG_RECORD_SIZE check2 \<noteq> take BOOT_LOG_RECORD_SIZE record
                    then (- EIO, Some l, w3)
                  else (0, Some (l\<lparr>bl_next_slot := bl_next_slot l + 1, bl_initialized := True\<rparr>), w3)
      | _ \<Rightarrow> (- EINVAL, log, w))"

definition boot_log_read_last :: "'w flash_api \<Rightarrow> boot_log option \<Rightarrow> u8 list option \<Rightarrow> 'w \<Rightarrow>
    int \<times> u8 list option \<times> 'w" where
  "boot_log_read_last api log out w =
     (case (log, out) of
        (Some l, Some old) \<Rightarrow>
          if \<not> bl_initialized l \<or> bl_dev l = None then (- EINVAL, out, w)
          else
            let d = the (bl_dev l) in
            if \<not> fa_ready api d w then (- ENODEV, out, w)
            else if bl_next_slot l = 0 then (- ENOENT, out, w)
            else
              case fa_read api d (bl_slot_offset l (bl_next_slot l - 1)) BOOT_LOG_RECORD_SIZE w of
                (rc, data, w) \<Rightarrow>
                  if rc \<noteq> 0 then (rc, Some data, w)
                  else (if is_erased data (bl_erase_value l) then - EIO else 0, Some data, w)
      | _ \<Rightarrow> (- EINVAL, out, w))"

section \<open>The abstract log: a list of records\<close>

definition bl_slot :: "(nat \<Rightarrow> u8) \<Rightarrow> nat \<Rightarrow> nat \<Rightarrow> u8 list" where
  "bl_slot c b i = mem_range c (b + i * 16) 16"

text \<open>\<open>bl_log c b cap e rs\<close>: the partition at byte \<open>b\<close> with \<open>cap\<close> slots holds the records \<open>rs\<close>,
  oldest first, in its first slots, and every later slot is erased.\<close>

definition bl_log :: "(nat \<Rightarrow> u8) \<Rightarrow> nat \<Rightarrow> nat \<Rightarrow> u8 \<Rightarrow> u8 list list \<Rightarrow> bool" where
  "bl_log c b cap e rs \<longleftrightarrow> length rs \<le> cap \<and>
     (\<forall>i < length rs. bl_slot c b i = rs ! i \<and> rs ! i \<noteq> replicate 16 e) \<and>
     (\<forall>i < cap. length rs \<le> i \<longrightarrow> bl_slot c b i = replicate 16 e)"

text \<open>The handle of an open log.\<close>

definition bl_open :: "boot_log \<Rightarrow> dev \<Rightarrow> nat \<Rightarrow> nat \<Rightarrow> u8 \<Rightarrow> nat \<Rightarrow> bool" where
  "bl_open l d b n e k \<longleftrightarrow> l = \<lparr>bl_dev = Some d, bl_base = int b, bl_region_size = n, bl_next_slot = k,
     bl_erase_value = e, bl_initialized = True\<rparr>"

lemma is_erased_iff: "length data = 16 \<Longrightarrow> is_erased data e \<longleftrightarrow> data = replicate 16 e"
  by (auto simp: is_erased_def list_all_iff list_eq_iff_nth_eq)

lemma length_bl_slot [simp]: "length (bl_slot c b i) = 16"
  by (simp add: bl_slot_def)

lemma is_erased_slot [simp]: "is_erased (bl_slot c b i) e \<longleftrightarrow> bl_slot c b i = replicate 16 e"
  by (simp add: is_erased_iff)

lemma bl_slot_frame:
  "same_outside (b + i * 16) 16 c c' \<Longrightarrow> j \<noteq> i \<Longrightarrow> bl_slot c' b j = bl_slot c b j"
  unfolding bl_slot_def by (erule mem_range_outside) linarith

lemma bl_log_length: "bl_log c b cap e rs \<Longrightarrow> bl_log c b cap e rs' \<Longrightarrow> length rs \<le> length rs'"
proof (rule ccontr)
  assume rs: "bl_log c b cap e rs" and rs': "bl_log c b cap e rs'" and "\<not> length rs \<le> length rs'"
  then have i: "length rs' < length rs" by simp
  then have "length rs' < cap" using rs by (simp add: bl_log_def)
  then have "bl_slot c b (length rs') = replicate 16 e" using rs' by (simp add: bl_log_def)
  then show False using i rs by (auto simp: bl_log_def)
qed

lemma bl_log_unique: "bl_log c b cap e rs \<Longrightarrow> bl_log c b cap e rs' \<Longrightarrow> rs = rs'"
  using bl_log_length [of c b cap e rs rs'] bl_log_length [of c b cap e rs' rs]
  by (intro nth_equalityI) (auto simp: bl_log_def)

section \<open>The driver contract\<close>

text \<open>
  The contract of the flash driver over the bytes from \<open>lo\<close> to \<open>hi\<close>.  A successful read returns
  the stored bytes.  A write is only promised anything when it starts at a multiple of the write
  block and its range is erased, as NOR flash requires; then it leaves every byte outside its range
  alone, whatever it reports and whatever it leaves inside (a partial programming, for instance).
\<close>

locale flash_driver =
  fixes api :: "'w flash_api"
    and contents :: "'w \<Rightarrow> nat \<Rightarrow> u8"
    and inv :: "'w \<Rightarrow> bool"
    and lo hi blk :: nat
    and erase :: u8
  assumes block_law: "inv w \<Longrightarrow> fa_write_block api d w = blk"
    and params_law: "inv w \<Longrightarrow> fa_params api d w = None \<or> fa_params api d w = Some erase"
    and read_law: "inv w \<Longrightarrow> lo \<le> off \<Longrightarrow> off + 16 \<le> hi \<Longrightarrow> fa_read api d (int off) 16 w = (rc, bs, w') \<Longrightarrow>
      inv w' \<and> contents w' = contents w \<and> (rc = 0 \<longrightarrow> bs = mem_range (contents w) off 16)"
    and write_law: "inv w \<Longrightarrow> lo \<le> off \<Longrightarrow> off + 16 \<le> hi \<Longrightarrow> length bs = 16 \<Longrightarrow> blk dvd off \<Longrightarrow>
      mem_range (contents w) off 16 = replicate 16 erase \<Longrightarrow> fa_write api d (int off) bs w = (rc, w') \<Longrightarrow>
      inv w' \<and> same_outside off 16 (contents w) (contents w')"
begin

lemma read_slot:
  assumes "inv w" "lo \<le> b" "b + n \<le> hi" "i < n div 16" "bl_base l = int b"
    "fa_read api d (bl_slot_offset l i) 16 w = (rc, bs, w')"
  shows "inv w'" "contents w' = contents w" "rc = 0 \<Longrightarrow> bs = bl_slot (contents w) b i"
proof -
  have "Suc i * 16 \<le> n div 16 * 16" using assms(4) by (intro mult_le_mono1) simp
  also have "\<dots> \<le> n" by (rule div_times_less_eq_dividend)
  finally have "i * 16 + 16 \<le> n" by simp
  then show "inv w'" "contents w' = contents w" "rc = 0 \<Longrightarrow> bs = bl_slot (contents w) b i"
    using read_law [of w "b + i * 16" d rc bs w'] assms by (auto simp: bl_slot_offset_def bl_slot_def)
qed

end

section \<open>Initialisation finds the end of the log\<close>

text \<open>After \<open>k\<close> slots of the scan: the next slot so far and whether an erased slot was seen.\<close>

lemma bl_scan_step:
  assumes "bl_log c b cap e rs" "k < cap"
  shows "bl_slot c b k = replicate 16 e \<longleftrightarrow> length rs \<le> k"
  using assms by (force simp: bl_log_def not_le)

context flash_driver begin

lemma bl_scan_log:
  assumes "inv w" "lo \<le> b" "b + n \<le> hi" "bl_log (contents w) b (n div 16) (bl_erase_value l) rs"
    and "bl_base l = int b" "k \<le> n div 16" "bl_next_slot l = min k (length rs)" "found = (length rs < k)"
    and "bl_scan api d [k..<n div 16] l found w = (rc, l', w')"
  shows "inv w' \<and> contents w' = contents w \<and> (rc = 0 \<longrightarrow> l' = l\<lparr>bl_next_slot := length rs\<rparr>) \<and>
    bl_initialized l' = bl_initialized l"
  using assms
proof (induction "n div 16 - k" arbitrary: k l found w)
  case 0
  then have "k = n div 16" by simp
  then show ?case using 0 by (auto simp: bl_log_def)
next
  case (Suc x)
  then have k: "k < n div 16" by simp
  obtain rc1 bs w1 where rd: "fa_read api d (bl_slot_offset l k) 16 w = (rc1, bs, w1)" by (metis prod_cases3)
  note w1 = read_slot [OF Suc.prems(1,2,3) k Suc.prems(5) rd]
  show ?case
  proof (cases "rc1 = 0")
    case False
    then show ?thesis using Suc.prems rd w1 k by (simp add: upt_conv_Cons)
  next
    case True
    have er: "is_erased bs (bl_erase_value l) \<longleftrightarrow> length rs \<le> k"
      using w1 True bl_scan_step [OF Suc.prems(4) k] by simp
    show ?thesis
    proof (cases "length rs \<le> k")
      case e: True
      then have "bl_scan api d [Suc k..<n div 16] l True w1 = (rc, l', w')"
        using Suc.prems(9) rd True er k by (simp add: upt_conv_Cons)
      then show ?thesis
        using Suc.hyps(1) [of "Suc k" w1 l True] Suc.hyps(2) Suc.prems w1 k e by auto
    next
      case ne: False
      let ?l = "l\<lparr>bl_next_slot := Suc k\<rparr>"
      have "bl_scan api d [Suc k..<n div 16] ?l found w1 = (rc, l', w')"
        using Suc.prems(8,9) rd True er k ne by (simp add: upt_conv_Cons)
      then show ?thesis
        using Suc.hyps(1) [of "Suc k" w1 ?l found] Suc.hyps(2) Suc.prems w1 k ne by auto
    qed
  qed
qed

lemma boot_log_init_log:
  assumes w: "inv w" "lo \<le> b" "b + n \<le> hi" "bl_log (contents w) b (n div 16) erase rs"
    and run: "boot_log_init api os (Some l0) (Some d) (int b) n w = (rc, log', w')"
  shows "inv w'" "contents w' = contents w"
    and "rc = 0 \<Longrightarrow> \<exists>l. log' = Some l \<and> bl_open l d b n erase (length rs)"
    and "rc \<noteq> 0 \<Longrightarrow> \<exists>l. log' = Some l \<and> \<not> bl_initialized l"
proof -
  let ?l = "bl_zero\<lparr>bl_dev := Some d, bl_base := int b, bl_region_size := n, bl_erase_value := erase\<rparr>"
  obtain rc1 l1 w1 where scan: "bl_scan api d [0..<n div 16] ?l False w = (rc1, l1, w1)" by (metis prod_cases3)
  have s: "inv w1 \<and> contents w1 = contents w \<and> (rc1 = 0 \<longrightarrow> l1 = ?l\<lparr>bl_next_slot := length rs\<rparr>) \<and> \<not> bl_initialized l1"
    using bl_scan_log [OF w(1,2,3), of ?l rs 0 False d] w(4) scan by (simp add: bl_zero_def)
  let ?X = "if rc1 \<noteq> 0 then (rc1, Some l1, w1) else (0, Some (l1\<lparr>bl_initialized := True\<rparr>), w1)"
  have "rc \<noteq> 0 \<and> log' = Some bl_zero \<and> w' = w \<or> (rc, log', w') = ?X"
  proof (cases "fa_params api d w")
    case None
    then show ?thesis using run by (simp add: boot_log_init_def Let_def split: if_split_asm)
  next
    case (Some e)
    then have "e = erase" using params_law [OF w(1), of d] by simp
    then show ?thesis using run Some
      by (simp only: boot_log_init_def Let_def option.case \<open>e = erase\<close> scan prod.case split: if_split_asm)
         (simp_all add: scan split: if_split_asm)
  qed
  then consider "rc \<noteq> 0" "log' = Some bl_zero" "w' = w"
    | "rc1 \<noteq> 0" "rc = rc1" "log' = Some l1" "w' = w1"
    | "rc = 0" "rc1 = 0" "log' = Some (l1\<lparr>bl_initialized := True\<rparr>)" "w' = w1"
    by (cases "rc1 = 0") auto
  note cases = this
  show "inv w'" using cases s w(1) by cases simp_all
  show "contents w' = contents w" using cases s w(1) by cases simp_all
  show "\<exists>l. log' = Some l \<and> bl_open l d b n erase (length rs)" if "rc = 0"
    using cases s that by cases (simp_all add: bl_open_def bl_zero_def)
  show "\<exists>l. log' = Some l \<and> \<not> bl_initialized l" if "rc \<noteq> 0"
    using cases s that by cases (simp_all add: bl_zero_def)
qed

end

section \<open>Appending\<close>

lemma bl_log_append:
  assumes log: "bl_log c b cap e rs" and room: "length rs < cap"
    and fr: "same_outside (b + length rs * 16) 16 c c'" and new: "bl_slot c' b (length rs) \<noteq> replicate 16 e"
  shows "bl_log c' b cap e (rs @ [bl_slot c' b (length rs)])"
proof -
  have keep: "bl_slot c' b i = bl_slot c b i" if "i \<noteq> length rs" for i
    by (rule bl_slot_frame [OF fr that])
  show ?thesis using log room new keep by (auto simp: bl_log_def nth_append less_Suc_eq)
qed

lemma bl_log_keep:
  assumes log: "bl_log c b cap e rs"
    and fr: "same_outside (b + length rs * 16) 16 c c'" and new: "bl_slot c' b (length rs) = replicate 16 e"
  shows "bl_log c' b cap e rs"
proof -
  have keep: "bl_slot c' b i = bl_slot c b i" if "i \<noteq> length rs" for i
    by (rule bl_slot_frame [OF fr that])
  have "bl_slot c' b i = replicate 16 e" if "i < cap" "length rs \<le> i" for i
    using log that new keep [of i] by (cases "i = length rs") (auto simp: bl_log_def)
  moreover have "bl_slot c' b i = rs ! i" if "i < length rs" for i
    using log that keep [of i] by (auto simp: bl_log_def)
  ultimately show ?thesis using log by (simp add: bl_log_def)
qed

context flash_driver begin

lemma append_run:
  assumes w: "inv w" "lo \<le> b" "b + n \<le> hi" "blk dvd b" "blk dvd 16" "bl_log (contents w) b (n div 16) erase rs"
    and l: "bl_open l d b n erase (length rs)" and r: "length r = 16"
    and run: "boot_log_append api (Some l) (Some r) w = (rc, log', w')"
  shows "inv w'"
    and "same_outside (b + length rs * 16) 16 (contents w) (contents w')"
    and "contents w' \<noteq> contents w \<Longrightarrow> length rs < n div 16"
    and "rc = 0 \<Longrightarrow> length rs < n div 16 \<and> r \<noteq> replicate 16 erase \<and> bl_slot (contents w') b (length rs) = r \<and>
      (\<exists>l'. log' = Some l' \<and> bl_open l' d b n erase (Suc (length rs)))"
proof -
  let ?off = "bl_slot_offset l (length rs)" and ?l = "l\<lparr>bl_initialized := False\<rparr>"
  have fields: "bl_dev l = Some d" "bl_base l = int b" "bl_region_size l = n" "bl_next_slot l = length rs"
    "bl_erase_value l = erase" "bl_initialized l"
    using l by (simp_all add: bl_open_def)
  obtain rc1 c1 w1 where R1: "fa_read api d ?off 16 w = (rc1, c1, w1)" by (metis prod_cases3)
  obtain rc2 w2 where W2: "fa_write api d ?off r w1 = (rc2, w2)" by fastforce
  obtain rc3 c3 w3 where R3: "fa_read api d ?off 16 w2 = (rc3, c3, w3)" by (metis prod_cases3)
  have e: "is_erased r erase \<longleftrightarrow> r = replicate 16 erase" using r by (rule is_erased_iff)
  have run': "(rc, log', w') =
     (if \<not> fa_ready api d w then (- ENODEV, Some l, w) else if r = replicate 16 erase then (- EINVAL, Some l, w)
      else if n div 16 \<le> length rs then (- ENOSPC, Some l, w) else if rc1 \<noteq> 0 then (rc1, Some l, w1)
      else if \<not> is_erased c1 erase then (- EEXIST, Some ?l, w1) else if rc2 \<noteq> 0 then (rc2, Some ?l, w2)
      else if rc3 \<noteq> 0 then (rc3, Some ?l, w3) else if take 16 c3 \<noteq> r then (- EIO, Some ?l, w3)
      else (0, Some (l\<lparr>bl_next_slot := Suc (length rs), bl_initialized := True\<rparr>), w3))"
    using run [symmetric] fields R1 W2 R3 r e
    by (simp add: boot_log_append_def Let_def split del: if_split cong: if_cong)
  show "contents w' \<noteq> contents w \<Longrightarrow> length rs < n div 16"
    using run' read_slot(2) [OF w(1,2,3) _ fields(2) R1] by (auto split: if_splits)
  have main: "inv w' \<and> same_outside (b + length rs * 16) 16 (contents w) (contents w') \<and>
      (rc = 0 \<longrightarrow> r \<noteq> replicate 16 erase \<and> bl_slot (contents w') b (length rs) = r)"
    if room: "length rs < n div 16"
  proof -
    note c1 = read_slot [OF w(1,2,3) room fields(2) R1]
    have "Suc (length rs) * 16 \<le> n div 16 * 16" using room by (intro mult_le_mono1) simp
    also have "\<dots> \<le> n" by (rule div_times_less_eq_dividend)
    finally have b16: "b + length rs * 16 + 16 \<le> hi" using w(3) by simp
    have er: "bl_slot (contents w) b (length rs) = replicate 16 erase" using w(6) room by (simp add: bl_log_def)
    have c2: "inv w2 \<and> same_outside (b + length rs * 16) 16 (contents w) (contents w2)"
      using write_law [OF c1(1) _ b16 r, of d rc2 w2] w(2,4,5) er c1(2) W2 fields
      by (simp add: bl_slot_offset_def bl_slot_def)
    note c3 = read_slot [OF _ w(2,3) room fields(2) R3]
    show ?thesis using run' c1 c2 c3 w(1) r by (auto split: if_splits)
  qed
  show "inv w'" "same_outside (b + length rs * 16) 16 (contents w) (contents w')"
    using main run' w(1) by (cases "length rs < n div 16"; auto split: if_splits)+
  show "length rs < n div 16 \<and> r \<noteq> replicate 16 erase \<and> bl_slot (contents w') b (length rs) = r \<and>
      (\<exists>l'. log' = Some l' \<and> bl_open l' d b n erase (Suc (length rs)))" if "rc = 0"
  proof -
    have room: "length rs < n div 16" using run' that by (auto split: if_splits)
    moreover have "log' = Some (l\<lparr>bl_next_slot := Suc (length rs), bl_initialized := True\<rparr>)"
      using run' that by (auto split: if_splits)
    ultimately show ?thesis using main that l by (auto simp: bl_open_def)
  qed
qed

end

text \<open>The partition fits the address range of \<open>off_t\<close> and starts at a write block.\<close>

definition bl_fits :: "nat \<Rightarrow> nat \<Rightarrow> nat \<Rightarrow> nat \<Rightarrow> nat \<Rightarrow> nat \<Rightarrow> bool" where
  "bl_fits blk lo hi os b n \<longleftrightarrow> 16 \<le> n \<and> n mod 16 = 0 \<and> blk dvd b \<and> lo \<le> b \<and> b + n \<le> hi \<and>
     int b + int n \<le> (if os \<le> 4 then 2 ^ 31 - 1 else 2 ^ 63 - 1)"

lemma is_erased_replicate [simp]: "is_erased (replicate 16 e) e"
  by (simp add: is_erased_iff)

section \<open>Outcomes of the operations\<close>

text \<open>What the partition holds after an append, however the append ended.\<close>

context flash_driver begin

lemma append_outcome:
  assumes w: "inv w" "lo \<le> b" "b + n \<le> hi" "blk dvd b" "blk dvd 16" "bl_log (contents w) b (n div 16) erase rs"
    and l: "bl_open l d b n erase (length rs)" and r: "length r = 16"
    and run: "boot_log_append api (Some l) (Some r) w = (rc, log', w')"
  shows "inv w'"
    and "rc = 0 \<Longrightarrow> bl_log (contents w') b (n div 16) erase (rs @ [r]) \<and>
      (\<exists>l'. log' = Some l' \<and> bl_open l' d b n erase (length (rs @ [r])))"
    and "\<exists>rs'. bl_log (contents w') b (n div 16) erase rs' \<and> (rs' = rs \<or> (\<exists>x. rs' = rs @ [x]))"
proof -
  note a = append_run [OF assms]
  show "inv w'" by (rule a(1))
  show "bl_log (contents w') b (n div 16) erase (rs @ [r]) \<and>
      (\<exists>l'. log' = Some l' \<and> bl_open l' d b n erase (length (rs @ [r])))" if "rc = 0"
    using a(4) [OF that] bl_log_append [OF w(6) _ a(2)] by auto
  show "\<exists>rs'. bl_log (contents w') b (n div 16) erase rs' \<and> (rs' = rs \<or> (\<exists>x. rs' = rs @ [x]))"
  proof (cases "contents w' = contents w")
    case True
    then show ?thesis using w(6) by auto
  next
    case False
    then show ?thesis
      using bl_log_append [OF w(6) a(3) a(2)] bl_log_keep [OF w(6) a(2)]
      by (cases "bl_slot (contents w') b (length rs) = replicate 16 erase") blast+
  qed
qed

end

text \<open>A device that works: ready, with a parameter block and a write block that divides the record
  size, serving every access.\<close>

locale flash_working = flash_driver +
  fixes ok :: "dev \<Rightarrow> 'a \<Rightarrow> bool"
  assumes ok_inv: "ok d w \<Longrightarrow> inv w"
    and ok_ready: "ok d w \<Longrightarrow> fa_ready api d w"
    and ok_params: "ok d w \<Longrightarrow> fa_params api d w = Some erase"
    and ok_block: "ok d w \<Longrightarrow> 0 < blk \<and> blk dvd 16"
    and ok_read: "ok d w \<Longrightarrow> lo \<le> off \<Longrightarrow> off + 16 \<le> hi \<Longrightarrow> fa_read api d (int off) 16 w = (rc, bs, w') \<Longrightarrow>
      rc = 0 \<and> ok d w'"
    and ok_write: "ok d w \<Longrightarrow> lo \<le> off \<Longrightarrow> off + 16 \<le> hi \<Longrightarrow> length bs = 16 \<Longrightarrow> blk dvd off \<Longrightarrow>
      mem_range (contents w) off 16 = replicate 16 erase \<Longrightarrow> fa_write api d (int off) bs w = (rc, w') \<Longrightarrow>
      rc = 0 \<and> ok d w' \<and> mem_range (contents w') off 16 = bs"
begin

lemma slot_in_range: "i < n div 16 \<Longrightarrow> b + n \<le> hi \<Longrightarrow> b + i * 16 + 16 \<le> hi"
proof -
  assume i: "i < n div 16" and h: "b + n \<le> hi"
  have "Suc i * 16 \<le> n div 16 * 16" using i by (intro mult_le_mono1) simp
  also have "\<dots> \<le> n" by (rule div_times_less_eq_dividend)
  finally show ?thesis using h by simp
qed

lemma read_ok:
  assumes "ok d w" "lo \<le> b" "b + n \<le> hi" "i < n div 16" "bl_base l = int b"
  shows "\<exists>w'. fa_read api d (bl_slot_offset l i) 16 w = (0, bl_slot (contents w) b i, w') \<and> ok d w' \<and>
    contents w' = contents w"
proof -
  obtain rc bs w' where rd: "fa_read api d (bl_slot_offset l i) 16 w = (rc, bs, w')" by (metis prod_cases3)
  have "fa_read api d (int (b + i * 16)) 16 w = (rc, bs, w')"
    using rd assms(5) by (simp add: bl_slot_offset_def)
  then have "rc = 0 \<and> ok d w'"
    using ok_read [OF assms(1) trans_le_add1 [OF assms(2)] slot_in_range [OF assms(4,3)]] by blast
  then show ?thesis using read_slot [OF ok_inv [OF assms(1)] assms(2-5) rd] rd by auto
qed

lemma bl_scan_ok:
  assumes "ok d w" "lo \<le> b" "b + n \<le> hi" "bl_log (contents w) b (n div 16) (bl_erase_value l) rs"
    and "bl_base l = int b" "k \<le> n div 16" "found = (length rs < k)"
  shows "\<exists>l' w'. bl_scan api d [k..<n div 16] l found w = (0, l', w') \<and> ok d w'"
  using assms
proof (induction "n div 16 - k" arbitrary: k l found w)
  case 0
  then show ?case by simp
next
  case (Suc x)
  then have k: "k < n div 16" by simp
  obtain w1 where rd: "fa_read api d (bl_slot_offset l k) 16 w = (0, bl_slot (contents w) b k, w1)"
    "ok d w1" "contents w1 = contents w"
    using read_ok [OF Suc.prems(1,2,3) k Suc.prems(5)] by blast
  note er = bl_scan_step [OF Suc.prems(4) k]
  show ?case
  proof (cases "length rs \<le> k")
    case True
    then show ?thesis using Suc.hyps(1) [of "Suc k" w1 l True] Suc.hyps(2) Suc.prems rd er k
      by (auto simp: upt_conv_Cons)
  next
    case False
    then show ?thesis
      using Suc.hyps(1) [of "Suc k" w1 "l\<lparr>bl_next_slot := Suc k\<rparr>" found] Suc.hyps(2) Suc.prems rd er k
      by (auto simp: upt_conv_Cons)
  qed
qed

lemma boot_log_init_ok:
  assumes w: "ok d w" and f: "bl_fits blk lo hi os b n" and log: "bl_log (contents w) b (n div 16) erase rs"
  shows "\<exists>l w'. boot_log_init api os (Some l0) (Some d) (int b) n w = (0, Some l, w') \<and> ok d w' \<and>
    contents w' = contents w \<and> bl_open l d b n erase (length rs)"
proof -
  let ?l = "bl_zero\<lparr>bl_dev := Some d, bl_base := int b, bl_region_size := n, bl_erase_value := erase\<rparr>"
  have f': "lo \<le> b" "b + n \<le> hi" "blk dvd b" "16 \<le> n" "n mod 16 = 0"
    "int b + int n \<le> (if os \<le> 4 then 2 ^ 31 - 1 else 2 ^ 63 - 1)"
    using f by (simp_all add: bl_fits_def)
  obtain l1 w1 where scan: "bl_scan api d [0..<n div 16] ?l False w = (0, l1, w1)" "ok d w1"
    using bl_scan_ok [OF w f'(1,2), of ?l rs 0 False] log by auto
  have blk: "fa_write_block api d w = blk" "0 < blk" "16 mod blk = 0" "int b mod int blk = 0"
    using block_law [OF ok_inv [OF w]] ok_block [OF w] f'(3) by (auto simp: dvd_eq_mod_eq_0 [symmetric])
  have pre: "\<not> int b > (if os \<le> 4 then 2 ^ 31 - 1 else 2 ^ 63 - 1)"
    "\<not> int n > (if os \<le> 4 then 2 ^ 31 - 1 else 2 ^ 63 - 1) - int b"
    using f'(6) by linarith+
  have run: "boot_log_init api os (Some l0) (Some d) (int b) n w = (0, Some (l1\<lparr>bl_initialized := True\<rparr>), w1)"
    using f'(4,5) pre blk ok_ready [OF w] ok_params [OF w] scan
    by (simp add: boot_log_init_def Let_def split del: if_split cong: if_cong)
  show ?thesis
    using boot_log_init_log(2,3) [OF ok_inv [OF w] f'(1,2) log run] run scan by auto
qed

lemma boot_log_append_ok:
  assumes w: "ok d w" and f: "bl_fits blk lo hi os b n" and log: "bl_log (contents w) b (n div 16) erase rs"
    and room: "length rs < n div 16" and l: "bl_open l d b n erase (length rs)"
    and r: "length r = 16" "r \<noteq> replicate 16 erase"
  shows "\<exists>l' w'. boot_log_append api (Some l) (Some r) w = (0, Some l', w') \<and> ok d w' \<and>
    bl_log (contents w') b (n div 16) erase (rs @ [r]) \<and> bl_open l' d b n erase (Suc (length rs))"
proof -
  have f': "lo \<le> b" "b + n \<le> hi" "blk dvd b" using f by (simp_all add: bl_fits_def)
  have fields: "bl_dev l = Some d" "bl_base l = int b" "bl_region_size l = n" "bl_next_slot l = length rs"
    "bl_erase_value l = erase" "bl_initialized l"
    using l by (simp_all add: bl_open_def)
  let ?off = "bl_slot_offset l (length rs)"
  have er: "bl_slot (contents w) b (length rs) = replicate 16 erase" using log room by (simp add: bl_log_def)
  obtain w1 where R1: "fa_read api d ?off 16 w = (0, replicate 16 erase, w1)" "ok d w1" "contents w1 = contents w"
    using read_ok [OF w f'(1,2) room fields(2)] er by auto
  obtain rc2 w2 where W2: "fa_write api d ?off r w1 = (rc2, w2)" by fastforce
  have off: "?off = int (b + length rs * 16)" using fields by (simp add: bl_slot_offset_def)
  have "blk dvd b + length rs * 16" using f'(3) ok_block [OF w] by (simp add: dvd_add dvd_mult)
  then have k2: "rc2 = 0" "ok d w2" "bl_slot (contents w2) b (length rs) = r"
    using ok_write [OF R1(2) trans_le_add1 [OF f'(1)] slot_in_range [OF room f'(2)] r(1) _ _ W2 [unfolded off]]
      er R1(3) by (auto simp: bl_slot_def)
  obtain w3 where R3: "fa_read api d ?off 16 w2 = (0, r, w3)" "ok d w3"
    using read_ok [OF k2(2) f'(1,2) room fields(2)] k2(3) by auto
  have run: "boot_log_append api (Some l) (Some r) w =
      (0, Some (l\<lparr>bl_next_slot := Suc (length rs), bl_initialized := True\<rparr>), w3)"
    using fields ok_ready [OF w] r room R1 W2 k2 R3 is_erased_iff [of "replicate 16 erase" erase]
    by (simp add: boot_log_append_def Let_def is_erased_iff not_le)
  show ?thesis
    using append_outcome(2) [OF ok_inv [OF w] f'(1,2,3) _ log l r(1) run] run R3 ok_block [OF w] by auto
qed

lemma boot_log_read_last_ok:
  assumes w: "ok d w" and f: "bl_fits blk lo hi os b n" and log: "bl_log (contents w) b (n div 16) erase rs"
    and l: "bl_open l d b n erase (length rs)"
  shows "\<exists>w'. ok d w' \<and> contents w' = contents w \<and> boot_log_read_last api (Some l) (Some old) w =
    (if rs = [] then (- ENOENT, Some old, w') else (0, Some (last rs), w'))"
proof (cases "rs = []")
  case True
  then show ?thesis using l w ok_ready [OF w] by (auto simp: boot_log_read_last_def bl_open_def)
next
  case False
  have f': "lo \<le> b" "b + n \<le> hi" using f by (simp_all add: bl_fits_def)
  have i: "length rs - 1 < n div 16" "length rs - 1 < length rs"
    using log False by (cases rs; simp add: bl_log_def)+
  have s: "bl_slot (contents w) b (length rs - 1) = last rs" "last rs \<noteq> replicate 16 erase"
    using log i False by (auto simp: bl_log_def last_conv_nth)
  have fields: "bl_dev l = Some d" "bl_base l = int b" "bl_next_slot l = length rs"
    "bl_erase_value l = erase" "bl_initialized l"
    using l by (simp_all add: bl_open_def)
  obtain w1 where R1: "fa_read api d (bl_slot_offset l (length rs - 1)) 16 w = (0, last rs, w1)"
    "ok d w1" "contents w1 = contents w"
    using read_ok [OF w f' i(1) fields(2)] s by auto
  have "length (last rs) = 16" using s(1) length_bl_slot by metis
  then show ?thesis using R1 fields False s ok_ready [OF w]
    by (auto simp: boot_log_read_last_def Let_def is_erased_iff)
qed

end

end
