(* ===== verification/Flash_Double.thy ===== *)
theory Flash_Double
  imports Boot_Log
begin

text \<open>
  The flash mock of labs/lab23_flash_boot_event_logger_zephyr/tests/host_contract.c, the driver the
  repository runs the boot logger against: a partition between two guard zones, with controls that
  fail a read, fail a write, program only some bytes or lose one.  It is the provider of the
  contracts \<open>flash_driver\<close> and \<open>flash_working\<close>.  The CHECK macros, which stop the test, and the
  query counters have no counterpart.
\<close>

record flash_mock =
  fm_ready :: bool
  fm_write_block :: nat
  fm_erase_value :: u8
  fm_parameters_available :: bool
  fm_base :: nat
  fm_region_size :: nat
  fm_bytes :: "u8 list"
  fm_reads :: nat
  fm_fail_read_call :: nat
  fm_read_error :: int
  fm_write_error :: int
  fm_program_bytes :: nat
  fm_corrupt_byte :: nat

abbreviation (input) GUARD_SIZE :: nat where "GUARD_SIZE \<equiv> 32"
abbreviation (input) MAX_REGION_SIZE :: nat where "MAX_REGION_SIZE \<equiv> 4096"

definition fm_reset :: "nat \<Rightarrow> nat \<Rightarrow> nat \<Rightarrow> u8 \<Rightarrow> flash_mock" where
  "fm_reset base region_size block erase =
     \<lparr>fm_ready = True, fm_write_block = block, fm_erase_value = erase, fm_parameters_available = True,
      fm_base = base, fm_region_size = region_size,
      fm_bytes = replicate GUARD_SIZE 0xa5 @ replicate region_size erase @
        replicate (MAX_REGION_SIZE - region_size + GUARD_SIZE) 0xa5,
      fm_reads = 0, fm_fail_read_call = 0, fm_read_error = - EIO, fm_write_error = 0,
      fm_program_bytes = 16, fm_corrupt_byte = 16\<rparr>"

definition fm_start :: "flash_mock \<Rightarrow> int \<Rightarrow> nat" where
  "fm_start w offset = GUARD_SIZE + nat (offset - int (fm_base w))"

definition fm_read :: "int \<Rightarrow> nat \<Rightarrow> flash_mock \<Rightarrow> int \<times> u8 list \<times> flash_mock" where
  "fm_read offset n w =
     (let start = fm_start w offset; w = w\<lparr>fm_reads := fm_reads w + 1\<rparr> in
      if fm_fail_read_call w = fm_reads w then (fm_read_error w, [], w)
      else (0, take n (drop start (fm_bytes w)), w))"

definition fm_write :: "int \<Rightarrow> u8 list \<Rightarrow> flash_mock \<Rightarrow> int \<times> flash_mock" where
  "fm_write offset data w =
     (let start = fm_start w offset;
          new = take (fm_program_bytes w) data;
          bytes = take start (fm_bytes w) @ new @ drop (start + length new) (fm_bytes w);
          bytes = (if fm_corrupt_byte w < length data
                   then bytes[start + fm_corrupt_byte w := fm_erase_value w] else bytes)
      in (fm_write_error w, w\<lparr>fm_bytes := bytes\<rparr>))"

definition fm_api :: "flash_mock flash_api" where
  "fm_api = \<lparr>fa_ready = (\<lambda>d w. fm_ready w), fa_write_block = (\<lambda>d w. fm_write_block w),
     fa_params = (\<lambda>d w. if fm_parameters_available w then Some (fm_erase_value w) else None),
     fa_read = (\<lambda>d. fm_read), fa_write = (\<lambda>d. fm_write)\<rparr>"

definition fm_contents :: "flash_mock \<Rightarrow> nat \<Rightarrow> u8" where
  "fm_contents w i = (if fm_base w \<le> i \<and> i < fm_base w + MAX_REGION_SIZE then fm_bytes w ! (GUARD_SIZE + (i - fm_base w)) else 0)"

definition fm_inv :: "nat \<Rightarrow> nat \<Rightarrow> nat \<Rightarrow> u8 \<Rightarrow> flash_mock \<Rightarrow> bool" where
  "fm_inv lo hi blk e w \<longleftrightarrow> fm_base w = lo \<and> hi \<le> lo + MAX_REGION_SIZE \<and>
     length (fm_bytes w) = 2 * GUARD_SIZE + MAX_REGION_SIZE \<and> fm_write_block w = blk \<and>
     fm_erase_value w = e \<and> fm_read_error w \<noteq> 0"

definition fm_ok :: "nat \<Rightarrow> nat \<Rightarrow> nat \<Rightarrow> u8 \<Rightarrow> dev \<Rightarrow> flash_mock \<Rightarrow> bool" where
  "fm_ok lo hi blk e d w \<longleftrightarrow> fm_inv lo hi blk e w \<and> fm_ready w \<and> fm_parameters_available w \<and> 0 < blk \<and>
     blk dvd 16 \<and> fm_fail_read_call w = 0 \<and> fm_write_error w = 0 \<and> 16 \<le> fm_program_bytes w \<and>
     16 \<le> fm_corrupt_byte w"

lemma fm_range:
  assumes "fm_inv lo hi blk e w" "lo \<le> off" "off + 16 \<le> hi"
  shows "mem_range (fm_contents w) off 16 = take 16 (drop (32 + (off - lo)) (fm_bytes w))"
proof -
  have "32 + (off - lo) + i = 32 + (off + i - lo)" if "i < 16" for i using assms(2) that by simp
  then show ?thesis using assms by (auto simp: list_eq_iff_nth_eq fm_inv_def fm_contents_def)
qed

lemma fm_start_at: "fm_base w = lo \<Longrightarrow> lo \<le> off \<Longrightarrow> fm_start w (int off) = 32 + (off - lo)"
  by (simp add: fm_start_def nat_diff_distrib flip: of_nat_diff)

lemma fm_write_bytes:
  assumes w: "fm_inv lo hi blk e w" "lo \<le> off" "off + 16 \<le> hi" "length data = 16"
    and run: "fm_write (int off) data w = (rc, w')"
  shows "fm_inv lo hi blk e w'" "same_outside off 16 (fm_contents w) (fm_contents w')"
    and "fm_ok lo hi blk e d w \<Longrightarrow> rc = 0 \<and> fm_ok lo hi blk e d w' \<and> mem_range (fm_contents w') off 16 = data"
proof -
  let ?s = "32 + (off - lo)" and ?new = "take (fm_program_bytes w) data"
  let ?b1 = "take ?s (fm_bytes w) @ ?new @ drop (?s + length ?new) (fm_bytes w)"
  let ?b2 = "if fm_corrupt_byte w < length data then ?b1[?s + fm_corrupt_byte w := fm_erase_value w] else ?b1"
  have s: "?s + 16 \<le> length (fm_bytes w)" "length ?new \<le> 16" using w by (auto simp: fm_inv_def)
  have st: "fm_start w (int off) = ?s" using w by (simp add: fm_start_at fm_inv_def)
  have w': "w' = w\<lparr>fm_bytes := ?b2\<rparr>" "rc = fm_write_error w"
    using run unfolding fm_write_def Let_def st by (simp_all split del: if_split cong: if_cong)
  have l1: "length ?b1 = length (fm_bytes w)" using s by simp
  then show i: "fm_inv lo hi blk e w'" using w w' by (simp add: fm_inv_def)
  have out: "?b2 ! k = fm_bytes w ! k" if "k < ?s \<or> ?s + 16 \<le> k" "k < length (fm_bytes w)" for k
  proof -
    have "?b1 ! k = fm_bytes w ! k" using that s by (auto simp: nth_append)
    moreover have "fm_corrupt_byte w < length data \<Longrightarrow> k \<noteq> ?s + fm_corrupt_byte w" using that w(4) by auto
    ultimately show ?thesis by (cases "fm_corrupt_byte w < length data") (simp_all del: append_assoc)
  qed
  show "same_outside off 16 (fm_contents w) (fm_contents w')"
    unfolding same_outside_def
  proof (intro allI impI)
    fix k assume k: "k < off \<or> off + 16 \<le> k"
    show "fm_contents w' k = fm_contents w k"
    proof (cases "lo \<le> k \<and> k < lo + 4096")
      case True
      then have "32 + (k - lo) < ?s \<or> ?s + 16 \<le> 32 + (k - lo)" "32 + (k - lo) < length (fm_bytes w)"
        using k w by (auto simp: fm_inv_def)
      from out [OF this] show ?thesis using True w(1) w'(1)
        by (simp add: fm_contents_def fm_inv_def del: append_assoc)
    next
      case False
      then show ?thesis using w(1) w'(1) by (auto simp: fm_contents_def fm_inv_def)
    qed
  qed
  show "rc = 0 \<and> fm_ok lo hi blk e d w' \<and> mem_range (fm_contents w') off 16 = data" if ok: "fm_ok lo hi blk e d w"
  proof -
    have "?b2 = take ?s (fm_bytes w) @ data @ drop (?s + 16) (fm_bytes w)"
      using ok w(4) by (simp add: fm_ok_def)
    then have b: "fm_bytes w' = take ?s (fm_bytes w) @ data @ drop (?s + 16) (fm_bytes w)"
      using w'(1) by simp
    have "mem_range (fm_contents w') off 16 = data"
      unfolding fm_range [OF i w(2,3)] b using s w(4) by simp
    moreover have "fm_ok lo hi blk e d w'" using ok i w'(1) by (simp add: fm_ok_def)
    ultimately show ?thesis using ok w'(2) by (simp add: fm_ok_def)
  qed
qed

lemma fm_read_bytes:
  assumes w: "fm_inv lo hi blk e w" "lo \<le> off" "off + 16 \<le> hi" and run: "fm_read (int off) 16 w = (rc, bs, w')"
  shows "fm_inv lo hi blk e w'" "fm_contents w' = fm_contents w"
    "rc = 0 \<Longrightarrow> bs = mem_range (fm_contents w) off 16"
    "fm_ok lo hi blk e d w \<Longrightarrow> rc = 0 \<and> fm_ok lo hi blk e d w'"
proof -
  have st: "fm_start w (int off) = 32 + (off - lo)" using w by (simp add: fm_start_at fm_inv_def)
  have c: "fm_contents (w\<lparr>fm_reads := k\<rparr>) = fm_contents w" for k by (simp add: fm_contents_def fun_eq_iff)
  have r: "(rc, bs, w') = (if fm_fail_read_call w = fm_reads w + 1 then (fm_read_error w, [], w\<lparr>fm_reads := fm_reads w + 1\<rparr>)
      else (0, mem_range (fm_contents w) off 16, w\<lparr>fm_reads := fm_reads w + 1\<rparr>))"
    using run fm_range [OF w] by (simp add: fm_read_def Let_def st split: if_splits)
  show "fm_inv lo hi blk e w'" "fm_contents w' = fm_contents w"
    using r w(1) c by (auto simp: fm_inv_def split: if_splits)
  show "rc = 0 \<Longrightarrow> bs = mem_range (fm_contents w) off 16"
    using r w(1) by (auto simp: fm_inv_def split: if_splits)
  show "fm_ok lo hi blk e d w \<Longrightarrow> rc = 0 \<and> fm_ok lo hi blk e d w'"
    using r by (auto simp: fm_ok_def fm_inv_def split: if_splits)
qed

interpretation fm: flash_working fm_api fm_contents "fm_inv lo hi blk e" lo hi blk e "fm_ok lo hi blk e"
  for lo hi blk e
proof
  fix w off d rc bs w'
  assume "fm_inv lo hi blk e w" "lo \<le> off" "off + 16 \<le> hi" "fa_read fm_api d (int off) 16 w = (rc, bs, w')"
  then show "fm_inv lo hi blk e w' \<and> fm_contents w' = fm_contents w \<and> (rc = 0 \<longrightarrow> bs = mem_range (fm_contents w) off 16)"
    using fm_read_bytes(1,2,3) [of lo hi blk e w off rc bs w'] by (simp add: fm_api_def)
next
  fix w off bs d rc w'
  assume "fm_inv lo hi blk e w" "lo \<le> off" "off + 16 \<le> hi" "length bs = 16" "fa_write fm_api d (int off) bs w = (rc, w')"
  then show "fm_inv lo hi blk e w' \<and> same_outside off 16 (fm_contents w) (fm_contents w')"
    using fm_write_bytes(1,2) [of lo hi blk e w off bs rc w'] by (simp add: fm_api_def)
next
  fix d w off rc bs w'
  assume "fm_ok lo hi blk e d w" "lo \<le> off" "off + 16 \<le> hi" "fa_read fm_api d (int off) 16 w = (rc, bs, w')"
  then show "rc = 0 \<and> fm_ok lo hi blk e d w'"
    using fm_read_bytes(4) [of lo hi blk e w off rc bs w' d] by (simp add: fm_api_def fm_ok_def)
next
  fix d w off bs rc w'
  assume "fm_ok lo hi blk e d w" "lo \<le> off" "off + 16 \<le> hi" "length bs = 16" "fa_write fm_api d (int off) bs w = (rc, w')"
  then show "rc = 0 \<and> fm_ok lo hi blk e d w' \<and> mem_range (fm_contents w') off 16 = bs"
    using fm_write_bytes(3) [of lo hi blk e w off bs rc w' d] by (simp add: fm_api_def fm_ok_def)
qed (auto simp: fm_api_def fm_inv_def fm_ok_def)

text \<open>A freshly erased partition.\<close>

lemma fm_reset_ok:
  "0 < block \<Longrightarrow> block dvd 16 \<Longrightarrow> n \<le> 4096 \<Longrightarrow> fm_ok lo (lo + n) block e d (fm_reset lo n block e)"
  by (simp add: fm_ok_def fm_inv_def fm_reset_def)

lemma fm_reset_empty: "n \<le> 4096 \<Longrightarrow> bl_log (fm_contents (fm_reset lo n block e)) lo (n div 16) e []"
proof -
  assume n: "n \<le> 4096"
  have "bl_slot (fm_contents (fm_reset lo n block e)) lo i = replicate 16 e" if "i < n div 16" for i
  proof -
    have "Suc i * 16 \<le> n div 16 * 16" using that by (intro mult_le_mono1) simp
    also have "\<dots> \<le> n" by (rule div_times_less_eq_dividend)
    finally show ?thesis using n
      by (auto simp: bl_slot_def mem_range_eq_iff fm_contents_def fm_reset_def nth_append)
  qed
  then show ?thesis by (simp add: bl_log_def)
qed

end
