(* ===== verification/Boot_Log_Main.thy ===== *)
theory Boot_Log_Main
  imports Flash_Double
begin

text \<open>
  labs/lab23_flash_boot_event_logger_zephyr/src/main.c, the boot sequence that opens the log, appends
  two events and checks them after a second recovery, and the properties of the boot logger.  The
  program parks at its end and in \<open>halt_lab\<close>; the model returns the globals it parks with.
\<close>

section \<open>The boot sequence\<close>

datatype lab23_stage =
  LAB23_STAGE_RESET | LAB23_STAGE_INIT | LAB23_STAGE_EMPTY_CHECK | LAB23_STAGE_APPEND_FIRST |
  LAB23_STAGE_APPEND_SECOND | LAB23_STAGE_RECOVER | LAB23_STAGE_READ_LAST | LAB23_STAGE_DONE |
  LAB23_STAGE_ERROR

definition g_record_a :: "u8 list" where
  "g_record_a = [0x42, 0x4f, 0x4f, 0x54, 0x01, 0x00, 0x00, 0x01, 0x11, 0x22, 0x33, 0x44, 0x55, 0x66, 0x77, 0x88]"

definition g_record_b :: "u8 list" where
  "g_record_b = [0x42, 0x4f, 0x4f, 0x54, 0x02, 0x00, 0x00, 0x02, 0x99, 0xaa, 0xbb, 0xcc, 0xdd, 0xee, 0xf0, 0x0f]"

record lab23 =
  g23_log :: boot_log
  g23_recovered_log :: boot_log
  g_lab23_stage :: lab23_stage
  g_lab23_failed_stage :: lab23_stage
  g23_init_rc :: int
  g23_empty_rc :: int
  g23_append_a_rc :: int
  g23_append_b_rc :: int
  g23_recover_rc :: int
  g23_read_last_rc :: int
  g23_compare_rc :: int
  g23_initial_next_slot :: nat
  g23_recovered_next_slot :: nat
  g23_capacity_slots :: nat
  g23_erase_value :: u8
  g23_last_record :: "u8 list"

definition lab23_reset :: lab23 where
  "lab23_reset = \<lparr>g23_log = bl_zero, g23_recovered_log = bl_zero, g_lab23_stage = LAB23_STAGE_RESET,
     g_lab23_failed_stage = LAB23_STAGE_RESET, g23_init_rc = - 999, g23_empty_rc = - 999,
     g23_append_a_rc = - 999, g23_append_b_rc = - 999, g23_recover_rc = - 999, g23_read_last_rc = - 999,
     g23_compare_rc = - 999, g23_initial_next_slot = 0, g23_recovered_next_slot = 0,
     g23_capacity_slots = 0, g23_erase_value = 0, g23_last_record = replicate 16 0\<rparr>"

definition lab23_fail :: "lab23 \<Rightarrow> lab23" where
  "lab23_fail g = g\<lparr>g_lab23_failed_stage := g_lab23_stage g, g_lab23_stage := LAB23_STAGE_ERROR\<rparr>"

text \<open>memcmp: the sign of the first difference.\<close>

fun memcmp :: "u8 list \<Rightarrow> u8 list \<Rightarrow> int" where
  "memcmp (x # xs) (y # ys) = (if x = y then memcmp xs ys else if x < y then - 1 else 1)"
| "memcmp _ _ = 0"

text \<open>The second half of main, from TEST4 on.  \<open>last_record\<close> is the local buffer \<open>last\<close>.\<close>

definition lab23_recover :: "'w flash_api \<Rightarrow> nat \<Rightarrow> dev \<Rightarrow> int \<Rightarrow> nat \<Rightarrow> u8 list \<Rightarrow> lab23 \<Rightarrow> 'w \<Rightarrow> lab23 \<times> 'w" where
  "lab23_recover api os d base bytes last_record g w =
     (let g = g\<lparr>g_lab23_stage := LAB23_STAGE_RECOVER\<rparr> in
      case boot_log_init api os (Some (g23_recovered_log g)) (Some d) base bytes w of (rc, log, w) \<Rightarrow>
      let g = g\<lparr>g23_recover_rc := rc, g23_recovered_log := the log\<rparr> in
      if g23_recover_rc g \<noteq> 0 \<or> bl_next_slot (g23_recovered_log g) \<noteq> g23_initial_next_slot g + 2
        then (lab23_fail g, w) else
      let g = g\<lparr>g23_recovered_next_slot := bl_next_slot (g23_recovered_log g),
                g_lab23_stage := LAB23_STAGE_READ_LAST\<rparr> in
      case boot_log_read_last api (Some (g23_recovered_log g)) (Some last_record) w of (rc, out, w) \<Rightarrow>
      let last_record = the out; g = g\<lparr>g23_read_last_rc := rc\<rparr> in
      if g23_read_last_rc g \<noteq> 0 then (lab23_fail g, w) else
      let g = g\<lparr>g23_compare_rc := memcmp last_record g_record_b, g23_last_record := last_record\<rparr> in
      if g23_compare_rc g \<noteq> 0 then (lab23_fail g, w)
      else (g\<lparr>g_lab23_stage := LAB23_STAGE_DONE\<rparr>, w))"

definition lab23_append_both :: "'w flash_api \<Rightarrow> nat \<Rightarrow> dev \<Rightarrow> int \<Rightarrow> nat \<Rightarrow> u8 list \<Rightarrow> lab23 \<Rightarrow> 'w \<Rightarrow> lab23 \<times> 'w" where
  "lab23_append_both api os d base bytes last_record g w =
     (let g = g\<lparr>g_lab23_stage := LAB23_STAGE_APPEND_FIRST\<rparr> in
      case boot_log_append api (Some (g23_log g)) (Some g_record_a) w of (rc, log, w) \<Rightarrow>
      let g = g\<lparr>g23_append_a_rc := rc, g23_log := the log\<rparr> in
      if g23_append_a_rc g \<noteq> 0 then (lab23_fail g, w) else
      let g = g\<lparr>g_lab23_stage := LAB23_STAGE_APPEND_SECOND\<rparr> in
      case boot_log_append api (Some (g23_log g)) (Some g_record_b) w of (rc, log, w) \<Rightarrow>
      let g = g\<lparr>g23_append_b_rc := rc, g23_log := the log\<rparr> in
      if g23_append_b_rc g \<noteq> 0 then (lab23_fail g, w) else
      lab23_recover api os d base bytes last_record g w)"

text \<open>\<open>d\<close>, \<open>base\<close> and \<open>bytes\<close> are the flash device and the partition of the devicetree;
  \<open>last_record\<close> is the uninitialised local buffer.  size_t subtraction wraps at 32 bits.\<close>

definition lab23_main :: "'w flash_api \<Rightarrow> nat \<Rightarrow> dev \<Rightarrow> int \<Rightarrow> nat \<Rightarrow> u8 list \<Rightarrow> lab23 \<Rightarrow> 'w \<Rightarrow> lab23 \<times> 'w" where
  "lab23_main api os d base bytes last_record g w =
     (let g = g\<lparr>g_lab23_failed_stage := LAB23_STAGE_RESET, g_lab23_stage := LAB23_STAGE_INIT\<rparr> in
      case boot_log_init api os (Some (g23_log g)) (Some d) base bytes w of (rc, log, w) \<Rightarrow>
      let g = g\<lparr>g23_init_rc := rc, g23_log := the log\<rparr> in
      if g23_init_rc g \<noteq> 0 then (lab23_fail g, w) else
      let g = g\<lparr>g23_initial_next_slot := bl_next_slot (g23_log g),
                g23_capacity_slots := bl_region_size (g23_log g) div BOOT_LOG_RECORD_SIZE,
                g23_erase_value := bl_erase_value (g23_log g),
                g_lab23_stage := LAB23_STAGE_EMPTY_CHECK\<rparr>
      in case (if bl_next_slot (g23_log g) = 0
               then boot_log_read_last api (Some (g23_log g)) (Some last_record) w
               else (g23_empty_rc g, Some last_record, w)) of (rc, out, w) \<Rightarrow>
      let last_record = the out; g = g\<lparr>g23_empty_rc := rc\<rparr> in
      if bl_next_slot (g23_log g) = 0 \<and> g23_empty_rc g \<noteq> - ENOENT then (lab23_fail g, w)
      else if (int (g23_capacity_slots g) - int (g23_initial_next_slot g)) mod 2 ^ 32 < 2
        then (lab23_fail g, w)
      else lab23_append_both api os d base bytes last_record g w)"

lemma records [simp]: "length g_record_a = 16" "length g_record_b = 16"
  by (simp_all add: g_record_a_def g_record_b_def)

lemma records_programmed: "g_record_a \<noteq> replicate 16 e" "g_record_b \<noteq> replicate 16 e"
proof -
  have "replicate 16 e ! 0 = replicate 16 e ! 1" by simp
  moreover have "g_record_a ! 0 \<noteq> g_record_a ! 1" "g_record_b ! 0 \<noteq> g_record_b ! 1"
    by (simp_all add: g_record_a_def g_record_b_def)
  ultimately show "g_record_a \<noteq> replicate 16 e" "g_record_b \<noteq> replicate 16 e" by metis+
qed

lemma memcmp_same [simp]: "memcmp xs xs = 0"
  by (induction xs) auto

context flash_working begin

lemma lab23_main_works:
  assumes w: "ok d w" and f: "bl_fits blk lo hi os b n" and log: "bl_log (contents w) b (n div 16) erase rs"
    and room: "length rs + 2 \<le> n div 16" and n: "n div 16 < 2 ^ 32"
  shows "\<exists>g' w'. lab23_main api os d (int b) n buf g w = (g', w') \<and> g_lab23_stage g' = LAB23_STAGE_DONE \<and>
    g23_last_record g' = g_record_b \<and> ok d w' \<and>
    bl_log (contents w') b (n div 16) erase (rs @ [g_record_a, g_record_b])"
proof -
  obtain l w1 where s1: "boot_log_init api os (Some (g23_log g)) (Some d) (int b) n w = (0, Some l, w1)"
    "ok d w1" "contents w1 = contents w" "bl_open l d b n erase (length rs)"
    using boot_log_init_ok [OF w f log] by blast
  have fields: "bl_next_slot l = length rs" "bl_region_size l = n" "bl_erase_value l = erase"
    using s1(4) by (simp_all add: bl_open_def)
  obtain w2 where s2: "ok d w2" "contents w2 = contents w" "boot_log_read_last api (Some l) (Some buf) w1 =
      (if rs = [] then (- ENOENT, Some buf, w2) else (0, Some (last rs), w2))"
    using boot_log_read_last_ok [OF s1(2) f _ s1(4), of buf] log s1(3) by auto
  let ?w = "if rs = [] then w2 else w1"
  have w3: "ok d ?w" "bl_log (contents ?w) b (n div 16) erase rs" using s1 s2 log by auto
  obtain la w4 where s3: "boot_log_append api (Some l) (Some g_record_a) ?w = (0, Some la, w4)" "ok d w4"
    "bl_log (contents w4) b (n div 16) erase (rs @ [g_record_a])" "bl_open la d b n erase (length (rs @ [g_record_a]))"
    using boot_log_append_ok [OF w3(1) f w3(2) _ s1(4) records(1) records_programmed(1)] room by auto
  obtain lb w5 where s4: "boot_log_append api (Some la) (Some g_record_b) w4 = (0, Some lb, w5)" "ok d w5"
    "bl_log (contents w5) b (n div 16) erase (rs @ [g_record_a, g_record_b])"
    using boot_log_append_ok [OF s3(2) f s3(3) _ s3(4) records(2) records_programmed(2)] room by auto
  obtain l2 w6 where s5: "boot_log_init api os (Some (g23_recovered_log g)) (Some d) (int b) n w5 = (0, Some l2, w6)"
    "ok d w6" "contents w6 = contents w5" "bl_open l2 d b n erase (length (rs @ [g_record_a, g_record_b]))"
    using boot_log_init_ok [OF s4(2) f s4(3)] by blast
  obtain w7 where s6: "ok d w7" "contents w7 = contents w5"
    "boot_log_read_last api (Some l2) (Some buf) w6 = (0, Some g_record_b, w7)"
    using boot_log_read_last_ok [OF s5(2) f _ s5(4), of buf] s4(3) s5(3) by auto
  have l2: "bl_next_slot l2 = length rs + 2" using s5(4) by (simp add: bl_open_def)
  have "(int (n div 16) - int (length rs)) mod 2 ^ 32 = int (n div 16) - int (length rs)"
    using room n by (intro mod_pos_pos_trivial) auto
  then have fit: "\<not> (int (n div 16) - int (length rs)) mod 2 ^ 32 < 2" using room by simp
  have rec: "\<exists>g'. lab23_recover api os d (int b) n buf h w5 = (g', w7) \<and> g_lab23_stage g' = LAB23_STAGE_DONE \<and>
      g23_last_record g' = g_record_b"
    if "g23_recovered_log h = g23_recovered_log g" "g23_initial_next_slot h = length rs" for h
    using that s5(1) s6(3) l2 by (simp add: lab23_recover_def)
  have app: "\<exists>g'. lab23_append_both api os d (int b) n buf h ?w = (g', w7) \<and> g_lab23_stage g' = LAB23_STAGE_DONE \<and>
      g23_last_record g' = g_record_b"
    if "g23_recovered_log h = g23_recovered_log g" "g23_initial_next_slot h = length rs" "g23_log h = l" for h
    using that s3(1) s4(1) by (simp add: lab23_append_both_def Let_def rec)
  have "\<exists>g'. lab23_main api os d (int b) n buf g w = (g', w7) \<and> g_lab23_stage g' = LAB23_STAGE_DONE \<and>
      g23_last_record g' = g_record_b"
  proof (cases "rs = []")
    case True
    then show ?thesis using s1(1) s2(3) fields fit app
      by (simp add: lab23_main_def Let_def)
  next
    case False
    then show ?thesis using s1(1) fields fit app
      by (simp add: lab23_main_def Let_def)
  qed
  then show ?thesis using s6 s4(3) by metis
qed

end

section \<open>Which partitions are accepted\<close>

definition scan_prefix :: "(nat \<Rightarrow> u8) \<Rightarrow> nat \<Rightarrow> u8 \<Rightarrow> nat \<Rightarrow> nat \<Rightarrow> bool" where
  "scan_prefix c b e k m \<longleftrightarrow> m \<le> k \<and> (\<forall>i < m. bl_slot c b i \<noteq> replicate 16 e) \<and>
     (\<forall>i < k. m \<le> i \<longrightarrow> bl_slot c b i = replicate 16 e)"

lemma scan_prefix_log: "scan_prefix c b e cap m \<Longrightarrow> bl_log c b cap e (map (bl_slot c b) [0..<m])"
  by (simp add: scan_prefix_def bl_log_def)

context flash_driver begin

lemma bl_scan_accepts:
  assumes "inv w" "lo \<le> b" "b + n \<le> hi" "bl_base l = int b" "k \<le> n div 16"
    and "scan_prefix (contents w) b (bl_erase_value l) k m" "found = (m < k)" "bl_next_slot l = m"
    and "bl_scan api d [k..<n div 16] l found w = (0, l', w')"
  shows "\<exists>rs. bl_log (contents w) b (n div 16) (bl_erase_value l) rs"
  using assms
proof (induction "n div 16 - k" arbitrary: k l found w m)
  case 0
  then have "k = n div 16" by simp
  then show ?case using 0 scan_prefix_log [of "contents w" b "bl_erase_value l" "n div 16" m] by auto
next
  case (Suc x)
  then have k: "k < n div 16" by simp
  obtain rc1 bs w1 where rd: "fa_read api d (bl_slot_offset l k) 16 w = (rc1, bs, w1)" by (metis prod_cases3)
  note w1 = read_slot [OF Suc.prems(1,2,3) k Suc.prems(4) rd]
  have rc1: "rc1 = 0" using Suc.prems(9) rd k by (auto simp: upt_conv_Cons split: if_splits)
  let ?er = "bl_slot (contents w) b k = replicate 16 (bl_erase_value l)"
  show ?case
  proof (cases ?er)
    case True
    then have "bl_scan api d [Suc k..<n div 16] l True w1 = (0, l', w')"
      using Suc.prems(9) rd rc1 w1 k by (simp add: upt_conv_Cons)
    moreover have "scan_prefix (contents w) b (bl_erase_value l) (Suc k) m"
      using Suc.prems(6) True by (auto simp: scan_prefix_def less_Suc_eq)
    moreover have "m < Suc k" using Suc.prems(6) by (simp add: scan_prefix_def)
    ultimately show ?thesis
      using Suc.hyps(1) [of "Suc k" w1 l m True] Suc.hyps(2) Suc.prems w1 k by simp
  next
    case False
    then have nf: "\<not> found" "m = k" using Suc.prems(6,7,9) rd rc1 w1 k
      by (auto simp: upt_conv_Cons scan_prefix_def split: if_splits)
    let ?l = "l\<lparr>bl_next_slot := Suc k\<rparr>"
    have "bl_scan api d [Suc k..<n div 16] ?l False w1 = (0, l', w')"
      using Suc.prems(9) rd rc1 w1 k False nf by (simp add: upt_conv_Cons)
    moreover have "scan_prefix (contents w) b (bl_erase_value l) (Suc k) (Suc k)"
      using Suc.prems(6) False nf by (auto simp: scan_prefix_def less_Suc_eq)
    ultimately show ?thesis
      using Suc.hyps(1) [of "Suc k" w1 ?l "Suc k" False] Suc.hyps(2) Suc.prems w1 k by simp
  qed
qed

end

context flash_working begin

lemma bl_scan_rc:
  assumes "ok d w" "lo \<le> b" "b + n \<le> hi" "bl_base l = int b" "set is \<subseteq> {..<n div 16}"
  shows "\<exists>rc l' w'. bl_scan api d is l found w = (rc, l', w') \<and> (rc = 0 \<or> rc = - EILSEQ) \<and> contents w' = contents w"
  using assms
proof (induction "is" arbitrary: l found w)
  case Nil
  then show ?case by simp
next
  case (Cons k ks)
  then obtain w1 where "fa_read api d (bl_slot_offset l k) 16 w = (0, bl_slot (contents w) b k, w1)"
    "ok d w1" "contents w1 = contents w"
    using read_ok [of d w b n k l] by auto
  then show ?case
    using Cons.IH [of w1 l True] Cons.IH [of w1 "l\<lparr>bl_next_slot := Suc k\<rparr>" found] Cons.prems by auto
qed

lemma boot_log_init_iff:
  assumes w: "ok d w" and f: "bl_fits blk lo hi os b n"
    and run: "boot_log_init api os (Some l0) (Some d) (int b) n w = (rc, log', w')"
  shows "contents w' = contents w" "rc = 0 \<or> rc = - EILSEQ"
    and "rc = 0 \<longleftrightarrow> (\<exists>rs. bl_log (contents w) b (n div 16) erase rs)"
proof -
  let ?l = "bl_zero\<lparr>bl_dev := Some d, bl_base := int b, bl_region_size := n, bl_erase_value := erase\<rparr>"
  have f': "lo \<le> b" "b + n \<le> hi" "blk dvd b" "16 \<le> n" "n mod 16 = 0"
    "int b + int n \<le> (if os \<le> 4 then 2 ^ 31 - 1 else 2 ^ 63 - 1)"
    using f by (simp_all add: bl_fits_def)
  obtain rc1 l1 w1 where scan: "bl_scan api d [0..<n div 16] ?l False w = (rc1, l1, w1)"
    "rc1 = 0 \<or> rc1 = - EILSEQ" "contents w1 = contents w"
    using bl_scan_rc [OF w f'(1,2), of ?l "[0..<n div 16]" False]
    by (auto simp: lessThan_atLeast0)
  have blk: "fa_write_block api d w = blk" "0 < blk" "16 mod blk = 0" "int b mod int blk = 0"
    using block_law [OF ok_inv [OF w]] ok_block [OF w] f'(3) by (auto simp: dvd_eq_mod_eq_0 [symmetric])
  have pre: "\<not> int b > (if os \<le> 4 then 2 ^ 31 - 1 else 2 ^ 63 - 1)"
    "\<not> int n > (if os \<le> 4 then 2 ^ 31 - 1 else 2 ^ 63 - 1) - int b"
    using f'(6) by linarith+
  have eq: "boot_log_init api os (Some l0) (Some d) (int b) n w =
      (if rc1 \<noteq> 0 then (rc1, Some l1, w1) else (0, Some (l1\<lparr>bl_initialized := True\<rparr>), w1))"
    using f'(4,5) pre blk ok_ready [OF w] ok_params [OF w] scan
    by (simp add: boot_log_init_def Let_def split del: if_split cong: if_cong)
  show "contents w' = contents w" "rc = 0 \<or> rc = - EILSEQ"
    using run scan unfolding eq by (auto split: if_splits)
  have "rc1 = 0 \<Longrightarrow> \<exists>rs. bl_log (contents w) b (n div 16) erase rs"
    using bl_scan_accepts [OF ok_inv [OF w] f'(1,2), of ?l 0 0 False d l1 w1] scan by (simp add: scan_prefix_def bl_zero_def)
  moreover have "rc = rc1" using run unfolding eq by (auto split: if_splits)
  moreover have "bl_log (contents w) b (n div 16) erase rs \<Longrightarrow> rc = 0" for rs
    using boot_log_init_ok [OF w f, of rs l0] run by auto
  ultimately show "rc = 0 \<longleftrightarrow> (\<exists>rs. bl_log (contents w) b (n div 16) erase rs)" by blast
qed

end

section \<open>Properties\<close>

text \<open>C3.  An append never costs the log an earlier event.  Whatever the append reports, a recovery
  from the bytes it left succeeds on a working device and finds the earlier records, followed at
  most by one more; if the append reported success, that one is the appended record.\<close>

theorem boot_log_crash_safe:
  assumes drv: "flash_working api contents I lo hi blk erase ok" and f: "bl_fits blk lo hi os b n"
    and w: "I w" "bl_log (contents w) b (n div 16) erase rs" "bl_open l d b n erase (length rs)" "length r = 16"
    and app: "boot_log_append api (Some l) (Some r) w = (rc, log', w1)"
    and reboot: "ok d w2" "contents w2 = contents w1"
  shows "\<exists>rs' l2 w3. (rs' = rs @ [r] \<or> rc \<noteq> 0 \<and> (rs' = rs \<or> (\<exists>x. rs' = rs @ [x]))) \<and>
    boot_log_init api os (Some l0) (Some d) (int b) n w2 = (0, Some l2, w3) \<and>
    bl_log (contents w3) b (n div 16) erase rs' \<and> bl_open l2 d b n erase (length rs')"
proof -
  have f': "lo \<le> b" "b + n \<le> hi" "blk dvd b" using f by (simp_all add: bl_fits_def)
  have blk: "blk dvd 16" using flash_working.ok_block [OF drv reboot(1)] by simp
  note out = flash_driver.append_outcome [OF flash_working.axioms(1) [OF drv] w(1) f' blk w(2-4) app]
  obtain rs' where rs': "bl_log (contents w2) b (n div 16) erase rs'"
    "rs' = rs @ [r] \<or> rc \<noteq> 0 \<and> (rs' = rs \<or> (\<exists>x. rs' = rs @ [x]))"
    using out(2,3) reboot(2) by (cases "rc = 0") auto
  show ?thesis using flash_working.boot_log_init_ok [OF drv reboot(1) f rs'(1), of l0] rs' by metis
qed

text \<open>C25.  On a working device an append to an open log with room succeeds, and
  \<open>boot_log_read_last\<close> then returns the record.\<close>

theorem boot_log_append_then_read:
  assumes drv: "flash_working api contents I lo hi blk erase ok" and f: "bl_fits blk lo hi os b n"
    and w: "ok d w" "bl_log (contents w) b (n div 16) erase rs" "bl_open l d b n erase (length rs)"
    and r: "length r = 16" "r \<noteq> replicate 16 erase" and room: "length rs < n div 16"
  shows "\<exists>l' w' w''. boot_log_append api (Some l) (Some r) w = (0, Some l', w') \<and>
    boot_log_read_last api (Some l') (Some old) w' = (0, Some r, w'') \<and>
    bl_log (contents w'') b (n div 16) erase (rs @ [r]) \<and> bl_open l' d b n erase (length (rs @ [r]))"
proof -
  obtain l' w' where a: "boot_log_append api (Some l) (Some r) w = (0, Some l', w')" "ok d w'"
    "bl_log (contents w') b (n div 16) erase (rs @ [r])" "bl_open l' d b n erase (length (rs @ [r]))"
    using flash_working.boot_log_append_ok [OF drv w(1) f w(2) room w(3) r] by auto
  show ?thesis using flash_working.boot_log_read_last_ok [OF drv a(2) f a(3,4), of old] a by force
qed

text \<open>C28.  Recovery accepts exactly the partitions without a hole: on a working device
  \<open>boot_log_init\<close> succeeds if and only if the programmed slots precede the erased ones, and reports
  -EILSEQ otherwise; it writes nothing.\<close>

theorem boot_log_init_accepts_iff:
  assumes "flash_working api contents I lo hi blk erase ok" "ok d w" "bl_fits blk lo hi os b n"
    and "boot_log_init api os (Some l0) (Some d) (int b) n w = (rc, log', w')"
  shows "contents w' = contents w \<and>
    rc = (if \<exists>rs. bl_log (contents w) b (n div 16) erase rs then 0 else - EILSEQ)"
  using flash_working.boot_log_init_iff [OF assms] by auto

text \<open>Note.  No blind retry: if a failed append has changed the device, its handle is refused by every
  later append and read, without device access, until it is initialised again.\<close>

theorem boot_log_failure_locks:
  assumes drv: "flash_driver api contents I lo hi blk erase"
    and w: "I w" "lo \<le> b" "b + n \<le> hi" "bl_log (contents w) b (n div 16) erase rs"
      "bl_open l d b n erase (length rs)"
    and app: "boot_log_append api (Some l) (Some r) w = (rc, log', w')" "rc \<noteq> 0" "contents w' \<noteq> contents w"
  shows "boot_log_append api log' r2 w2 = (- EINVAL, log', w2) \<and>
    boot_log_read_last api log' out w2 = (- EINVAL, out, w2)"
proof -
  have base: "bl_base l = int b" "bl_next_slot l = length rs" "bl_dev l = Some d" "bl_region_size l = n"
    using w(5) by (simp_all add: bl_open_def)
  have "log' = Some (l\<lparr>bl_initialized := False\<rparr>)"
  proof (rule ccontr)
    assume "\<not> ?thesis"
    then have "\<exists>bs. fa_read api d (bl_slot_offset l (length rs)) 16 w = (rc, bs, w') \<and> length rs < n div 16"
      using app base by (auto simp: boot_log_append_def Let_def split: prod.splits if_split_asm)
    then show False
      using flash_driver.read_slot(2) [OF drv w(1-3) _ base(1)] app(3) by blast
  qed
  then show ?thesis
    by (simp add: boot_log_append_def boot_log_read_last_def split: option.split)
qed

text \<open>Note.  The boot sequence of main reaches LAB23_STAGE_DONE on a working device whose log has room
  for two events, and leaves both events in the log.\<close>

theorem lab23_main_done:
  assumes "flash_working api contents I lo hi blk erase ok" "ok d w" "bl_fits blk lo hi os b n"
    and "bl_log (contents w) b (n div 16) erase rs" "length rs + 2 \<le> n div 16" "n div 16 < 2 ^ 32"
  shows "\<exists>g' w'. lab23_main api os d (int b) n buf g w = (g', w') \<and> g_lab23_stage g' = LAB23_STAGE_DONE \<and>
    g23_last_record g' = g_record_b \<and>
    bl_log (contents w') b (n div 16) erase (rs @ [g_record_a, g_record_b])"
  using flash_working.lab23_main_works [OF assms, of buf g] by blast

section \<open>Witnesses on the flash mock\<close>

text \<open>The default partition of the host contract: 96 bytes at offset 64, write block 4.\<close>

definition fm_default :: flash_mock where
  "fm_default = fm_reset 64 96 4 255"

definition fresh_boot_log :: boot_log where
  "fresh_boot_log = \<lparr>bl_dev = Some 0, bl_base = 64, bl_region_size = 96, bl_next_slot = 0,
     bl_erase_value = 255, bl_initialized = True\<rparr>"

lemma fm_working: "flash_working fm_api fm_contents (fm_inv 64 160 4 255) 64 160 4 255 (fm_ok 64 160 4 255)"
  by (rule fm.flash_working_axioms)

lemma fm_driver: "flash_driver fm_api fm_contents (fm_inv 64 160 4 255) 64 160 4 255"
  by (rule fm.flash_driver_axioms)

lemma default_facts:
  "fm_ok 64 160 4 255 0 fm_default" "bl_fits 4 64 160 4 64 96" "bl_log (fm_contents fm_default) 64 (96 div 16) 255 []"
  "bl_open fresh_boot_log 0 64 96 255 (length ([] :: u8 list list))"
  using fm_reset_ok [of 4 96 64 255 0] fm_reset_empty [of 96 64 4 255]
  by (simp_all add: fm_default_def bl_fits_def bl_open_def fresh_boot_log_def)

text \<open>A device that programs five bytes of a record and then fails.\<close>

definition fm_torn :: flash_mock where
  "fm_torn = fm_default\<lparr>fm_program_bytes := 5, fm_write_error := - EIO\<rparr>"

definition fm_repair :: "flash_mock \<Rightarrow> flash_mock" where
  "fm_repair w = w\<lparr>fm_ready := True, fm_parameters_available := True, fm_fail_read_call := 0,
     fm_write_error := 0, fm_program_bytes := 16, fm_corrupt_byte := 16\<rparr>"

lemma fm_repair_ok: "fm_inv lo hi 4 e w \<Longrightarrow> fm_ok lo hi 4 e d (fm_repair w) \<and> fm_contents (fm_repair w) = fm_contents w"
  by (auto simp: fm_ok_def fm_inv_def fm_repair_def fm_contents_def fun_eq_iff)

lemma torn_facts: "fm_inv 64 160 4 255 fm_torn" "bl_log (fm_contents fm_torn) 64 (96 div 16) 255 []"
proof -
  show "fm_inv 64 160 4 255 fm_torn" using default_facts(1) by (simp add: fm_ok_def fm_inv_def fm_torn_def)
  have "fm_contents fm_torn = fm_contents fm_default" by (simp add: fm_contents_def fm_torn_def fun_eq_iff)
  then show "bl_log (fm_contents fm_torn) 64 (96 div 16) 255 []" using default_facts(3) by simp
qed

lemma torn_append:
  "\<exists>w1. boot_log_append fm_api (Some fresh_boot_log) (Some g_record_a) fm_torn =
      (- EIO, Some (fresh_boot_log\<lparr>bl_initialized := False\<rparr>), w1) \<and>
    fm_contents w1 64 = 0x42 \<and> fm_contents fm_torn 64 = 255"
proof -
  have e: "\<not> is_erased g_record_a 255" by (simp add: is_erased_iff records_programmed)
  have "fm_bytes fm_torn = replicate 32 0xa5 @ replicate 96 255 @ replicate 4032 0xa5"
    by (simp add: fm_torn_def fm_default_def fm_reset_def)
  then show ?thesis using e
    by (simp add: boot_log_append_def fresh_boot_log_def fm_api_def fm_torn_def fm_default_def fm_reset_def
        bl_slot_offset_def fm_read_def fm_start_def fm_write_def Let_def fm_contents_def nth_append g_record_a_def)
qed

lemma boot_log_crash_safe_witness:
  "\<exists>w1 rs' l2 w3. boot_log_append fm_api (Some fresh_boot_log) (Some g_record_a) fm_torn =
      (- EIO, Some (fresh_boot_log\<lparr>bl_initialized := False\<rparr>), w1) \<and>
    boot_log_init fm_api 4 (Some bl_zero) (Some 0) 64 96 (fm_repair w1) = (0, Some l2, w3) \<and>
    bl_log (fm_contents w3) 64 6 255 rs'"
proof -
  obtain w1 where w1: "boot_log_append fm_api (Some fresh_boot_log) (Some g_record_a) fm_torn =
      (- EIO, Some (fresh_boot_log\<lparr>bl_initialized := False\<rparr>), w1)" using torn_append by blast
  have "fm_inv 64 160 4 255 w1"
    using fm.append_outcome(1) [OF torn_facts(1) _ _ _ _ torn_facts(2) default_facts(4) records(1) w1] by simp
  note r = fm_repair_ok [OF this, of 0]
  show ?thesis
    using boot_log_crash_safe [OF fm_working default_facts(2) torn_facts default_facts(4) records(1) w1
        conjunct1 [OF r] conjunct2 [OF r], of bl_zero] w1 by fastforce
qed

lemma boot_log_append_then_read_witness:
  "\<exists>l' w' w''. boot_log_append fm_api (Some fresh_boot_log) (Some g_record_a) fm_default = (0, Some l', w') \<and>
    boot_log_read_last fm_api (Some l') (Some []) w' = (0, Some g_record_a, w'')"
  using boot_log_append_then_read [OF fm_working default_facts(2,1,3,4) records(1) records_programmed(1), of "[]"]
  by auto

lemma boot_log_init_accepts_iff_witness:
  "\<exists>log' w'. boot_log_init fm_api 4 (Some bl_zero) (Some 0) 64 96 fm_default = (0, log', w') \<and>
    fm_contents w' = fm_contents fm_default"
proof -
  obtain rc log' w' where run: "boot_log_init fm_api 4 (Some bl_zero) (Some 0) (int 64) 96 fm_default = (rc, log', w')"
    by (metis prod_cases3)
  then show ?thesis
    using boot_log_init_accepts_iff [OF fm_working default_facts(1,2) run] default_facts(3) by auto
qed

lemma boot_log_failure_locks_witness:
  "\<exists>log' w1. boot_log_append fm_api (Some fresh_boot_log) (Some g_record_a) fm_torn = (- EIO, log', w1) \<and>
    boot_log_append fm_api log' (Some g_record_b) w1 = (- EINVAL, log', w1)"
proof -
  obtain w1 where w1: "boot_log_append fm_api (Some fresh_boot_log) (Some g_record_a) fm_torn =
      (- EIO, Some (fresh_boot_log\<lparr>bl_initialized := False\<rparr>), w1)" "fm_contents w1 \<noteq> fm_contents fm_torn"
    using torn_append by force
  show ?thesis
    using boot_log_failure_locks [OF fm_driver torn_facts(1) _ _ torn_facts(2) default_facts(4) w1(1) _ w1(2)] w1(1)
    by auto
qed

lemma lab23_main_done_witness:
  "\<exists>g' w'. lab23_main fm_api 4 0 64 96 [] lab23_reset fm_default = (g', w') \<and>
    g_lab23_stage g' = LAB23_STAGE_DONE \<and>
    bl_log (fm_contents w') 64 6 255 [g_record_a, g_record_b]"
  using lab23_main_done [OF fm_working default_facts(1,2,3), of "[]" lab23_reset] by auto

end
