(* ===== verification/Watchdog.thy ===== *)
theory Watchdog
  imports Prelude
begin

text \<open>
  labs/lab25_watchdog_heartbeat_zephyr/src/watchdog_supervisor.c: a supervisor that feeds the
  hardware watchdog only when every task has reported since the last feed.  The kernel (mutex,
  interrupt query) and the watchdog driver are Zephyr's and are a parameter (\<open>wdt_api\<close>); the
  mutex itself lives in the world.
\<close>

section \<open>Data\<close>

abbreviation (input) WATCHDOG_TASK_COUNT :: nat where "WATCHDOG_TASK_COUNT \<equiv> 2"
abbreviation (input) WATCHDOG_REQUIRED_MASK :: u8 where "WATCHDOG_REQUIRED_MASK \<equiv> 3"
abbreviation (input) WATCHDOG_TIMEOUT_MS :: nat where "WATCHDOG_TIMEOUT_MS \<equiv> 2000"
abbreviation (input) WATCHDOG_SERVICE_WAITING :: int where "WATCHDOG_SERVICE_WAITING \<equiv> 1"

datatype watchdog_state = WATCHDOG_UNINITIALIZED | WATCHDOG_RUNNING | WATCHDOG_FAULTED

record watchdog_ctx =
  wd_dev :: "dev option"
  wd_channel_id :: int
  wd_reported_mask :: u8
  wd_state :: watchdog_state

text \<open>The timeout configuration: window.min, window.max, callback is NULL, the reset flag.\<close>

record wdt_timeout_cfg =
  wc_min :: nat
  wc_max :: nat
  wc_callback_null :: bool
  wc_reset_soc :: bool

record 'w wdt_api =
  wk_ready :: "dev \<Rightarrow> 'w \<Rightarrow> bool"
  wk_in_isr :: "'w \<Rightarrow> bool"
  wk_mutex_init :: "'w \<Rightarrow> int \<times> 'w"
  wk_mutex_lock :: "'w \<Rightarrow> int \<times> 'w"
  wk_mutex_unlock :: "'w \<Rightarrow> 'w"
  wk_install_timeout :: "dev \<Rightarrow> wdt_timeout_cfg \<Rightarrow> 'w \<Rightarrow> int \<times> 'w"
  wk_setup :: "dev \<Rightarrow> u8 \<Rightarrow> 'w \<Rightarrow> int \<times> 'w"
  wk_feed :: "dev \<Rightarrow> int \<Rightarrow> 'w \<Rightarrow> int \<times> 'w"

section \<open>Operations\<close>

definition watchdog_cfg :: wdt_timeout_cfg where
  "watchdog_cfg = \<lparr>wc_min = 0, wc_max = WATCHDOG_TIMEOUT_MS, wc_callback_null = True, wc_reset_soc = True\<rparr>"

definition watchdog_init :: "'w wdt_api \<Rightarrow> watchdog_ctx option \<Rightarrow> dev option \<Rightarrow> 'w \<Rightarrow>
    int \<times> watchdog_ctx option \<times> 'w" where
  "watchdog_init api ctx dv w =
     (case (ctx, dv) of
        (Some c, Some d) \<Rightarrow>
          if wk_in_isr api w then (- EWOULDBLOCK, ctx, w)
          else if wd_state c \<noteq> WATCHDOG_UNINITIALIZED then (- EALREADY, ctx, w)
          else if \<not> wk_ready api d w then (- ENODEV, ctx, w)
          else case wk_mutex_init api w of (rc, w) \<Rightarrow>
            if rc \<noteq> 0 then (rc, ctx, w)
            else
              let c = c\<lparr>wd_dev := Some d, wd_channel_id := - 1, wd_reported_mask := 0,
                        wd_state := WATCHDOG_FAULTED\<rparr>
              in case wk_install_timeout api d watchdog_cfg w of (rc, w) \<Rightarrow>
                if rc < 0 then (rc, Some c, w)
                else
                  let c = c\<lparr>wd_channel_id := rc\<rparr>
                  in case wk_setup api d 0 w of (rc, w) \<Rightarrow>
                    if rc \<noteq> 0 then (rc, Some c, w)
                    else (0, Some (c\<lparr>wd_state := WATCHDOG_RUNNING\<rparr>), w)
      | _ \<Rightarrow> (- EINVAL, ctx, w))"

definition watchdog_report :: "'w wdt_api \<Rightarrow> watchdog_ctx option \<Rightarrow> nat \<Rightarrow> 'w \<Rightarrow>
    int \<times> watchdog_ctx option \<times> 'w" where
  "watchdog_report api ctx task_id w =
     (case ctx of None \<Rightarrow> (- EINVAL, ctx, w)
      | Some c \<Rightarrow>
        if wd_dev c = None \<or> task_id \<ge> WATCHDOG_TASK_COUNT then (- EINVAL, ctx, w)
        else if wk_in_isr api w then (- EWOULDBLOCK, ctx, w)
        else case wk_mutex_lock api w of (rc, w) \<Rightarrow>
          if rc \<noteq> 0 then (rc, ctx, w)
          else
            case (if wd_state c \<noteq> WATCHDOG_RUNNING then (- EIO, c)
                  else (0, c\<lparr>wd_reported_mask := wd_reported_mask c OR push_bit task_id 1\<rparr>)) of
              (rc, c) \<Rightarrow> (rc, Some c, wk_mutex_unlock api w))"

definition watchdog_service :: "'w wdt_api \<Rightarrow> watchdog_ctx option \<Rightarrow> 'w \<Rightarrow>
    int \<times> watchdog_ctx option \<times> 'w" where
  "watchdog_service api ctx w =
     (case ctx of None \<Rightarrow> (- EINVAL, ctx, w)
      | Some c \<Rightarrow>
        (case wd_dev c of None \<Rightarrow> (- EINVAL, ctx, w)
         | Some d \<Rightarrow>
           if wk_in_isr api w then (- EWOULDBLOCK, ctx, w)
           else case wk_mutex_lock api w of (rc, w) \<Rightarrow>
             if rc \<noteq> 0 then (rc, ctx, w)
             else
               case (if wd_state c \<noteq> WATCHDOG_RUNNING then (- EIO, c, w)
                     else if wd_reported_mask c \<noteq> WATCHDOG_REQUIRED_MASK
                       then (WATCHDOG_SERVICE_WAITING, c, w)
                     else
                       case wk_feed api d (wd_channel_id c) w of (rc, w) \<Rightarrow>
                         if rc = 0 then (rc, c\<lparr>wd_reported_mask := 0\<rparr>, w)
                         else (rc, c\<lparr>wd_state := WATCHDOG_FAULTED\<rparr>, w)) of
                 (rc, c, w) \<Rightarrow> (rc, Some c, wk_mutex_unlock api w)))"

section \<open>Sequences of calls\<close>

text \<open>
  The body of every call runs under the mutex, so concurrent callers are sequences of whole calls.
  \<open>wd_run\<close> runs a sequence and collects the result codes.
\<close>

datatype wd_call = Report nat | Service

definition wd_call :: "'w wdt_api \<Rightarrow> wd_call \<Rightarrow> watchdog_ctx option \<Rightarrow> 'w \<Rightarrow> int \<times> watchdog_ctx option \<times> 'w" where
  "wd_call api call ctx w =
     (case call of Report i \<Rightarrow> watchdog_report api ctx i w | Service \<Rightarrow> watchdog_service api ctx w)"

fun wd_run :: "'w wdt_api \<Rightarrow> wd_call list \<Rightarrow> watchdog_ctx option \<Rightarrow> 'w \<Rightarrow> int list \<times> watchdog_ctx option \<times> 'w" where
  "wd_run api [] ctx w = ([], ctx, w)"
| "wd_run api (call # calls) ctx w =
     (case wd_call api call ctx w of (rc, ctx, w) \<Rightarrow>
      case wd_run api calls ctx w of (rcs, ctx, w) \<Rightarrow> (rc # rcs, ctx, w))"

text \<open>The number of reports of a task that were accepted.\<close>

definition accepted :: "nat \<Rightarrow> wd_call list \<Rightarrow> int list \<Rightarrow> nat" where
  "accepted i calls rcs = length (filter (\<lambda>(c, rc). c = Report i \<and> rc = 0) (zip calls rcs))"

text \<open>One feed may still follow from a report that was accepted before.\<close>

definition wd_credit :: "watchdog_ctx \<Rightarrow> nat \<Rightarrow> nat" where
  "wd_credit c i = of_bool (wd_state c = WATCHDOG_RUNNING \<and> bit (wd_reported_mask c) i)"

text \<open>
  The contract: the kernel calls leave the feed counter of the hardware alone and each call of the
  driver's feed is one feed attempt.
\<close>

locale wdt_kernel =
  fixes api :: "'w wdt_api" and feeds :: "'w \<Rightarrow> nat"
  assumes lock_law: "wk_mutex_lock api w = (rc, w') \<Longrightarrow> feeds w' = feeds w"
    and unlock_law: "feeds (wk_mutex_unlock api w) = feeds w"
    and feed_law: "wk_feed api d ch w = (rc, w') \<Longrightarrow> feeds w' = Suc (feeds w)"
begin

lemma report_cases:
  assumes "watchdog_report api (Some c) i w = (rc, ctx', w')"
  shows "feeds w' = feeds w \<and>
    (if rc = 0 then i < 2 \<and> wd_state c = WATCHDOG_RUNNING \<and>
       ctx' = Some (c\<lparr>wd_reported_mask := wd_reported_mask c OR 2 ^ i\<rparr>)
     else ctx' = Some c)"
  using assms lock_law [of w] unlock_law
  by (auto simp: watchdog_report_def split: prod.splits if_split_asm)

lemma service_cases:
  assumes "watchdog_service api (Some c) w = (rc, ctx', w')"
  shows "(feeds w' = feeds w \<and> ctx' = Some c \<and> rc \<noteq> 0) \<or>
    (feeds w' = Suc (feeds w) \<and> wd_state c = WATCHDOG_RUNNING \<and> wd_reported_mask c = 3 \<and>
      ctx' = Some (if rc = 0 then c\<lparr>wd_reported_mask := 0\<rparr> else c\<lparr>wd_state := WATCHDOG_FAULTED\<rparr>))"
  using assms lock_law [of w] unlock_law feed_law
  by (auto simp: watchdog_service_def split: prod.splits if_split_asm option.splits)

lemma report_bit: "j < 2 \<Longrightarrow> bit (m OR 2 ^ j :: u8) i \<longleftrightarrow> bit m i \<or> i = j"
  by (auto simp: bit_simps)

lemma required_bits: "i < 2 \<Longrightarrow> bit (3 :: u8) i"
  by (drule less_2_cases) (elim disjE; simp add: bit_numeral_rec bit_1_iff)

lemma feeds_bounded_by_reports:
  assumes "wd_run api calls (Some c) w = (rcs, ctx', w')" "i < 2"
  shows "\<exists>c'. ctx' = Some c' \<and> feeds w' + wd_credit c' i \<le> feeds w + wd_credit c i + accepted i calls rcs"
  using assms
proof (induction calls arbitrary: c w rcs)
  case Nil
  then show ?case by auto
next
  case (Cons call calls)
  obtain rc ctx1 w1 where one: "wd_call api call (Some c) w = (rc, ctx1, w1)" by (metis prod_cases3)
  obtain rcs1 where rest: "wd_run api calls ctx1 w1 = (rcs1, ctx', w')" "rcs = rc # rcs1"
    using Cons.prems(1) one by (auto split: prod.splits)
  have "\<exists>c1. ctx1 = Some c1 \<and> feeds w1 + wd_credit c1 i \<le> feeds w + wd_credit c i + of_bool (call = Report i \<and> rc = 0)"
  proof (cases call)
    case (Report j)
    note r = report_cases [OF one [unfolded wd_call_def Report wd_call.case]]
    show ?thesis
    proof (cases "rc = 0")
      case True
      then show ?thesis using r Report by (auto simp: wd_credit_def report_bit)
    next
      case False
      then show ?thesis using r by simp
    qed
  next
    case Service
    note s = service_cases [OF one [unfolded wd_call_def Service wd_call.case]]
    show ?thesis
    proof (cases "feeds w1 = feeds w")
      case True
      then show ?thesis using s by simp
    next
      case False
      then have "wd_state c = WATCHDOG_RUNNING" "wd_reported_mask c = 3" "feeds w1 = Suc (feeds w)"
        "ctx1 = Some (if rc = 0 then c\<lparr>wd_reported_mask := 0\<rparr> else c\<lparr>wd_state := WATCHDOG_FAULTED\<rparr>)"
        using s by simp_all
      then show ?thesis using required_bits [OF \<open>i < 2\<close>] by (simp add: wd_credit_def)
    qed
  qed
  then obtain c1 where c1: "ctx1 = Some c1"
    "feeds w1 + wd_credit c1 i \<le> feeds w + wd_credit c i + of_bool (call = Report i \<and> rc = 0)" by blast
  then obtain c' where "ctx' = Some c'" "feeds w' + wd_credit c' i \<le> feeds w1 + wd_credit c1 i + accepted i calls rcs1"
    using Cons.IH [of c1 w1 rcs1] rest Cons.prems(2) by blast
  then show ?case using c1(2) rest(2) by (auto simp: accepted_def)
qed

lemma faulted_run:
  assumes "wd_run api calls (Some c) w = (rcs, ctx', w')" "wd_state c \<noteq> WATCHDOG_RUNNING"
  shows "ctx' = Some c \<and> feeds w' = feeds w \<and> 0 \<notin> set rcs"
  using assms
proof (induction calls arbitrary: w rcs)
  case (Cons call calls)
  obtain rc ctx1 w1 where one: "wd_call api call (Some c) w = (rc, ctx1, w1)" by (metis prod_cases3)
  have "ctx1 = Some c \<and> feeds w1 = feeds w \<and> rc \<noteq> 0"
  proof (cases call)
    case (Report j)
    then show ?thesis using Cons.prems(2) report_cases [OF one [unfolded wd_call_def Report wd_call.case]]
      by (auto split: if_split_asm)
  next
    case Service
    then show ?thesis using Cons.prems(2) service_cases [OF one [unfolded wd_call_def Service wd_call.case]] by auto
  qed
  then show ?case using Cons one by (auto split: prod.splits)
qed simp

end

end
