(* ===== verification/Watchdog_Main.thy ===== *)
theory Watchdog_Main
  imports Watchdog
begin

text \<open>
  labs/lab25_watchdog_heartbeat_zephyr/src/main.c: the service loop and the two heartbeat workers as
  a step relation over their shared state, the host contract's watchdog mock as a provider of
  \<open>wdt_kernel\<close>, and the properties of the supervisor.

  A step is a piece of a thread that accesses the shared state once: the workers can be preempted
  between the test of the stall mask and the report, the service loop between the update of the
  stall mask and the service.  The scheduler and the sleeping times are the kernel's: every
  interleaving of steps is allowed.  printk is output only and is left out.
\<close>

section \<open>State\<close>

datatype lab25_stage =
  LAB25_STAGE_RESET | LAB25_STAGE_INIT | LAB25_STAGE_RUNNING | LAB25_STAGE_WAITING_FOR_RESET |
  LAB25_STAGE_ERROR

text \<open>Where a thread is: main before its initialisation, at the top of its loop, before the service
  call, halted; a worker not created, before its test, before its report, stopped.\<close>

datatype main_pc = Main_Start | Main_Top | Main_Service | Main_Halted
datatype worker_pc = Worker_Off | Worker_Test | Worker_Report | Worker_Stopped

record lab25 =
  g_watchdog :: watchdog_ctx
  g_effective_stall_mask :: u32
  g_observed_stall_mask :: u32
  g_report_calls :: "nat \<Rightarrow> u32"
  g_auto_stall_after_feeds :: u32
  g_stall_mask :: u32
  g_lab25_stage :: lab25_stage
  g25_init_rc :: int
  g_service_rc :: int
  g_error_rc :: int
  g_report_rc :: "nat \<Rightarrow> int"
  g_work_units :: "nat \<Rightarrow> u32"
  g_successful_feeds :: u32
  g_waiting_services :: u32
  g_watchdog_mmio_base :: u32
  previous_stall_mask :: u32
  main_at :: main_pc
  worker_at :: "nat \<Rightarrow> worker_pc"
  work_units :: "nat \<Rightarrow> u32"

definition lab25_reset :: "u32 \<Rightarrow> lab25" where
  "lab25_reset auto_stall = \<lparr>g_watchdog = \<lparr>wd_dev = None, wd_channel_id = 0, wd_reported_mask = 0,
       wd_state = WATCHDOG_UNINITIALIZED\<rparr>,
     g_effective_stall_mask = 0, g_observed_stall_mask = 0, g_report_calls = (\<lambda>_. 0),
     g_auto_stall_after_feeds = auto_stall, g_stall_mask = 0, g_lab25_stage = LAB25_STAGE_RESET,
     g25_init_rc = - 999, g_service_rc = - 999, g_error_rc = - 999, g_report_rc = (\<lambda>_. - 999),
     g_work_units = (\<lambda>_. 0), g_successful_feeds = 0, g_waiting_services = 0,
     g_watchdog_mmio_base = 0, previous_stall_mask = 0, main_at = Main_Start,
     worker_at = (\<lambda>_. Worker_Off), work_units = (\<lambda>_. 0)\<rparr>"

section \<open>The threads\<close>

definition halt_without_feeding :: "int \<Rightarrow> lab25 \<Rightarrow> lab25" where
  "halt_without_feeding rc g =
     g\<lparr>g_error_rc := rc, g_lab25_stage := LAB25_STAGE_ERROR, main_at := Main_Halted\<rparr>"

definition lab25_start :: "'w wdt_api \<Rightarrow> dev \<Rightarrow> lab25 \<Rightarrow> 'w \<Rightarrow> lab25 \<times> 'w" where
  "lab25_start api d g w =
     (let g = g\<lparr>g_watchdog_mmio_base := 0x40008000, g_lab25_stage := LAB25_STAGE_INIT\<rparr> in
      case watchdog_init api (Some (g_watchdog g)) (Some d) w of (rc, ctx, w) \<Rightarrow>
      let g = g\<lparr>g25_init_rc := rc, g_watchdog := the ctx\<rparr> in
      if g25_init_rc g \<noteq> 0 then (halt_without_feeding (g25_init_rc g) g, w)
      else (g\<lparr>worker_at := (\<lambda>tid. if tid < WATCHDOG_TASK_COUNT then Worker_Test else worker_at g tid),
              g_lab25_stage := LAB25_STAGE_RUNNING, previous_stall_mask := 0, main_at := Main_Top\<rparr>, w))"

definition lab25_stall :: "lab25 \<Rightarrow> lab25" where
  "lab25_stall g =
     (let g = (if g_auto_stall_after_feeds g \<noteq> 0 \<and> g_successful_feeds g \<ge> g_auto_stall_after_feeds g
               then g\<lparr>g_stall_mask := g_stall_mask g OR 2\<rparr> else g);
          requested = g_stall_mask g AND 3;
          g = g\<lparr>g_effective_stall_mask := requested\<rparr>;
          g = (if requested \<noteq> previous_stall_mask g
               then g\<lparr>previous_stall_mask := requested,
                      g_lab25_stage := (if requested \<noteq> 0 then LAB25_STAGE_WAITING_FOR_RESET
                                        else LAB25_STAGE_RUNNING)\<rparr>
               else g)
      in g\<lparr>main_at := Main_Service\<rparr>)"

definition lab25_service :: "'w wdt_api \<Rightarrow> lab25 \<Rightarrow> 'w \<Rightarrow> lab25 \<times> 'w" where
  "lab25_service api g w =
     (case watchdog_service api (Some (g_watchdog g)) w of (rc, ctx, w) \<Rightarrow>
      let g = g\<lparr>g_service_rc := rc, g_watchdog := the ctx\<rparr> in
      if g_service_rc g = 0
        then (g\<lparr>g_successful_feeds := g_successful_feeds g + 1, main_at := Main_Top\<rparr>, w)
      else if g_service_rc g = WATCHDOG_SERVICE_WAITING
        then (g\<lparr>g_waiting_services := g_waiting_services g + 1, main_at := Main_Top\<rparr>, w)
      else (halt_without_feeding (g_service_rc g) g, w))"

definition worker_test :: "nat \<Rightarrow> lab25 \<Rightarrow> lab25" where
  "worker_test tid g =
     (if bit (g_effective_stall_mask g) tid
      then g\<lparr>g_observed_stall_mask := g_observed_stall_mask g OR push_bit tid 1\<rparr>
      else g\<lparr>work_units := (work_units g)(tid := work_units g tid + 1),
             g_work_units := (g_work_units g)(tid := work_units g tid + 1),
             worker_at := (worker_at g)(tid := Worker_Report)\<rparr>)"

definition worker_report :: "'w wdt_api \<Rightarrow> nat \<Rightarrow> lab25 \<Rightarrow> 'w \<Rightarrow> lab25 \<times> 'w" where
  "worker_report api tid g w =
     (case watchdog_report api (Some (g_watchdog g)) tid w of (rc, ctx, w) \<Rightarrow>
      let g = g\<lparr>g_watchdog := the ctx, g_report_rc := (g_report_rc g)(tid := rc)\<rparr> in
      if rc \<noteq> 0 then (g\<lparr>worker_at := (worker_at g)(tid := Worker_Stopped)\<rparr>, w)
      else (g\<lparr>g_report_calls := (g_report_calls g)(tid := g_report_calls g tid + 1),
              worker_at := (worker_at g)(tid := Worker_Test)\<rparr>, w))"

inductive lab25_step :: "'w wdt_api \<Rightarrow> dev \<Rightarrow> lab25 \<times> 'w \<Rightarrow> lab25 \<times> 'w \<Rightarrow> bool"
  for api d where
  start: "main_at g = Main_Start \<Longrightarrow> lab25_step api d (g, w) (lab25_start api d g w)"
| stall: "main_at g = Main_Top \<Longrightarrow> lab25_step api d (g, w) (lab25_stall g, w)"
| service: "main_at g = Main_Service \<Longrightarrow> lab25_step api d (g, w) (lab25_service api g w)"
| test: "worker_at g tid = Worker_Test \<Longrightarrow> lab25_step api d (g, w) (worker_test tid g, w)"
| report: "worker_at g tid = Worker_Report \<Longrightarrow> lab25_step api d (g, w) (worker_report api tid g w)"

inductive lab25_reachable :: "'w wdt_api \<Rightarrow> dev \<Rightarrow> u32 \<Rightarrow> lab25 \<times> 'w \<Rightarrow> bool"
  for api d a where
  reset: "lab25_reachable api d a (lab25_reset a, w)"
| step: "lab25_reachable api d a s \<Longrightarrow> lab25_step api d s s' \<Longrightarrow> lab25_reachable api d a s'"

section \<open>How many feeds can still follow\<close>

lemma report_ctx:
  assumes "watchdog_report api (Some c) i w = (rc, ctx', w')"
  shows "\<exists>c'. ctx' = Some c' \<and> (c' = c \<or> i < 2 \<and> c' = c\<lparr>wd_reported_mask := wd_reported_mask c OR 2 ^ i\<rparr>)"
  using assms by (auto simp: watchdog_report_def split: prod.splits if_split_asm)

lemma service_ctx:
  assumes "watchdog_service api (Some c) w = (rc, ctx', w')"
  shows "\<exists>c'. ctx' = Some c' \<and> (if rc = 0 then wd_reported_mask c = 3 \<and> wd_reported_mask c' = 0
    else wd_reported_mask c' = wd_reported_mask c)"
  using assms by (auto simp: watchdog_service_def split: prod.splits if_split_asm option.splits)

text \<open>The feeds that task 1 can still contribute to after it was told to stall: a pending bit of
  its own and a report it is about to make.\<close>

definition pending :: "lab25 \<Rightarrow> nat" where
  "pending g = of_bool (bit (wd_reported_mask (g_watchdog g)) 1) + of_bool (worker_at g 1 = Worker_Report)"

definition stalled :: "lab25 \<Rightarrow> bool" where
  "stalled g \<longleftrightarrow> bit (g_effective_stall_mask g) 1 \<and> bit (g_stall_mask g) 1"

definition stall_inv :: "u32 \<Rightarrow> lab25 \<Rightarrow> bool" where
  "stall_inv a g \<longleftrightarrow> g_auto_stall_after_feeds g = a \<and>
     (if stalled g then unat (g_successful_feeds g) + pending g \<le> unat a + 2
      else if main_at g = Main_Service then unat (g_successful_feeds g) < unat a
      else unat (g_successful_feeds g) \<le> unat a)"

definition stall_ready :: "lab25 \<Rightarrow> bool" where
  "stall_ready g \<longleftrightarrow> (main_at g = Main_Start \<longrightarrow> (\<forall>i. worker_at g i = Worker_Off) \<and> g_effective_stall_mask g = 0)"

lemma pending_le: "pending g \<le> 2"
  by (simp add: pending_def)

lemma stall_inv_start: "stall_inv a g \<Longrightarrow> main_at g = Main_Start \<Longrightarrow> worker_at g 1 = Worker_Off \<Longrightarrow>
  g_effective_stall_mask g = 0 \<Longrightarrow> stall_inv a (fst (lab25_start api d g w))"
  by (auto simp: stall_inv_def stalled_def lab25_start_def halt_without_feeding_def Let_def split: prod.splits)

lemma bit_2_1: "bit (2 :: 'a::len word) 1 \<longleftrightarrow> 1 < LENGTH('a)" "bit (3 :: 'a::len word) 1 \<longleftrightarrow> 1 < LENGTH('a)"
  by (simp_all add: bit_numeral_rec bit_1_iff)

lemma unat_add_1: "unat (f :: u32) < 2 ^ 32 - 1 \<Longrightarrow> unat (f + 1) = Suc (unat f)"
  by (simp add: unat_word_ariths)

lemma stall_step:
  assumes "stall_inv a g" "a \<noteq> 0" "main_at g = Main_Top"
  shows "stall_inv a (lab25_stall g)"
proof -
  let ?m = "if g_successful_feeds g \<ge> a then g_stall_mask g OR 2 else g_stall_mask g"
  have f: "unat (g_successful_feeds g) + (if stalled g then pending g else 0) \<le> unat a + (if stalled g then 2 else 0)"
    using assms by (simp add: stall_inv_def split: if_splits)
  have g': "g_stall_mask (lab25_stall g) = ?m" "g_effective_stall_mask (lab25_stall g) = ?m AND 3"
    "g_successful_feeds (lab25_stall g) = g_successful_feeds g" "pending (lab25_stall g) = pending g"
    "g_auto_stall_after_feeds (lab25_stall g) = a" "main_at (lab25_stall g) = Main_Service"
    using assms by (simp_all add: lab25_stall_def Let_def stall_inv_def pending_def)
  have st: "stalled (lab25_stall g) \<longleftrightarrow> bit ?m 1" using g' by (simp add: stalled_def bit_and_iff bit_2_1)
  have m: "bit ?m 1 \<longleftrightarrow> g_successful_feeds g \<ge> a \<or> bit (g_stall_mask g) 1" by (simp add: bit_or_iff bit_2_1)
  show ?thesis
  proof (cases "stalled g")
    case True
    then have "stalled (lab25_stall g)" using st m by (simp add: stalled_def)
    then show ?thesis using f True g' by (simp add: stall_inv_def)
  next
    case False
    show ?thesis
    proof (cases "stalled (lab25_stall g)")
      case True
      then show ?thesis using f False g' pending_le [of g] by (simp add: stall_inv_def)
    next
      case ns: False
      then show ?thesis using st m g' by (simp add: stall_inv_def word_le_nat_alt)
    qed
  qed
qed

lemma service_step:
  assumes "stall_inv a g" "unat a + 2 < 2 ^ 32" "main_at g = Main_Service"
  shows "stall_inv a (fst (lab25_service api g w))"
proof -
  obtain rc ctx w1 where run: "watchdog_service api (Some (g_watchdog g)) w = (rc, ctx, w1)" by (metis prod_cases3)
  obtain c' where c': "ctx = Some c'" "if rc = 0 then wd_reported_mask (g_watchdog g) = 3 \<and> wd_reported_mask c' = 0
      else wd_reported_mask c' = wd_reported_mask (g_watchdog g)"
    using service_ctx [OF run] by blast
  let ?g = "fst (lab25_service api g w)"
  have same: "stalled ?g = stalled g" "g_auto_stall_after_feeds ?g = a" "main_at ?g \<noteq> Main_Service"
    "g_watchdog ?g = c'" "worker_at ?g = worker_at g"
    "g_successful_feeds ?g = (if rc = 0 then g_successful_feeds g + 1 else g_successful_feeds g)"
    using assms(1) run c' by (auto simp: lab25_service_def Let_def stalled_def stall_inv_def halt_without_feeding_def)
  show ?thesis
  proof (cases "rc = 0")
    case True
    then have p: "pending g = Suc (pending ?g)" using c' same by (simp add: pending_def bit_2_1)
    then have lt: "unat (g_successful_feeds g) < 2 ^ 32 - 1"
      using assms pending_le [of g] by (simp add: stall_inv_def split: if_splits)
    then show ?thesis using True assms(1,3) same p unat_add_1 [OF lt]
      by (simp add: stall_inv_def split: if_splits)
  next
    case False
    then have "pending ?g = pending g" using c' same by (simp add: pending_def)
    then show ?thesis using False assms(1,3) same by (simp add: stall_inv_def split: if_splits)
  qed
qed

lemma worker_test_step:
  assumes "stall_inv a g" "worker_at g i = Worker_Test"
  shows "stall_inv a (worker_test i g)"
proof -
  have same: "stalled (worker_test i g) = stalled g" "g_auto_stall_after_feeds (worker_test i g) = g_auto_stall_after_feeds g"
    "main_at (worker_test i g) = main_at g" "g_successful_feeds (worker_test i g) = g_successful_feeds g"
    by (simp_all add: worker_test_def stalled_def)
  moreover have "stalled g \<Longrightarrow> pending (worker_test i g) = pending g"
    by (auto simp: worker_test_def stalled_def pending_def)
  ultimately show ?thesis using assms(1) by (simp add: stall_inv_def split: if_splits)
qed

lemma worker_report_step:
  assumes "stall_inv a g" "worker_at g i = Worker_Report"
  shows "stall_inv a (fst (worker_report api i g w))"
proof -
  obtain rc ctx w1 where run: "watchdog_report api (Some (g_watchdog g)) i w = (rc, ctx, w1)" by (metis prod_cases3)
  obtain c' where c': "ctx = Some c'"
    "c' = g_watchdog g \<or> i < 2 \<and> c' = (g_watchdog g)\<lparr>wd_reported_mask := wd_reported_mask (g_watchdog g) OR 2 ^ i\<rparr>"
    using report_ctx [OF run] by blast
  let ?g = "fst (worker_report api i g w)"
  have same: "stalled ?g = stalled g" "g_auto_stall_after_feeds ?g = g_auto_stall_after_feeds g"
    "main_at ?g = main_at g" "g_successful_feeds ?g = g_successful_feeds g" "g_watchdog ?g = c'"
    "worker_at ?g = (worker_at g)(i := if rc = 0 then Worker_Test else Worker_Stopped)"
    using run c' by (simp_all add: worker_report_def Let_def stalled_def)
  have "pending ?g \<le> pending g"
  proof (cases "i = 1")
    case True
    then show ?thesis using assms(2) same c' by (auto simp: pending_def)
  next
    case False
    then have "bit (wd_reported_mask c') 1 = bit (wd_reported_mask (g_watchdog g)) 1"
      using c'(2) by (auto simp: bit_simps)
    then show ?thesis using False same by (simp add: pending_def)
  qed
  then show ?thesis using assms(1) same by (simp add: stall_inv_def split: if_splits)
qed

lemma stall_ready_step: "lab25_step api d (g, w) (g', w') \<Longrightarrow> stall_ready g \<Longrightarrow> stall_ready g'"
  by (erule lab25_step.cases)
    (auto simp: stall_ready_def lab25_start_def lab25_stall_def lab25_service_def worker_test_def worker_report_def
      halt_without_feeding_def Let_def split: prod.splits if_splits)

lemma stall_inv_step:
  assumes "lab25_step api d s s'" "stall_inv a (fst s)" "stall_ready (fst s)" "a \<noteq> 0" "unat a + 2 < 2 ^ 32"
  shows "stall_inv a (fst s')"
  using assms
proof (induction rule: lab25_step.induct)
  case (start g w)
  then show ?case using stall_inv_start [of a g api d w] by (simp add: stall_ready_def)
next
  case (stall g w)
  then show ?case using stall_step by simp
next
  case (service g w)
  then show ?case using service_step by simp
next
  case (test g i w)
  then show ?case using worker_test_step by simp
next
  case (report g i w)
  then show ?case using worker_report_step by simp
qed

lemma reachable_inv:
  assumes "lab25_reachable api d a s" "a \<noteq> 0" "unat a + 2 < 2 ^ 32"
  shows "stall_inv a (fst s) \<and> stall_ready (fst s)"
  using assms(1)
proof induction
  case (reset w)
  then show ?case by (simp add: stall_inv_def stalled_def stall_ready_def lab25_reset_def)
next
  case (step s s')
  then show ?case using stall_inv_step [of api d s s' a] stall_ready_step [of api d "fst s" "snd s" "fst s'" "snd s'"] assms(2,3)
    by simp
qed

section \<open>The watchdog mock of the host contract\<close>

text \<open>tests/host_contract.c: results to return and call counters; the kernel's mutex is a pthread
  mutex, which never fails there.\<close>

record wdt_mock =
  wm_ready :: bool
  wm_isr :: bool
  wm_install_result :: int
  wm_setup_result :: int
  wm_feed_result :: int
  wm_install_calls :: nat
  wm_setup_calls :: nat
  wm_feed_calls :: nat

definition wm_reset :: wdt_mock where
  "wm_reset = \<lparr>wm_ready = True, wm_isr = False, wm_install_result = 7, wm_setup_result = 0, wm_feed_result = 0,
     wm_install_calls = 0, wm_setup_calls = 0, wm_feed_calls = 0\<rparr>"

definition wm_api :: "wdt_mock wdt_api" where
  "wm_api = \<lparr>wk_ready = (\<lambda>d w. wm_ready w), wk_in_isr = wm_isr, wk_mutex_init = (\<lambda>w. (0, w)),
     wk_mutex_lock = (\<lambda>w. (0, w)), wk_mutex_unlock = (\<lambda>w. w),
     wk_install_timeout = (\<lambda>d cfg w. (wm_install_result w, w\<lparr>wm_install_calls := wm_install_calls w + 1\<rparr>)),
     wk_setup = (\<lambda>d opts w. (wm_setup_result w, w\<lparr>wm_setup_calls := wm_setup_calls w + 1\<rparr>)),
     wk_feed = (\<lambda>d ch w. (wm_feed_result w, w\<lparr>wm_feed_calls := wm_feed_calls w + 1\<rparr>))\<rparr>"

interpretation wm: wdt_kernel wm_api wm_feed_calls
  by unfold_locales (auto simp: wm_api_def)

lemma wm_kernel: "wdt_kernel wm_api wm_feed_calls"
  by (rule wm.wdt_kernel_axioms)

section \<open>Properties\<close>

text \<open>C7.  No feed without reports.  Over any sequence of calls, and for each of the tasks, the feeds
  attempted are at most the reports of that task that were accepted, plus one if a report of it was
  already pending at the start.  A task that stops reporting therefore sees at most one more feed.\<close>

theorem watchdog_feeds_need_reports:
  assumes "wdt_kernel api feeds" "wd_run api calls (Some c) w = (rcs, ctx', w')" "task_id < WATCHDOG_TASK_COUNT"
  shows "\<exists>c'. ctx' = Some c' \<and>
    feeds w' + wd_credit c' task_id \<le> feeds w + wd_credit c task_id + accepted task_id calls rcs"
  using wdt_kernel.feeds_bounded_by_reports [OF assms] .

lemma watchdog_feeds_need_reports_witness:
  "\<exists>rcs c' w'. wd_run wm_api [Report 0, Service, Report 1, Service, Service]
      (Some \<lparr>wd_dev = Some 0, wd_channel_id = 7, wd_reported_mask = 0, wd_state = WATCHDOG_RUNNING\<rparr>) wm_reset
      = (rcs, Some c', w') \<and> rcs = [0, 1, 0, 0, 1] \<and> wm_feed_calls w' \<le> accepted 1 [Report 0, Service, Report 1, Service, Service] rcs"
proof -
  let ?c = "\<lparr>wd_dev = Some 0, wd_channel_id = 7, wd_reported_mask = 0, wd_state = WATCHDOG_RUNNING\<rparr>"
  let ?calls = "[Report 0, Service, Report 1, Service, Service]"
  obtain rcs ctx' w' where run: "wd_run wm_api ?calls (Some ?c) wm_reset = (rcs, ctx', w')" by (metis prod_cases3)
  then have "rcs = [0, 1, 0, 0, 1]"
    by (simp add: wd_call_def watchdog_report_def watchdog_service_def wm_api_def wm_reset_def)
  moreover have "wd_credit ?c 1 = 0" "wm_feed_calls wm_reset = 0" by (simp_all add: wd_credit_def wm_reset_def)
  ultimately show ?thesis
    using watchdog_feeds_need_reports [OF wm_kernel run, of 1] run by force
qed

text \<open>C30.  A failed feed is final: once the driver has refused a feed, no later sequence of calls
  feeds again or succeeds, so the hardware times out and resets the system.\<close>

theorem watchdog_fault_latches:
  assumes k: "wdt_kernel api feeds" and s: "watchdog_service api (Some c) w = (rc, ctx1, w1)"
    and failed: "rc \<noteq> 0" "feeds w1 \<noteq> feeds w" and run: "wd_run api calls ctx1 w1 = (rcs, ctx2, w2)"
  shows "feeds w2 = feeds w1 \<and> 0 \<notin> set rcs"
proof -
  have "ctx1 = Some (c\<lparr>wd_state := WATCHDOG_FAULTED\<rparr>)"
    using wdt_kernel.service_cases [OF k s] failed by auto
  then show ?thesis using wdt_kernel.faulted_run [OF k, of calls _ w1 rcs ctx2 w2] run by auto
qed

lemma watchdog_fault_latches_witness:
  "\<exists>ctx1 w1 rcs ctx2 w2. watchdog_service wm_api
      (Some \<lparr>wd_dev = Some 0, wd_channel_id = 7, wd_reported_mask = 3, wd_state = WATCHDOG_RUNNING\<rparr>)
      (wm_reset\<lparr>wm_feed_result := - EAGAIN\<rparr>) = (- EAGAIN, ctx1, w1) \<and>
    wd_run wm_api [Report 0, Report 1, Service] ctx1 w1 = (rcs, ctx2, w2) \<and> wm_feed_calls w2 = 1"
proof -
  let ?c = "\<lparr>wd_dev = Some 0, wd_channel_id = 7, wd_reported_mask = 3, wd_state = WATCHDOG_RUNNING\<rparr>"
  let ?w = "wm_reset\<lparr>wm_feed_result := - EAGAIN\<rparr>"
  obtain ctx1 w1 where s: "watchdog_service wm_api (Some ?c) ?w = (- EAGAIN, ctx1, w1)" "wm_feed_calls w1 = 1"
    by (simp add: watchdog_service_def wm_api_def wm_reset_def)
  obtain rcs ctx2 w2 where run: "wd_run wm_api [Report 0, Report 1, Service] ctx1 w1 = (rcs, ctx2, w2)"
    by (metis prod_cases3)
  have "wm_feed_calls w1 \<noteq> wm_feed_calls ?w" using s(2) by (simp add: wm_reset_def)
  then show ?thesis using watchdog_fault_latches [OF wm_kernel s(1) _ _ run] s run by auto
qed

text \<open>Note.  Initialisation: success leaves a running supervisor with no report pending; failure
  leaves the context as it was or faulted, and a faulted one refuses every further call and cannot
  be initialised again.\<close>

theorem watchdog_init_outcome:
  assumes "watchdog_init api (Some c) (Some d) w = (rc, ctx', w')"
  shows "\<exists>c'. ctx' = Some c' \<and>
    (rc = 0 \<longrightarrow> c' = \<lparr>wd_dev = Some d, wd_channel_id = wd_channel_id c', wd_reported_mask = 0, wd_state = WATCHDOG_RUNNING\<rparr> \<and>
       0 \<le> wd_channel_id c') \<and>
    (rc \<noteq> 0 \<longrightarrow> c' = c \<or> wd_state c' = WATCHDOG_FAULTED \<and>
       (\<forall>d2 w2. \<not> wk_in_isr api w2 \<longrightarrow> watchdog_init api ctx' (Some d2) w2 = (- EALREADY, ctx', w2)))"
  using assms by (cases c) (auto simp: watchdog_init_def Let_def split: prod.splits if_split_asm)

lemma watchdog_init_outcome_witness:
  "\<exists>c' w'. watchdog_init wm_api (Some \<lparr>wd_dev = None, wd_channel_id = 0, wd_reported_mask = 0, wd_state = WATCHDOG_UNINITIALIZED\<rparr>)
      (Some 0) wm_reset = (0, Some c', w') \<and> wd_channel_id c' = 7 \<and> wd_state c' = WATCHDOG_RUNNING"
proof -
  let ?c = "\<lparr>wd_dev = None, wd_channel_id = 0, wd_reported_mask = 0, wd_state = WATCHDOG_UNINITIALIZED\<rparr>"
  obtain c' w' where i: "watchdog_init wm_api (Some ?c) (Some 0) wm_reset = (0, Some c', w')" "wd_channel_id c' = 7"
    by (simp add: watchdog_init_def wm_api_def wm_reset_def Let_def)
  show ?thesis using watchdog_init_outcome [OF i(1)] i by (metis option.inject watchdog_ctx.select_convs(4))
qed

text \<open>C33.  The demonstration ends in a reset.  In every interleaving of the service loop with the
  two workers, the successful feeds never exceed the configured number by more than two: one feed
  whose report was pending when the stall was set, one whose report was in flight.\<close>

theorem lab25_stall_stops_feeding:
  assumes "lab25_reachable api d a (g, w)" "a \<noteq> 0" "unat a + 2 < 2 ^ 32"
  shows "unat (g_successful_feeds g) \<le> unat a + 2"
  using reachable_inv [OF assms] by (simp add: stall_inv_def split: if_splits)

lemma lab25_stall_stops_feeding_witness:
  "lab25_reachable wm_api 0 5 (lab25_start wm_api 0 (lab25_reset 5) wm_reset) \<and>
    unat (g_successful_feeds (fst (lab25_start wm_api 0 (lab25_reset 5) wm_reset))) \<le> 7"
proof -
  have "lab25_step wm_api 0 (lab25_reset 5, wm_reset) (lab25_start wm_api 0 (lab25_reset 5) wm_reset)"
    by (rule lab25_step.start) (simp add: lab25_reset_def)
  then have r: "lab25_reachable wm_api 0 5 (lab25_start wm_api 0 (lab25_reset 5) wm_reset)"
    by (rule lab25_reachable.step [OF lab25_reachable.reset])
  then show ?thesis
    using lab25_stall_stops_feeding [of wm_api 0 5 "fst (lab25_start wm_api 0 (lab25_reset 5) wm_reset)"
        "snd (lab25_start wm_api 0 (lab25_reset 5) wm_reset)"] by simp
qed

end
