(* ===== verification/Pcie_Host.thy ===== *)
theory Pcie_Host
  imports Prelude
begin

text \<open>
  labs/lab17_pcie_host_config: validated access to PCI configuration space through a host's
  operation table (pcie_host.c), a simulated single-function controller (pcie_sim_host.c,
  board_pcie.c) and the program that reads its header (main.c).

  A host carries its operations; the controller behind \<open>priv\<close> is the world, None when \<open>priv\<close> is
  NULL.  An out pointer is an option, None for NULL, and is returned with its new content.
\<close>

section \<open>Host interface (pcie_host.h)\<close>

abbreviation (input) PCIE_VENDOR_DEVICE_ID_OFFSET :: u16 where "PCIE_VENDOR_DEVICE_ID_OFFSET \<equiv> 0"
abbreviation (input) PCIE_COMMAND_STATUS_OFFSET :: u16 where "PCIE_COMMAND_STATUS_OFFSET \<equiv> 4"
abbreviation (input) PCIE_CLASS_REVISION_OFFSET :: u16 where "PCIE_CLASS_REVISION_OFFSET \<equiv> 8"
abbreviation (input) PCIE_HEADER_TYPE_OFFSET :: u16 where "PCIE_HEADER_TYPE_OFFSET \<equiv> 12"
abbreviation (input) PCIE_BAR0_OFFSET :: u16 where "PCIE_BAR0_OFFSET \<equiv> 16"

abbreviation (input) PCIE_OK :: int where "PCIE_OK \<equiv> 0"
abbreviation (input) PCIE_ERR_ARGUMENT :: int where "PCIE_ERR_ARGUMENT \<equiv> - 1"
abbreviation (input) PCIE_ERR_BDF :: int where "PCIE_ERR_BDF \<equiv> - 2"
abbreviation (input) PCIE_ERR_OFFSET :: int where "PCIE_ERR_OFFSET \<equiv> - 3"
abbreviation (input) PCIE_ERR_NO_DEVICE :: int where "PCIE_ERR_NO_DEVICE \<equiv> - 4"

record pcie_bdf =
  bdf_bus :: u8
  bdf_device :: u8
  bdf_function :: u8

record 'w pcie_host_ops =
  op_config_read32 :: "(pcie_bdf \<Rightarrow> u16 \<Rightarrow> u32 option \<Rightarrow> 'w \<Rightarrow> int \<times> u32 option \<times> 'w) option"
  op_config_write32 :: "(pcie_bdf \<Rightarrow> u16 \<Rightarrow> u32 \<Rightarrow> 'w \<Rightarrow> int \<times> 'w) option"

record 'w pcie_host =
  host_ops :: "'w pcie_host_ops option"

section \<open>Validated access (pcie_host.c)\<close>

definition pcie_validate_bdf :: "pcie_bdf \<Rightarrow> int" where
  "pcie_validate_bdf bdf =
     (if bdf_device bdf > 31 then PCIE_ERR_BDF
      else if bdf_function bdf > 7 then PCIE_ERR_BDF
      else PCIE_OK)"

definition pcie_validate_offset :: "u16 \<Rightarrow> int" where
  "pcie_validate_offset offset =
     (if offset \<ge> 256 then PCIE_ERR_OFFSET
      else if offset AND 3 \<noteq> 0 then PCIE_ERR_OFFSET
      else PCIE_OK)"

text \<open>The operation of a host, None when a pointer on the way to it is NULL.\<close>

definition host_read_op :: "'w pcie_host option \<Rightarrow> (pcie_bdf \<Rightarrow> u16 \<Rightarrow> u32 option \<Rightarrow> 'w \<Rightarrow> int \<times> u32 option \<times> 'w) option" where
  "host_read_op host = Option.bind (Option.bind host host_ops) op_config_read32"

definition host_write_op :: "'w pcie_host option \<Rightarrow> (pcie_bdf \<Rightarrow> u16 \<Rightarrow> u32 \<Rightarrow> 'w \<Rightarrow> int \<times> 'w) option" where
  "host_write_op host = Option.bind (Option.bind host host_ops) op_config_write32"

definition pcie_config_read32 :: "'w pcie_host option \<Rightarrow> pcie_bdf \<Rightarrow> u16 \<Rightarrow> u32 option \<Rightarrow> 'w \<Rightarrow>
    int \<times> u32 option \<times> 'w" where
  "pcie_config_read32 host bdf offset value w =
     (case host_read_op host of None \<Rightarrow> (PCIE_ERR_ARGUMENT, value, w)
      | Some config_read32 \<Rightarrow>
        if value = None then (PCIE_ERR_ARGUMENT, value, w)
        else let result = pcie_validate_bdf bdf in
          if result \<noteq> PCIE_OK then (result, value, w)
          else let result = pcie_validate_offset offset in
            if result \<noteq> PCIE_OK then (result, value, w)
            else config_read32 bdf offset value w)"

definition pcie_config_write32 :: "'w pcie_host option \<Rightarrow> pcie_bdf \<Rightarrow> u16 \<Rightarrow> u32 \<Rightarrow> 'w \<Rightarrow> int \<times> 'w" where
  "pcie_config_write32 host bdf offset value w =
     (case host_write_op host of None \<Rightarrow> (PCIE_ERR_ARGUMENT, w)
      | Some config_write32 \<Rightarrow>
        let result = pcie_validate_bdf bdf in
          if result \<noteq> PCIE_OK then (result, w)
          else let result = pcie_validate_offset offset in
            if result \<noteq> PCIE_OK then (result, w)
            else config_write32 bdf offset value w)"

section \<open>Simulated controller (pcie_sim_host.c)\<close>

record pcie_sim_controller =
  sim_bdf :: pcie_bdf
  sim_config :: "u32 list"

definition bdf_equal :: "pcie_bdf \<Rightarrow> pcie_bdf \<Rightarrow> bool" where
  "bdf_equal lhs rhs \<longleftrightarrow> bdf_bus lhs = bdf_bus rhs \<and> bdf_device lhs = bdf_device rhs \<and>
     bdf_function lhs = bdf_function rhs"

definition dword_index :: "u16 \<Rightarrow> nat" where
  "dword_index offset = unat (drop_bit 2 offset)"

definition sim_config_read32 :: "pcie_bdf \<Rightarrow> u16 \<Rightarrow> u32 option \<Rightarrow> pcie_sim_controller option \<Rightarrow>
    int \<times> u32 option \<times> pcie_sim_controller option" where
  "sim_config_read32 bdf offset value w =
     (case w of None \<Rightarrow> (PCIE_ERR_ARGUMENT, value, w)
      | Some controller \<Rightarrow>
        if value = None then (PCIE_ERR_ARGUMENT, value, w)
        else if \<not> bdf_equal bdf (sim_bdf controller) then (PCIE_ERR_NO_DEVICE, Some 0xFFFFFFFF, w)
        else (PCIE_OK, Some (sim_config controller ! dword_index offset), w))"

definition sim_config_write32 :: "pcie_bdf \<Rightarrow> u16 \<Rightarrow> u32 \<Rightarrow> pcie_sim_controller option \<Rightarrow>
    int \<times> pcie_sim_controller option" where
  "sim_config_write32 bdf offset value w =
     (case w of None \<Rightarrow> (PCIE_ERR_ARGUMENT, w)
      | Some controller \<Rightarrow>
        if \<not> bdf_equal bdf (sim_bdf controller) then (PCIE_ERR_NO_DEVICE, w)
        else (PCIE_OK, Some (controller\<lparr>sim_config := (sim_config controller)[dword_index offset := value]\<rparr>)))"

definition g_pcie_sim_host_ops :: "pcie_sim_controller option pcie_host_ops" where
  "g_pcie_sim_host_ops = \<lparr>op_config_read32 = Some sim_config_read32, op_config_write32 = Some sim_config_write32\<rparr>"

definition pcie_sim_controller_init :: "pcie_sim_controller option \<Rightarrow> pcie_sim_controller option" where
  "pcie_sim_controller_init controller =
     (case controller of None \<Rightarrow> None
      | Some c \<Rightarrow>
        let c = c\<lparr>sim_bdf := \<lparr>bdf_bus = 0, bdf_device = 1, bdf_function = 0\<rparr>, sim_config := replicate 64 0\<rparr>;
            cfg = (sim_config c)[dword_index 0x00 := push_bit 16 0x5678 OR 0x1234];
            cfg = cfg[dword_index 0x04 := 0];
            cfg = cfg[dword_index 0x08 := push_bit 24 0x02 OR push_bit 16 0x00 OR push_bit 8 0x00 OR 0x01];
            cfg = cfg[dword_index 0x0C := 0];
            cfg = cfg[dword_index PCIE_BAR0_OFFSET := 0x50000000]
        in Some (c\<lparr>sim_config := cfg\<rparr>))"

section \<open>Board and program (board_pcie.c, main.c)\<close>

definition g_board_pcie_host :: "pcie_sim_controller option pcie_host" where
  "g_board_pcie_host = \<lparr>host_ops = Some g_pcie_sim_host_ops\<rparr>"

definition board_pcie_init :: "pcie_sim_controller option \<Rightarrow> int \<times> pcie_sim_controller option" where
  "board_pcie_init w = (PCIE_OK, pcie_sim_controller_init w)"

record lab17 =
  g17_stage :: u32
  g17_init_result :: int
  g17_read_result :: int
  g17_id_reg :: u32
  g17_command_status :: u32
  g17_class_revision :: u32
  g17_header_type :: u32
  g17_bar0 :: u32
  g17_vendor_id :: u16
  g17_device_id :: u16
  g17_class_code :: u8
  g17_subclass :: u8
  g17_prog_if :: u8
  g17_revision :: u8
  g17_header_type_value :: u8

definition lab17_reset :: lab17 where
  "lab17_reset = \<lparr>g17_stage = 0, g17_init_result = 0, g17_read_result = 0, g17_id_reg = 0, g17_command_status = 0,
     g17_class_revision = 0, g17_header_type = 0, g17_bar0 = 0, g17_vendor_id = 0, g17_device_id = 0,
     g17_class_code = 0, g17_subclass = 0, g17_prog_if = 0, g17_revision = 0, g17_header_type_value = 0\<rparr>"

definition lab17_endpoint :: pcie_bdf where
  "lab17_endpoint = \<lparr>bdf_bus = 0, bdf_device = 1, bdf_function = 0\<rparr>"

definition lab17_main :: "lab17 \<Rightarrow> pcie_sim_controller option \<Rightarrow> lab17 \<times> pcie_sim_controller option" where
  "lab17_main g w =
     (let host = Some g_board_pcie_host; g = g\<lparr>g17_stage := 1\<rparr> in
      case board_pcie_init w of (rc, w) \<Rightarrow>
      let g = g\<lparr>g17_init_result := rc\<rparr> in
      if g17_init_result g \<noteq> PCIE_OK then (g\<lparr>g17_stage := 0xFFFFFFFF\<rparr>, w) else
      case pcie_config_read32 host lab17_endpoint PCIE_VENDOR_DEVICE_ID_OFFSET (Some (g17_id_reg g)) w of (rc, v, w) \<Rightarrow>
      let g = g\<lparr>g17_read_result := rc, g17_id_reg := the v\<rparr>;
          g = g\<lparr>g17_vendor_id := ucast (g17_id_reg g AND 0xFFFF),
                g17_device_id := ucast (drop_bit 16 (g17_id_reg g)), g17_stage := 2\<rparr> in
      case pcie_config_read32 host lab17_endpoint PCIE_COMMAND_STATUS_OFFSET (Some (g17_command_status g)) w of (rc, v, w) \<Rightarrow>
      let g = g\<lparr>g17_read_result := rc, g17_command_status := the v\<rparr> in
      case pcie_config_read32 host lab17_endpoint PCIE_CLASS_REVISION_OFFSET (Some (g17_class_revision g)) w of (rc, v, w) \<Rightarrow>
      let g = g\<lparr>g17_read_result := rc, g17_class_revision := the v\<rparr>;
          g = g\<lparr>g17_revision := ucast (g17_class_revision g AND 0xFF),
                g17_prog_if := ucast (drop_bit 8 (g17_class_revision g) AND 0xFF),
                g17_subclass := ucast (drop_bit 16 (g17_class_revision g) AND 0xFF),
                g17_class_code := ucast (drop_bit 24 (g17_class_revision g) AND 0xFF)\<rparr> in
      case pcie_config_read32 host lab17_endpoint PCIE_HEADER_TYPE_OFFSET (Some (g17_header_type g)) w of (rc, v, w) \<Rightarrow>
      let g = g\<lparr>g17_read_result := rc, g17_header_type := the v\<rparr>;
          g = g\<lparr>g17_header_type_value := ucast (drop_bit 16 (g17_header_type g) AND 0x7F), g17_stage := 3\<rparr> in
      case pcie_config_read32 host lab17_endpoint PCIE_BAR0_OFFSET (Some (g17_bar0 g)) w of (rc, v, w) \<Rightarrow>
      (g\<lparr>g17_read_result := rc, g17_bar0 := the v, g17_stage := 4\<rparr>, w))"

section \<open>The configuration-space contract\<close>

text \<open>A valid bus/device/function and register offset.\<close>

definition bdf_valid :: "pcie_bdf \<Rightarrow> bool" where
  "bdf_valid bdf \<longleftrightarrow> bdf_device bdf \<le> 31 \<and> bdf_function bdf \<le> 7"

definition offset_valid :: "u16 \<Rightarrow> bool" where
  "offset_valid offset \<longleftrightarrow> offset < 256 \<and> offset AND 3 = 0"

lemma validate_iff [simp]:
  "pcie_validate_bdf bdf = 0 \<longleftrightarrow> bdf_valid bdf" "pcie_validate_offset offset = 0 \<longleftrightarrow> offset_valid offset"
  by (auto simp: pcie_validate_bdf_def bdf_valid_def pcie_validate_offset_def offset_valid_def not_less not_le)

lemma dword_index_less: "offset_valid offset \<Longrightarrow> dword_index offset < 64"
proof -
  assume "offset_valid offset"
  then have "unat offset < 256" by (simp add: offset_valid_def word_less_nat_alt)
  moreover have "dword_index offset = unat offset div 2 ^ 2"
    unfolding dword_index_def unat_drop_bit_eq by (rule drop_bit_eq_div)
  ultimately show ?thesis by (simp add: less_mult_imp_div_less)
qed

text \<open>
  The operations of a host give access to a memory of dwords \<open>cfg\<close>: a read of a readable function
  returns its dword and changes nothing, a write to a present one changes that dword only.
\<close>

locale pcie_config_space =
  fixes host :: "'w pcie_host"
    and cfg :: "'w \<Rightarrow> pcie_bdf \<Rightarrow> nat \<Rightarrow> u32"
    and readable :: "'w \<Rightarrow> pcie_bdf \<Rightarrow> bool"
    and present :: "'w \<Rightarrow> pcie_bdf \<Rightarrow> bool"
  assumes ops_law: "\<exists>rd wr. host_read_op (Some host) = Some rd \<and> host_write_op (Some host) = Some wr \<and>
      (\<forall>bdf offset v w. bdf_valid bdf \<longrightarrow> offset_valid offset \<longrightarrow> readable w bdf \<longrightarrow>
         rd bdf offset (Some v) w = (PCIE_OK, Some (cfg w bdf (dword_index offset)), w)) \<and>
      (\<forall>bdf offset v w. bdf_valid bdf \<longrightarrow> offset_valid offset \<longrightarrow> present w bdf \<longrightarrow>
         (\<exists>w'. wr bdf offset v w = (PCIE_OK, w') \<and> readable w' = readable w \<and> present w' = present w \<and>
            cfg w' = (cfg w)(bdf := (cfg w bdf)(dword_index offset := v))))"
    and present_readable: "present w bdf \<Longrightarrow> readable w bdf"
begin

lemma config_read:
  "bdf_valid bdf \<Longrightarrow> offset_valid offset \<Longrightarrow> readable w bdf \<Longrightarrow>
     pcie_config_read32 (Some host) bdf offset (Some v) w = (PCIE_OK, Some (cfg w bdf (dword_index offset)), w)"
  using ops_law by (auto simp: pcie_config_read32_def)

lemma config_write:
  "bdf_valid bdf \<Longrightarrow> offset_valid offset \<Longrightarrow> present w bdf \<Longrightarrow>
     \<exists>w'. pcie_config_write32 (Some host) bdf offset v w = (PCIE_OK, w') \<and> readable w' = readable w \<and>
       present w' = present w \<and> cfg w' = (cfg w)(bdf := (cfg w bdf)(dword_index offset := v))"
  using ops_law by (auto simp: pcie_config_write32_def)

end

definition sim_cfg :: "pcie_sim_controller option \<Rightarrow> pcie_bdf \<Rightarrow> nat \<Rightarrow> u32" where
  "sim_cfg w bdf i = (case w of None \<Rightarrow> 0xFFFFFFFF | Some c \<Rightarrow>
     if bdf_equal bdf (sim_bdf c) \<and> i < length (sim_config c) then sim_config c ! i else 0xFFFFFFFF)"

definition sim_present :: "pcie_sim_controller option \<Rightarrow> pcie_bdf \<Rightarrow> bool" where
  "sim_present w bdf \<longleftrightarrow> (case w of None \<Rightarrow> False | Some c \<Rightarrow> bdf_equal bdf (sim_bdf c) \<and> length (sim_config c) = 64)"

lemma bdf_equal_iff: "bdf_equal a b \<longleftrightarrow> a = b"
  by (cases a; cases b) (simp add: bdf_equal_def)

interpretation sim: pcie_config_space g_board_pcie_host sim_cfg sim_present sim_present
proof (unfold_locales, goal_cases)
  case 1
  have "sim_config_read32 bdf offset (Some v) w = (PCIE_OK, Some (sim_cfg w bdf (dword_index offset)), w)"
    if "offset_valid offset" "sim_present w bdf" for bdf offset v w
    using that dword_index_less [of offset]
    by (auto simp: sim_config_read32_def sim_present_def sim_cfg_def split: option.splits)
  moreover have "\<exists>w'. sim_config_write32 bdf offset v w = (PCIE_OK, w') \<and> sim_present w' = sim_present w \<and>
      sim_cfg w' = (sim_cfg w)(bdf := (sim_cfg w bdf)(dword_index offset := v))"
    if "offset_valid offset" "sim_present w bdf" for bdf offset v w
    using that dword_index_less [of offset]
    by (auto simp: sim_config_write32_def sim_present_def sim_cfg_def bdf_equal_iff fun_eq_iff nth_list_update
        split: option.splits)
  ultimately show ?case
    by (simp add: host_read_op_def host_write_op_def g_board_pcie_host_def g_pcie_sim_host_ops_def)
qed simp

text \<open>Validation: an invalid bus/device/function, a register outside the 256-byte header or a
  misaligned one is refused with its own code before the host's operations are called, so they only
  ever see valid arguments; a missing host, table, operation or out pointer is an argument error.\<close>

lemma pcie_config_access_validated:
  "pcie_config_read32 host bdf offset value w =
     (case host_read_op host of None \<Rightarrow> (PCIE_ERR_ARGUMENT, value, w)
      | Some rd \<Rightarrow> if value = None then (PCIE_ERR_ARGUMENT, value, w)
          else if \<not> bdf_valid bdf then (PCIE_ERR_BDF, value, w)
          else if \<not> offset_valid offset then (PCIE_ERR_OFFSET, value, w)
          else rd bdf offset value w) \<and>
   pcie_config_write32 host bdf offset v w =
     (case host_write_op host of None \<Rightarrow> (PCIE_ERR_ARGUMENT, w)
      | Some wr \<Rightarrow> if \<not> bdf_valid bdf then (PCIE_ERR_BDF, w)
          else if \<not> offset_valid offset then (PCIE_ERR_OFFSET, w)
          else wr bdf offset v w)"
proof -
  have "pcie_validate_bdf bdf = (if bdf_valid bdf then PCIE_OK else PCIE_ERR_BDF)"
    "pcie_validate_offset offset = (if offset_valid offset then PCIE_OK else PCIE_ERR_OFFSET)"
    by (auto simp: pcie_validate_bdf_def bdf_valid_def pcie_validate_offset_def offset_valid_def)
  then show ?thesis
    by (auto simp: pcie_config_read32_def pcie_config_write32_def Let_def split: option.split)
qed

section \<open>Runs of accesses\<close>

text \<open>An access through the host interface; a read is given a variable with its content.  It reports the code
  and, for a read, the content of the variable after it.\<close>

datatype pcie_access = Read32 pcie_bdf u16 u32 | Write32 pcie_bdf u16 u32

primrec host_access :: "'w pcie_host option \<Rightarrow> pcie_access \<Rightarrow> 'w \<Rightarrow> (int \<times> u32 option) \<times> 'w" where
  "host_access host (Read32 bdf offset old) w =
     (case pcie_config_read32 host bdf offset (Some old) w of (rc, v, w) \<Rightarrow> ((rc, v), w))"
| "host_access host (Write32 bdf offset v) w =
     (case pcie_config_write32 host bdf offset v w of (rc, w) \<Rightarrow> ((rc, None), w))"

primrec host_accesses :: "'w pcie_host option \<Rightarrow> pcie_access list \<Rightarrow> 'w \<Rightarrow> (int \<times> u32 option) list \<times> 'w" where
  "host_accesses host [] w = ([], w)"
| "host_accesses host (a # as) w =
     (case host_access host a w of (r, w) \<Rightarrow> case host_accesses host as w of (rs, w) \<Rightarrow> (r # rs, w))"

text \<open>What they are meant to do: a file \<open>m\<close> of registers at the 64 byte offsets divisible by four of the one
  function 0:1.0, and the code an address is answered with, the first complaint first.\<close>

definition address_code :: "pcie_bdf \<Rightarrow> u16 \<Rightarrow> int" where
  "address_code bdf offset =
     (if \<not> (unat (bdf_device bdf) < 32 \<and> unat (bdf_function bdf) < 8) then PCIE_ERR_BDF
      else if \<not> (unat offset < 256 \<and> 4 dvd unat offset) then PCIE_ERR_OFFSET
      else if bdf \<noteq> lab17_endpoint then PCIE_ERR_NO_DEVICE
      else PCIE_OK)"

primrec file_result :: "(u16 \<Rightarrow> u32) \<Rightarrow> pcie_access \<Rightarrow> int \<times> u32 option" where
  "file_result m (Read32 bdf offset old) =
     (address_code bdf offset,
      Some (if address_code bdf offset = PCIE_OK then m offset
            else if address_code bdf offset = PCIE_ERR_NO_DEVICE then 0xFFFFFFFF else old))"
| "file_result m (Write32 bdf offset v) = (address_code bdf offset, None)"

primrec file_after :: "(u16 \<Rightarrow> u32) \<Rightarrow> pcie_access \<Rightarrow> u16 \<Rightarrow> u32" where
  "file_after m (Read32 bdf offset old) = m"
| "file_after m (Write32 bdf offset v) = (if address_code bdf offset = PCIE_OK then m(offset := v) else m)"

primrec file_results :: "(u16 \<Rightarrow> u32) \<Rightarrow> pcie_access list \<Rightarrow> (int \<times> u32 option) list" where
  "file_results m [] = []"
| "file_results m (a # as) = file_result m a # file_results (file_after m a) as"

definition file_reset :: "u16 \<Rightarrow> u32" where
  "file_reset = (\<lambda>_. 0)(0 := 0x56781234, 8 := 0x02000001, 0x10 := 0x50000000)"

text \<open>The controller holds the file.\<close>

definition file_dwords :: "(u16 \<Rightarrow> u32) \<Rightarrow> u32 list" where
  "file_dwords m = map (\<lambda>i. m (of_nat (4 * i))) [0..<64]"

abbreviation (input) holding :: "(u16 \<Rightarrow> u32) \<Rightarrow> pcie_sim_controller option" where
  "holding m \<equiv> Some \<lparr>sim_bdf = lab17_endpoint, sim_config = file_dwords m\<rparr>"

lemma offset_valid_iff: "offset_valid offset \<longleftrightarrow> unat offset < 256 \<and> 4 dvd unat offset"
proof -
  have "offset AND 3 = take_bit 2 offset" by (simp add: take_bit_eq_mask eval_nat_numeral mask_Suc_exp)
  moreover have "take_bit 2 offset = 0 \<longleftrightarrow> unat (take_bit 2 offset) = 0" by (simp add: unat_eq_0)
  moreover have "unat (take_bit 2 offset) = unat offset mod 4"
    using take_bit_eq_mod [of 2 "unat offset"] by (simp only: unsigned_take_bit_eq) simp
  ultimately show ?thesis by (simp add: offset_valid_def word_less_nat_alt dvd_eq_mod_eq_0)
qed

lemma address_code_cases:
  "address_code bdf offset =
     (if \<not> bdf_valid bdf then PCIE_ERR_BDF else if \<not> offset_valid offset then PCIE_ERR_OFFSET
      else if bdf \<noteq> lab17_endpoint then PCIE_ERR_NO_DEVICE else PCIE_OK)"
  unfolding address_code_def offset_valid_iff by (simp add: bdf_valid_def word_le_nat_alt less_Suc_eq_le [symmetric])

lemma dword_offset:
  assumes "offset_valid offset" "i < 64"
  shows "of_nat (4 * i) = offset \<longleftrightarrow> i = dword_index offset"
proof -
  have d: "dword_index offset = unat offset div 4"
    unfolding dword_index_def unat_drop_bit_eq by (simp add: drop_bit_eq_div)
  have "of_nat (4 * i) = offset \<longleftrightarrow> 4 * i = unat offset"
    using assms(2) by (auto simp: unat_of_nat word_unat_eq_iff simp del: of_nat_mult)
  then show ?thesis using assms(1) d by (auto simp: offset_valid_iff)
qed

lemma file_dwords_nth: "offset_valid offset \<Longrightarrow> file_dwords m ! dword_index offset = m offset"
  using dword_offset [of offset "dword_index offset"] dword_index_less [of offset] by (simp add: file_dwords_def)

lemma file_dwords_update:
  assumes "offset_valid offset"
  shows "(file_dwords m)[dword_index offset := v] = file_dwords (m(offset := v))"
  using dword_offset [OF assms]
  by (intro nth_equalityI) (auto simp: file_dwords_def nth_list_update simp del: of_nat_mult)

lemma host_access_file:
  "host_access (Some g_board_pcie_host) a (holding m) = (file_result m a, holding (file_after m a))"
  by (cases a)
    (auto simp: pcie_config_access_validated address_code_cases host_read_op_def host_write_op_def g_board_pcie_host_def
      g_pcie_sim_host_ops_def sim_config_read32_def sim_config_write32_def bdf_equal_iff file_dwords_nth file_dwords_update)

lemma host_accesses_file:
  "host_accesses (Some g_board_pcie_host) as (holding m) = (file_results m as, holding (fold (\<lambda>a m. file_after m a) as m))"
  by (induction as arbitrary: m) (simp_all add: host_access_file)

lemma board_reset_file: "snd (board_pcie_init (Some c)) = holding file_reset"
proof -
  have "(replicate 64 0 :: u32 list) = file_dwords (\<lambda>_. 0)" by (simp add: file_dwords_def map_replicate_const)
  moreover have "offset_valid 0" "offset_valid 4" "offset_valid 8" "offset_valid 0xC" "offset_valid 0x10"
    by (simp_all add: offset_valid_def)
  moreover have "(\<lambda>_. 0)(0 := 0x56781234, 4 := 0, 8 := 0x02000001, 0xC := 0, 0x10 := 0x50000000) = file_reset"
    by (simp add: file_reset_def fun_eq_iff)
  ultimately show ?thesis
    by (simp only: board_pcie_init_def pcie_sim_controller_init_def file_dwords_update lab17_endpoint_def Let_def option.case snd_conv)
      (simp add: file_dwords_update)
qed

section \<open>Properties\<close>

text \<open>C39.  The whole stack, from the interface to the controller: whatever accesses are made after the board's
  initialisation, to valid addresses or not, each is answered as a file of 64 registers would answer it.  A device
  above 31 or a function above 7 is refused first, then an offset outside the 256 bytes or not divisible by four,
  both without touching the caller's variable; then a function that is not there, which reads as ones; a
  read of 0:1.0 gives the last value written to that very offset, at first the reset header.  At the end the
  controller still has its 64 dwords, with the content of the file.\<close>

theorem pcie_accesses_refine_file:
  "host_accesses (Some g_board_pcie_host) as (snd (board_pcie_init (Some c))) =
     (file_results file_reset as,
      Some \<lparr>sim_bdf = lab17_endpoint, sim_config = map (\<lambda>i. fold (\<lambda>a m. file_after m a) as file_reset (of_nat (4 * i))) [0..<64]\<rparr>)"
  by (simp only: board_reset_file host_accesses_file) (simp only: file_dwords_def)

text \<open>Note.  The program reads the header the simulated controller was given.\<close>

theorem lab17_main_header:
  "case lab17_main g (Some c) of (g', w') \<Rightarrow>
     g17_stage g' = 4 \<and> g17_read_result g' = PCIE_OK \<and> g17_vendor_id g' = 0x1234 \<and> g17_device_id g' = 0x5678 \<and>
     g17_class_code g' = 2 \<and> g17_subclass g' = 0 \<and> g17_prog_if g' = 0 \<and> g17_revision g' = 1 \<and>
     g17_header_type_value g' = 0 \<and> g17_bar0 g' = 0x50000000"
proof -
  let ?e = lab17_endpoint
  obtain c' where init: "board_pcie_init (Some c) = (PCIE_OK, Some c')" "sim_bdf c' = ?e" "length (sim_config c') = 64"
    "sim_config c' ! 0 = 0x56781234" "sim_config c' ! 1 = 0" "sim_config c' ! 2 = 0x02000001"
    "sim_config c' ! 3 = 0" "sim_config c' ! 4 = 0x50000000"
    by (simp add: board_pcie_init_def pcie_sim_controller_init_def lab17_endpoint_def dword_index_def Let_def)
  have p: "sim_present (Some c') ?e" "bdf_valid ?e"
    using init by (simp_all add: sim_present_def bdf_equal_iff bdf_valid_def lab17_endpoint_def)
  have rd: "pcie_config_read32 (Some g_board_pcie_host) ?e off (Some v) (Some c') =
      (PCIE_OK, Some (sim_config c' ! dword_index off), Some c')" if "offset_valid off" for off v
    using sim.config_read [OF p(2) that p(1), of v] init(2,3) dword_index_less [OF that]
    by (simp add: sim_cfg_def bdf_equal_iff)
  have off: "offset_valid 0" "offset_valid 4" "offset_valid 8" "offset_valid 12" "offset_valid 16"
    by (simp_all add: offset_valid_def)
  have ix: "dword_index 0 = 0" "dword_index 4 = 1" "dword_index 8 = 2" "dword_index 12 = 3" "dword_index 16 = 4"
    by (simp_all add: dword_index_def)
  show ?thesis using init by (simp add: lab17_main_def rd off ix Let_def)
qed

end
