(* ===== verification/Pcie_Enum.thy ===== *)
theory Pcie_Enum
  imports Pcie_Host
begin

text \<open>
  labs/lab18_pcie_enumeration: bus enumeration (pcie_bus.c) over the configuration accessors of that
  lab (pcie_host.c), a simulated controller with several functions (pcie_sim_host.c, board_pcie.c)
  and the program that enumerates it (main.c).

  A function that fills a struct through a pointer returns the struct beside its result, also when it
  stops half way.
\<close>

section \<open>Validated access (pcie_host.c)\<close>

abbreviation (input) PCIE18_ERR_BDF :: int where "PCIE18_ERR_BDF \<equiv> - 1"
abbreviation (input) PCIE_ERR_PLATFORM :: int where "PCIE_ERR_PLATFORM \<equiv> - 4"

definition pcie18_validate_bdf :: "pcie_bdf \<Rightarrow> int" where
  "pcie18_validate_bdf bdf =
     (if bdf_device bdf > 31 then PCIE18_ERR_BDF
      else if bdf_function bdf > 7 then PCIE18_ERR_BDF
      else PCIE_OK)"

definition pcie18_validate_offset :: "u16 \<Rightarrow> int" where
  "pcie18_validate_offset offset =
     (if offset \<ge> 256 then PCIE_ERR_OFFSET
      else if offset AND 3 \<noteq> 0 then PCIE_ERR_OFFSET
      else PCIE_OK)"

definition pcie18_config_read32 :: "'w pcie_host option \<Rightarrow> pcie_bdf \<Rightarrow> u16 \<Rightarrow> u32 option \<Rightarrow> 'w \<Rightarrow>
    int \<times> u32 option \<times> 'w" where
  "pcie18_config_read32 host bdf offset value w =
     (case host_read_op host of None \<Rightarrow> (PCIE_ERR_ARGUMENT, value, w)
      | Some config_read32 \<Rightarrow>
        if value = None then (PCIE_ERR_ARGUMENT, value, w)
        else let result = pcie18_validate_bdf bdf in
          if result \<noteq> PCIE_OK then (result, value, w)
          else let result = pcie18_validate_offset offset in
            if result \<noteq> PCIE_OK then (result, value, w)
            else config_read32 bdf offset value w)"

definition pcie18_config_write32 :: "'w pcie_host option \<Rightarrow> pcie_bdf \<Rightarrow> u16 \<Rightarrow> u32 \<Rightarrow> 'w \<Rightarrow> int \<times> 'w" where
  "pcie18_config_write32 host bdf offset value w =
     (case host_write_op host of None \<Rightarrow> (PCIE_ERR_ARGUMENT, w)
      | Some config_write32 \<Rightarrow>
        let result = pcie18_validate_bdf bdf in
          if result \<noteq> PCIE_OK then (result, w)
          else let result = pcie18_validate_offset offset in
            if result \<noteq> PCIE_OK then (result, w)
            else config_write32 bdf offset value w)"

section \<open>Bus data (pcie_bus.h)\<close>

abbreviation (input) PCIE_MAX_DEVICES :: nat where "PCIE_MAX_DEVICES \<equiv> 16"
abbreviation (input) PCIE_MAX_BARS :: nat where "PCIE_MAX_BARS \<equiv> 6"
abbreviation (input) PCIE_HEADER_TYPE_NORMAL :: u8 where "PCIE_HEADER_TYPE_NORMAL \<equiv> 0"

abbreviation (input) PCIE_CFG_VENDOR_DEVICE :: u16 where "PCIE_CFG_VENDOR_DEVICE \<equiv> 0x00"
abbreviation (input) PCIE_CFG_CLASS_REVISION :: u16 where "PCIE_CFG_CLASS_REVISION \<equiv> 0x08"
abbreviation (input) PCIE_CFG_HEADER :: u16 where "PCIE_CFG_HEADER \<equiv> 0x0C"
abbreviation (input) PCIE_CFG_BAR0 :: u16 where "PCIE_CFG_BAR0 \<equiv> 0x10"
abbreviation (input) PCIE_CFG_INTERRUPT :: u16 where "PCIE_CFG_INTERRUPT \<equiv> 0x3C"

record pcie_bar =
  bar_raw :: u32
  bar_address :: u32
  bar_is_io :: u8
  bar_is_64bit :: u8
  bar_prefetchable :: u8

record pcie_device =
  pd_bdf :: pcie_bdf
  pd_vendor_id :: u16
  pd_device_id :: u16
  pd_revision :: u8
  pd_prog_if :: u8
  pd_subclass :: u8
  pd_class_code :: u8
  pd_header_type :: u8
  pd_multifunction :: u8
  pd_bars :: "pcie_bar list"
  pd_irq_line :: u8
  pd_irq_pin :: u8

record 'w pcie_bus =
  pb_host :: "'w pcie_host option"
  pb_devices :: "pcie_device list"
  pb_device_count :: nat

section \<open>Enumeration (pcie_bus.c)\<close>

text \<open>The reads go to locals whose content before the read is never used: 0 stands for it.\<close>

definition pcie_read32 :: "'w pcie_bus \<Rightarrow> pcie_bdf \<Rightarrow> u16 \<Rightarrow> 'w \<Rightarrow> int \<times> u32 \<times> 'w" where
  "pcie_read32 bus bdf offset w =
     (case pcie18_config_read32 (pb_host bus) bdf offset (Some 0) w of (rc, v, w) \<Rightarrow> (rc, the v, w))"

definition pcie_decode_bar :: "pcie_bar \<Rightarrow> u32 \<Rightarrow> pcie_bar" where
  "pcie_decode_bar bar raw =
     (let bar = bar\<lparr>bar_raw := raw\<rparr> in
      if raw AND 1 \<noteq> 0
      then bar\<lparr>bar_is_io := 1, bar_is_64bit := 0, bar_prefetchable := 0, bar_address := raw AND 0xFFFFFFFC\<rparr>
      else bar\<lparr>bar_is_io := 0, bar_is_64bit := (if drop_bit 1 raw AND 3 = 2 then 1 else 0),
               bar_prefetchable := (if raw AND 8 \<noteq> 0 then 1 else 0), bar_address := raw AND 0xFFFFFFF0\<rparr>)"

fun pcie_read_bars :: "'w pcie_bus \<Rightarrow> pcie_bdf \<Rightarrow> nat list \<Rightarrow> pcie_device \<Rightarrow> 'w \<Rightarrow> int \<times> pcie_device \<times> 'w" where
  "pcie_read_bars bus bdf [] dev w = (PCIE_OK, dev, w)"
| "pcie_read_bars bus bdf (index # rest) dev w =
     (case pcie_read32 bus bdf (PCIE_CFG_BAR0 + of_nat (index * 4)) w of (result, value, w) \<Rightarrow>
        if result \<noteq> PCIE_OK then (result, dev, w)
        else pcie_read_bars bus bdf rest
          (dev\<lparr>pd_bars := (pd_bars dev)[index := pcie_decode_bar (pd_bars dev ! index) value]\<rparr>) w)"

definition pcie_read_function :: "'w pcie_bus \<Rightarrow> pcie_bdf \<Rightarrow> pcie_device \<Rightarrow> 'w \<Rightarrow> int \<times> pcie_device \<times> 'w" where
  "pcie_read_function bus bdf dev w =
     (case pcie_read32 bus bdf PCIE_CFG_VENDOR_DEVICE w of (result, value, w) \<Rightarrow>
      if result \<noteq> PCIE_OK then (result, dev, w) else
      let dev = dev\<lparr>pd_bdf := bdf, pd_vendor_id := ucast (value AND 0xFFFF),
                    pd_device_id := ucast (drop_bit 16 value)\<rparr> in
      case pcie_read32 bus bdf PCIE_CFG_CLASS_REVISION w of (result, value, w) \<Rightarrow>
      if result \<noteq> PCIE_OK then (result, dev, w) else
      let dev = dev\<lparr>pd_revision := ucast (value AND 0xFF), pd_subclass := ucast (drop_bit 16 value AND 0xFF),
                    pd_class_code := ucast (drop_bit 24 value AND 0xFF)\<rparr> in
      case pcie_read32 bus bdf PCIE_CFG_HEADER w of (result, value, w) \<Rightarrow>
      if result \<noteq> PCIE_OK then (result, dev, w) else
      let dev = dev\<lparr>pd_header_type := ucast (drop_bit 16 value AND 0x7F),
                    pd_multifunction := (if value AND 0x00800000 \<noteq> 0 then 1 else 0)\<rparr> in
      case (if pd_header_type dev = PCIE_HEADER_TYPE_NORMAL
            then pcie_read_bars bus bdf [0..<PCIE_MAX_BARS] dev w else (PCIE_OK, dev, w)) of (result, dev, w) \<Rightarrow>
      if result \<noteq> PCIE_OK then (result, dev, w) else
      case pcie_read32 bus bdf PCIE_CFG_INTERRUPT w of (result, value, w) \<Rightarrow>
      if result \<noteq> PCIE_OK then (result, dev, w) else
      (PCIE_OK, dev\<lparr>pd_irq_line := ucast (value AND 0xFF), pd_irq_pin := ucast (drop_bit 8 value AND 0xFF)\<rparr>, w))"

definition pcie_scan_function :: "'w pcie_bus \<Rightarrow> u8 \<Rightarrow> u8 \<Rightarrow> u8 \<Rightarrow> 'w \<Rightarrow> int \<times> 'w pcie_bus \<times> 'w" where
  "pcie_scan_function bus bus_number device_number function_number w =
     (let bdf = \<lparr>bdf_bus = bus_number, bdf_device = device_number, bdf_function = function_number\<rparr> in
      case pcie_read32 bus bdf PCIE_CFG_VENDOR_DEVICE w of (result, value, w) \<Rightarrow>
      if result \<noteq> PCIE_OK then (result, bus, w)
      else if (ucast (value AND 0xFFFF) :: u16) = 0xFFFF then (PCIE_OK, bus, w)
      else if pb_device_count bus \<ge> PCIE_MAX_DEVICES then (PCIE_ERR_ARGUMENT, bus, w)
      else
        let n = pb_device_count bus in
        case pcie_read_function bus bdf (pb_devices bus ! n) w of (result, dev, w) \<Rightarrow>
        let bus = bus\<lparr>pb_devices := (pb_devices bus)[n := dev]\<rparr> in
        if result \<noteq> PCIE_OK then (result, bus, w)
        else (PCIE_OK, bus\<lparr>pb_device_count := n + 1\<rparr>, w))"

fun pcie_scan_functions :: "'w pcie_bus \<Rightarrow> u8 \<Rightarrow> u8 \<Rightarrow> nat list \<Rightarrow> 'w \<Rightarrow> int \<times> 'w pcie_bus \<times> 'w" where
  "pcie_scan_functions bus bus_number device_number [] w = (PCIE_OK, bus, w)"
| "pcie_scan_functions bus bus_number device_number (f # fs) w =
     (case pcie_scan_function bus bus_number device_number (of_nat f) w of (result, bus, w) \<Rightarrow>
        if result \<noteq> PCIE_OK then (result, bus, w)
        else pcie_scan_functions bus bus_number device_number fs w)"

definition pcie_scan_device :: "'w pcie_bus \<Rightarrow> u8 \<Rightarrow> u8 \<Rightarrow> 'w \<Rightarrow> int \<times> 'w pcie_bus \<times> 'w" where
  "pcie_scan_device bus bus_number device_number w =
     (let bdf = \<lparr>bdf_bus = bus_number, bdf_device = device_number, bdf_function = 0\<rparr> in
      case pcie_read32 bus bdf PCIE_CFG_VENDOR_DEVICE w of (result, value, w) \<Rightarrow>
      if result \<noteq> PCIE_OK then (result, bus, w)
      else if (ucast (value AND 0xFFFF) :: u16) = 0xFFFF then (PCIE_OK, bus, w)
      else
        case pcie_scan_function bus bus_number device_number 0 w of (result, bus, w) \<Rightarrow>
        if result \<noteq> PCIE_OK then (result, bus, w) else
        case pcie_read32 bus bdf PCIE_CFG_HEADER w of (result, header, w) \<Rightarrow>
        if result \<noteq> PCIE_OK then (result, bus, w)
        else if header AND 0x00800000 = 0 then (PCIE_OK, bus, w)
        else pcie_scan_functions bus bus_number device_number [1..<8] w)"

fun pcie_scan_devices :: "'w pcie_bus \<Rightarrow> u8 \<Rightarrow> nat list \<Rightarrow> 'w \<Rightarrow> int \<times> 'w pcie_bus \<times> 'w" where
  "pcie_scan_devices bus bus_number [] w = (PCIE_OK, bus, w)"
| "pcie_scan_devices bus bus_number (d # ds) w =
     (case pcie_scan_device bus bus_number (of_nat d) w of (result, bus, w) \<Rightarrow>
        if result \<noteq> PCIE_OK then (result, bus, w) else pcie_scan_devices bus bus_number ds w)"

definition pcie_scan_bus :: "'w pcie_bus \<Rightarrow> u8 \<Rightarrow> 'w \<Rightarrow> int \<times> 'w pcie_bus \<times> 'w" where
  "pcie_scan_bus bus bus_number w = pcie_scan_devices bus bus_number [0..<32] w"

definition pcie_bus_init :: "'w pcie_bus option \<Rightarrow> 'w pcie_host option \<Rightarrow> int \<times> 'w pcie_bus option" where
  "pcie_bus_init bus host =
     (case bus of None \<Rightarrow> (PCIE_ERR_ARGUMENT, None)
      | Some b \<Rightarrow> if host = None then (PCIE_ERR_ARGUMENT, bus)
          else (PCIE_OK, Some (b\<lparr>pb_host := host, pb_device_count := 0\<rparr>)))"

definition pcie_enumerate :: "'w pcie_bus option \<Rightarrow> 'w \<Rightarrow> int \<times> 'w pcie_bus option \<times> 'w" where
  "pcie_enumerate bus w =
     (case bus of None \<Rightarrow> (PCIE_ERR_ARGUMENT, None, w)
      | Some b \<Rightarrow> if pb_host b = None then (PCIE_ERR_ARGUMENT, bus, w)
          else case pcie_scan_bus (b\<lparr>pb_device_count := 0\<rparr>) 0 w of (rc, b, w) \<Rightarrow> (rc, Some b, w))"

section \<open>What enumeration finds\<close>

text \<open>The functions of a device in a configuration space \<open>c\<close>, in the order they are visited.\<close>

definition dev_bdf :: "nat \<Rightarrow> nat \<Rightarrow> pcie_bdf" where
  "dev_bdf d f = \<lparr>bdf_bus = 0, bdf_device = of_nat d, bdf_function = of_nat f\<rparr>"

definition answers :: "(pcie_bdf \<Rightarrow> nat \<Rightarrow> u32) \<Rightarrow> pcie_bdf \<Rightarrow> bool" where
  "answers c bdf \<longleftrightarrow> (ucast (c bdf 0 AND 0xFFFF) :: u16) \<noteq> 0xFFFF"

definition device_functions :: "(pcie_bdf \<Rightarrow> nat \<Rightarrow> u32) \<Rightarrow> nat \<Rightarrow> pcie_bdf list" where
  "device_functions c d =
     (if \<not> answers c (dev_bdf d 0) then []
      else dev_bdf d 0 #
        (if c (dev_bdf d 0) 3 AND 0x00800000 = 0 then []
         else filter (answers c) (map (dev_bdf d) [1..<8])))"

definition bus_functions :: "(pcie_bdf \<Rightarrow> nat \<Rightarrow> u32) \<Rightarrow> pcie_bdf list" where
  "bus_functions c = concat (map (device_functions c) [0..<32])"

text \<open>What is recorded of a function, over the previous content of its table entry.\<close>

definition decode_function :: "(nat \<Rightarrow> u32) \<Rightarrow> pcie_bdf \<Rightarrow> pcie_device \<Rightarrow> pcie_device" where
  "decode_function r bdf old = old\<lparr>pd_bdf := bdf, pd_vendor_id := ucast (r 0 AND 0xFFFF),
     pd_device_id := ucast (drop_bit 16 (r 0)), pd_revision := ucast (r 2 AND 0xFF),
     pd_subclass := ucast (drop_bit 16 (r 2) AND 0xFF), pd_class_code := ucast (drop_bit 24 (r 2) AND 0xFF),
     pd_header_type := ucast (drop_bit 16 (r 3) AND 0x7F),
     pd_multifunction := (if r 3 AND 0x00800000 \<noteq> 0 then 1 else 0),
     pd_bars := (if (ucast (drop_bit 16 (r 3) AND 0x7F) :: u8) = 0
                 then map (\<lambda>i. pcie_decode_bar (pd_bars old ! i) (r (4 + i))) [0..<6] else pd_bars old),
     pd_irq_line := ucast (r 15 AND 0xFF), pd_irq_pin := ucast (drop_bit 8 (r 15) AND 0xFF)\<rparr>"

text \<open>The device table after recording the functions \<open>bs\<close> from entry \<open>n\<close> on.\<close>

fun record_functions :: "(pcie_bdf \<Rightarrow> nat \<Rightarrow> u32) \<Rightarrow> pcie_bdf list \<Rightarrow> nat \<Rightarrow> pcie_device list \<Rightarrow> pcie_device list" where
  "record_functions c [] n devs = devs"
| "record_functions c (b # bs) n devs = record_functions c bs (Suc n) (devs[n := decode_function (c b) b (devs ! n)])"


section \<open>Enumeration of a readable configuration space\<close>

text \<open>The table of a well-formed bus, and the effect of recording functions one by one: the
  seventeenth is an error.\<close>

definition bus_wf :: "'w pcie_host \<Rightarrow> 'w pcie_bus \<Rightarrow> bool" where
  "bus_wf host bus \<longleftrightarrow> pb_host bus = Some host \<and> length (pb_devices bus) = 16 \<and>
     (\<forall>dev \<in> set (pb_devices bus). length (pd_bars dev) = 6)"

fun push_all :: "(pcie_bdf \<Rightarrow> nat \<Rightarrow> u32) \<Rightarrow> pcie_bdf list \<Rightarrow> 'w pcie_bus \<Rightarrow> int \<times> 'w pcie_bus" where
  "push_all c [] bus = (PCIE_OK, bus)"
| "push_all c (b # bs) bus =
     (if pb_device_count bus \<ge> PCIE_MAX_DEVICES then (PCIE_ERR_ARGUMENT, bus)
      else let n = pb_device_count bus in
        push_all c bs (bus\<lparr>pb_devices := (pb_devices bus)[n := decode_function (c b) b (pb_devices bus ! n)],
                          pb_device_count := n + 1\<rparr>))"

lemma push_all_append:
  "push_all c (xs @ ys) bus =
     (case push_all c xs bus of (rc, bus) \<Rightarrow> if rc \<noteq> 0 then (rc, bus) else push_all c ys bus)"
  by (induction c xs bus rule: push_all.induct) (auto simp: Let_def)

lemma push_wf:
  assumes "bus_wf host bus" "n < 16"
  shows "bus_wf host (bus\<lparr>pb_devices := (pb_devices bus)[n := decode_function r b (pb_devices bus ! n)], pb_device_count := k\<rparr>)"
proof -
  let ?new = "decode_function r b (pb_devices bus ! n)"
  have "length (pd_bars (pb_devices bus ! n)) = 6" using assms by (simp add: bus_wf_def)
  then have new: "length (pd_bars ?new) = 6" by (simp add: decode_function_def)
  have "length (pd_bars dev) = 6" if "dev \<in> set ((pb_devices bus)[n := ?new])" for dev
    using set_update_subset_insert [THEN subsetD, OF that] new assms(1) by (auto simp: bus_wf_def)
  then show ?thesis using assms(1) by (simp add: bus_wf_def)
qed

lemma push_all_wf: "push_all c bs bus = (rc, bus') \<Longrightarrow> bus_wf host bus \<Longrightarrow> bus_wf host bus'"
proof (induction c bs bus rule: push_all.induct)
  case (2 c b bs bus)
  then show ?case using push_wf [of host bus "pb_device_count bus" "Suc (pb_device_count bus)" "c b" b]
    by (simp add: Let_def split: if_split_asm)
qed simp

lemma push_all_fits:
  "pb_device_count bus + length bs \<le> 16 \<Longrightarrow> push_all c bs bus =
     (PCIE_OK, bus\<lparr>pb_devices := record_functions c bs (pb_device_count bus) (pb_devices bus),
                   pb_device_count := pb_device_count bus + length bs\<rparr>)"
  by (induction c bs bus rule: push_all.induct) (auto simp: Let_def)

lemma push_all_overflow:
  "pb_device_count bus \<le> 16 \<Longrightarrow> 16 < pb_device_count bus + length bs \<Longrightarrow>
     fst (push_all c bs bus) = PCIE_ERR_ARGUMENT \<and> pb_device_count (snd (push_all c bs bus)) = 16"
  by (induction c bs bus rule: push_all.induct) (auto simp: Let_def)

lemma dev_bdf_valid: "d < 32 \<Longrightarrow> f < 8 \<Longrightarrow> bdf_valid (dev_bdf d f)"
  by (simp add: bdf_valid_def dev_bdf_def word_le_nat_alt unat_u8_of_nat)

lemma offsets_valid:
  "offset_valid 0" "offset_valid 8" "offset_valid 12" "offset_valid 60"
  "dword_index 0 = 0" "dword_index 8 = 2" "dword_index 12 = 3" "dword_index 60 = 15"
  by (simp_all add: offset_valid_def dword_index_def)

lemma bar_offsets:
  assumes "i < 6"
  shows "offset_valid (16 + word_of_nat (i * 4))" "dword_index (16 + word_of_nat (i * 4)) = 4 + i"
proof -
  from assms have "i \<in> {0..<6}" by simp
  also have "{0..<6} = {0, 1, 2, 3, 4, 5 :: nat}" by auto
  finally show "offset_valid (16 + word_of_nat (i * 4))" "dword_index (16 + word_of_nat (i * 4)) = 4 + i"
    by (auto simp: offset_valid_def dword_index_def)
qed

text \<open>A host whose reads succeed for every function, absent ones reading as all ones.\<close>

locale pcie_bus_space = pcie_config_space +
  fixes live :: "'a \<Rightarrow> bool"
  assumes all_readable: "live w \<Longrightarrow> readable w bdf"
begin

lemma read32:
  assumes "live w" "pb_host bus = Some host" "bdf_valid bdf" "offset_valid off"
  shows "pcie_read32 bus bdf off w = (PCIE_OK, cfg w bdf (dword_index off), w)"
proof -
  have v: "pcie18_validate_bdf bdf = 0" "pcie18_validate_offset off = 0"
    using assms by (auto simp: pcie18_validate_bdf_def bdf_valid_def pcie18_validate_offset_def offset_valid_def)
  show ?thesis
    using ops_law all_readable assms v by (auto simp: pcie_read32_def pcie18_config_read32_def)
qed

lemma read_bars:
  assumes "live w" "pb_host bus = Some host" "bdf_valid bdf" "length (pd_bars dev) = 6" "k \<le> 6"
  shows "pcie_read_bars bus bdf [k..<6] dev w = (PCIE_OK, dev\<lparr>pd_bars := take k (pd_bars dev) @
    map (\<lambda>i. pcie_decode_bar (pd_bars dev ! i) (cfg w bdf (4 + i))) [k..<6]\<rparr>, w)"
  using assms
proof (induction "6 - k" arbitrary: k dev)
  case 0
  then show ?case by simp
next
  case (Suc x)
  then have k: "k < 6" by simp
  let ?b = "pcie_decode_bar (pd_bars dev ! k) (cfg w bdf (4 + k))"
  let ?dev = "dev\<lparr>pd_bars := (pd_bars dev)[k := ?b]\<rparr>"
  have "pcie_read_bars bus bdf [k..<6] dev w = pcie_read_bars bus bdf [Suc k..<6] ?dev w"
    using k read32 [OF Suc.prems(1,2,3) bar_offsets(1) [OF k]] bar_offsets(2) [OF k]
    by (simp add: upt_conv_Cons)
  also have "\<dots> = (PCIE_OK, ?dev\<lparr>pd_bars := take (Suc k) (pd_bars ?dev) @
      map (\<lambda>i. pcie_decode_bar (pd_bars ?dev ! i) (cfg w bdf (4 + i))) [Suc k..<6]\<rparr>, w)"
    using Suc.hyps(1) [of "Suc k" ?dev] Suc.hyps(2) Suc.prems k by simp
  also have "take (Suc k) (pd_bars ?dev) @ map (\<lambda>i. pcie_decode_bar (pd_bars ?dev ! i) (cfg w bdf (4 + i))) [Suc k..<6] =
      take k (pd_bars dev) @ map (\<lambda>i. pcie_decode_bar (pd_bars dev ! i) (cfg w bdf (4 + i))) [k..<6]"
    using k Suc.prems(4) by (simp add: upt_conv_Cons [of k 6] take_Suc_conv_app_nth)
  finally show ?case by simp
qed

lemma read_function:
  assumes "live w" "pb_host bus = Some host" "bdf_valid bdf" "length (pd_bars dev) = 6"
  shows "pcie_read_function bus bdf dev w = (PCIE_OK, decode_function (cfg w bdf) bdf dev, w)"
  using read_bars [OF assms(1-3), of _ 0] assms(4)
  by (simp add: pcie_read_function_def read32 [OF assms(1-3)] offsets_valid Let_def decode_function_def)

lemma scan_function:
  assumes "live w" "bus_wf host bus" "d < 32" "f < 8"
  shows "pcie_scan_function bus 0 (of_nat d) (of_nat f) w =
    (case push_all (cfg w) (filter (answers (cfg w)) [dev_bdf d f]) bus of (rc, b) \<Rightarrow> (rc, b, w))"
proof -
  have v: "bdf_valid (dev_bdf d f)" using assms by (simp add: dev_bdf_valid)
  have h: "pb_host bus = Some host" using assms by (simp add: bus_wf_def)
  note rd = read32 [OF assms(1) h v offsets_valid(1), unfolded offsets_valid]
  show ?thesis
  proof (cases "answers (cfg w) (dev_bdf d f)")
    case False
    then show ?thesis using rd by (simp add: pcie_scan_function_def dev_bdf_def answers_def Let_def)
  next
    case True
    show ?thesis
    proof (cases "pb_device_count bus \<ge> 16")
      case full: True
      then show ?thesis using rd True by (simp add: pcie_scan_function_def dev_bdf_def answers_def Let_def)
    next
      case False
      then have "length (pd_bars (pb_devices bus ! pb_device_count bus)) = 6" using assms(2) by (simp add: bus_wf_def)
      then show ?thesis using rd True False read_function [OF assms(1) h v]
        by (simp add: pcie_scan_function_def dev_bdf_def answers_def Let_def)
    qed
  qed
qed

lemma scan_functions:
  assumes "live w" "bus_wf host bus" "d < 32" "set fs \<subseteq> {..<8}"
  shows "pcie_scan_functions bus 0 (of_nat d) fs w =
    (case push_all (cfg w) (filter (answers (cfg w)) (map (dev_bdf d) fs)) bus of (rc, b) \<Rightarrow> (rc, b, w))"
  using assms
proof (induction fs arbitrary: bus)
  case Nil
  then show ?case by simp
next
  case (Cons f fs)
  obtain rc b where p: "push_all (cfg w) (filter (answers (cfg w)) [dev_bdf d f]) bus = (rc, b)" by fastforce
  have "filter (answers (cfg w)) (map (dev_bdf d) (f # fs)) =
      filter (answers (cfg w)) [dev_bdf d f] @ filter (answers (cfg w)) (map (dev_bdf d) fs)" by simp
  then show ?case
    using scan_function [of w bus d f] Cons p push_all_wf [OF p]
    by (simp add: push_all_append del: filter.simps)
qed

lemma scan_device:
  assumes "live w" "bus_wf host bus" "d < 32"
  shows "pcie_scan_device bus 0 (of_nat d) w =
    (case push_all (cfg w) (device_functions (cfg w) d) bus of (rc, b) \<Rightarrow> (rc, b, w))"
proof -
  have v: "bdf_valid (dev_bdf d 0)" using assms by (simp add: dev_bdf_valid)
  have h: "pb_host bus = Some host" using assms by (simp add: bus_wf_def)
  note rd = read32 [OF assms(1) h v offsets_valid(1), unfolded offsets_valid]
  show ?thesis
  proof (cases "answers (cfg w) (dev_bdf d 0)")
    case False
    then show ?thesis using rd by (simp add: pcie_scan_device_def device_functions_def dev_bdf_def answers_def Let_def)
  next
    case True
    obtain rc b where p: "push_all (cfg w) [dev_bdf d 0] bus = (rc, b)" by fastforce
    note wf = push_all_wf [OF p assms(2)]
    then have hb: "pb_host b = Some host" by (simp add: bus_wf_def)
    note rh = read32 [OF assms(1) hb v offsets_valid(3), unfolded offsets_valid]
    have f0: "pcie_scan_function bus 0 (of_nat d) 0 w = (rc, b, w)"
      using scan_function [OF assms, of 0] True p by simp
    let ?rest = "if cfg w (dev_bdf d 0) 3 AND 0x00800000 = 0 then []
        else filter (answers (cfg w)) (map (dev_bdf d) [1..<8])"
    have df: "push_all (cfg w) (device_functions (cfg w) d) bus = (if rc \<noteq> 0 then (rc, b) else push_all (cfg w) ?rest b)"
      using True p push_all_append [of "cfg w" "[dev_bdf d 0]" ?rest bus] by (simp add: device_functions_def)
    have sf: "pcie_scan_functions b 0 (of_nat d) [1..<8] w =
        (case push_all (cfg w) (filter (answers (cfg w)) (map (dev_bdf d) [1..<8])) b of (rc, b) \<Rightarrow> (rc, b, w))"
      by (rule scan_functions [OF assms(1) wf assms(3)]) auto
    show ?thesis
      unfolding df using rd rh f0 True sf
      by (simp add: pcie_scan_device_def dev_bdf_def answers_def Let_def del: upt_rec_numeral)
  qed
qed

lemma scan_devices:
  assumes "live w" "bus_wf host bus" "set ds \<subseteq> {..<32}"
  shows "pcie_scan_devices bus 0 ds w =
    (case push_all (cfg w) (concat (map (device_functions (cfg w)) ds)) bus of (rc, b) \<Rightarrow> (rc, b, w))"
  using assms
proof (induction ds arbitrary: bus)
  case Nil
  then show ?case by simp
next
  case (Cons d ds)
  obtain rc b where p: "push_all (cfg w) (device_functions (cfg w) d) bus = (rc, b)" by fastforce
  show ?case
    using scan_device [of w bus d] Cons p push_all_wf [OF p] by (simp add: push_all_append)
qed

lemma enumerate:
  assumes "live w" "bus_wf host bus"
  shows "pcie_enumerate (Some bus) w =
    (case push_all (cfg w) (bus_functions (cfg w)) (bus\<lparr>pb_device_count := 0\<rparr>) of (rc, b) \<Rightarrow> (rc, Some b, w))"
proof -
  have "bus_wf host (bus\<lparr>pb_device_count := 0\<rparr>)" using assms by (simp add: bus_wf_def)
  then have "pcie_scan_bus (bus\<lparr>pb_device_count := 0\<rparr>) 0 w =
      (case push_all (cfg w) (bus_functions (cfg w)) (bus\<lparr>pb_device_count := 0\<rparr>) of (rc, b) \<Rightarrow> (rc, b, w))"
    unfolding pcie_scan_bus_def bus_functions_def by (rule scan_devices [OF assms(1)]) auto
  then show ?thesis using assms by (simp add: pcie_enumerate_def bus_wf_def split: prod.splits)
qed

end

section \<open>Simulated controller (pcie_sim_host.c)\<close>

record pcie_sim18_function =
  sf_bdf :: pcie_bdf
  sf_present :: u8
  sf_config :: "u32 list"

record pcie_sim18_controller =
  sc_functions :: "pcie_sim18_function list"
  sc_function_count :: nat

text \<open>The index of the function that \<open>sim_find_function\<close> points to, None for NULL.\<close>

fun sim_find_from :: "pcie_sim18_controller \<Rightarrow> pcie_bdf \<Rightarrow> nat list \<Rightarrow> nat option" where
  "sim_find_from controller bdf [] = None"
| "sim_find_from controller bdf (index # rest) =
     (let fn = sc_functions controller ! index in
      if sf_present fn \<noteq> 0 \<and> bdf_bus (sf_bdf fn) = bdf_bus bdf \<and> bdf_device (sf_bdf fn) = bdf_device bdf \<and>
         bdf_function (sf_bdf fn) = bdf_function bdf
      then Some index else sim_find_from controller bdf rest)"

definition sim_find_function :: "pcie_sim18_controller \<Rightarrow> pcie_bdf \<Rightarrow> nat option" where
  "sim_find_function controller bdf = sim_find_from controller bdf [0..<sc_function_count controller]"

definition sim18_config_read32 :: "pcie_bdf \<Rightarrow> u16 \<Rightarrow> u32 option \<Rightarrow> pcie_sim18_controller option \<Rightarrow>
    int \<times> u32 option \<times> pcie_sim18_controller option" where
  "sim18_config_read32 bdf offset value w =
     (case w of None \<Rightarrow> (PCIE_ERR_ARGUMENT, value, w)
      | Some controller \<Rightarrow>
        if value = None then (PCIE_ERR_ARGUMENT, value, w)
        else (case sim_find_function controller bdf of
                None \<Rightarrow> (PCIE_OK, Some 0xFFFFFFFF, w)
              | Some fn \<Rightarrow> (PCIE_OK, Some (sf_config (sc_functions controller ! fn) ! dword_index offset), w)))"

definition sim18_config_write32 :: "pcie_bdf \<Rightarrow> u16 \<Rightarrow> u32 \<Rightarrow> pcie_sim18_controller option \<Rightarrow>
    int \<times> pcie_sim18_controller option" where
  "sim18_config_write32 bdf offset value w =
     (case w of None \<Rightarrow> (PCIE_ERR_ARGUMENT, w)
      | Some controller \<Rightarrow>
        (case sim_find_function controller bdf of
           None \<Rightarrow> (PCIE_OK, w)
         | Some i \<Rightarrow>
             let fn = sc_functions controller ! i;
                 fn = fn\<lparr>sf_config := (sf_config fn)[dword_index offset := value]\<rparr>
             in (PCIE_OK, Some (controller\<lparr>sc_functions := (sc_functions controller)[i := fn]\<rparr>))))"

definition g_pcie_sim18_host_ops :: "pcie_sim18_controller option pcie_host_ops" where
  "g_pcie_sim18_host_ops = \<lparr>op_config_read32 = Some sim18_config_read32, op_config_write32 = Some sim18_config_write32\<rparr>"

text \<open>As in the code, \<open>header_type\<close> is not used.\<close>

definition sim_init_function :: "pcie_sim18_function \<Rightarrow> u8 \<Rightarrow> u8 \<Rightarrow> u8 \<Rightarrow> u16 \<Rightarrow> u16 \<Rightarrow> u8 \<Rightarrow> u8 \<Rightarrow> u8 \<Rightarrow> u32 \<Rightarrow> u8 \<Rightarrow> u8 \<Rightarrow>
    pcie_sim18_function" where
  "sim_init_function fn bus device function_number vendor device_id class_code subclass header_type bar0 irq_line irq_pin =
     (let cfg = replicate 64 0;
          cfg = cfg[dword_index PCIE_CFG_VENDOR_DEVICE := push_bit 16 (ucast device_id) OR ucast vendor];
          cfg = cfg[dword_index PCIE_CFG_CLASS_REVISION :=
            push_bit 24 (ucast class_code) OR push_bit 16 (ucast subclass) OR 0x01];
          cfg = cfg[dword_index PCIE_CFG_BAR0 := bar0];
          cfg = cfg[dword_index PCIE_CFG_INTERRUPT := push_bit 8 (ucast irq_pin) OR ucast irq_line]
      in fn\<lparr>sf_bdf := \<lparr>bdf_bus = bus, bdf_device = device, bdf_function = function_number\<rparr>, sf_present := 1,
            sf_config := cfg\<rparr>)"

definition pcie_sim18_controller_init :: "pcie_sim18_controller option \<Rightarrow> pcie_sim18_controller option" where
  "pcie_sim18_controller_init controller =
     (case controller of None \<Rightarrow> None
      | Some c \<Rightarrow>
        let fs = sc_functions c;
            fs = fs[0 := sim_init_function (fs ! 0) 0 1 0 0x1234 0x5678 0x02 0x00 0x00 0x50000000 5 1];
            fs = fs[1 := sim_init_function (fs ! 1) 0 3 0 0xABC 0x1000 0x01 0x06 0x00 0x51000000 7 1];
            fs = fs[2 := sim_init_function (fs ! 2) 0 5 0 0xCAFE 0x0001 0x04 0x01 0x80 0x52000000 9 1];
            fs = fs[3 := sim_init_function (fs ! 3) 0 5 0 0xCAFE 0x0002 0x03 0x00 0x00 0x53000000 10 1]
        in Some (c\<lparr>sc_functions := fs, sc_function_count := 4\<rparr>))"

section \<open>Board and program (board_pcie.c, main.c)\<close>

definition g_board18_pcie_host :: "pcie_sim18_controller option pcie_host" where
  "g_board18_pcie_host = \<lparr>host_ops = Some g_pcie_sim18_host_ops\<rparr>"

text \<open>\<open>clock\<close> is the CMSIS variable SystemCoreClock.\<close>

definition board18_pcie_init :: "u32 \<Rightarrow> pcie_sim18_controller option \<Rightarrow> int \<times> pcie_sim18_controller option" where
  "board18_pcie_init clock w =
     (if clock = 0 then (PCIE_ERR_PLATFORM, w) else (PCIE_OK, pcie_sim18_controller_init w))"

record lab18 =
  g18_stage :: u32
  g18_board_result :: int
  g18_bus_result :: int
  g18_enum_result :: int
  g18_device_count :: u32
  g18_first_vendor :: u16
  g18_first_device :: u16
  g18_first_bar0 :: u32
  g18_first_irq_line :: u8
  g18_first_irq_pin :: u8
  g_pcie_bus :: "pcie_sim18_controller option pcie_bus"

definition lab18_main :: "u32 \<Rightarrow> lab18 \<Rightarrow> pcie_sim18_controller option \<Rightarrow> lab18 \<times> pcie_sim18_controller option" where
  "lab18_main clock g w =
     (let failed = (\<lambda>g :: lab18. g\<lparr>g18_stage := 0xFFFFFFFF\<rparr>); g = g\<lparr>g18_stage := 1\<rparr> in
      case board18_pcie_init clock w of (rc, w) \<Rightarrow>
      let g = g\<lparr>g18_board_result := rc\<rparr> in
      if g18_board_result g \<noteq> PCIE_OK then (failed g, w) else
      case pcie_bus_init (Some (g_pcie_bus g)) (Some g_board18_pcie_host) of (rc, bus) \<Rightarrow>
      let g = g\<lparr>g18_bus_result := rc, g_pcie_bus := the bus\<rparr> in
      if g18_bus_result g \<noteq> PCIE_OK then (failed g, w) else
      let g = g\<lparr>g18_stage := 2\<rparr> in
      case pcie_enumerate (Some (g_pcie_bus g)) w of (rc, bus, w) \<Rightarrow>
      let g = g\<lparr>g18_enum_result := rc, g_pcie_bus := the bus\<rparr> in
      if g18_enum_result g \<noteq> PCIE_OK then (failed g, w) else
      let g = g\<lparr>g18_device_count := of_nat (pb_device_count (g_pcie_bus g)), g18_stage := 3\<rparr>;
          g = (if pb_device_count (g_pcie_bus g) > 0 then
                 let dev = pb_devices (g_pcie_bus g) ! 0 in
                 g\<lparr>g18_first_vendor := pd_vendor_id dev, g18_first_device := pd_device_id dev,
                   g18_first_bar0 := bar_address (pd_bars dev ! 0), g18_first_irq_line := pd_irq_line dev,
                   g18_first_irq_pin := pd_irq_pin dev\<rparr>
               else g)
      in (g\<lparr>g18_stage := 4\<rparr>, w))"

section \<open>The simulated controller keeps the contract\<close>

definition sim18_cfg :: "pcie_sim18_controller option \<Rightarrow> pcie_bdf \<Rightarrow> nat \<Rightarrow> u32" where
  "sim18_cfg w bdf i = (case w of None \<Rightarrow> 0xFFFFFFFF | Some c \<Rightarrow>
     (case sim_find_function c bdf of None \<Rightarrow> 0xFFFFFFFF | Some k \<Rightarrow> sf_config (sc_functions c ! k) ! i))"

definition sim18_wf :: "pcie_sim18_controller option \<Rightarrow> bool" where
  "sim18_wf w \<longleftrightarrow> (case w of None \<Rightarrow> False | Some c \<Rightarrow> sc_function_count c \<le> length (sc_functions c) \<and>
     (\<forall>f \<in> set (sc_functions c). length (sf_config f) = 64))"

definition sim18_present :: "pcie_sim18_controller option \<Rightarrow> pcie_bdf \<Rightarrow> bool" where
  "sim18_present w bdf \<longleftrightarrow> sim18_wf w \<and> sim_find_function (the w) bdf \<noteq> None"

lemma sim_find_from_SomeD: "sim_find_from c bdf is = Some k \<Longrightarrow> k \<in> set is"
  by (induction c bdf "is" rule: sim_find_from.induct) (auto simp: Let_def split: if_split_asm)

lemma sim_find_from_key:
  "sim_find_from c bdf is = Some k \<Longrightarrow> sf_bdf (sc_functions c ! k) = bdf"
  by (induction c bdf "is" rule: sim_find_from.induct) (auto simp: Let_def split: if_split_asm)

lemma sim_find_from_frame:
  "(\<And>k. sf_bdf (sc_functions c' ! k) = sf_bdf (sc_functions c ! k) \<and>
      sf_present (sc_functions c' ! k) = sf_present (sc_functions c ! k)) \<Longrightarrow>
     sim_find_from c' bdf is = sim_find_from c bdf is"
  by (induction c bdf "is" rule: sim_find_from.induct) (auto simp: Let_def)

lemma sim18_write:
  assumes "sim18_present w bdf" "dword_index off < 64"
  shows "\<exists>w'. sim18_config_write32 bdf off v w = (PCIE_OK, w') \<and> sim18_present w' = sim18_present w \<and>
    (sim18_wf w' \<longleftrightarrow> sim18_wf w) \<and>
    sim18_cfg w' = (sim18_cfg w)(bdf := (sim18_cfg w bdf)(dword_index off := v))"
proof -
  obtain c k where w: "w = Some c" "sim_find_function c bdf = Some k" "sim18_wf (Some c)"
    using assms by (cases w) (auto simp: sim18_present_def sim18_wf_def)
  have k: "k < length (sc_functions c)" "length (sf_config (sc_functions c ! k)) = 64"
    using sim_find_from_SomeD [of c bdf "[0..<sc_function_count c]" k] w
    by (auto simp: sim_find_function_def sim18_wf_def)
  let ?fn = "(sc_functions c ! k)\<lparr>sf_config := (sf_config (sc_functions c ! k))[dword_index off := v]\<rparr>"
  let ?c = "c\<lparr>sc_functions := (sc_functions c)[k := ?fn]\<rparr>"
  have run: "sim18_config_write32 bdf off v w = (PCIE_OK, Some ?c)"
    using w by (simp add: sim18_config_write32_def Let_def)
  have find: "sim_find_function ?c b = sim_find_function c b" for b
    unfolding sim_find_function_def using sim_find_from_frame [of ?c c b "[0..<sc_function_count c]"] k(1)
    by (simp add: nth_list_update)
  have wf: "sim18_wf (Some ?c)"
    using w(3) k set_update_subset_insert [of "sc_functions c" k ?fn] by (auto simp: sim18_wf_def)
  have key: "sim_find_function c b = Some k \<longleftrightarrow> b = bdf" for b
    using sim_find_from_key w(2) by (metis sim_find_function_def)
  have "sim18_cfg (Some ?c) b i = ((sim18_cfg w)(bdf := (sim18_cfg w bdf)(dword_index off := v))) b i" for b i
    using find [of b] key [of b] w(1,2) k assms(2)
    by (auto simp: sim18_cfg_def nth_list_update split: option.split)
  then show ?thesis using run find wf w by (auto simp: sim18_present_def fun_eq_iff)
qed

interpretation sim18: pcie_config_space g_board18_pcie_host sim18_cfg "\<lambda>w bdf. sim18_wf w" sim18_present
proof (unfold_locales, goal_cases)
  case 1
  have "sim18_config_read32 bdf offset (Some v) w = (PCIE_OK, Some (sim18_cfg w bdf (dword_index offset)), w)"
    if "sim18_wf w" for bdf offset v w
    using that by (auto simp: sim18_config_read32_def sim18_wf_def sim18_cfg_def split: option.splits)
  then show ?case
    using sim18_write dword_index_less
    by (simp add: host_read_op_def host_write_op_def g_board18_pcie_host_def g_pcie_sim18_host_ops_def) metis
qed (simp add: sim18_present_def)

interpretation sim18_bus: pcie_bus_space g_board18_pcie_host sim18_cfg "\<lambda>w bdf. sim18_wf w" sim18_present sim18_wf
  by unfold_locales

section \<open>Properties\<close>

text \<open>C9.  Enumeration records exactly the functions that answer on bus 0, in order of device and
  function, functions 1 to 7 only behind a multifunction header, each decoded from its header; a
  seventeenth function is reported as an error with sixteen recorded.\<close>

theorem pcie_enumerate_finds:
  assumes "pcie_bus_space host cfg readable present live" "live w" "bus_wf host bus"
  shows "case pcie_enumerate (Some bus) w of (rc, bus', w') \<Rightarrow> w' = w \<and>
    (let bs = bus_functions (cfg w) in
     if length bs \<le> PCIE_MAX_DEVICES
     then rc = PCIE_OK \<and> bus' = Some (bus\<lparr>pb_devices := record_functions (cfg w) bs 0 (pb_devices bus), pb_device_count := length bs\<rparr>)
     else rc = PCIE_ERR_ARGUMENT \<and> pb_device_count (the bus') = PCIE_MAX_DEVICES)"
  using pcie_bus_space.enumerate [OF assms]
    push_all_fits [of "bus\<lparr>pb_device_count := 0\<rparr>" "bus_functions (cfg w)" "cfg w"]
    push_all_overflow [of "bus\<lparr>pb_device_count := 0\<rparr>" "bus_functions (cfg w)" "cfg w"]
  by (auto simp: Let_def split: prod.splits)

lemma low_two_bits: "(x :: u32) AND 3 = 2 \<longleftrightarrow> \<not> bit x 0 \<and> bit x 1"
proof -
  have m: "(3 :: u32) = mask 2" "(2 :: u32) = 2 ^ 1" by (simp_all add: mask_eq_exp_minus_1)
  have "x AND mask 2 = (if bit x 1 then 2 ^ 1 else 0) OR (if bit x 0 then 2 ^ 0 else 0)"
    by (rule bit_word_eqI) (auto simp: bit_simps less_2_cases_iff intro: gr0I)
  then show ?thesis unfolding m(1) by (cases "bit x 0"; cases "bit x 1") simp_all
qed

lemma flag_masks: "(0xFFFFFFFC :: u32) = NOT (mask 2)" "(0xFFFFFFF0 :: u32) = NOT (mask 4)"
  "(8 :: u32) = 2 ^ 3" "(1 :: u32) = 2 ^ 0"
  by (simp_all add: mask_eq_exp_minus_1)

text \<open>Note.  BAR decoding: an I/O bar loses its two flag bits, a memory bar its four, so the decoded
  address is the raw value with exactly the flag bits of its kind cleared, and the flags are
  read from the bits the specification assigns them.\<close>

theorem pcie_decode_bar_bits:
  "case pcie_decode_bar b raw of bar \<Rightarrow> bar_raw bar = raw \<and>
     (\<forall>i. bit (bar_address bar) i \<longleftrightarrow> bit raw i \<and> (if bit raw 0 then 2 \<le> i else 4 \<le> i)) \<and>
     bar_is_io bar = of_bool (bit raw 0) \<and>
     bar_is_64bit bar = of_bool (\<not> bit raw 0 \<and> \<not> bit raw 1 \<and> bit raw 2) \<and>
     bar_prefetchable bar = of_bool (\<not> bit raw 0 \<and> bit raw 3)"
proof -
  have io: "raw AND 1 \<noteq> 0 \<longleftrightarrow> bit raw 0" "raw AND 8 \<noteq> 0 \<longleftrightarrow> bit raw 3"
    using flag_clear [of raw 0] flag_clear [of raw 3] by simp_all
  have b64: "drop_bit 1 raw AND 3 = 2 \<longleftrightarrow> \<not> bit raw 1 \<and> bit raw 2"
    unfolding low_two_bits bit_drop_bit_eq by (simp add: numeral_2_eq_2)
  have "bit (raw AND NOT (mask n)) i \<longleftrightarrow> bit raw i \<and> n \<le> i" for n i
    by (auto simp: bit_simps dest: bit_imp_le_length)
  then show ?thesis using io b64 by (simp add: pcie_decode_bar_def Let_def flag_masks(1,2))
qed

lemma sim18_init_cfg:
  assumes "length (sc_functions c) = 4"
  obtains c' where "pcie_sim18_controller_init (Some c) = Some c'" "sim18_wf (Some c')"
    "sim18_cfg (Some c') = (\<lambda>bdf i.
       if bdf = dev_bdf 1 0 then (replicate 64 0) [0 := 0x56781234, 2 := 0x02000001, 4 := 0x50000000, 15 := 0x105] ! i
       else if bdf = dev_bdf 3 0 then (replicate 64 0) [0 := 0x10000ABC, 2 := 0x01060001, 4 := 0x51000000, 15 := 0x107] ! i
       else if bdf = dev_bdf 5 0 then (replicate 64 0) [0 := 0x0001CAFE, 2 := 0x04010001, 4 := 0x52000000, 15 := 0x109] ! i
       else 0xFFFFFFFF)"
proof -
  obtain f0 f1 f2 f3 where fs: "sc_functions c = [f0, f1, f2, f3]"
    using assms by (auto simp: length_Suc_conv eval_nat_numeral)
  let ?cfg = "\<lambda>a b i l. ((((replicate 64 (0 :: u32))[0 := a])[2 := b])[4 := i])[15 := l]"
  let ?c = "c\<lparr>sc_functions := [
      f0\<lparr>sf_bdf := dev_bdf 1 0, sf_present := 1, sf_config := ?cfg 0x56781234 0x02000001 0x50000000 0x105\<rparr>,
      f1\<lparr>sf_bdf := dev_bdf 3 0, sf_present := 1, sf_config := ?cfg 0x10000ABC 0x01060001 0x51000000 0x107\<rparr>,
      f2\<lparr>sf_bdf := dev_bdf 5 0, sf_present := 1, sf_config := ?cfg 0x0001CAFE 0x04010001 0x52000000 0x109\<rparr>,
      f3\<lparr>sf_bdf := dev_bdf 5 0, sf_present := 1, sf_config := ?cfg 0x0002CAFE 0x03000001 0x53000000 0x10A\<rparr>],
      sc_function_count := 4\<rparr>"
  have init: "pcie_sim18_controller_init (Some c) = Some ?c"
    by (simp add: pcie_sim18_controller_init_def Let_def fs sim_init_function_def dev_bdf_def dword_index_def)
  show ?thesis
  proof (rule that [OF init])
    show "sim18_wf (Some ?c)" by (simp add: sim18_wf_def)
    show "sim18_cfg (Some ?c) = (\<lambda>bdf i.
       if bdf = dev_bdf 1 0 then ?cfg 0x56781234 0x02000001 0x50000000 0x105 ! i
       else if bdf = dev_bdf 3 0 then ?cfg 0x10000ABC 0x01060001 0x51000000 0x107 ! i
       else if bdf = dev_bdf 5 0 then ?cfg 0x0001CAFE 0x04010001 0x52000000 0x109 ! i
       else 0xFFFFFFFF)"
    proof (intro ext)
      fix bdf i
      have key: "bdf_bus (dev_bdf d f) = bdf_bus bdf \<and> bdf_device (dev_bdf d f) = bdf_device bdf \<and>
          bdf_function (dev_bdf d f) = bdf_function bdf \<longleftrightarrow> bdf = dev_bdf d f" for d f
        by (cases bdf) (auto simp: dev_bdf_def)
      have "sim_find_function ?c bdf = (if bdf = dev_bdf 1 0 then Some 0 else if bdf = dev_bdf 3 0 then Some 1
          else if bdf = dev_bdf 5 0 then Some 2 else None)"
        unfolding sim_find_function_def
        by (simp add: upt_rec Let_def key del: list_update.simps replicate.simps)
      then show "sim18_cfg (Some ?c) bdf i =
          (if bdf = dev_bdf 1 0 then ?cfg 0x56781234 0x02000001 0x50000000 0x105 ! i
           else if bdf = dev_bdf 3 0 then ?cfg 0x10000ABC 0x01060001 0x51000000 0x107 ! i
           else if bdf = dev_bdf 5 0 then ?cfg 0x0001CAFE 0x04010001 0x52000000 0x109 ! i
           else 0xFFFFFFFF)"
        by (simp add: sim18_cfg_def)
    qed
  qed
qed

lemma dev_bdf_inj: "d < 32 \<Longrightarrow> e < 32 \<Longrightarrow> dev_bdf d 0 = dev_bdf e 0 \<longleftrightarrow> d = e"
  using u8_of_nat_inj [of d e] by (simp add: dev_bdf_def)

lemma sim18_functions:
  assumes c: "sim18_cfg w = (\<lambda>bdf i. if bdf = dev_bdf 1 0 then r1 i else if bdf = dev_bdf 3 0 then r3 i
      else if bdf = dev_bdf 5 0 then r5 i else 0xFFFFFFFF)"
    and ids: "r1 0 = 0x56781234" "r3 0 = 0x10000ABC" "r5 0 = 0x0001CAFE" "r1 3 = 0" "r3 3 = 0" "r5 3 = 0"
  shows "bus_functions (sim18_cfg w) = [dev_bdf 1 0, dev_bdf 3 0, dev_bdf 5 0]"
proof -
  have ne: "dev_bdf 1 0 \<noteq> dev_bdf 3 0" "dev_bdf 1 0 \<noteq> dev_bdf 5 0" "dev_bdf 3 0 \<noteq> dev_bdf 5 0"
    by (simp_all add: dev_bdf_inj)
  have df: "device_functions (sim18_cfg w) d = (if d = 1 \<or> d = 3 \<or> d = 5 then [dev_bdf d 0] else [])" if "d < 32" for d
  proof -
    have "answers (sim18_cfg w) (dev_bdf d 0) \<longleftrightarrow> d = 1 \<or> d = 3 \<or> d = 5"
      using that ids by (auto simp: answers_def c dev_bdf_inj)
    then show ?thesis using that ids ne by (auto simp: device_functions_def c)
  qed
  have "map (device_functions (sim18_cfg w)) [0..<32] =
      map (\<lambda>d. if d = 1 \<or> d = 3 \<or> d = 5 then [dev_bdf d 0] else []) [0..<32]"
    by (rule map_cong [OF refl], rule df) (simp del: upt_rec_numeral)
  note m = this
  show ?thesis unfolding bus_functions_def m by (simp add: upt_rec numeral_3_eq_3 eval_nat_numeral)
qed

lemma pd_bdf_decode: "pd_bdf (decode_function r b old) = b"
  by (simp add: decode_function_def)

definition lab18_reset :: lab18 where
  "lab18_reset = \<lparr>g18_stage = 0, g18_board_result = 0, g18_bus_result = 0, g18_enum_result = 0, g18_device_count = 0,
     g18_first_vendor = 0, g18_first_device = 0, g18_first_bar0 = 0, g18_first_irq_line = 0, g18_first_irq_pin = 0,
     g_pcie_bus = \<lparr>pb_host = None, pb_devices = replicate 16
       \<lparr>pd_bdf = \<lparr>bdf_bus = 0, bdf_device = 0, bdf_function = 0\<rparr>, pd_vendor_id = 0, pd_device_id = 0, pd_revision = 0,
        pd_prog_if = 0, pd_subclass = 0, pd_class_code = 0, pd_header_type = 0, pd_multifunction = 0,
        pd_bars = replicate 6 \<lparr>bar_raw = 0, bar_address = 0, bar_is_io = 0, bar_is_64bit = 0, bar_prefetchable = 0\<rparr>,
        pd_irq_line = 0, pd_irq_pin = 0\<rparr>, pb_device_count = 0\<rparr>\<rparr>"

definition sim18_zero :: pcie_sim18_controller where
  "sim18_zero = \<lparr>sc_functions = replicate 4 \<lparr>sf_bdf = \<lparr>bdf_bus = 0, bdf_device = 0, bdf_function = 0\<rparr>, sf_present = 0,
     sf_config = replicate 64 0\<rparr>, sc_function_count = 0\<rparr>"

text \<open>Note.  The program finds three functions on the simulated bus, the last being function 0 of
  device 5: the fourth simulated function was given the address of the third, and no header has its
  multifunction bit set.\<close>

theorem lab18_main_finds_three:
  "\<exists>g' w'. lab18_main 25000000 lab18_reset (Some sim18_zero) = (g', w') \<and> g18_stage g' = 4 \<and>
     g18_enum_result g' = PCIE_OK \<and> g18_device_count g' = 3 \<and>
     map pd_bdf (take 3 (pb_devices (g_pcie_bus g'))) = [dev_bdf 1 0, dev_bdf 3 0, dev_bdf 5 0] \<and>
     g18_first_vendor g' = 0x1234 \<and> g18_first_device g' = 0x5678 \<and> g18_first_bar0 g' = 0x50000000 \<and>
     g18_first_irq_line g' = 5 \<and> g18_first_irq_pin g' = 1"
proof -
  have "length (sc_functions sim18_zero) = 4" by (simp add: sim18_zero_def)
  then obtain c' where c': "pcie_sim18_controller_init (Some sim18_zero) = Some c'" "sim18_wf (Some c')"
    "sim18_cfg (Some c') = (\<lambda>bdf i.
       if bdf = dev_bdf 1 0 then (replicate 64 0) [0 := 0x56781234, 2 := 0x02000001, 4 := 0x50000000, 15 := 0x105] ! i
       else if bdf = dev_bdf 3 0 then (replicate 64 0) [0 := 0x10000ABC, 2 := 0x01060001, 4 := 0x51000000, 15 := 0x107] ! i
       else if bdf = dev_bdf 5 0 then (replicate 64 0) [0 := 0x0001CAFE, 2 := 0x04010001, 4 := 0x52000000, 15 := 0x109] ! i
       else 0xFFFFFFFF)"
    by (rule sim18_init_cfg)
  let ?bus = "(g_pcie_bus lab18_reset)\<lparr>pb_host := Some g_board18_pcie_host, pb_device_count := 0\<rparr>"
  let ?bs = "[dev_bdf 1 0, dev_bdf 3 0, dev_bdf 5 0]" and ?cfg = "sim18_cfg (Some c')"
  have wf: "bus_wf g_board18_pcie_host ?bus" by (simp add: bus_wf_def lab18_reset_def)
  have bs: "bus_functions ?cfg = ?bs" by (rule sim18_functions [OF c'(3)]) simp_all
  have r1: "?cfg (dev_bdf 1 0) = (\<lambda>i. (replicate 64 0) [0 := 0x56781234, 2 := 0x02000001, 4 := 0x50000000, 15 := 0x105] ! i)"
    by (simp add: c'(3))
  have enum: "pcie_enumerate (Some ?bus) (Some c') =
      (PCIE_OK, Some (?bus\<lparr>pb_devices := record_functions ?cfg ?bs 0 (pb_devices ?bus), pb_device_count := 3\<rparr>), Some c')"
    using sim18_bus.enumerate [OF c'(2) wf] push_all_fits [of "?bus\<lparr>pb_device_count := 0\<rparr>" ?bs ?cfg] bs by simp
  let ?devs = "record_functions ?cfg ?bs 0 (pb_devices ?bus)"
  have d: "length (pb_devices ?bus) = 16" "length (pd_bars (pb_devices ?bus ! 0)) = 6"
    by (simp_all add: lab18_reset_def)
  have devs: "?devs = (pb_devices ?bus)[0 := decode_function (?cfg (dev_bdf 1 0)) (dev_bdf 1 0) (pb_devices ?bus ! 0),
      1 := decode_function (?cfg (dev_bdf 3 0)) (dev_bdf 3 0) (pb_devices ?bus ! 1),
      2 := decode_function (?cfg (dev_bdf 5 0)) (dev_bdf 5 0) (pb_devices ?bus ! 2)]"
    by (simp add: numeral_2_eq_2)
  define D where "D = ?devs"
  have D3: "map pd_bdf (take 3 D) = ?bs"
    unfolding D_def devs using d(1)
    by (auto simp: list_eq_iff_nth_eq less_Suc_eq numeral_3_eq_3 pd_bdf_decode nth_list_update)
  have "D ! 0 = decode_function (?cfg (dev_bdf 1 0)) (dev_bdf 1 0) (pb_devices ?bus ! 0)"
    unfolding D_def devs using d(1) by simp
  then have D0: "pd_vendor_id (D ! 0) = 0x1234" "pd_device_id (D ! 0) = 0x5678"
    "bar_address (pd_bars (D ! 0) ! 0) = 0x50000000" "pd_irq_line (D ! 0) = 5" "pd_irq_pin (D ! 0) = 1"
    by (simp_all add: decode_function_def r1 [unfolded One_nat_def] pcie_decode_bar_def Let_def)
  note enum' = enum [folded D_def]
  show ?thesis
    using enum' c'(1) D3 D0 by (simp add: lab18_main_def board18_pcie_init_def pcie_bus_init_def Let_def)
qed

lemma pcie_enumerate_finds_witness:
  "case pcie_enumerate (Some ((g_pcie_bus lab18_reset)\<lparr>pb_host := Some g_board18_pcie_host\<rparr>)) (Some sim18_zero) of
     (rc, bus', w') \<Rightarrow> rc = PCIE_OK \<and> pb_device_count (the bus') = 0"
proof -
  have w: "sim18_wf (Some sim18_zero)" by (simp add: sim18_wf_def sim18_zero_def)
  have wf: "bus_wf g_board18_pcie_host ((g_pcie_bus lab18_reset)\<lparr>pb_host := Some g_board18_pcie_host\<rparr>)"
    by (simp add: bus_wf_def lab18_reset_def)
  have "sim18_cfg (Some sim18_zero) = (\<lambda>bdf i. 0xFFFFFFFF)"
    by (simp add: sim18_cfg_def sim_find_function_def sim18_zero_def fun_eq_iff)
  then have "bus_functions (sim18_cfg (Some sim18_zero)) = []"
    by (simp add: bus_functions_def device_functions_def answers_def)
  then show ?thesis using pcie_enumerate_finds [OF sim18_bus.pcie_bus_space_axioms w wf] by (auto simp: Let_def)
qed

end
