(* ===== verification/Pcie_Resource.thy ===== *)
theory Pcie_Resource
  imports Prelude
begin

text \<open>
  labs/lab19_pcie_bar_resource_zephyr: address allocation for PCI base address registers
  (pcie_resource.c) over the configuration accessors of that lab (pcie_host.c), a simulated endpoint
  with sizeable BARs (pcie_sim_host.c, board_pcie.c) and the program (main.c).

  The macros of zephyr/drivers/pcie/pcie.h are not part of the repository: they are the parameter
  \<open>z\<close>, a record of constants and functions, and what the code relies on is the locale
  \<open>zephyr_pcie\<close>.  uintptr_t, size_t and pcie_bdf_t are 32 bits wide on the target.
\<close>

section \<open>Data\<close>

record pcie_macros =
  PCIE_BDF :: "u32 \<Rightarrow> u32 \<Rightarrow> u32 \<Rightarrow> u32"
  PCIE_BDF_TO_DEV :: "u32 \<Rightarrow> u32"
  PCIE_BDF_TO_FUNC :: "u32 \<Rightarrow> u32"
  PCIE_CONF_ID :: u32
  PCIE_CONF_CMDSTAT :: u32
  PCIE_CONF_CMDSTAT_MEM :: u32
  PCIE_CONF_CLASSREV :: u32
  PCIE_CONF_TYPE :: u32
  PCIE_CONF_BAR0 :: u32
  PCIE_CONF_BAR5 :: u32
  PCIE_CONF_BAR_IO :: "u32 \<Rightarrow> bool"
  PCIE_CONF_BAR_MEM :: "u32 \<Rightarrow> bool"
  PCIE_CONF_BAR_64 :: "u32 \<Rightarrow> bool"
  PCIE_CONF_BAR_ADDR :: "u32 \<Rightarrow> u32"
  PCIE_CONF_BAR_IO_ADDR :: "u32 \<Rightarrow> u32"
  PCIE_CONF_BAR_FLAGS :: "u32 \<Rightarrow> u32"
  PCIE_ID :: "u32 \<Rightarrow> u32 \<Rightarrow> u32"
  PCIE_ID_TO_VEND :: "u32 \<Rightarrow> u32"
  PCIE_ID_TO_DEV :: "u32 \<Rightarrow> u32"

abbreviation (input) LAB_PCIE_OK :: int where "LAB_PCIE_OK \<equiv> 0"
abbreviation (input) LAB_PCIE_ERR_ARGUMENT :: int where "LAB_PCIE_ERR_ARGUMENT \<equiv> - 1"
abbreviation (input) LAB_PCIE_ERR_BDF :: int where "LAB_PCIE_ERR_BDF \<equiv> - 2"
abbreviation (input) LAB_PCIE_ERR_REG :: int where "LAB_PCIE_ERR_REG \<equiv> - 3"
abbreviation (input) LAB_PCIE_ERR_PLATFORM :: int where "LAB_PCIE_ERR_PLATFORM \<equiv> - 4"
abbreviation (input) LAB_PCIE_ERR_NO_RESOURCE :: int where "LAB_PCIE_ERR_NO_RESOURCE \<equiv> - 5"
abbreviation (input) LAB_PCIE_ERR_UNSUPPORTED :: int where "LAB_PCIE_ERR_UNSUPPORTED \<equiv> - 6"

record 'w lab_pcie_host_ops =
  lab_read32 :: "(u32 \<Rightarrow> u32 \<Rightarrow> u32 option \<Rightarrow> 'w \<Rightarrow> int \<times> u32 option \<times> 'w) option"
  lab_write32 :: "(u32 \<Rightarrow> u32 \<Rightarrow> u32 \<Rightarrow> 'w \<Rightarrow> int \<times> 'w) option"

record 'w lab_pcie_host =
  lab_ops :: "'w lab_pcie_host_ops option"

record lab_pcie_resource_window =
  pci_base :: u32
  cpu_base :: u32
  win_size :: u32
  win_next :: u32

record lab_pcie_bar_resource =
  res_bar_index :: u32
  res_original :: u32
  res_bus_addr :: u32
  res_cpu_addr :: u32
  res_size :: u32
  res_is_io :: u8
  res_is_64bit :: u8
  res_prefetchable :: u8

section \<open>Validated access (pcie_host.c)\<close>

definition lab_validate_bdf :: "pcie_macros \<Rightarrow> u32 \<Rightarrow> int" where
  "lab_validate_bdf z bdf =
     (if PCIE_BDF_TO_DEV z bdf > 31 then LAB_PCIE_ERR_BDF
      else if PCIE_BDF_TO_FUNC z bdf > 7 then LAB_PCIE_ERR_BDF
      else LAB_PCIE_OK)"

definition lab_validate_reg :: "u32 \<Rightarrow> int" where
  "lab_validate_reg reg = (if reg \<ge> 64 then LAB_PCIE_ERR_REG else LAB_PCIE_OK)"

definition lab_pcie_config_read32 :: "pcie_macros \<Rightarrow> 'w lab_pcie_host option \<Rightarrow> u32 \<Rightarrow> u32 \<Rightarrow> u32 option \<Rightarrow> 'w \<Rightarrow>
    int \<times> u32 option \<times> 'w" where
  "lab_pcie_config_read32 z host bdf reg value w =
     (case Option.bind (Option.bind host lab_ops) lab_read32 of None \<Rightarrow> (LAB_PCIE_ERR_ARGUMENT, value, w)
      | Some config_read32 \<Rightarrow>
        if value = None then (LAB_PCIE_ERR_ARGUMENT, value, w)
        else let result = lab_validate_bdf z bdf in
          if result \<noteq> LAB_PCIE_OK then (result, value, w)
          else let result = lab_validate_reg reg in
            if result \<noteq> LAB_PCIE_OK then (result, value, w)
            else config_read32 bdf reg value w)"

definition lab_pcie_config_write32 :: "pcie_macros \<Rightarrow> 'w lab_pcie_host option \<Rightarrow> u32 \<Rightarrow> u32 \<Rightarrow> u32 \<Rightarrow> 'w \<Rightarrow>
    int \<times> 'w" where
  "lab_pcie_config_write32 z host bdf reg value w =
     (case Option.bind (Option.bind host lab_ops) lab_write32 of None \<Rightarrow> (LAB_PCIE_ERR_ARGUMENT, w)
      | Some config_write32 \<Rightarrow>
        let result = lab_validate_bdf z bdf in
          if result \<noteq> LAB_PCIE_OK then (result, w)
          else let result = lab_validate_reg reg in
            if result \<noteq> LAB_PCIE_OK then (result, w)
            else config_write32 bdf reg value w)"

section \<open>Resource windows (pcie_resource.c)\<close>

definition align_up :: "u32 \<Rightarrow> u32 \<Rightarrow> u32" where
  "align_up val alignment = (let mask = alignment - 1 in (val + mask) AND NOT mask)"

definition lab_pcie_resource_window_init :: "lab_pcie_resource_window option \<Rightarrow> u32 \<Rightarrow> u32 \<Rightarrow> u32 \<Rightarrow>
    int \<times> lab_pcie_resource_window option" where
  "lab_pcie_resource_window_init window pci cpu sz =
     (if window = None \<or> sz = 0 then (LAB_PCIE_ERR_ARGUMENT, window)
      else (LAB_PCIE_OK, Some \<lparr>pci_base = pci, cpu_base = cpu, win_size = sz, win_next = pci\<rparr>))"

definition lab_pcie_resource_alloc :: "lab_pcie_resource_window option \<Rightarrow> u32 \<Rightarrow> u32 \<Rightarrow> u32 option \<Rightarrow>
    int \<times> lab_pcie_resource_window option \<times> u32 option" where
  "lab_pcie_resource_alloc window sz alignment pci_addr =
     (case window of None \<Rightarrow> (LAB_PCIE_ERR_ARGUMENT, window, pci_addr)
      | Some win \<Rightarrow>
        if pci_addr = None \<or> sz = 0 \<or> alignment = 0 then (LAB_PCIE_ERR_ARGUMENT, window, pci_addr)
        else if alignment AND (alignment - 1) \<noteq> 0 then (LAB_PCIE_ERR_ARGUMENT, window, pci_addr)
        else
          let start = align_up (win_next win) alignment;
              limit = pci_base win + win_size win
          in if start < pci_base win \<or> start > limit \<or> sz > limit - start
             then (LAB_PCIE_ERR_NO_RESOURCE, window, pci_addr)
             else (LAB_PCIE_OK, Some (win\<lparr>win_next := start + sz\<rparr>), Some start))"

definition lab_pcie_resource_translate :: "lab_pcie_resource_window option \<Rightarrow> u32 \<Rightarrow> u32 option \<Rightarrow>
    int \<times> u32 option" where
  "lab_pcie_resource_translate window pci_addr cpu_addr =
     (case window of None \<Rightarrow> (LAB_PCIE_ERR_ARGUMENT, cpu_addr)
      | Some win \<Rightarrow>
        if cpu_addr = None then (LAB_PCIE_ERR_ARGUMENT, cpu_addr)
        else if pci_addr < pci_base win \<or> pci_addr \<ge> pci_base win + win_size win
          then (LAB_PCIE_ERR_NO_RESOURCE, cpu_addr)
        else (LAB_PCIE_OK, Some (cpu_base win + (pci_addr - pci_base win))))"

section \<open>Base address registers (pcie_resource.c)\<close>

text \<open>The result of the restoring write is ignored, as in the code.  The reads go to locals whose
  content before the read is never used.\<close>

definition lab_pcie_probe_bar32 :: "pcie_macros \<Rightarrow> 'w lab_pcie_host option \<Rightarrow> u32 \<Rightarrow> u32 \<Rightarrow>
    lab_pcie_bar_resource option \<Rightarrow> 'w \<Rightarrow> int \<times> lab_pcie_bar_resource option \<times> 'w" where
  "lab_pcie_probe_bar32 z host bdf bar_index bar w =
     (if host = None \<or> bar = None \<or> bar_index \<ge> 6 then (LAB_PCIE_ERR_ARGUMENT, bar, w)
      else
        let reg = PCIE_CONF_BAR0 z + bar_index in
        case lab_pcie_config_read32 z host bdf reg (Some 0) w of (result, v, w) \<Rightarrow>
        if result \<noteq> LAB_PCIE_OK then (result, bar, w) else
        let original = the v;
            b = (the bar)\<lparr>res_bar_index := bar_index, res_original := original, res_bus_addr := 0,
                  res_cpu_addr := 0, res_size := 0,
                  res_is_io := (if PCIE_CONF_BAR_IO z original then 1 else 0),
                  res_is_64bit := (if PCIE_CONF_BAR_MEM z original \<and> PCIE_CONF_BAR_64 z original then 1 else 0),
                  res_prefetchable := (if PCIE_CONF_BAR_MEM z original \<and> original AND 8 \<noteq> 0 then 1 else 0)\<rparr>
        in
        if res_is_64bit b \<noteq> 0 then (LAB_PCIE_ERR_UNSUPPORTED, Some b, w) else
        case lab_pcie_config_write32 z host bdf reg 0xFFFFFFFF w of (result, w) \<Rightarrow>
        if result \<noteq> LAB_PCIE_OK then (result, Some b, w) else
        case lab_pcie_config_read32 z host bdf reg (Some 0) w of (result, v, w) \<Rightarrow>
        case lab_pcie_config_write32 z host bdf reg original w of (_, w) \<Rightarrow>
        if result \<noteq> LAB_PCIE_OK then (result, Some b, w) else
        let probe = the v;
            address_mask = (if res_is_io b \<noteq> 0 then PCIE_CONF_BAR_IO_ADDR z probe else PCIE_CONF_BAR_ADDR z probe)
        in
        if address_mask = 0 then (LAB_PCIE_OK, Some (b\<lparr>res_size := 0\<rparr>), w)
        else (LAB_PCIE_OK, Some (b\<lparr>res_size := NOT address_mask + 1\<rparr>), w))"

definition lab_pcie_assign_bar32 :: "pcie_macros \<Rightarrow> 'w lab_pcie_host option \<Rightarrow> u32 \<Rightarrow> lab_pcie_resource_window option \<Rightarrow>
    lab_pcie_bar_resource option \<Rightarrow> 'w \<Rightarrow>
    int \<times> lab_pcie_resource_window option \<times> lab_pcie_bar_resource option \<times> 'w" where
  "lab_pcie_assign_bar32 z host bdf window bar w =
     (if host = None \<or> window = None \<or> bar = None \<or> res_size (the bar) = 0
      then (LAB_PCIE_ERR_UNSUPPORTED, window, bar, w)
      else
        let b = the bar in
        case lab_pcie_resource_alloc window (res_size b) (res_size b) (Some 0) of (result, window, bus_addr) \<Rightarrow>
        if result \<noteq> LAB_PCIE_OK then (result, window, bar, w) else
        case lab_pcie_resource_translate window (the bus_addr) (Some 0) of (result, cpu_addr) \<Rightarrow>
        if result \<noteq> LAB_PCIE_OK then (result, window, bar, w) else
        let reg = PCIE_CONF_BAR0 z + res_bar_index b;
            programmed = (if res_is_io b \<noteq> 0
                          then (the bus_addr AND NOT 3) OR (res_original b AND 3)
                          else (the bus_addr AND NOT 0xF) OR PCIE_CONF_BAR_FLAGS z (res_original b))
        in
        case lab_pcie_config_write32 z host bdf reg programmed w of (result, w) \<Rightarrow>
        if result \<noteq> LAB_PCIE_OK then (result, window, bar, w)
        else (LAB_PCIE_OK, window, Some (b\<lparr>res_bus_addr := the bus_addr, res_cpu_addr := the cpu_addr\<rparr>), w))"

definition lab_pcie_enable_memory_space :: "pcie_macros \<Rightarrow> 'w lab_pcie_host option \<Rightarrow> u32 \<Rightarrow> 'w \<Rightarrow> int \<times> 'w" where
  "lab_pcie_enable_memory_space z host bdf w =
     (case lab_pcie_config_read32 z host bdf (PCIE_CONF_CMDSTAT z) (Some 0) w of (result, v, w) \<Rightarrow>
      if result \<noteq> LAB_PCIE_OK then (result, w)
      else lab_pcie_config_write32 z host bdf (PCIE_CONF_CMDSTAT z) (the v OR PCIE_CONF_CMDSTAT_MEM z) w)"

section \<open>The allocator\<close>

text \<open>A well-formed window lies inside the 32-bit address space and allocates upwards inside itself.\<close>

definition window_ok :: "lab_pcie_resource_window \<Rightarrow> bool" where
  "window_ok win \<longleftrightarrow> unat (pci_base win) + unat (win_size win) < 2 ^ 32 \<and> pci_base win \<noteq> 0 \<and>
     unat (pci_base win) \<le> unat (win_next win) \<and>
     unat (win_next win) \<le> unat (pci_base win) + unat (win_size win)"

lemma bit_top: "2 ^ k \<le> n \<Longrightarrow> n < 2 ^ Suc k \<Longrightarrow> bit (n :: nat) k"
proof -
  assume "2 ^ k \<le> n" "n < 2 ^ Suc k"
  then have "n div 2 ^ k = 1" by (intro div_nat_eqI) auto
  then show ?thesis by (simp add: bit_iff_odd)
qed

lemma unat_2p: "k < 32 \<Longrightarrow> unat (2 ^ k :: u32) = 2 ^ k"
proof -
  assume "k < 32"
  then have "(2 :: nat) ^ k < 2 ^ 32" by (intro power_strict_increasing) auto
  then have "unat (of_nat (2 ^ k) :: u32) = 2 ^ k" by (intro unat_u32_of_nat) simp
  then show ?thesis by simp
qed

lemma unat_u32_less: "unat (x :: u32) < 2 ^ 32"
  using unsigned_less [of x] by simp

lemma power_of_two:
  fixes a :: u32
  assumes a: "a \<noteq> 0" "a AND (a - 1) = 0"
  obtains k where "k < 32" "a = 2 ^ k"
proof -
  have pos: "0 < unat a" using a(1) by (simp add: unat_gt_0)
  then obtain k where k: "2 ^ k \<le> unat a" "unat a < 2 ^ Suc k"
    using ex_power_ivl1 [of 2 "unat a"] by auto
  have "2 ^ k < (2 :: nat) ^ 32" using k(1) unat_u32_less [of a] by (rule le_less_trans)
  then have k32: "k < 32" by (rule power_less_imp_less_exp [rotated]) simp
  have "unat a = 2 ^ k"
  proof (rule ccontr)
    assume "unat a \<noteq> 2 ^ k"
    then have "2 ^ k \<le> unat a - 1" "unat a - 1 < 2 ^ Suc k" using k by auto
    then have "bit (unat a - 1) k" by (rule bit_top)
    moreover have "unat (a - 1) = unat a - 1" using a(1) by (simp add: unat_minus_one)
    ultimately have "bit (unat (a - 1)) k" by (simp only:)
    then have "bit (a - 1) k" by (simp only: bit_unsigned_iff)
    moreover have "bit a k" using bit_top [OF k] by (simp add: bit_unsigned_iff)
    ultimately have "bit (a AND (a - 1)) k" by (simp add: bit_and_iff)
    then show False using a(2) by simp
  qed
  then have "a = 2 ^ k" using k32 by (simp add: word_unat_eq_iff unat_2p)
  with k32 show ?thesis by (rule that)
qed

lemma unat_add_small: "unat (a :: u32) + unat b < 2 ^ 32 \<Longrightarrow> unat (a + b) = unat a + unat b"
  by (simp add: unat_word_ariths)

lemma clear_low_bits:
  fixes x :: u32
  assumes "k < 32"
  shows "unat (x AND NOT (2 ^ k - 1)) = unat x div 2 ^ k * 2 ^ k"
proof -
  have "x AND NOT (mask k) = push_bit k (drop_bit k x)"
    by (rule bit_word_eqI) (auto simp: bit_simps)
  then have "unat (x AND NOT (2 ^ k - 1)) = unat (drop_bit k x * 2 ^ k)"
    by (simp add: mask_eq_exp_minus_1 push_bit_eq_mult)
  also have "\<dots> = unat x div 2 ^ k * 2 ^ k mod 2 ^ 32"
    using assms by (simp add: unat_word_ariths unat_2p unat_drop_bit_eq drop_bit_eq_div mod_mult_left_eq)
  also have "unat x div 2 ^ k * 2 ^ k \<le> unat x" by simp
  then have "unat x div 2 ^ k * 2 ^ k mod 2 ^ 32 = unat x div 2 ^ k * 2 ^ k"
    using unat_u32_less [of x] by (intro mod_less) (rule le_less_trans)
  finally show ?thesis .
qed

text \<open>The least multiple of the alignment from a value on; 0 if it is beyond the address space.\<close>

lemma align_up_spec:
  assumes "k < 32"
  shows "unat (align_up v (2 ^ k)) =
    (if unat v + 2 ^ k - 1 < 2 ^ 32 then (unat v + (2 ^ k - 1)) div 2 ^ k * 2 ^ k else 0)"
proof -
  have m: "unat ((2 :: u32) ^ k - 1) = 2 ^ k - 1" using assms by (simp add: unat_minus_one unat_2p)
  have lt: "(2 :: nat) ^ k < 2 ^ 32" using assms by (intro power_strict_increasing) auto
  have sum: "unat (v + (2 ^ k - 1)) = (unat v + (2 ^ k - 1)) mod 2 ^ 32"
    using m by (simp add: unat_word_ariths)
  show ?thesis
  proof (cases "unat v + 2 ^ k - 1 < 2 ^ 32")
    case True
    then show ?thesis using sum by (simp add: align_up_def Let_def clear_low_bits [OF assms])
  next
    case False
    have "(unat v + (2 ^ k - 1)) mod 2 ^ 32 = unat v + (2 ^ k - 1) - 2 ^ 32"
      using False unat_u32_less [of v] lt by (subst le_mod_geq) auto
    also have "\<dots> < 2 ^ k"
    proof -
      have "0 < (2 :: nat) ^ k" by simp
      then show ?thesis using unat_u32_less [of v] by linarith
    qed
    finally have "(unat v + (2 ^ k - 1)) mod 2 ^ 32 div 2 ^ k = 0" by simp
    then show ?thesis using False sum by (simp add: align_up_def Let_def clear_low_bits [OF assms])
  qed
qed

lemma round_up:
  fixes n d :: nat
  assumes "0 < d"
  shows "n \<le> (n + (d - 1)) div d * d" "(n + (d - 1)) div d * d < n + d"
    and "n \<le> m \<Longrightarrow> d dvd m \<Longrightarrow> (n + (d - 1)) div d * d \<le> m"
proof -
  have split: "(n + (d - 1)) div d * d + (n + (d - 1)) mod d = n + (d - 1)" by simp
  have "(n + (d - 1)) mod d < d" using assms by simp
  then show "n \<le> (n + (d - 1)) div d * d" using split assms by linarith
  show lt: "(n + (d - 1)) div d * d < n + d" using split assms by linarith
  show "(n + (d - 1)) div d * d \<le> m" if nm: "n \<le> m" and dm: "d dvd m"
  proof -
    obtain q where m: "m = q * d" using dm by (auto simp: dvd_def mult.commute)
    have "(n + (d - 1)) div d * d < (q + 1) * d" using lt nm m by (simp add: algebra_simps)
    then have "(n + (d - 1)) div d < q + 1" using assms by (metis mult_less_cancel2)
    then have "(n + (d - 1)) div d \<le> q" by simp
    then show ?thesis unfolding m by (rule mult_le_mono1)
  qed
qed

text \<open>What the allocator returns: the least aligned address from \<open>win_next\<close> on, if the block ends
  inside the window.\<close>

definition fits_at :: "lab_pcie_resource_window \<Rightarrow> u32 \<Rightarrow> u32 \<Rightarrow> nat \<Rightarrow> bool" where
  "fits_at win sz alignment a \<longleftrightarrow> unat (win_next win) \<le> a \<and> unat alignment dvd a \<and>
     a + unat sz \<le> unat (pci_base win) + unat (win_size win)"

lemma alloc_spec:
  assumes win: "window_ok win" and al: "alignment \<noteq> 0" "alignment AND (alignment - 1) = 0" and sz: "sz \<noteq> 0"
    and run: "lab_pcie_resource_alloc (Some win) sz alignment (Some x) = (rc, win', y)"
  shows "(rc = LAB_PCIE_OK \<and> (\<exists>start. y = Some start \<and> win' = Some (win\<lparr>win_next := start + sz\<rparr>) \<and>
      fits_at win sz alignment (unat start) \<and> (\<forall>a. fits_at win sz alignment a \<longrightarrow> unat start \<le> a) \<and>
      unat (start + sz) = unat start + unat sz)) \<or>
    (rc = LAB_PCIE_ERR_NO_RESOURCE \<and> win' = Some win \<and> y = Some x \<and> (\<forall>a. \<not> fits_at win sz alignment a))"
proof -
  obtain k where k: "k < 32" "alignment = 2 ^ k" using al by (rule power_of_two)
  have uk: "unat alignment = 2 ^ k" using k by (simp add: unat_2p)
  let ?s = "align_up (win_next win) alignment" and ?lim = "pci_base win + win_size win"
  let ?n = "unat (win_next win)" and ?r = "(unat (win_next win) + (2 ^ k - 1)) div 2 ^ k * 2 ^ k"
  have lim: "unat ?lim = unat (pci_base win) + unat (win_size win)" "unat ?lim < 2 ^ 32"
    using win by (simp_all add: window_ok_def unat_word_ariths)
  have base: "0 < unat (pci_base win)" "unat (pci_base win) \<le> ?n"
    using win by (simp_all add: window_ok_def unat_gt_0)
  have s: "unat ?s = (if ?n + 2 ^ k - 1 < 2 ^ 32 then ?r else 0)" using align_up_spec [OF k(1)] k(2) by simp
  have r: "?n \<le> ?r" "?r < ?n + 2 ^ k" "\<And>m. ?n \<le> m \<Longrightarrow> 2 ^ k dvd m \<Longrightarrow> ?r \<le> m"
    using round_up [of "2 ^ k" ?n] by auto
  have fit: "fits_at win sz alignment a \<longleftrightarrow> ?n \<le> a \<and> 2 ^ k dvd a \<and> a + unat sz \<le> unat ?lim" for a
    by (simp add: fits_at_def uk lim(1))
  let ?bad = "?s < pci_base win \<or> ?s > ?lim \<or> sz > ?lim - ?s"
  have eq: "(rc, win', y) = (if ?bad then (LAB_PCIE_ERR_NO_RESOURCE, Some win, Some x)
      else (LAB_PCIE_OK, Some (win\<lparr>win_next := ?s + sz\<rparr>), Some ?s))"
    using run al sz by (simp add: lab_pcie_resource_alloc_def Let_def split: if_splits)
  have bad: "?bad \<longleftrightarrow> unat ?s < unat (pci_base win) \<or> unat ?lim < unat ?s + unat sz"
  proof (cases "?s > ?lim")
    case True
    then show ?thesis by (simp add: word_less_nat_alt)
  next
    case False
    then have "unat (?lim - ?s) = unat ?lim - unat ?s" by (simp add: unat_sub word_le_nat_alt not_less)
    then show ?thesis using False by (auto simp: word_less_nat_alt not_less)
  qed
  show ?thesis
  proof (cases "?n + 2 ^ k - 1 < 2 ^ 32 \<and> ?r + unat sz \<le> unat ?lim")
    case True
    then have us: "unat ?s = ?r" using s by simp
    then have "\<not> ?bad" using bad True base r(1) by simp
    moreover have "unat (?s + sz) = unat ?s + unat sz"
      using us True lim(2) by (intro unat_add_small) linarith
    moreover have "fits_at win sz alignment (unat ?s)" "\<forall>a. fits_at win sz alignment a \<longrightarrow> unat ?s \<le> a"
      using us True r fit by auto
    ultimately show ?thesis using eq by auto
  next
    case False
    have "?bad"
    proof (cases "?n + 2 ^ k - 1 < 2 ^ 32")
      case True
      then show ?thesis using False bad s by simp
    next
      case False
      then show ?thesis using bad s base by simp
    qed
    moreover have "\<not> fits_at win sz alignment a" for a
    proof
      assume "fits_at win sz alignment a"
      then have "?r \<le> a" "a + unat sz \<le> unat ?lim" using r(3) fit by auto
      moreover have "?n + 2 ^ k - 1 < 2 ^ 32 \<or> 2 ^ 32 \<le> ?r"
      proof (cases "?n + 2 ^ k - 1 < 2 ^ 32")
        case False
        have p: "(2 :: nat) ^ 32 = 2 ^ (32 - k) * 2 ^ k" using k(1) by (simp flip: power_add)
        have "2 ^ 32 \<le> ?n + (2 ^ k - 1)" using False by simp
        then have "(2 :: nat) ^ 32 div 2 ^ k \<le> (?n + (2 ^ k - 1)) div 2 ^ k" by (rule div_le_mono)
        moreover have "(2 :: nat) ^ 32 div 2 ^ k = 2 ^ (32 - k)" unfolding p by simp
        ultimately have "2 ^ (32 - k) * 2 ^ k \<le> ?r" by simp
        then show ?thesis unfolding p by simp
      qed simp
      ultimately show False using False lim(2) by auto
    qed
    ultimately show ?thesis using eq by auto
  qed
qed

lemma alloc_window_ok:
  assumes win: "window_ok win" and run: "lab_pcie_resource_alloc (Some win) sz alignment (Some x) = (rc, win', y)"
  obtains (granted) start where "rc = LAB_PCIE_OK" "sz \<noteq> 0" "y = Some start" "win' = Some (win\<lparr>win_next := start + sz\<rparr>)"
      "fits_at win sz alignment (unat start)" "unat (start + sz) = unat start + unat sz"
      "window_ok (win\<lparr>win_next := start + sz\<rparr>)"
    | (refused) "rc < 0" "win' = Some win" "y = Some x"
proof (cases "sz = 0 \<or> alignment = 0 \<or> alignment AND (alignment - 1) \<noteq> 0")
  case True
  then show ?thesis using run refused by (auto simp: lab_pcie_resource_alloc_def split: if_splits)
next
  case False
  then consider start where "rc = LAB_PCIE_OK" "y = Some start" "win' = Some (win\<lparr>win_next := start + sz\<rparr>)"
      "fits_at win sz alignment (unat start)" "unat (start + sz) = unat start + unat sz"
    | "rc < 0" "win' = Some win" "y = Some x"
    using alloc_spec [OF win _ _ _ run] by auto
  then show ?thesis
  proof cases
    case 1
    moreover have "window_ok (win\<lparr>win_next := start + sz\<rparr>)"
      using win 1(4,5) by (simp add: window_ok_def fits_at_def)
    ultimately show ?thesis using False by (intro granted) auto
  qed (rule refused)
qed

text \<open>A sequence of requests, and the blocks it was granted, as (start, size) pairs.\<close>

fun alloc_all :: "lab_pcie_resource_window \<Rightarrow> (u32 \<times> u32) list \<Rightarrow> lab_pcie_resource_window \<times> (u32 \<times> u32) list" where
  "alloc_all win [] = (win, [])"
| "alloc_all win ((sz, alignment) # rest) =
     (case lab_pcie_resource_alloc (Some win) sz alignment (Some 0) of (rc, win', addr) \<Rightarrow>
        case alloc_all (the win') rest of (win2, blocks) \<Rightarrow>
          (win2, if rc = LAB_PCIE_OK then (the addr, sz) # blocks else blocks))"

definition block_bytes :: "u32 \<times> u32 \<Rightarrow> nat set" where
  "block_bytes b = {unat (fst b)..<unat (fst b) + unat (snd b)}"

definition window_bytes :: "lab_pcie_resource_window \<Rightarrow> nat set" where
  "window_bytes win = {unat (pci_base win)..<unat (pci_base win) + unat (win_size win)}"

lemma alloc_all_from:
  assumes "window_ok win" "alloc_all win reqs = (win', blocks)"
  shows "window_ok win' \<and> pci_base win' = pci_base win \<and> cpu_base win' = cpu_base win \<and> win_size win' = win_size win \<and>
    (\<forall>b \<in> set blocks. snd b \<noteq> 0 \<and> unat (win_next win) \<le> unat (fst b) \<and> block_bytes b \<subseteq> window_bytes win) \<and>
    sorted_wrt (\<lambda>a b. unat (fst a) + unat (snd a) \<le> unat (fst b)) blocks"
  using assms
proof (induction win reqs arbitrary: win' blocks rule: alloc_all.induct)
  case (1 win)
  then show ?case by simp
next
  case (2 win sz alignment rest)
  obtain rc w2 y where run: "lab_pcie_resource_alloc (Some win) sz alignment (Some 0) = (rc, w2, y)" by (rule prod_cases3)
  obtain w3 bs where rec: "alloc_all (the w2) rest = (w3, bs)" by (rule prod.exhaust)
  note ih = "2.IH" [OF run [symmetric] refl _ rec]
  from "2.prems"(1) run show ?case
  proof (cases rule: alloc_window_ok)
    case (granted start)
    then have w2: "the w2 = win\<lparr>win_next := start + sz\<rparr>" by simp
    have "window_ok (the w2)" using granted w2 by simp
    note ih = ih [OF this]
    have res: "win' = w3" "blocks = (start, sz) # bs" using "2.prems"(2) run rec granted by auto
    have s: "unat (win_next win) \<le> unat start" "unat start + unat sz \<le> unat (pci_base win) + unat (win_size win)"
      using granted(5) by (simp_all add: fits_at_def)
    have low: "unat (start + sz) \<le> unat (fst b)" if "b \<in> set bs" for b using ih that w2 by simp
    moreover have "unat (win_next win) \<le> unat (fst b)" if "b \<in> set bs" for b
      using low [OF that] s(1) granted(6) by linarith
    moreover have "block_bytes (start, sz) \<subseteq> window_bytes win"
      using s "2.prems"(1) by (auto simp: block_bytes_def window_bytes_def window_ok_def)
    moreover have "block_bytes b \<subseteq> window_bytes win \<and> snd b \<noteq> 0" if "b \<in> set bs" for b
      using ih that w2 by (auto simp: window_bytes_def)
    ultimately show ?thesis using ih w2 res s(1) granted(2,6) by (auto intro: order_trans)
  next
    case refused
    then show ?thesis using ih "2.prems" run rec by auto
  qed
qed

section \<open>The Zephyr macros\<close>

text \<open>What zephyr/drivers/pcie/pcie.h documents of the macros the code uses.\<close>

locale zephyr_pcie =
  fixes z :: pcie_macros
  assumes bdf_law: "b < 256 \<Longrightarrow> d < 32 \<Longrightarrow> f < 8 \<Longrightarrow>
      PCIE_BDF_TO_DEV z (PCIE_BDF z b d f) = d \<and> PCIE_BDF_TO_FUNC z (PCIE_BDF z b d f) = f"
    and reg_law: "PCIE_CONF_ID z = 0" "PCIE_CONF_CMDSTAT z = 1" "PCIE_CONF_CLASSREV z = 2" "PCIE_CONF_TYPE z = 3"
      "PCIE_CONF_BAR0 z = 4" "PCIE_CONF_BAR5 z = 9" "PCIE_CONF_CMDSTAT_MEM z = 2"
    and bar_law: "PCIE_CONF_BAR_IO z v \<longleftrightarrow> bit v 0" "PCIE_CONF_BAR_MEM z v \<longleftrightarrow> \<not> bit v 0"
      "PCIE_CONF_BAR_64 z v \<longleftrightarrow> v AND 6 = 4" "PCIE_CONF_BAR_ADDR z v = v AND NOT 0xF"
      "PCIE_CONF_BAR_IO_ADDR z v = v AND NOT 3" "PCIE_CONF_BAR_FLAGS z v = v AND 0xF"
    and id_law: "vend < 0x10000 \<Longrightarrow> devid < 0x10000 \<Longrightarrow>
      PCIE_ID_TO_VEND z (PCIE_ID z vend devid) = vend \<and> PCIE_ID_TO_DEV z (PCIE_ID z vend devid) = devid"

text \<open>An instance with the field layout of the PCI specification: the contract can be met.\<close>

definition pci_layout :: pcie_macros where
  "pci_layout = \<lparr>PCIE_BDF = \<lambda>b d f. push_bit 16 (b AND 0xFF) OR push_bit 11 (d AND 0x1F) OR push_bit 8 (f AND 7),
     PCIE_BDF_TO_DEV = \<lambda>x. drop_bit 11 x AND 0x1F, PCIE_BDF_TO_FUNC = \<lambda>x. drop_bit 8 x AND 7,
     PCIE_CONF_ID = 0, PCIE_CONF_CMDSTAT = 1, PCIE_CONF_CMDSTAT_MEM = 2, PCIE_CONF_CLASSREV = 2, PCIE_CONF_TYPE = 3,
     PCIE_CONF_BAR0 = 4, PCIE_CONF_BAR5 = 9, PCIE_CONF_BAR_IO = \<lambda>v. bit v 0, PCIE_CONF_BAR_MEM = \<lambda>v. \<not> bit v 0,
     PCIE_CONF_BAR_64 = \<lambda>v. v AND 6 = 4, PCIE_CONF_BAR_ADDR = \<lambda>v. v AND NOT 0xF,
     PCIE_CONF_BAR_IO_ADDR = \<lambda>v. v AND NOT 3, PCIE_CONF_BAR_FLAGS = \<lambda>v. v AND 0xF,
     PCIE_ID = \<lambda>v d. (v AND 0xFFFF) OR push_bit 16 (d AND 0xFFFF),
     PCIE_ID_TO_VEND = \<lambda>x. x AND 0xFFFF, PCIE_ID_TO_DEV = \<lambda>x. drop_bit 16 x AND 0xFFFF\<rparr>"

lemma bit_below: "x < 2 ^ n \<Longrightarrow> bit x i \<Longrightarrow> i < n" for x :: u32
proof (rule ccontr)
  assume x: "x < 2 ^ n" "bit x i" "\<not> i < n"
  then have i: "i < 32" "n < 32" using bit_imp_le_length [of x i] by simp_all
  then have "unat x < 2 ^ n" using x(1) by (simp add: word_less_nat_alt unat_2p)
  moreover have "(2 :: nat) ^ n \<le> 2 ^ i" using x(3) by (intro power_increasing) auto
  ultimately have "unat x < 2 ^ i" by (rule less_le_trans)
  then have "unat x div 2 ^ i = 0" by simp
  moreover have "bit (unat x) i" using x(2) by (simp add: bit_unsigned_iff)
  ultimately show False by (simp add: bit_iff_odd)
qed

lemma mask_fields: "(0xFF :: u32) = mask 8" "(0x1F :: u32) = mask 5" "(7 :: u32) = mask 3" "(0xFFFF :: u32) = mask 16"
  by (simp_all add: mask_eq_exp_minus_1)

lemma layout_bdf:
  assumes "b < 256" "d < 32" "f < 8"
  shows "PCIE_BDF_TO_DEV pci_layout (PCIE_BDF pci_layout b d f) = d \<and>
    PCIE_BDF_TO_FUNC pci_layout (PCIE_BDF pci_layout b d f) = f"
proof -
  have d: "bit d i \<Longrightarrow> i < 5" and f: "bit f i \<Longrightarrow> i < 3" for i
    using bit_below [of d 5 i] bit_below [of f 3 i] assms by simp_all
  show ?thesis
    unfolding pci_layout_def pcie_macros.select_convs mask_fields
    by (intro conjI bit_word_eqI) (auto simp: bit_simps dest: d f)
qed

lemma layout_id:
  assumes "v < 0x10000" "d < 0x10000"
  shows "PCIE_ID_TO_VEND pci_layout (PCIE_ID pci_layout v d) = v \<and>
    PCIE_ID_TO_DEV pci_layout (PCIE_ID pci_layout v d) = d"
proof -
  have d: "bit d i \<Longrightarrow> i < 16" and v: "bit v i \<Longrightarrow> i < 16" for i
    using bit_below [of d 16 i] bit_below [of v 16 i] assms by simp_all
  show ?thesis
    unfolding pci_layout_def pcie_macros.select_convs mask_fields
    by (intro conjI bit_word_eqI) (auto simp: bit_simps dest: d v)
qed

interpretation layout: zephyr_pcie pci_layout
proof unfold_locales
  show "b < 256 \<Longrightarrow> d < 32 \<Longrightarrow> f < 8 \<Longrightarrow> PCIE_BDF_TO_DEV pci_layout (PCIE_BDF pci_layout b d f) = d \<and>
      PCIE_BDF_TO_FUNC pci_layout (PCIE_BDF pci_layout b d f) = f" for b d f
    by (rule layout_bdf)
  show "vend < 0x10000 \<Longrightarrow> devid < 0x10000 \<Longrightarrow> PCIE_ID_TO_VEND pci_layout (PCIE_ID pci_layout vend devid) = vend \<and>
      PCIE_ID_TO_DEV pci_layout (PCIE_ID pci_layout vend devid) = devid" for vend devid
    by (rule layout_id)
qed (simp_all add: pci_layout_def)

section \<open>Simulated endpoint (pcie_sim_host.c)\<close>

record lab_pcie_sim_bar =
  sb_value :: u32
  sb_size :: u32
  sb_implemented :: u8
  sb_probing :: u8

record lab_pcie_sim_function =
  lf_bdf :: u32
  lf_present :: u8
  lf_config :: "u32 list"
  lf_bars :: "lab_pcie_sim_bar list"

record lab_pcie_sim_controller =
  lc_functions :: "lab_pcie_sim_function list"
  lc_function_count :: nat

text \<open>A function is named by its index in the table.\<close>

fun lab_sim_find_from :: "lab_pcie_sim_controller \<Rightarrow> u32 \<Rightarrow> nat list \<Rightarrow> nat option" where
  "lab_sim_find_from controller bdf [] = None"
| "lab_sim_find_from controller bdf (index # rest) =
     (let fn = lc_functions controller ! index in
      if lf_present fn \<noteq> 0 \<and> lf_bdf fn = bdf then Some index else lab_sim_find_from controller bdf rest)"

definition lab_sim_find_function :: "lab_pcie_sim_controller \<Rightarrow> u32 \<Rightarrow> nat option" where
  "lab_sim_find_function controller bdf = lab_sim_find_from controller bdf [0..<lc_function_count controller]"

definition sim_bar_index :: "pcie_macros \<Rightarrow> u32 \<Rightarrow> int" where
  "sim_bar_index z reg =
     (if reg < PCIE_CONF_BAR0 z \<or> reg > PCIE_CONF_BAR5 z then - 1 else sint (reg - PCIE_CONF_BAR0 z))"

definition sim_bar_probe_value :: "pcie_macros \<Rightarrow> lab_pcie_sim_bar option \<Rightarrow> u32" where
  "sim_bar_probe_value z bar =
     (case bar of None \<Rightarrow> 0
      | Some b \<Rightarrow>
        if sb_implemented b = 0 \<or> sb_size b = 0 then 0
        else if PCIE_CONF_BAR_IO z (sb_value b)
        then (NOT (sb_size b - 1) AND NOT 3) OR (sb_value b AND 3)
        else (NOT (sb_size b - 1) AND NOT 0xF) OR PCIE_CONF_BAR_FLAGS z (sb_value b))"

definition lab_sim_config_read32 :: "pcie_macros \<Rightarrow> u32 \<Rightarrow> u32 \<Rightarrow> u32 option \<Rightarrow> lab_pcie_sim_controller option \<Rightarrow>
    int \<times> u32 option \<times> lab_pcie_sim_controller option" where
  "lab_sim_config_read32 z bdf reg value w =
     (case w of None \<Rightarrow> (LAB_PCIE_ERR_ARGUMENT, value, w)
      | Some controller \<Rightarrow>
        if value = None then (LAB_PCIE_ERR_ARGUMENT, value, w) else
        (case lab_sim_find_function controller bdf of None \<Rightarrow> (LAB_PCIE_OK, Some 0xFFFFFFFF, w)
         | Some k \<Rightarrow>
           let fn = lc_functions controller ! k; bar_index = sim_bar_index z reg in
           if bar_index \<ge> 0 then
             (let bar = lf_bars fn ! nat bar_index in
              if sb_implemented bar = 0 then (LAB_PCIE_OK, Some 0, w)
              else if sb_probing bar \<noteq> 0 then (LAB_PCIE_OK, Some (sim_bar_probe_value z (Some bar)), w)
              else (LAB_PCIE_OK, Some (sb_value bar), w))
           else (LAB_PCIE_OK, Some (lf_config fn ! unat reg), w)))"

text \<open>\<open>controller->functions[k].bars[i] = bar\<close> and \<open>controller->functions[k].config[reg] = value\<close>.\<close>

definition sim_set_bar :: "nat \<Rightarrow> nat \<Rightarrow> lab_pcie_sim_bar \<Rightarrow> lab_pcie_sim_controller \<Rightarrow> lab_pcie_sim_controller" where
  "sim_set_bar k i bar c =
     (let fn = lc_functions c ! k in c\<lparr>lc_functions := (lc_functions c)[k := fn\<lparr>lf_bars := (lf_bars fn)[i := bar]\<rparr>]\<rparr>)"

definition sim_set_config :: "nat \<Rightarrow> nat \<Rightarrow> u32 \<Rightarrow> lab_pcie_sim_controller \<Rightarrow> lab_pcie_sim_controller" where
  "sim_set_config k i v c =
     (let fn = lc_functions c ! k in c\<lparr>lc_functions := (lc_functions c)[k := fn\<lparr>lf_config := (lf_config fn)[i := v]\<rparr>]\<rparr>)"

definition lab_sim_config_write32 :: "pcie_macros \<Rightarrow> u32 \<Rightarrow> u32 \<Rightarrow> u32 \<Rightarrow> lab_pcie_sim_controller option \<Rightarrow>
    int \<times> lab_pcie_sim_controller option" where
  "lab_sim_config_write32 z bdf reg value w =
     (case w of None \<Rightarrow> (LAB_PCIE_ERR_ARGUMENT, w)
      | Some controller \<Rightarrow>
        (case lab_sim_find_function controller bdf of None \<Rightarrow> (LAB_PCIE_OK, w)
         | Some k \<Rightarrow>
           let fn = lc_functions controller ! k; bar_index = sim_bar_index z reg in
           if bar_index \<ge> 0 then
             (let i = nat bar_index; bar = lf_bars fn ! i in
              if sb_implemented bar = 0 then (LAB_PCIE_OK, w)
              else if value = 0xFFFFFFFF then (LAB_PCIE_OK, Some (sim_set_bar k i (bar\<lparr>sb_probing := 1\<rparr>) controller))
              else let bar = bar\<lparr>sb_probing := 0\<rparr>;
                       bar = bar\<lparr>sb_value := (value AND NOT 0xF) OR PCIE_CONF_BAR_FLAGS z (sb_value bar)\<rparr>
                   in (LAB_PCIE_OK, Some (sim_set_bar k i bar controller)))
           else (LAB_PCIE_OK, Some (sim_set_config k (unat reg) value controller))))"

definition g_lab_pcie_sim_host_ops :: "pcie_macros \<Rightarrow> lab_pcie_sim_controller option lab_pcie_host_ops" where
  "g_lab_pcie_sim_host_ops z =
     \<lparr>lab_read32 = Some (lab_sim_config_read32 z), lab_write32 = Some (lab_sim_config_write32 z)\<rparr>"

definition lab_pcie_sim_controller_init :: "pcie_macros \<Rightarrow> lab_pcie_sim_controller option \<Rightarrow>
    lab_pcie_sim_controller option" where
  "lab_pcie_sim_controller_init z controller =
     (case controller of None \<Rightarrow> None
      | Some c \<Rightarrow>
        let c = c\<lparr>lc_function_count := 1\<rparr>;
            fn = (lc_functions c ! 0)\<lparr>lf_bdf := PCIE_BDF z 0 1 0, lf_present := 1, lf_config := replicate 64 0,
              lf_bars := replicate 6 \<lparr>sb_value = 0, sb_size = 0, sb_implemented = 0, sb_probing = 0\<rparr>\<rparr>;
            cfg = (lf_config fn)[unat (PCIE_CONF_ID z) := PCIE_ID z 0x1234 0x5678];
            cfg = cfg[unat (PCIE_CONF_CLASSREV z) := 0x02000001];
            cfg = cfg[unat (PCIE_CONF_TYPE z) := 0];
            bars = (lf_bars fn)[0 := (lf_bars fn ! 0)\<lparr>sb_value := 0, sb_size := 0x1000, sb_implemented := 1\<rparr>]
        in Some (c\<lparr>lc_functions := (lc_functions c)[0 := fn\<lparr>lf_config := cfg, lf_bars := bars\<rparr>]\<rparr>))"

section \<open>Board and program (board_pcie.c, main.c)\<close>

definition g_board19_pcie_host :: "pcie_macros \<Rightarrow> lab_pcie_sim_controller option lab_pcie_host" where
  "g_board19_pcie_host z = \<lparr>lab_ops = Some (g_lab_pcie_sim_host_ops z)\<rparr>"

definition board19_pcie_init :: "pcie_macros \<Rightarrow> u32 \<Rightarrow> lab_pcie_resource_window \<Rightarrow> lab_pcie_sim_controller option \<Rightarrow>
    int \<times> lab_pcie_resource_window \<times> lab_pcie_sim_controller option" where
  "board19_pcie_init z SystemCoreClock win w =
     (if SystemCoreClock = 0 then (LAB_PCIE_ERR_PLATFORM, win, w)
      else
        let w = lab_pcie_sim_controller_init z w in
        case lab_pcie_resource_window_init (Some win) 0x50000000 0x60000000 0x01000000 of (result, win) \<Rightarrow>
        (result, the win, w))"

record lab19 =
  g19_stage :: u32
  g19_board_result :: int
  g19_probe_result :: int
  g19_assign_result :: int
  g19_enable_result :: int
  g19_id :: u32
  g19_vendor :: u16
  g19_device :: u16
  g19_bar_original :: u32
  g19_bar_size :: u32
  g19_bar_bus_addr :: u32
  g19_bar_cpu_addr :: u32
  g19_bar_programmed :: u32
  g19_command_status :: u32
  g19_bar0 :: lab_pcie_bar_resource
  g_board_pcie_mem_window :: lab_pcie_resource_window

definition lab19_main :: "pcie_macros \<Rightarrow> u32 \<Rightarrow> lab19 \<Rightarrow> lab_pcie_sim_controller option \<Rightarrow>
    lab19 \<times> lab_pcie_sim_controller option" where
  "lab19_main z SystemCoreClock g w =
     (let host = Some (g_board19_pcie_host z);
          endpoint = PCIE_BDF z 0 1 0;
          failed = (\<lambda>g. g\<lparr>g19_stage := 0xFFFFFFFF\<rparr>);
          g = g\<lparr>g19_stage := 1\<rparr> in
      case board19_pcie_init z SystemCoreClock (g_board_pcie_mem_window g) w of (rc, win, w) \<Rightarrow>
      let g = g\<lparr>g19_board_result := rc, g_board_pcie_mem_window := win\<rparr> in
      if g19_board_result g \<noteq> LAB_PCIE_OK then (failed g, w) else
      case lab_pcie_config_read32 z host endpoint (PCIE_CONF_ID z) (Some (g19_id g)) w of (_, v, w) \<Rightarrow>
      let g = g\<lparr>g19_id := the v\<rparr>;
          g = g\<lparr>g19_vendor := ucast (PCIE_ID_TO_VEND z (g19_id g)),
                g19_device := ucast (PCIE_ID_TO_DEV z (g19_id g))\<rparr> in
      case lab_pcie_probe_bar32 z host endpoint 0 (Some (g19_bar0 g)) w of (rc, bar, w) \<Rightarrow>
      let g = g\<lparr>g19_probe_result := rc, g19_bar0 := the bar\<rparr> in
      if g19_probe_result g \<noteq> LAB_PCIE_OK then (failed g, w) else
      let g = g\<lparr>g19_bar_original := res_original (g19_bar0 g), g19_bar_size := res_size (g19_bar0 g), g19_stage := 2\<rparr> in
      case lab_pcie_assign_bar32 z host endpoint (Some (g_board_pcie_mem_window g)) (Some (g19_bar0 g)) w of
        (rc, win, bar, w) \<Rightarrow>
      let g = g\<lparr>g19_assign_result := rc, g_board_pcie_mem_window := the win, g19_bar0 := the bar\<rparr> in
      if g19_assign_result g \<noteq> LAB_PCIE_OK then (failed g, w) else
      let g = g\<lparr>g19_bar_bus_addr := res_bus_addr (g19_bar0 g), g19_bar_cpu_addr := res_cpu_addr (g19_bar0 g)\<rparr> in
      case lab_pcie_config_read32 z host endpoint (PCIE_CONF_BAR0 z) (Some (g19_bar_programmed g)) w of (_, v, w) \<Rightarrow>
      let g = g\<lparr>g19_bar_programmed := the v, g19_stage := 3\<rparr> in
      case lab_pcie_enable_memory_space z host endpoint w of (rc, w) \<Rightarrow>
      let g = g\<lparr>g19_enable_result := rc\<rparr> in
      if g19_enable_result g \<noteq> LAB_PCIE_OK then (failed g, w) else
      case lab_pcie_config_read32 z host endpoint (PCIE_CONF_CMDSTAT z) (Some (g19_command_status g)) w of (_, v, w) \<Rightarrow>
      (g\<lparr>g19_command_status := the v, g19_stage := 4\<rparr>, w))"

section \<open>Lemmas on the simulated BAR\<close>

lemma nibble_mask: "(0xF :: u32) = mask 4" "(3 :: u32) = mask 2"
  by (simp_all add: mask_eq_exp_minus_1)

lemma sized_mask:
  fixes v :: u32
  assumes "low \<le> n" "n < 32"
  shows "((NOT (2 ^ n - 1) AND NOT (mask low)) OR (v AND mask low)) AND NOT (mask low) = NOT (mask n)"
    and "NOT (mask n) \<noteq> (0 :: u32)"
    and "NOT (NOT (mask n)) + 1 = (2 :: u32) ^ n"
proof -
  have m: "(2 :: u32) ^ n - 1 = mask n" by (simp add: mask_eq_exp_minus_1)
  show "((NOT (2 ^ n - 1) AND NOT (mask low)) OR (v AND mask low)) AND NOT (mask low) = NOT (mask n)"
    unfolding m using assms(1) by (intro bit_word_eqI) (auto simp: bit_simps)
  have "bit (NOT (mask n) :: u32) 31" using assms(2) by (simp add: bit_simps)
  then show "NOT (mask n) \<noteq> (0 :: u32)" by auto
  show "NOT (NOT (mask n)) + 1 = (2 :: u32) ^ n" by (simp add: mask_eq_exp_minus_1)
qed

text \<open>The state of one BAR of a function the controller has.\<close>

definition sim_bar_at :: "lab_pcie_sim_controller \<Rightarrow> u32 \<Rightarrow> u32 \<Rightarrow> nat \<Rightarrow> lab_pcie_sim_bar \<Rightarrow> bool" where
  "sim_bar_at c bdf i k bar \<longleftrightarrow> i < 6 \<and> lab_sim_find_function c bdf = Some k \<and> k < length (lc_functions c) \<and>
     length (lf_bars (lc_functions c ! k)) = 6 \<and> lf_bars (lc_functions c ! k) ! unat i = bar"

lemma lab_sim_find_frame:
  "(\<And>k. lf_bdf (lc_functions c' ! k) = lf_bdf (lc_functions c ! k) \<and>
      lf_present (lc_functions c' ! k) = lf_present (lc_functions c ! k)) \<Longrightarrow>
     lab_sim_find_from c' bdf is = lab_sim_find_from c bdf is"
  by (induction c bdf "is" rule: lab_sim_find_from.induct) (auto simp: Let_def)

lemma sim_set_bar_at:
  assumes "sim_bar_at c bdf i k bar"
  shows "sim_bar_at (sim_set_bar k (unat i) bar' c) bdf i k bar'"
    "sim_set_bar k (unat i) bar'' (sim_set_bar k (unat i) bar' c) = sim_set_bar k (unat i) bar'' c"
    "sim_set_bar k (unat i) bar c = c"
proof -
  have i: "unat i < 6" using assms by (simp add: sim_bar_at_def word_less_nat_alt)
  have "lab_sim_find_function (sim_set_bar k (unat i) bar' c) bdf = lab_sim_find_function c bdf"
    unfolding lab_sim_find_function_def
    using assms lab_sim_find_frame [of "sim_set_bar k (unat i) bar' c" c bdf "[0..<lc_function_count c]"]
    by (simp add: sim_set_bar_def Let_def nth_list_update sim_bar_at_def)
  then show "sim_bar_at (sim_set_bar k (unat i) bar' c) bdf i k bar'"
    using assms i by (simp add: sim_bar_at_def sim_set_bar_def Let_def)
  show "sim_set_bar k (unat i) bar'' (sim_set_bar k (unat i) bar' c) = sim_set_bar k (unat i) bar'' c"
    using assms by (simp add: sim_bar_at_def sim_set_bar_def Let_def)
  show "sim_set_bar k (unat i) bar c = c"
    using assms by (auto simp: sim_bar_at_def sim_set_bar_def Let_def)
qed

text \<open>A 32-bit BAR the endpoint implements, of \<open>2 ^ n\<close> bytes.\<close>

definition bar32_of_size :: "nat \<Rightarrow> lab_pcie_sim_bar \<Rightarrow> bool" where
  "bar32_of_size n bar \<longleftrightarrow> sb_implemented bar \<noteq> 0 \<and> sb_probing bar = 0 \<and> sb_size bar = 2 ^ n \<and> n < 32 \<and>
     sb_value bar \<noteq> 0xFFFFFFFF \<and>
     (if bit (sb_value bar) 0 then 2 \<le> n else 4 \<le> n \<and> sb_value bar AND 6 \<noteq> 4)"

context zephyr_pcie
begin

lemma bar_reg: "i < 6 \<Longrightarrow> lab_validate_reg (PCIE_CONF_BAR0 z + i) = 0 \<and> sim_bar_index z (PCIE_CONF_BAR0 z + i) = int (unat i)"
proof -
  assume "i < 6"
  then have "unat i < 6" by (simp add: word_less_nat_alt)
  then consider "unat i = 0" | "unat i = 1" | "unat i = 2" | "unat i = 3" | "unat i = 4" | "unat i = 5" by linarith
  then have "i = 0 \<or> i = 1 \<or> i = 2 \<or> i = 3 \<or> i = 4 \<or> i = 5"
    by cases (simp_all add: word_unat_eq_iff)
  then show ?thesis by (elim disjE) (simp_all add: reg_law lab_validate_reg_def sim_bar_index_def)
qed

lemma read_bar:
  assumes "lab_validate_bdf z bdf = 0" "sim_bar_at c bdf i k bar" "sb_implemented bar \<noteq> 0"
  shows "lab_pcie_config_read32 z (Some (g_board19_pcie_host z)) bdf (PCIE_CONF_BAR0 z + i) (Some v) (Some c) =
    (0, Some (if sb_probing bar \<noteq> 0 then sim_bar_probe_value z (Some bar) else sb_value bar), Some c)"
  using assms bar_reg [of i]
  by (simp add: lab_pcie_config_read32_def g_board19_pcie_host_def g_lab_pcie_sim_host_ops_def lab_sim_config_read32_def
      sim_bar_at_def Let_def)

lemma write_bar:
  assumes "lab_validate_bdf z bdf = 0" "sim_bar_at c bdf i k bar" "sb_implemented bar \<noteq> 0"
  shows "lab_pcie_config_write32 z (Some (g_board19_pcie_host z)) bdf (PCIE_CONF_BAR0 z + i) v (Some c) =
    (0, Some (sim_set_bar k (unat i) (if v = 0xFFFFFFFF then bar\<lparr>sb_probing := 1\<rparr>
      else bar\<lparr>sb_probing := 0, sb_value := (v AND NOT 0xF) OR (sb_value bar AND 0xF)\<rparr>) c))"
  using assms bar_reg [of i] bar_law
  by (simp add: lab_pcie_config_write32_def g_board19_pcie_host_def g_lab_pcie_sim_host_ops_def lab_sim_config_write32_def
      sim_bar_at_def Let_def)


lemma probe_value:
  assumes "bar32_of_size n bar"
  shows "(if bit (sb_value bar) 0 then sim_bar_probe_value z (Some bar) AND NOT 3
          else sim_bar_probe_value z (Some bar) AND NOT 0xF) = NOT (mask n)"
proof -
  have nz: "sb_size bar \<noteq> 0" using assms by (auto simp: bar32_of_size_def unat_2p word_unat_eq_iff)
  show ?thesis
  proof (cases "bit (sb_value bar) 0")
    case True
    then show ?thesis
      using assms nz sized_mask(1) [of 2 n "sb_value bar"]
      by (simp add: bar32_of_size_def sim_bar_probe_value_def bar_law nibble_mask)
  next
    case False
    then show ?thesis
      using assms nz sized_mask(1) [of 4 n "sb_value bar"]
      by (simp add: bar32_of_size_def sim_bar_probe_value_def bar_law nibble_mask)
  qed
qed

lemma probe_bar32:
  assumes "lab_validate_bdf z bdf = 0" "sim_bar_at c bdf i k bar" "bar32_of_size n bar"
  shows "lab_pcie_probe_bar32 z (Some (g_board19_pcie_host z)) bdf i (Some r) (Some c) =
    (LAB_PCIE_OK, Some (r\<lparr>res_bar_index := i, res_original := sb_value bar, res_bus_addr := 0, res_cpu_addr := 0,
       res_size := 2 ^ n, res_is_io := of_bool (bit (sb_value bar) 0), res_is_64bit := 0,
       res_prefetchable := of_bool (\<not> bit (sb_value bar) 0 \<and> bit (sb_value bar) 3)\<rparr>), Some c)"
proof -
  let ?v = "sb_value bar" and ?P = "bar\<lparr>sb_probing := 1\<rparr>"
  let ?c1 = "sim_set_bar k (unat i) ?P c"
  have bar: "sb_implemented bar \<noteq> 0" "sb_probing bar = 0" "?v \<noteq> 0xFFFFFFFF" "n < 32"
    using assms(3) by (simp_all add: bar32_of_size_def)
  have i: "i < 6" using assms(2) by (simp add: sim_bar_at_def)
  have at1: "sim_bar_at ?c1 bdf i k ?P" by (rule sim_set_bar_at(1) [OF assms(2)])
  have P: "sb_implemented ?P \<noteq> 0" using bar(1) by simp
  have pv: "sim_bar_probe_value z (Some ?P) = sim_bar_probe_value z (Some bar)"
    by (simp add: sim_bar_probe_value_def)
  have "(?v AND NOT (mask 4)) OR (?v AND mask 4) = ?v" by (rule bit_word_eqI) (auto simp: bit_simps)
  then have same: "(?v AND NOT 0xF) OR (?v AND 0xF) = ?v" by (simp only: nibble_mask)
  have restored: "sim_set_bar k (unat i) bar ?c1 = c"
    using sim_set_bar_at(2) [OF assms(2)] sim_set_bar_at(3) [OF assms(2)] by simp
  have old: "?P\<lparr>sb_probing := 0, sb_value := ?v\<rparr> = bar" using bar(2) by simp
  have bit3: "?v AND 8 \<noteq> 0 \<longleftrightarrow> bit ?v 3" using flag_clear [of ?v 3] by simp
  have not64: "\<not> (\<not> bit ?v 0 \<and> ?v AND 6 = 4)" using assms(3) by (auto simp: bar32_of_size_def)
  have sz: "NOT (if bit ?v 0 then sim_bar_probe_value z (Some bar) AND NOT 3
      else sim_bar_probe_value z (Some bar) AND NOT 0xF) + 1 = (2 :: u32) ^ n"
    unfolding probe_value [OF assms(3)] by (rule sized_mask(3) [OF order.refl bar(4)])
  have restored': "sim_set_bar k (unat i) (?P\<lparr>sb_probing := 0, sb_value := (?v AND NOT 0xF) OR (?v AND 0xF)\<rparr>) ?c1 = c"
    unfolding same old by (rule restored)
  have nz: "(if bit ?v 0 then sim_bar_probe_value z (Some bar) AND NOT 3
      else sim_bar_probe_value z (Some bar) AND NOT 0xF) \<noteq> 0"
    unfolding probe_value [OF assms(3)] by (rule sized_mask(2) [OF order.refl bar(4)])
  have i6: "\<not> 6 \<le> i" using i by simp
  show ?thesis
    using i6 bar not64 sz nz restored'
    by (simp add: lab_pcie_probe_bar32_def Let_def read_bar [OF assms(1,2) bar(1)] write_bar [OF assms(1,2) bar(1)]
        read_bar [OF assms(1) at1 P] write_bar [OF assms(1) at1 P] pv bar_law bit3 split: if_splits)
qed

lemma assign_bar32:
  assumes valid: "lab_validate_bdf z bdf = 0" and bar_at: "sim_bar_at c bdf i k bar" and sized: "bar32_of_size n bar"
    and mem: "\<not> bit (sb_value bar) 0" and win: "window_ok win"
    and r: "res_bar_index r = i" "res_original r = sb_value bar" "res_size r = 2 ^ n" "res_is_io r = 0"
    and fit: "fits_at win (2 ^ n) (2 ^ n) (unat start)"
    and alloc: "lab_pcie_resource_alloc (Some win) (2 ^ n) (2 ^ n) (Some 0) = (LAB_PCIE_OK, Some win', Some start)"
    and same: "pci_base win' = pci_base win" "cpu_base win' = cpu_base win" "win_size win' = win_size win"
  shows "lab_pcie_assign_bar32 z (Some (g_board19_pcie_host z)) bdf (Some win) (Some r) (Some c) =
    (LAB_PCIE_OK, Some win', Some (r\<lparr>res_bus_addr := start, res_cpu_addr := cpu_base win + (start - pci_base win)\<rparr>),
     Some (sim_set_bar k (unat i) (bar\<lparr>sb_probing := 0, sb_value := start OR (sb_value bar AND 0xF)\<rparr>) c))"
proof -
  let ?v = "sb_value bar"
  have n: "4 \<le> n" "n < 32" "sb_implemented bar \<noteq> 0" using sized mem by (simp_all add: bar32_of_size_def)
  have un: "unat ((2 :: u32) ^ n) = 2 ^ n" using n by (simp add: unat_2p)
  have nz: "(2 :: u32) ^ n \<noteq> 0" using un by (auto simp: word_unat_eq_iff)
  have "2 ^ n dvd unat start" using fit un by (simp add: fits_at_def)
  then have "(2 :: nat) ^ 4 dvd unat start" using n(1) le_imp_power_dvd [of 4 n "2 :: nat"] dvd_trans by blast
  then have "unat (start AND NOT (2 ^ 4 - 1)) = unat start"
    by (subst clear_low_bits) (simp_all del: power_numeral)
  then have al: "start AND NOT (mask 4) = start" by (simp only: mask_eq_exp_minus_1 word_unat_eq_iff)
  let ?p = "(start AND NOT (mask 4)) OR (?v AND mask 4)"
  have p0: "\<not> bit ?p 0" using mem by (simp add: bit_simps)
  have ne: "?p \<noteq> 0xFFFFFFFF"
  proof
    assume "?p = 0xFFFFFFFF"
    then have "bit ?p 0" by (simp only:) simp
    with p0 show False ..
  qed
  have again: "(?p AND NOT (mask 4)) OR (?v AND mask 4) = start OR (?v AND mask 4)"
  proof -
    have "(?p AND NOT (mask 4)) OR (?v AND mask 4) = (start AND NOT (mask 4)) OR (?v AND mask 4)"
      by (rule bit_word_eqI) (auto simp: bit_simps)
    then show ?thesis by (simp only: al)
  qed
  have wr: "lab_pcie_config_write32 z (Some (g_board19_pcie_host z)) bdf (PCIE_CONF_BAR0 z + i) ?p (Some c) =
      (0, Some (sim_set_bar k (unat i) (bar\<lparr>sb_probing := 0, sb_value := start OR (?v AND mask 4)\<rparr>) c))"
    unfolding write_bar [OF valid bar_at n(3)] using ne again by (simp add: nibble_mask)
  have "0 < (2 :: nat) ^ n" by simp
  then have "unat start < unat (pci_base win) + unat (win_size win)"
    using fit un by (simp only: fits_at_def) linarith
  then have "lab_pcie_resource_translate (Some win') start (Some 0) = (LAB_PCIE_OK, Some (cpu_base win + (start - pci_base win)))"
    using win fit nz un same
    by (simp add: lab_pcie_resource_translate_def fits_at_def window_ok_def word_less_nat_alt word_le_nat_alt unat_add_small)
  then show ?thesis
    using nz r alloc wr
    by (simp add: lab_pcie_assign_bar32_def Let_def bar_law nibble_mask del: mask_eq_exp_minus_1)
qed

end

section \<open>Properties\<close>

text \<open>C14.  Whatever sequence of requests a window is given, the blocks it grants are non-empty, lie
  inside the window, are pairwise disjoint and in ascending order, and the window stays well-formed.\<close>

theorem lab_pcie_resource_alloc_disjoint:
  assumes "window_ok win" "alloc_all win reqs = (win', blocks)"
  shows "window_ok win' \<and> (\<forall>b \<in> set blocks. block_bytes b \<noteq> {} \<and> block_bytes b \<subseteq> window_bytes win) \<and>
    sorted_wrt (\<lambda>a b. unat (fst a) < unat (fst b) \<and> block_bytes a \<inter> block_bytes b = {}) blocks"
proof -
  note all = alloc_all_from [OF assms]
  have pos: "0 < unat (snd b)" if "b \<in> set blocks" for b using all that by (simp add: unat_gt_0)
  have "sorted_wrt (\<lambda>a b. unat (fst a) < unat (fst b) \<and> block_bytes a \<inter> block_bytes b = {}) blocks"
  proof (rule sorted_wrt_mono_rel)
    show "sorted_wrt (\<lambda>a b. unat (fst a) + unat (snd a) \<le> unat (fst b)) blocks" using all by simp
    show "unat (fst a) < unat (fst b) \<and> block_bytes a \<inter> block_bytes b = {}"
      if "a \<in> set blocks" "b \<in> set blocks" "unat (fst a) + unat (snd a) \<le> unat (fst b)" for a b
      using pos [OF that(1)] that(3) by (auto simp: block_bytes_def)
  qed
  moreover have "block_bytes b \<noteq> {}" if "b \<in> set blocks" for b using pos [OF that] by (simp add: block_bytes_def)
  ultimately show ?thesis using all by simp
qed

text \<open>C35.  The allocator is exact: a request for a power-of-two alignment is granted the least
  aligned address from \<open>next\<close> on whose block ends inside the window, and it is refused only if there
  is no such address.  The end of a granted block does not wrap.  The rounding to the alignment may wrap, to
  0, near the top of the address space; in a well-formed window, whose base is not 0, that is a refusal
  (\<open>align_up_wrap_refused\<close>).\<close>

theorem lab_pcie_resource_alloc_least:
  assumes "window_ok win" "alignment \<noteq> 0" "alignment AND (alignment - 1) = 0" "sz \<noteq> 0"
  shows "case lab_pcie_resource_alloc (Some win) sz alignment (Some x) of (rc, win', y) \<Rightarrow>
    if \<exists>a. fits_at win sz alignment a
    then rc = LAB_PCIE_OK \<and> unat (the y) = (LEAST a. fits_at win sz alignment a) \<and>
      win' = Some (win\<lparr>win_next := the y + sz\<rparr>) \<and> unat (the y + sz) = unat (the y) + unat sz
    else rc = LAB_PCIE_ERR_NO_RESOURCE \<and> win' = Some win \<and> y = Some x"
proof -
  obtain rc win' y where run: "lab_pcie_resource_alloc (Some win) sz alignment (Some x) = (rc, win', y)"
    by (rule prod_cases3)
  have "(LEAST a. fits_at win sz alignment a) = m"
    if "fits_at win sz alignment m" "\<forall>a. fits_at win sz alignment a \<longrightarrow> m \<le> a" for m
    using that by (intro Least_equality) auto
  then show ?thesis using alloc_spec [OF assms run] run by auto
qed

text \<open>Note.  Probing a 32-bit BAR of \<open>2 ^ n\<close> bytes, I/O or memory, reports its kind, its value and its
  exact size, and leaves the endpoint as it was, although it overwrites the register to do so.\<close>

theorem lab_pcie_probe_bar32_sizes:
  assumes "zephyr_pcie z" "lab_validate_bdf z bdf = 0" "sim_bar_at c bdf i k bar" "bar32_of_size n bar"
  shows "lab_pcie_probe_bar32 z (Some (g_board19_pcie_host z)) bdf i (Some r) (Some c) =
    (LAB_PCIE_OK, Some (r\<lparr>res_bar_index := i, res_original := sb_value bar, res_bus_addr := 0, res_cpu_addr := 0,
       res_size := 2 ^ n, res_is_io := of_bool (bit (sb_value bar) 0), res_is_64bit := 0,
       res_prefetchable := of_bool (\<not> bit (sb_value bar) 0 \<and> bit (sb_value bar) 3)\<rparr>), Some c)"
  by (rule zephyr_pcie.probe_bar32 [OF assms])

text \<open>Note.  Probe then assign: a memory BAR of the simulated endpoint is given the least naturally
  aligned block of its size in the window; the BAR register then holds the block's bus address with
  the flag bits it had, and the reported CPU address is the same offset into the CPU window.  With no
  room left nothing is programmed.\<close>

theorem lab_pcie_probe_assign:
  assumes "zephyr_pcie z" "lab_validate_bdf z bdf = 0" "sim_bar_at c bdf i k bar" "bar32_of_size n bar"
    and "\<not> bit (sb_value bar) 0" "window_ok win"
  shows "case lab_pcie_probe_bar32 z (Some (g_board19_pcie_host z)) bdf i (Some r) (Some c) of (rc1, r1, w1) \<Rightarrow>
    case lab_pcie_assign_bar32 z (Some (g_board19_pcie_host z)) bdf (Some win) r1 w1 of (rc, win', r2, w2) \<Rightarrow>
    if \<exists>a. fits_at win (2 ^ n) (2 ^ n) a
    then rc = LAB_PCIE_OK \<and> (\<exists>start. unat start = (LEAST a. fits_at win (2 ^ n) (2 ^ n) a) \<and>
      win' = Some (win\<lparr>win_next := start + 2 ^ n\<rparr>) \<and> res_bus_addr (the r2) = start \<and>
      res_cpu_addr (the r2) = cpu_base win + (start - pci_base win) \<and>
      w2 = Some (sim_set_bar k (unat i) (bar\<lparr>sb_value := start OR (sb_value bar AND 0xF)\<rparr>) c))
    else rc = LAB_PCIE_ERR_NO_RESOURCE \<and> win' = Some win \<and> w2 = Some c"
proof -
  let ?host = "Some (g_board19_pcie_host z)"
  note probe = zephyr_pcie.probe_bar32 [OF assms(1-4), of r]
  obtain r1 where r1: "lab_pcie_probe_bar32 z ?host bdf i (Some r) (Some c) = (LAB_PCIE_OK, Some r1, Some c)"
    "res_bar_index r1 = i" "res_original r1 = sb_value bar" "res_size r1 = 2 ^ n" "res_is_io r1 = 0"
    using probe assms(5) by simp
  have n: "n < 32" "sb_probing bar = 0" using assms(4) by (simp_all add: bar32_of_size_def)
  have nz: "(2 :: u32) ^ n \<noteq> 0" using n unat_2p [of n] by (auto simp: word_unat_eq_iff)
  have p2: "(2 :: u32) ^ n AND (2 ^ n - 1) = 0"
    by (rule bit_word_eqI) (simp add: bit_simps flip: mask_eq_exp_minus_1)
  obtain rc win' y where al: "lab_pcie_resource_alloc (Some win) (2 ^ n) (2 ^ n) (Some 0) = (rc, win', y)"
    by (rule prod_cases3)
  have least: "(LEAST a. fits_at win (2 ^ n) (2 ^ n) a) = m"
    if "fits_at win (2 ^ n) (2 ^ n) m" "\<forall>a. fits_at win (2 ^ n) (2 ^ n) a \<longrightarrow> m \<le> a" for m
    using that by (intro Least_equality) auto
  from alloc_spec [OF assms(6) nz p2 nz al] show ?thesis
  proof (elim disjE conjE exE)
    fix start
    assume g: "rc = LAB_PCIE_OK" "y = Some start" "win' = Some (win\<lparr>win_next := start + 2 ^ n\<rparr>)"
      "fits_at win (2 ^ n) (2 ^ n) (unat start)" "\<forall>a. fits_at win (2 ^ n) (2 ^ n) a \<longrightarrow> unat start \<le> a"
    have "lab_pcie_assign_bar32 z ?host bdf (Some win) (Some r1) (Some c) =
      (LAB_PCIE_OK, win', Some (r1\<lparr>res_bus_addr := start, res_cpu_addr := cpu_base win + (start - pci_base win)\<rparr>),
       Some (sim_set_bar k (unat i) (bar\<lparr>sb_probing := 0, sb_value := start OR (sb_value bar AND 0xF)\<rparr>) c))"
      unfolding g(3)
      by (rule zephyr_pcie.assign_bar32 [OF assms(1-6) r1(2-5) g(4)]) (simp_all add: al g)
    moreover have "bar\<lparr>sb_probing := 0, sb_value := v\<rparr> = bar\<lparr>sb_value := v\<rparr>" for v using n(2) by simp
    ultimately show ?thesis using r1(1) g least [OF g(4,5)] by auto
  next
    assume "rc = LAB_PCIE_ERR_NO_RESOURCE" "win' = Some win" "\<forall>a. \<not> fits_at win (2 ^ n) (2 ^ n) a"
    then show ?thesis using r1 al nz by (simp add: lab_pcie_assign_bar32_def)
  qed
qed

definition sim19_zero :: lab_pcie_sim_controller where
  "sim19_zero = \<lparr>lc_functions = [\<lparr>lf_bdf = 0, lf_present = 0, lf_config = replicate 64 0,
     lf_bars = replicate 6 \<lparr>sb_value = 0, sb_size = 0, sb_implemented = 0, sb_probing = 0\<rparr>\<rparr>], lc_function_count = 0\<rparr>"

definition lab19_reset :: lab19 where
  "lab19_reset = \<lparr>g19_stage = 0, g19_board_result = 0, g19_probe_result = 0, g19_assign_result = 0,
     g19_enable_result = 0, g19_id = 0, g19_vendor = 0, g19_device = 0, g19_bar_original = 0, g19_bar_size = 0,
     g19_bar_bus_addr = 0, g19_bar_cpu_addr = 0, g19_bar_programmed = 0, g19_command_status = 0,
     g19_bar0 = \<lparr>res_bar_index = 0, res_original = 0, res_bus_addr = 0, res_cpu_addr = 0, res_size = 0, res_is_io = 0,
       res_is_64bit = 0, res_prefetchable = 0\<rparr>,
     g_board_pcie_mem_window = \<lparr>pci_base = 0, cpu_base = 0, win_size = 0, win_next = 0\<rparr>\<rparr>"

lemma sixty_four: "\<not> (64 :: u32) \<le> 1"
  by (simp add: word_le_nat_alt)

text \<open>Note.  The program: the endpoint's 4 KiB BAR is found, placed at the start of the bus window, seen by
  the CPU at the start of the CPU window, and memory decoding is enabled.\<close>

theorem lab19_main_places_bar:
  "case lab19_main pci_layout 25000000 lab19_reset (Some sim19_zero) of (g, w) \<Rightarrow>
     g19_stage g = 4 \<and> g19_vendor g = 0x1234 \<and> g19_device g = 0x5678 \<and> g19_bar_size g = 0x1000 \<and>
     g19_bar_bus_addr g = 0x50000000 \<and> g19_bar_cpu_addr g = 0x60000000 \<and> g19_bar_programmed g = 0x50000000 \<and>
     g19_command_status g = 2"
  by (simp add: lab19_main_def board19_pcie_init_def lab_pcie_sim_controller_init_def sim19_zero_def lab19_reset_def
      lab_pcie_resource_window_init_def pci_layout_def lab_pcie_probe_bar32_def lab_pcie_config_read32_def
      lab_pcie_config_write32_def lab_validate_bdf_def lab_validate_reg_def g_board19_pcie_host_def
      g_lab_pcie_sim_host_ops_def lab_sim_config_read32_def lab_sim_config_write32_def sim_bar_index_def
      lab_sim_find_function_def sim_bar_probe_value_def sim_set_bar_def sim_set_config_def lab_pcie_assign_bar32_def
      lab_pcie_resource_alloc_def align_up_def lab_pcie_resource_translate_def lab_pcie_enable_memory_space_def sixty_four Let_def)

section \<open>Concrete instances\<close>

definition board19_window :: lab_pcie_resource_window where
  "board19_window = \<lparr>pci_base = 0x50000000, cpu_base = 0x60000000, win_size = 0x01000000, win_next = 0x50000000\<rparr>"

definition board19_controller :: lab_pcie_sim_controller where
  "board19_controller = the (lab_pcie_sim_controller_init pci_layout (Some sim19_zero))"

abbreviation (input) board19_bar :: lab_pcie_sim_bar where
  "board19_bar \<equiv> \<lparr>sb_value = 0, sb_size = 0x1000, sb_implemented = 1, sb_probing = 0\<rparr>"

lemma board19_facts:
  "window_ok board19_window" "lab_validate_bdf pci_layout (PCIE_BDF pci_layout 0 1 0) = 0"
  "sim_bar_at board19_controller (PCIE_BDF pci_layout 0 1 0) 0 0 board19_bar" "bar32_of_size 12 board19_bar"
  by (simp_all add: window_ok_def board19_window_def lab_validate_bdf_def pci_layout_def sim_bar_at_def
      board19_controller_def lab_pcie_sim_controller_init_def sim19_zero_def lab_sim_find_function_def bar32_of_size_def Let_def)

lemma lab_pcie_resource_alloc_disjoint_witness:
  "case alloc_all board19_window [(0x1000, 0x1000), (0x10, 0x10), (0x2000, 0x2000)] of (win', blocks) \<Rightarrow>
     blocks = [(0x50000000, 0x1000), (0x50001000, 0x10), (0x50002000, 0x2000)] \<and> window_ok win' \<and>
     sorted_wrt (\<lambda>a b. unat (fst a) < unat (fst b) \<and> block_bytes a \<inter> block_bytes b = {}) blocks"
proof -
  let ?r = "[(0x1000, 0x1000), (0x10, 0x10), (0x2000, 0x2000)]"
  obtain win' blocks where run: "alloc_all board19_window ?r = (win', blocks)" by (rule prod.exhaust)
  have "blocks = [(0x50000000, 0x1000), (0x50001000, 0x10), (0x50002000, 0x2000)]"
    using run by (simp add: board19_window_def lab_pcie_resource_alloc_def align_up_def Let_def)
  then show ?thesis unfolding run prod.case
    using lab_pcie_resource_alloc_disjoint [OF board19_facts(1) run] by blast
qed

lemma lab_pcie_resource_alloc_least_witness:
  "case lab_pcie_resource_alloc (Some board19_window) 0x1000 0x1000 (Some 0) of (rc, win', y) \<Rightarrow>
     rc = LAB_PCIE_OK \<and> unat (the y) = (LEAST a. fits_at board19_window 0x1000 0x1000 a)"
proof -
  have "fits_at board19_window 0x1000 0x1000 0x50000000" by (simp add: fits_at_def board19_window_def)
  then have "\<exists>a. fits_at board19_window 0x1000 0x1000 a" ..
  then show ?thesis
    using lab_pcie_resource_alloc_least [OF board19_facts(1), of "0x1000" "0x1000" 0] by (auto split: prod.splits)
qed

lemma lab_pcie_probe_bar32_sizes_witness:
  "res_size (the (fst (snd (lab_pcie_probe_bar32 pci_layout (Some (g_board19_pcie_host pci_layout))
     (PCIE_BDF pci_layout 0 1 0) 0 (Some (g19_bar0 lab19_reset)) (Some board19_controller))))) = 0x1000"
  by (simp add: lab_pcie_probe_bar32_sizes [OF layout.zephyr_pcie_axioms board19_facts(2-4)])

lemma lab_pcie_probe_assign_witness:
  "case lab_pcie_probe_bar32 pci_layout (Some (g_board19_pcie_host pci_layout)) (PCIE_BDF pci_layout 0 1 0) 0
      (Some (g19_bar0 lab19_reset)) (Some board19_controller) of (rc1, r1, w1) \<Rightarrow>
    case lab_pcie_assign_bar32 pci_layout (Some (g_board19_pcie_host pci_layout)) (PCIE_BDF pci_layout 0 1 0)
      (Some board19_window) r1 w1 of (rc, win', r2, w2) \<Rightarrow> rc = LAB_PCIE_OK"
proof -
  have "fits_at board19_window (2 ^ 12) (2 ^ 12) 0x50000000" by (simp add: fits_at_def board19_window_def)
  then have "\<exists>a. fits_at board19_window (2 ^ 12) (2 ^ 12) a" ..
  then show ?thesis
    using lab_pcie_probe_assign [OF layout.zephyr_pcie_axioms board19_facts(2-4) _ board19_facts(1), where r = "g19_bar0 lab19_reset"]
    by (auto split: prod.splits)
qed

text \<open>The rounding wraps in a well-formed window, and the request is refused.\<close>

lemma align_up_wrap_refused:
  "let win = \<lparr>pci_base = 0xFFFF0000, cpu_base = 0, win_size = 0xFFFF, win_next = 0xFFFFF001\<rparr> in
     window_ok win \<and> align_up (win_next win) 0x1000 = 0 \<and>
     lab_pcie_resource_alloc (Some win) 1 0x1000 (Some 7) = (LAB_PCIE_ERR_NO_RESOURCE, Some win, Some 7)"
  by (simp add: window_ok_def lab_pcie_resource_alloc_def align_up_def Let_def)

text \<open>A window that starts at bus address 0 is not protected against the wrap-around of the alignment:
  a request past the last aligned address is granted address 0, which is already taken.\<close>

lemma window_at_zero_overlaps:
  "snd (alloc_all \<lparr>pci_base = 0, cpu_base = 0, win_size = 0xFFFFFFFF, win_next = 0\<rparr>
     [(0x1000, 0x1000), (0x90000000, 0x1000), (0x10, 0x80000000)]) =
   [(0, 0x1000), (0x1000, 0x90000000), (0, 0x10)]"
  by (simp add: lab_pcie_resource_alloc_def align_up_def Let_def)

end
