(* ===== verification/Uart_Async.thy ===== *)
theory Uart_Async
  imports Prelude
begin

text \<open>
  labs/lab20_uart_async_rx_manager_zephyr/drivers/uart: an interrupt-driven receiver with the Zephyr
  asynchronous API (uart_cmsdk_async.c) on the registers of uart_cmsdk_regs.h.

  The peripheral is not part of the repository: a record of register accesses over a hardware state
  \<open>'h\<close>, with the locale \<open>cmsdk_uart\<close> for what the driver relies on.  Pointers to byte buffers are
  32-bit addresses with 0 for NULL, because the driver compares and subtracts them; size_t is 32 bits
  wide.  The driver calls back through a function pointer: \<open>call f user_data\<close> is what a call of the
  code at \<open>f\<close> does to the state.  A function that runs under irq_lock is one step.
\<close>

section \<open>Registers (uart_cmsdk_regs.h)\<close>

abbreviation (input) UART_CMSDK_DATA_MASK :: u32 where "UART_CMSDK_DATA_MASK \<equiv> 0xff"
abbreviation (input) UART_CMSDK_CTRL_TXEN :: u32 where "UART_CMSDK_CTRL_TXEN \<equiv> 1"
abbreviation (input) UART_CMSDK_CTRL_RXEN :: u32 where "UART_CMSDK_CTRL_RXEN \<equiv> 2"
abbreviation (input) UART_CMSDK_CTRL_RXIRQEN :: u32 where "UART_CMSDK_CTRL_RXIRQEN \<equiv> 8"
abbreviation (input) UART_CMSDK_STATE_TXBF :: u32 where "UART_CMSDK_STATE_TXBF \<equiv> 1"
abbreviation (input) UART_CMSDK_STATE_RXBF :: u32 where "UART_CMSDK_STATE_RXBF \<equiv> 2"
abbreviation (input) UART_CMSDK_STATE_RXOR :: u32 where "UART_CMSDK_STATE_RXOR \<equiv> 8"
abbreviation (input) UART_CMSDK_INT_RX :: u32 where "UART_CMSDK_INT_RX \<equiv> 2"
abbreviation (input) UART_CMSDK_INT_RXOR :: u32 where "UART_CMSDK_INT_RXOR \<equiv> 8"
abbreviation (input) UART_CMSDK_BAUDDIV_MASK :: u32 where "UART_CMSDK_BAUDDIV_MASK \<equiv> 0xfffff"
abbreviation (input) UART_CMSDK_BAUDDIV_MIN :: u32 where "UART_CMSDK_BAUDDIV_MIN \<equiv> 16"

text \<open>One access per register of struct uart_cmsdk_regs and direction the driver uses, and the NVIC
  calls on the receive interrupt.\<close>

record 'h uart_cmsdk_regs =
  rd_data :: "'h \<Rightarrow> u32 \<times> 'h"
  wr_data :: "u32 \<Rightarrow> 'h \<Rightarrow> 'h"
  rd_state :: "'h \<Rightarrow> u32 \<times> 'h"
  rd_ctrl :: "'h \<Rightarrow> u32 \<times> 'h"
  wr_ctrl :: "u32 \<Rightarrow> 'h \<Rightarrow> 'h"
  wr_intclear :: "u32 \<Rightarrow> 'h \<Rightarrow> 'h"
  wr_bauddiv :: "u32 \<Rightarrow> 'h \<Rightarrow> 'h"
  NVIC_SetPendingIRQ :: "u32 \<Rightarrow> 'h \<Rightarrow> 'h"
  NVIC_ClearPendingIRQ :: "u32 \<Rightarrow> 'h \<Rightarrow> 'h"
  irq_enable :: "u32 \<Rightarrow> 'h \<Rightarrow> 'h"

section \<open>Driver data (uart_cmsdk_async.c)\<close>

datatype lab20_rx_state = LAB20_RX_IDLE | LAB20_RX_ACTIVE | LAB20_RX_STOPPING

record 'h lab20_uart_config =
  cfg_regs :: "'h uart_cmsdk_regs"
  clock_hz :: u32
  baudrate :: u32
  rx_irq :: u32

record lab20_uart_data =
  ud_callback :: "nat option"
  ud_user_data :: nat
  ud_state :: lab20_rx_state
  ud_in_callback :: bool
  ud_initial_request :: bool
  ud_request_outstanding :: bool
  ud_current_buf :: u32
  ud_current_len :: u32
  ud_current_pos :: u32
  ud_reported :: u32
  ud_next_buf :: u32
  ud_next_len :: u32
  ud_irq_entries :: u32
  ud_hardware_bytes :: u32
  ud_hardware_overruns :: u32

abbreviation (input) UART_ERROR_OVERRUN :: u32 where "UART_ERROR_OVERRUN \<equiv> 1"

abbreviation (input) SYS_FOREVER_US :: int where "SYS_FOREVER_US \<equiv> - 1"

text \<open>struct uart_event: the events of the receiver, and any other.\<close>

datatype uart_event =
    UART_RX_RDY (rx_buf: u32) (rx_offset: u32) (rx_len: u32)
  | UART_RX_BUF_REQUEST
  | UART_RX_BUF_RELEASED (rel_buf: u32)
  | UART_RX_DISABLED
  | UART_RX_STOPPED (stop_reason: u32) (stop_buf: u32) (stop_offset: u32) (stop_len: u32)
  | UART_OTHER

text \<open>The state the driver acts on: the peripheral, its data, the memory and the state of the
  application, which only the callback touches.\<close>

record ('h, 'a) uart_sys =
  us_hw :: 'h
  us_data :: lab20_uart_data
  us_mem :: "u32 \<Rightarrow> u8"
  us_app :: 'a

type_synonym ('h, 'a) uart_call = "nat \<Rightarrow> nat \<Rightarrow> uart_event \<Rightarrow> ('h, 'a) uart_sys \<Rightarrow> ('h, 'a) uart_sys"

abbreviation (input) upd_data :: "(lab20_uart_data \<Rightarrow> lab20_uart_data) \<Rightarrow> ('h, 'a) uart_sys \<Rightarrow> ('h, 'a) uart_sys" where
  "upd_data f s \<equiv> s\<lparr>us_data := f (us_data s)\<rparr>"

abbreviation (input) upd_hw :: "('h \<Rightarrow> 'h) \<Rightarrow> ('h, 'a) uart_sys \<Rightarrow> ('h, 'a) uart_sys" where
  "upd_hw f s \<equiv> s\<lparr>us_hw := f (us_hw s)\<rparr>"

section \<open>Events\<close>

definition lab20_uart_emit :: "('h, 'a) uart_call \<Rightarrow> uart_event \<Rightarrow> ('h, 'a) uart_sys \<Rightarrow> ('h, 'a) uart_sys" where
  "lab20_uart_emit call evt s =
     (let s = upd_data (\<lambda>d. d\<lparr>ud_in_callback := True\<rparr>) s;
          s = call (the (ud_callback (us_data s))) (ud_user_data (us_data s)) evt s
      in upd_data (\<lambda>d. d\<lparr>ud_in_callback := False\<rparr>) s)"

definition request_buffer :: "('h, 'a) uart_call \<Rightarrow> ('h, 'a) uart_sys \<Rightarrow> ('h, 'a) uart_sys" where
  "request_buffer call s =
     (let s = upd_data (\<lambda>d. d\<lparr>ud_request_outstanding := True\<rparr>) s in
      lab20_uart_emit call UART_RX_BUF_REQUEST s)"

definition report_current :: "('h, 'a) uart_call \<Rightarrow> ('h, 'a) uart_sys \<Rightarrow> ('h, 'a) uart_sys" where
  "report_current call s =
     (let d = us_data s in
      if ud_current_pos d = ud_reported d then s
      else
        let evt = UART_RX_RDY (ud_current_buf d) (ud_reported d) (ud_current_pos d - ud_reported d);
            s = upd_data (\<lambda>d. d\<lparr>ud_reported := ud_current_pos d\<rparr>) s
        in lab20_uart_emit call evt s)"

definition release_buffer :: "('h, 'a) uart_call \<Rightarrow> u32 \<Rightarrow> ('h, 'a) uart_sys \<Rightarrow> ('h, 'a) uart_sys" where
  "release_buffer call buf s =
     (if buf \<noteq> 0 then lab20_uart_emit call (UART_RX_BUF_RELEASED buf) s else s)"

text \<open>\<open>config->regs->ctrl &= ~(RXEN | RXIRQEN)\<close>\<close>

definition rx_ctrl_off :: "'h uart_cmsdk_regs \<Rightarrow> 'h \<Rightarrow> 'h" where
  "rx_ctrl_off regs h =
     (case rd_ctrl regs h of (v, h) \<Rightarrow>
        wr_ctrl regs (v AND NOT (UART_CMSDK_CTRL_RXEN OR UART_CMSDK_CTRL_RXIRQEN)) h)"

definition finish_rx :: "'h lab20_uart_config \<Rightarrow> ('h, 'a) uart_call \<Rightarrow> u32 \<Rightarrow> ('h, 'a) uart_sys \<Rightarrow> ('h, 'a) uart_sys" where
  "finish_rx config call reason s =
     (let regs = cfg_regs config;
          s = upd_hw (rx_ctrl_off regs) s;
          s = upd_hw (wr_intclear regs UART_CMSDK_INT_RX) s;
          s = upd_data (\<lambda>d. d\<lparr>ud_state := LAB20_RX_STOPPING, ud_initial_request := False,
                               ud_request_outstanding := False\<rparr>) s;
          s = (if reason \<noteq> 0
               then let d = us_data s in
                 lab20_uart_emit call (UART_RX_STOPPED reason (ud_current_buf d) (ud_reported d)
                   (ud_current_pos d - ud_reported d)) s
               else s);
          s = report_current call s;
          current = ud_current_buf (us_data s);
          nxt = ud_next_buf (us_data s);
          s = upd_data (\<lambda>d. d\<lparr>ud_current_buf := 0, ud_next_buf := 0, ud_current_len := 0, ud_current_pos := 0,
                               ud_reported := 0, ud_next_len := 0\<rparr>) s;
          s = release_buffer call current s;
          s = release_buffer call nxt s;
          s = upd_data (\<lambda>d. d\<lparr>ud_state := LAB20_RX_IDLE\<rparr>) s
      in lab20_uart_emit call UART_RX_DISABLED s)"

section \<open>The asynchronous API\<close>

definition lab20_uart_callback_set :: "nat option \<Rightarrow> nat \<Rightarrow> ('h, 'a) uart_sys \<Rightarrow> int \<times> ('h, 'a) uart_sys" where
  "lab20_uart_callback_set callback user_data s =
     (let d = us_data s in
      if ud_state d \<noteq> LAB20_RX_IDLE \<or> ud_in_callback d then (- EBUSY, s)
      else (0, upd_data (\<lambda>d. d\<lparr>ud_callback := callback, ud_user_data := user_data\<rparr>) s))"

definition lab20_uart_rx_enable :: "'h lab20_uart_config \<Rightarrow> u32 \<Rightarrow> u32 \<Rightarrow> int \<Rightarrow> ('h, 'a) uart_sys \<Rightarrow>
    int \<times> ('h, 'a) uart_sys" where
  "lab20_uart_rx_enable config buf len timeout s =
     (if buf = 0 \<or> len = 0 then (- EINVAL, s)
      else if timeout \<noteq> SYS_FOREVER_US then (- ENOTSUP, s)
      else if ud_state (us_data s) \<noteq> LAB20_RX_IDLE \<or> ud_callback (us_data s) = None
      then (if ud_state (us_data s) \<noteq> LAB20_RX_IDLE then - EBUSY else - EINVAL, s)
      else
        let s = upd_data (\<lambda>d. d\<lparr>ud_current_buf := buf, ud_current_len := len, ud_current_pos := 0, ud_reported := 0,
                  ud_next_buf := 0, ud_next_len := 0, ud_request_outstanding := False, ud_initial_request := True,
                  ud_state := LAB20_RX_ACTIVE\<rparr>) s;
            regs = cfg_regs config;
            s = upd_hw (wr_intclear regs UART_CMSDK_INT_RX) s;
            s = upd_hw (\<lambda>h. case rd_ctrl regs h of (v, h) \<Rightarrow>
                  wr_ctrl regs (v OR (UART_CMSDK_CTRL_RXEN OR UART_CMSDK_CTRL_RXIRQEN)) h) s
        in (0, upd_hw (NVIC_SetPendingIRQ regs (rx_irq config)) s))"

definition buffers_overlap :: "u32 \<Rightarrow> u32 \<Rightarrow> u32 \<Rightarrow> u32 \<Rightarrow> bool" where
  "buffers_overlap x a_len y b_len = (if x \<le> y then y - x < a_len else x - y < b_len)"

definition lab20_uart_rx_buf_rsp :: "u32 \<Rightarrow> u32 \<Rightarrow> ('h, 'a) uart_sys \<Rightarrow> int \<times> ('h, 'a) uart_sys" where
  "lab20_uart_rx_buf_rsp buf len s =
     (let d = us_data s in
      if buf = 0 \<or> len = 0 then (- EINVAL, s)
      else if ud_state d \<noteq> LAB20_RX_ACTIVE then (- EACCES, s)
      else if ud_next_buf d \<noteq> 0 \<or> \<not> ud_request_outstanding d then (- EBUSY, s)
      else if buffers_overlap buf len (ud_current_buf d) (ud_current_len d) then (- EINVAL, s)
      else (0, upd_data (\<lambda>d. d\<lparr>ud_next_buf := buf, ud_next_len := len, ud_request_outstanding := False\<rparr>) s))"

definition lab20_uart_rx_disable :: "'h lab20_uart_config \<Rightarrow> ('h, 'a) uart_sys \<Rightarrow> int \<times> ('h, 'a) uart_sys" where
  "lab20_uart_rx_disable config s =
     (let regs = cfg_regs config in
      if ud_state (us_data s) = LAB20_RX_IDLE then (- EFAULT, s)
      else if ud_state (us_data s) = LAB20_RX_STOPPING then (- EALREADY, s)
      else
        let s = upd_data (\<lambda>d. d\<lparr>ud_state := LAB20_RX_STOPPING\<rparr>) s;
            s = upd_hw (rx_ctrl_off regs) s
        in (0, upd_hw (NVIC_SetPendingIRQ regs (rx_irq config)) s))"

section \<open>The interrupt handler\<close>

text \<open>The tail of the handler once a buffer is full: report it, and go on in the next one.\<close>

definition isr_buffer_full :: "'h lab20_uart_config \<Rightarrow> ('h, 'a) uart_call \<Rightarrow> ('h, 'a) uart_sys \<Rightarrow> ('h, 'a) uart_sys" where
  "isr_buffer_full config call s =
     (let s = report_current call s in
      if ud_state (us_data s) = LAB20_RX_STOPPING \<or> ud_next_buf (us_data s) = 0 then finish_rx config call 0 s
      else
        let completed = ud_current_buf (us_data s);
            s = upd_data (\<lambda>d. d\<lparr>ud_current_buf := ud_next_buf d, ud_current_len := ud_next_len d, ud_current_pos := 0,
                  ud_reported := 0, ud_next_buf := 0, ud_next_len := 0\<rparr>) s;
            s = release_buffer call completed s;
            s = (if ud_state (us_data s) = LAB20_RX_ACTIVE then request_buffer call s else s)
        in if ud_state (us_data s) = LAB20_RX_STOPPING then finish_rx config call 0 s else s)"

text \<open>One received byte or an overrun; the byte goes to \<open>current_buf[current_pos++]\<close>.\<close>

definition isr_receive :: "'h lab20_uart_config \<Rightarrow> ('h, 'a) uart_call \<Rightarrow> ('h, 'a) uart_sys \<Rightarrow> ('h, 'a) uart_sys" where
  "isr_receive config call s =
     (let regs = cfg_regs config in
      case rd_state regs (us_hw s) of (status, h) \<Rightarrow>
      let s = s\<lparr>us_hw := h\<rparr> in
      if status AND UART_CMSDK_STATE_RXOR \<noteq> 0 then
        (let s = upd_data (\<lambda>d. d\<lparr>ud_hardware_overruns := ud_hardware_overruns d + 1\<rparr>) s;
             s = upd_hw (wr_intclear regs UART_CMSDK_INT_RXOR) s
         in finish_rx config call UART_ERROR_OVERRUN s)
      else if status AND UART_CMSDK_STATE_RXBF = 0 then s
      else
        case rd_data regs (us_hw s) of (v, h) \<Rightarrow>
        let d = us_data s;
            s = s\<lparr>us_hw := h,
                  us_mem := (us_mem s)(ud_current_buf d + ud_current_pos d := ucast (v AND UART_CMSDK_DATA_MASK)),
                  us_data := d\<lparr>ud_current_pos := ud_current_pos d + 1, ud_hardware_bytes := ud_hardware_bytes d + 1\<rparr>\<rparr>
        in if ud_current_pos (us_data s) < ud_current_len (us_data s) then s
           else isr_buffer_full config call s)"

definition lab20_uart_isr :: "'h lab20_uart_config \<Rightarrow> ('h, 'a) uart_call \<Rightarrow> ('h, 'a) uart_sys \<Rightarrow> ('h, 'a) uart_sys" where
  "lab20_uart_isr config call s =
     (let regs = cfg_regs config;
          s = upd_data (\<lambda>d. d\<lparr>ud_irq_entries := ud_irq_entries d + 1\<rparr>) s;
          s = upd_hw (wr_intclear regs UART_CMSDK_INT_RX) s in
      if ud_state (us_data s) = LAB20_RX_STOPPING then finish_rx config call 0 s
      else if ud_state (us_data s) \<noteq> LAB20_RX_ACTIVE then s
      else if ud_initial_request (us_data s) then
        (let s = upd_data (\<lambda>d. d\<lparr>ud_initial_request := False\<rparr>) s;
             s = request_buffer call s in
         if ud_state (us_data s) = LAB20_RX_STOPPING then finish_rx config call 0 s
         else isr_receive config call s)
      else isr_receive config call s)"

section \<open>Transmission and initialisation\<close>

definition lab20_uart_tx :: int where "lab20_uart_tx = - ENOTSUP"
definition lab20_uart_tx_abort :: int where "lab20_uart_tx_abort = - ENOTSUP"
definition lab20_uart_poll_in :: int where "lab20_uart_poll_in = - ENOTSUP"

text \<open>The wait for the transmit buffer may not end: the value is then None.\<close>

partial_function (option) wait_tx_ready :: "'h uart_cmsdk_regs \<Rightarrow> 'h \<Rightarrow> 'h option" where
  "wait_tx_ready regs h =
     (case rd_state regs h of (v, h) \<Rightarrow> if v AND UART_CMSDK_STATE_TXBF \<noteq> 0 then wait_tx_ready regs h else Some h)"

definition lab20_uart_poll_out :: "'h lab20_uart_config \<Rightarrow> u8 \<Rightarrow> ('h, 'a) uart_sys \<Rightarrow> ('h, 'a) uart_sys option" where
  "lab20_uart_poll_out config c s =
     map_option (\<lambda>h. s\<lparr>us_hw := wr_data (cfg_regs config) (ucast c) h\<rparr>) (wait_tx_ready (cfg_regs config) (us_hw s))"

definition lab20_uart_init :: "'h lab20_uart_config \<Rightarrow> ('h, 'a) uart_sys \<Rightarrow> int \<times> ('h, 'a) uart_sys" where
  "lab20_uart_init config s =
     (if baudrate config = 0 then (- EINVAL, s)
      else
        let divisor = clock_hz config div baudrate config in
        if divisor < UART_CMSDK_BAUDDIV_MIN \<or> divisor > UART_CMSDK_BAUDDIV_MASK then (- EINVAL, s)
        else
          let regs = cfg_regs config;
              s = upd_hw (wr_ctrl regs 0) s;
              s = upd_hw (wr_bauddiv regs divisor) s;
              s = upd_hw (wr_intclear regs (UART_CMSDK_INT_RX OR UART_CMSDK_INT_RXOR)) s;
              s = upd_hw (wr_ctrl regs UART_CMSDK_CTRL_TXEN) s;
              s = upd_hw (NVIC_ClearPendingIRQ regs (rx_irq config)) s
          in (0, upd_hw (irq_enable regs (rx_irq config)) s))"

definition lab20_uart_data_0 :: lab20_uart_data where
  "lab20_uart_data_0 = \<lparr>ud_callback = None, ud_user_data = 0, ud_state = LAB20_RX_IDLE, ud_in_callback = False,
     ud_initial_request = False, ud_request_outstanding = False, ud_current_buf = 0, ud_current_len = 0,
     ud_current_pos = 0, ud_reported = 0, ud_next_buf = 0, ud_next_len = 0, ud_irq_entries = 0, ud_hardware_bytes = 0,
     ud_hardware_overruns = 0\<rparr>"

section \<open>Properties\<close>

text \<open>The hardware state after \<open>n\<close> polls of the state register, and whether poll \<open>n\<close> sees room.\<close>

fun polled :: "'h uart_cmsdk_regs \<Rightarrow> nat \<Rightarrow> 'h \<Rightarrow> 'h" where
  "polled regs 0 h = h"
| "polled regs (Suc n) h = polled regs n (snd (rd_state regs h))"

definition tx_room :: "'h uart_cmsdk_regs \<Rightarrow> 'h \<Rightarrow> bool" where
  "tx_room regs h \<longleftrightarrow> fst (rd_state regs h) AND UART_CMSDK_STATE_TXBF = 0"

lemma wait_tx_ready_room: "tx_room regs h \<Longrightarrow> wait_tx_ready regs h = Some (snd (rd_state regs h))"
  by (subst wait_tx_ready.simps) (cases "rd_state regs h"; simp add: tx_room_def)

lemma wait_tx_ready_full: "\<not> tx_room regs h \<Longrightarrow> wait_tx_ready regs h = wait_tx_ready regs (snd (rd_state regs h))"
  by (subst wait_tx_ready.simps) (cases "rd_state regs h"; simp add: tx_room_def)

lemma wait_tx_ready_after:
  "(\<And>k. k < n \<Longrightarrow> \<not> tx_room regs (polled regs k h)) \<Longrightarrow> tx_room regs (polled regs n h) \<Longrightarrow>
     wait_tx_ready regs h = Some (polled regs (Suc n) h)"
proof (induction n arbitrary: h)
  case 0
  then show ?case by (simp add: wait_tx_ready_room)
next
  case (Suc n)
  have "\<not> tx_room regs h" using Suc.prems(1) [of 0] by simp
  moreover have "wait_tx_ready regs (snd (rd_state regs h)) = Some (polled regs (Suc n) (snd (rd_state regs h)))"
    by (rule Suc.IH) (use Suc.prems(1) [of "Suc k" for k] Suc.prems(2) in auto)
  ultimately show ?case by (simp add: wait_tx_ready_full)
qed

lemma wait_tx_ready_Some:
  assumes "wait_tx_ready regs h = Some h'"
  shows "\<exists>n. tx_room regs (polled regs n h)"
proof (rule wait_tx_ready.raw_induct [OF _ assms])
  fix wait and regs :: "'a uart_cmsdk_regs" and h h'
  assume IH: "\<And>regs h h'. wait regs h = Some h' \<Longrightarrow> \<exists>n. tx_room regs (polled regs n h)"
    and run: "(case rd_state regs h of (v, h) \<Rightarrow> if v AND UART_CMSDK_STATE_TXBF \<noteq> 0 then wait regs h else Some h) = Some h'"
  show "\<exists>n. tx_room regs (polled regs n h)"
  proof (cases "tx_room regs h")
    case True
    then show ?thesis by (intro exI [of _ 0]) simp
  next
    case False
    then have "wait regs (snd (rd_state regs h)) = Some h'"
      using run by (cases "rd_state regs h") (simp add: tx_room_def)
    then obtain n where "tx_room regs (polled regs n (snd (rd_state regs h)))" using IH by blast
    then show ?thesis by (intro exI [of _ "Suc n"]) simp
  qed
qed

text \<open>Note.  A blocking transmission returns exactly if the transmit buffer is ever seen empty; then it
  has written its byte after the first poll that saw it so.\<close>

theorem lab20_uart_poll_out_returns:
  "(lab20_uart_poll_out config c s \<noteq> None \<longleftrightarrow> (\<exists>n. tx_room (cfg_regs config) (polled (cfg_regs config) n (us_hw s)))) \<and>
   (\<forall>n. tx_room (cfg_regs config) (polled (cfg_regs config) n (us_hw s)) \<and>
      (\<forall>k < n. \<not> tx_room (cfg_regs config) (polled (cfg_regs config) k (us_hw s))) \<longrightarrow>
      lab20_uart_poll_out config c s =
        Some (s\<lparr>us_hw := wr_data (cfg_regs config) (ucast c) (polled (cfg_regs config) (Suc n) (us_hw s))\<rparr>))"
proof -
  let ?r = "cfg_regs config" and ?h = "us_hw s"
  have first: "wait_tx_ready ?r ?h = Some (polled ?r (Suc n) ?h)"
    if "tx_room ?r (polled ?r n ?h)" "\<forall>k < n. \<not> tx_room ?r (polled ?r k ?h)" for n
    using that by (intro wait_tx_ready_after) auto
  have "wait_tx_ready ?r ?h \<noteq> None" if room: "tx_room ?r (polled ?r n ?h)" for n
  proof -
    let ?m = "LEAST k. tx_room ?r (polled ?r k ?h)"
    have "tx_room ?r (polled ?r ?m ?h)" using room by (rule LeastI)
    moreover have "\<forall>k < ?m. \<not> tx_room ?r (polled ?r k ?h)" using not_less_Least by blast
    ultimately show ?thesis using first by simp
  qed
  then have "wait_tx_ready ?r ?h \<noteq> None \<longleftrightarrow> (\<exists>n. tx_room ?r (polled ?r n ?h))"
    using wait_tx_ready_Some [of ?r ?h] by auto
  then show ?thesis
    by (intro conjI allI impI; (elim conjE)?) (simp_all add: lab20_uart_poll_out_def first del: polled.simps)
qed

text \<open>The witness: a peripheral busy for two polls.\<close>

definition busy_twice :: "nat uart_cmsdk_regs" where
  "busy_twice = \<lparr>rd_data = (\<lambda>h. (0, h)), wr_data = (\<lambda>_ h. h + 100), rd_state = (\<lambda>h. (if h < 2 then 1 else 0, h + 1)),
     rd_ctrl = (\<lambda>h. (0, h)), wr_ctrl = (\<lambda>_ h. h), wr_intclear = (\<lambda>_ h. h), wr_bauddiv = (\<lambda>_ h. h),
     NVIC_SetPendingIRQ = (\<lambda>_ h. h), NVIC_ClearPendingIRQ = (\<lambda>_ h. h), irq_enable = (\<lambda>_ h. h)\<rparr>"

lemma lab20_uart_poll_out_returns_witness:
  "lab20_uart_poll_out \<lparr>cfg_regs = busy_twice, clock_hz = 0, baudrate = 0, rx_irq = 0\<rparr> 65
     \<lparr>us_hw = 0, us_data = lab20_uart_data_0, us_mem = (\<lambda>_. 0), us_app = ()\<rparr> =
   Some \<lparr>us_hw = 103, us_data = lab20_uart_data_0, us_mem = (\<lambda>_. 0), us_app = ()\<rparr>"
proof -
  let ?c = "\<lparr>cfg_regs = busy_twice, clock_hz = 0, baudrate = 0, rx_irq = 0\<rparr>"
  let ?s = "\<lparr>us_hw = 0, us_data = lab20_uart_data_0, us_mem = (\<lambda>_. 0 :: u8), us_app = ()\<rparr>"
  have p: "polled busy_twice k h = h + k" for k h
    by (induction k arbitrary: h) (simp_all add: busy_twice_def)
  have room: "tx_room busy_twice h \<longleftrightarrow> \<not> h < 2" for h by (simp add: tx_room_def busy_twice_def)
  have "tx_room (cfg_regs ?c) (polled (cfg_regs ?c) 2 (us_hw ?s)) \<and>
      (\<forall>k < 2. \<not> tx_room (cfg_regs ?c) (polled (cfg_regs ?c) k (us_hw ?s)))"
    by (simp add: p room del: polled.simps)
  then have "lab20_uart_poll_out ?c 65 ?s =
      Some (?s\<lparr>us_hw := wr_data (cfg_regs ?c) (ucast (65 :: u8)) (polled (cfg_regs ?c) (Suc 2) (us_hw ?s))\<rparr>)"
    using lab20_uart_poll_out_returns [of ?c 65 ?s] by blast
  then show ?thesis by (simp add: p del: polled.simps) (simp add: busy_twice_def)
qed

end
