(* ===== verification/Rx_Manager.thy ===== *)
theory Rx_Manager
  imports Uart_Async "HOL-Library.Sublist"
begin

text \<open>
  labs/lab20_uart_async_rx_manager_zephyr/src: the receive manager (rx_manager.c), which lends two
  buffers to the driver of Uart_Async and queues what it reports in a ring buffer, and the main loop.

  Zephyr's ring_buf is not part of the repository: a record of its operations over a queue type
  \<open>'q\<close>, with the locale \<open>zephyr_ring_buf\<close> for what its documentation promises.  The manager's buffers
  lie in the memory from address \<open>base\<close> on.
\<close>

section \<open>Data (rx_manager.h)\<close>

abbreviation (input) RX_DRIVER_COUNT :: nat where "RX_DRIVER_COUNT \<equiv> 2"
abbreviation (input) RX_DRIVER_SIZE :: u32 where "RX_DRIVER_SIZE \<equiv> 8"
abbreviation (input) RX_RING_SIZE :: u32 where "RX_RING_SIZE \<equiv> 64"

record 'q ring_buf_ops =
  ring_buf_init :: "u32 \<Rightarrow> 'q"
  ring_buf_put :: "u8 list \<Rightarrow> 'q \<Rightarrow> u32 \<times> 'q"
  ring_buf_get :: "u32 \<Rightarrow> 'q \<Rightarrow> u8 list \<times> 'q"
  ring_buf_size_get :: "'q \<Rightarrow> u32"

record 'q rx_manager =
  mgr_dev :: dev
  mgr_driver_owned :: "bool list"
  mgr_app_ring :: 'q
  mgr_enabled :: bool
  mgr_ready_events :: u32
  mgr_request_events :: u32
  mgr_released_events :: u32
  mgr_disabled_events :: u32
  mgr_stopped_events :: u32
  mgr_bytes_received :: u32
  mgr_bytes_buffered :: u32
  mgr_bytes_read :: u32
  mgr_dropped_bytes :: u32
  mgr_last_stop_reason :: u32
  mgr_last_error :: int

text \<open>What is fixed when the program is linked: the driver's configuration, the address of
  \<open>driver_buf[2][8]\<close>, the queue operations, and whether device_is_ready.\<close>

record ('h, 'q) lab20_env =
  env_config :: "'h lab20_uart_config"
  env_base :: u32
  env_ring :: "'q ring_buf_ops"
  env_ready :: "dev \<Rightarrow> bool"

definition driver_buf :: "('h, 'q) lab20_env \<Rightarrow> nat \<Rightarrow> u32" where
  "driver_buf env i = env_base env + of_nat (i * 8)"

type_synonym ('h, 'q) lab20_sys = "('h, 'q rx_manager) uart_sys"

abbreviation (input) upd_mgr :: "('q rx_manager \<Rightarrow> 'q rx_manager) \<Rightarrow> ('h, 'q) lab20_sys \<Rightarrow> ('h, 'q) lab20_sys" where
  "upd_mgr f s \<equiv> s\<lparr>us_app := f (us_app s)\<rparr>"

section \<open>Operations (rx_manager.c)\<close>

definition buffer_index :: "('h, 'q) lab20_env \<Rightarrow> u32 \<Rightarrow> int" where
  "buffer_index env buf =
     (case List.find (\<lambda>i. buf = driver_buf env i) [0..<RX_DRIVER_COUNT] of None \<Rightarrow> - 1 | Some i \<Rightarrow> int i)"

text \<open>The bytes of \<open>len\<close> addresses from \<open>a\<close> on.\<close>

definition mem_bytes :: "(u32 \<Rightarrow> u8) \<Rightarrow> u32 \<Rightarrow> nat \<Rightarrow> u8 list" where
  "mem_bytes m a len = map (\<lambda>i. m (a + of_nat i)) [0..<len]"

lemma length_mem_bytes [simp]: "length (mem_bytes m a n) = n"
  by (simp add: mem_bytes_def)

lemma mem_bytes_0 [simp]: "mem_bytes m a 0 = []"
  by (simp add: mem_bytes_def)

definition rx_manager_event :: "('h, 'q) lab20_env \<Rightarrow> nat \<Rightarrow> uart_event option \<Rightarrow> ('h, 'q) lab20_sys \<Rightarrow> ('h, 'q) lab20_sys" where
  "rx_manager_event env mgr_ptr evt s =
     (if mgr_ptr = 0 \<or> evt = None then s else
      let mgr = us_app s; ring = env_ring env in
      case the evt of
        UART_RX_RDY buf offset len \<Rightarrow>
          let index = buffer_index env buf in
          if index < 0 \<or> \<not> mgr_driver_owned mgr ! nat index \<or> offset > RX_DRIVER_SIZE \<or> len > RX_DRIVER_SIZE - offset
          then upd_mgr (\<lambda>m. m\<lparr>mgr_last_error := - EINVAL\<rparr>) s
          else (case ring_buf_put ring (mem_bytes (us_mem s) (buf + offset) (unat len)) (mgr_app_ring mgr) of
            (copied, q) \<Rightarrow>
              upd_mgr (\<lambda>m. m\<lparr>mgr_app_ring := q, mgr_ready_events := mgr_ready_events m + 1,
                mgr_bytes_received := mgr_bytes_received m + len, mgr_bytes_buffered := mgr_bytes_buffered m + copied,
                mgr_dropped_bytes := mgr_dropped_bytes m + (len - copied)\<rparr>) s)
      | UART_RX_BUF_REQUEST \<Rightarrow>
          let s = upd_mgr (\<lambda>m. m\<lparr>mgr_request_events := mgr_request_events m + 1\<rparr>) s in
          (case List.find (\<lambda>i. \<not> mgr_driver_owned mgr ! i) [0..<RX_DRIVER_COUNT] of
             None \<Rightarrow> upd_mgr (\<lambda>m. m\<lparr>mgr_last_error := - ENOBUFS\<rparr>) s
           | Some available \<Rightarrow>
             let s = upd_mgr (\<lambda>m. m\<lparr>mgr_driver_owned := (mgr_driver_owned m)[available := True]\<rparr>) s in
             case lab20_uart_rx_buf_rsp (driver_buf env available) RX_DRIVER_SIZE s of (ret, s) \<Rightarrow>
             if ret \<noteq> 0
             then upd_mgr (\<lambda>m. m\<lparr>mgr_driver_owned := (mgr_driver_owned m)[available := False], mgr_last_error := ret\<rparr>) s
             else s)
      | UART_RX_BUF_RELEASED buf \<Rightarrow>
          let index = buffer_index env buf in
          if index < 0 \<or> \<not> mgr_driver_owned mgr ! nat index
          then upd_mgr (\<lambda>m. m\<lparr>mgr_last_error := - EINVAL\<rparr>) s
          else upd_mgr (\<lambda>m. m\<lparr>mgr_driver_owned := (mgr_driver_owned m)[nat index := False],
                 mgr_released_events := mgr_released_events m + 1\<rparr>) s
      | UART_RX_DISABLED \<Rightarrow>
          upd_mgr (\<lambda>m. m\<lparr>mgr_enabled := False, mgr_disabled_events := mgr_disabled_events m + 1\<rparr>) s
      | UART_RX_STOPPED reason _ _ _ \<Rightarrow>
          upd_mgr (\<lambda>m. m\<lparr>mgr_stopped_events := mgr_stopped_events m + 1, mgr_last_stop_reason := reason,
            mgr_last_error := - EIO\<rparr>) s
      | UART_OTHER \<Rightarrow> s)"

text \<open>The code address of rx_uart_callback is 1; the pointer to the only manager is 1, NULL is 0.
  \<open>dev\<close> is the device the driver passes.\<close>

definition rx_uart_callback :: "('h, 'q) lab20_env \<Rightarrow> dev \<Rightarrow> nat \<Rightarrow> uart_event \<Rightarrow> ('h, 'q) lab20_sys \<Rightarrow> ('h, 'q) lab20_sys" where
  "rx_uart_callback env dev user_data evt s =
     (if user_data \<noteq> 0 \<and> dev = mgr_dev (us_app s) then rx_manager_event env user_data (Some evt) s else s)"

definition lab20_call :: "('h, 'q) lab20_env \<Rightarrow> dev \<Rightarrow> ('h, 'q rx_manager) uart_call" where
  "lab20_call env dev f = (if f = 1 then rx_uart_callback env dev else (\<lambda>_ _ s. s))"

definition rx_manager_clear :: "'q ring_buf_ops \<Rightarrow> dev \<Rightarrow> 'q rx_manager" where
  "rx_manager_clear ring dev = \<lparr>mgr_dev = dev, mgr_driver_owned = [False, False],
     mgr_app_ring = ring_buf_init ring RX_RING_SIZE, mgr_enabled = False, mgr_ready_events = 0, mgr_request_events = 0,
     mgr_released_events = 0, mgr_disabled_events = 0, mgr_stopped_events = 0, mgr_bytes_received = 0,
     mgr_bytes_buffered = 0, mgr_bytes_read = 0, mgr_dropped_bytes = 0, mgr_last_stop_reason = 0, mgr_last_error = 0\<rparr>"

definition rx_manager_init :: "('h, 'q) lab20_env \<Rightarrow> nat \<Rightarrow> dev option \<Rightarrow> ('h, 'q) lab20_sys \<Rightarrow> int \<times> ('h, 'q) lab20_sys" where
  "rx_manager_init env mgr dev s =
     (case dev of None \<Rightarrow> (- EINVAL, s)
      | Some dev \<Rightarrow>
        if mgr = 0 then (- EINVAL, s)
        else if \<not> env_ready env dev then (- ENODEV, s)
        else
          let s = s\<lparr>us_app := rx_manager_clear (env_ring env) dev,
                    us_mem := (\<lambda>a. if a - env_base env < 16 then 0 else us_mem s a)\<rparr> in
          case lab20_uart_callback_set (Some 1) mgr s of (ret, s) \<Rightarrow>
          if ret \<noteq> 0 then (ret, upd_mgr (\<lambda>m. m\<lparr>mgr_last_error := ret\<rparr>) s)
          else
            let s = upd_mgr (\<lambda>m. m\<lparr>mgr_driver_owned := (mgr_driver_owned m)[0 := True], mgr_enabled := True\<rparr>) s in
            case lab20_uart_rx_enable (env_config env) (driver_buf env 0) RX_DRIVER_SIZE SYS_FOREVER_US s of (ret, s) \<Rightarrow>
            if ret \<noteq> 0 then
              (let s = upd_mgr (\<lambda>m. m\<lparr>mgr_driver_owned := (mgr_driver_owned m)[0 := False], mgr_enabled := False,
                          mgr_last_error := ret\<rparr>) s
               in (ret, snd (lab20_uart_callback_set None 0 s)))
            else (ret, s))"

text \<open>The bytes copied to \<open>dst\<close> are the second component; their number is the result.\<close>

definition rx_manager_read :: "('h, 'q) lab20_env \<Rightarrow> nat \<Rightarrow> bool \<Rightarrow> u32 \<Rightarrow> ('h, 'q) lab20_sys \<Rightarrow>
    u32 \<times> u8 list \<times> ('h, 'q) lab20_sys" where
  "rx_manager_read env mgr dst max_len s =
     (if mgr = 0 \<or> \<not> dst \<or> max_len = 0 then (0, [], s)
      else
        let limit = min max_len RX_RING_SIZE in
        case ring_buf_get (env_ring env) limit (mgr_app_ring (us_app s)) of (bytes, q) \<Rightarrow>
        let count = of_nat (length bytes) in
        (count, bytes, upd_mgr (\<lambda>m. m\<lparr>mgr_app_ring := q, mgr_bytes_read := mgr_bytes_read m + count\<rparr>) s))"

section \<open>The program (main.c)\<close>

record ('h, 'q) lab20 =
  l20_sys :: "('h, 'q) lab20_sys"
  g_consume_enabled :: bool
  g_stop_requested :: bool
  g_init_rc :: int
  g_stop_rc :: int
  g_last_read :: "u8 list"
  g_last_read_len :: u32
  g_total_read :: u32
  g_ring_used :: u32

definition lab20_main_init :: "('h, 'q) lab20_env \<Rightarrow> dev \<Rightarrow> ('h, 'q) lab20 \<Rightarrow> ('h, 'q) lab20" where
  "lab20_main_init env async_uart g =
     (case rx_manager_init env 1 (Some async_uart) (l20_sys g) of (rc, s) \<Rightarrow> g\<lparr>g_init_rc := rc, l20_sys := s\<rparr>)"

text \<open>The three parts of an iteration, between which the receive interrupt can come.\<close>

definition lab20_main_stop :: "('h, 'q) lab20_env \<Rightarrow> ('h, 'q) lab20 \<Rightarrow> ('h, 'q) lab20" where
  "lab20_main_stop env g =
     (if g_stop_requested g then
        (let g = g\<lparr>g_stop_requested := False\<rparr> in
         case lab20_uart_rx_disable (env_config env) (l20_sys g) of (rc, s) \<Rightarrow> g\<lparr>g_stop_rc := rc, l20_sys := s\<rparr>)
      else g)"

definition lab20_main_consume :: "('h, 'q) lab20_env \<Rightarrow> ('h, 'q) lab20 \<Rightarrow> ('h, 'q) lab20" where
  "lab20_main_consume env g =
     (if g_consume_enabled g then
        (case rx_manager_read env 1 True 16 (l20_sys g) of (n, bytes, s) \<Rightarrow>
         let g = g\<lparr>l20_sys := s, g_last_read := bytes @ drop (length bytes) (g_last_read g)\<rparr> in
         if n \<noteq> 0 then g\<lparr>g_last_read_len := n, g_total_read := g_total_read g + n\<rparr> else g)
      else g)"

definition lab20_main_status :: "('h, 'q) lab20_env \<Rightarrow> ('h, 'q) lab20 \<Rightarrow> ('h, 'q) lab20" where
  "lab20_main_status env g =
     g\<lparr>g_ring_used := ring_buf_size_get (env_ring env) (mgr_app_ring (us_app (l20_sys g)))\<rparr>"

section \<open>Contracts of the peripheral and of the queue\<close>

text \<open>The peripheral: a history \<open>taken\<close> of the bytes read from its data register; no other access
  takes a byte.\<close>

locale cmsdk_uart =
  fixes regs :: "'h uart_cmsdk_regs" and taken :: "'h \<Rightarrow> u8 list"
  assumes data_law: "rd_data regs h = (v, h') \<Longrightarrow> taken h' = taken h @ [ucast (v AND UART_CMSDK_DATA_MASK)]"
    and state_law: "rd_state regs h = (v, h') \<Longrightarrow> taken h' = taken h"
    and ctrl_law: "rd_ctrl regs h = (v, h') \<Longrightarrow> taken h' = taken h"
    and write_law: "taken (wr_ctrl regs v h) = taken h" "taken (wr_intclear regs v h) = taken h"
      "taken (NVIC_SetPendingIRQ regs v h) = taken h"
begin

lemma taken_ctrl_off [simp]: "taken (rx_ctrl_off regs h) = taken h"
  by (auto simp: rx_ctrl_off_def write_law split: prod.split dest: ctrl_law)

end

text \<open>The queue: a put appends the prefix that fits, a get removes a prefix.\<close>

locale zephyr_ring_buf =
  fixes ring :: "'q ring_buf_ops" and content :: "'q \<Rightarrow> u8 list" and cap :: "'q \<Rightarrow> nat"
  assumes init_law: "content (ring_buf_init ring n) = [] \<and> cap (ring_buf_init ring n) = unat n"
    and put_law: "length xs < 2 ^ 32 \<Longrightarrow> ring_buf_put ring xs q = (k, q') \<Longrightarrow>
      unat k = min (length xs) (cap q - length (content q)) \<and> content q' = content q @ take (unat k) xs \<and> cap q' = cap q"
    and get_law: "ring_buf_get ring n q = (bytes, q') \<Longrightarrow>
      bytes = take (unat n) (content q) \<and> content q' = drop (unat n) (content q) \<and> cap q' = cap q"
    and size_law: "length (content q) < 2 ^ 32 \<Longrightarrow> unat (ring_buf_size_get ring q) = length (content q)"

section \<open>Invariant\<close>

definition linked :: "dev \<Rightarrow> ('h, 'q) lab20_sys \<Rightarrow> bool" where
  "linked dev s \<longleftrightarrow> mgr_dev (us_app s) = dev \<and> length (mgr_driver_owned (us_app s)) = 2 \<and>
     ud_callback (us_data s) = Some 1 \<and> ud_user_data (us_data s) = 1 \<and> \<not> ud_in_callback (us_data s)"

text \<open>The driver owns buffer \<open>i\<close>, which it fills, and possibly the other one.\<close>

definition busy :: "('h, 'q) lab20_env \<Rightarrow> dev \<Rightarrow> nat \<Rightarrow> ('h, 'q) lab20_sys \<Rightarrow> bool" where
  "busy env dev i s \<longleftrightarrow> linked dev s \<and> i < 2 \<and>
     (let d = us_data s; owned = mgr_driver_owned (us_app s) in
      ud_current_buf d = driver_buf env i \<and> ud_current_len d = 8 \<and> ud_current_pos d \<le> 8 \<and>
      ud_reported d \<le> ud_current_pos d \<and> owned ! i \<and>
      (if ud_next_buf d = 0 then \<not> owned ! (1 - i)
       else ud_next_buf d = driver_buf env (1 - i) \<and> ud_next_len d = 8 \<and> owned ! (1 - i)))"

definition idle :: "dev \<Rightarrow> ('h, 'q) lab20_sys \<Rightarrow> bool" where
  "idle dev s \<longleftrightarrow> linked dev s \<and> ud_state (us_data s) = LAB20_RX_IDLE \<and> ud_current_buf (us_data s) = 0 \<and>
     ud_next_buf (us_data s) = 0 \<and> ud_current_pos (us_data s) = 0 \<and> ud_reported (us_data s) = 0 \<and>
     mgr_driver_owned (us_app s) = [False, False]"

text \<open>Where the bytes are that were received and not dropped: consumed, queued, or still in the
  driver's buffer.\<close>

definition unreported :: "('h, 'q) lab20_sys \<Rightarrow> u8 list" where
  "unreported s = mem_bytes (us_mem s) (ud_current_buf (us_data s) + ud_reported (us_data s))
     (unat (ud_current_pos (us_data s) - ud_reported (us_data s)))"

definition held :: "('q \<Rightarrow> u8 list) \<Rightarrow> ('h, 'q) lab20_sys \<Rightarrow> u8 list \<Rightarrow> u8 list" where
  "held content s out = out @ content (mgr_app_ring (us_app s)) @ unreported s"

definition accounted :: "('q \<Rightarrow> u8 list) \<Rightarrow> ('q \<Rightarrow> nat) \<Rightarrow> u8 list \<Rightarrow> ('h, 'q) lab20_sys \<Rightarrow> u8 list \<Rightarrow> bool" where
  "accounted content cap rcvd s out \<longleftrightarrow>
     (let m = us_app s; q = mgr_app_ring m in
      subseq (held content s out) rcvd \<and>
      of_nat (length rcvd) = of_nat (length (held content s out)) + mgr_dropped_bytes m \<and>
      mgr_bytes_read m = of_nat (length out) \<and>
      mgr_bytes_buffered m = mgr_bytes_read m + of_nat (length (content q)) \<and>
      mgr_bytes_received m = mgr_bytes_buffered m + mgr_dropped_bytes m \<and>
      ud_hardware_bytes (us_data s) = of_nat (length rcvd) \<and>
      cap q = 64 \<and> length (content q) \<le> 64)"

text \<open>Between interrupts the driver fills buffer \<open>i\<close>, nothing of which is reported, and owns the other
  one as its next, except before the first request.\<close>

definition receiving :: "('h, 'q) lab20_env \<Rightarrow> dev \<Rightarrow> nat \<Rightarrow> ('h, 'q) lab20_sys \<Rightarrow> bool" where
  "receiving env dev i s \<longleftrightarrow> busy env dev i s \<and> ud_state (us_data s) \<noteq> LAB20_RX_IDLE \<and> ud_reported (us_data s) = 0 \<and>
     ud_current_pos (us_data s) < 8 \<and> (ud_next_buf (us_data s) = 0 \<longleftrightarrow> ud_initial_request (us_data s))"

definition lab20_inv :: "('h, 'q) lab20_env \<Rightarrow> ('h \<Rightarrow> u8 list) \<Rightarrow> ('q \<Rightarrow> u8 list) \<Rightarrow> ('q \<Rightarrow> nat) \<Rightarrow> dev \<Rightarrow>
    ('h, 'q) lab20_sys \<Rightarrow> u8 list \<Rightarrow> bool" where
  "lab20_inv env taken content cap dev s out \<longleftrightarrow>
     (idle dev s \<or> (\<exists>i. receiving env dev i s)) \<and> accounted content cap (taken (us_hw s)) s out"

section \<open>Steps\<close>

text \<open>The program between its initialisation and ever after: the receive interrupt, the parts of the
  main loop, the peripheral, and the debugger that sets the two flags.  The second component collects
  the bytes that rx_manager_read has returned.\<close>

definition consumed :: "('h, 'q) lab20_env \<Rightarrow> ('h, 'q) lab20 \<Rightarrow> u8 list" where
  "consumed env g = (if g_consume_enabled g then fst (snd (rx_manager_read env 1 True 16 (l20_sys g))) else [])"

inductive lab20_step :: "('h, 'q) lab20_env \<Rightarrow> ('h \<Rightarrow> u8 list) \<Rightarrow> dev \<Rightarrow> ('h, 'q) lab20 \<times> u8 list \<Rightarrow>
    ('h, 'q) lab20 \<times> u8 list \<Rightarrow> bool" for env taken dev where
  isr: "lab20_step env taken dev (g, out)
     (g\<lparr>l20_sys := lab20_uart_isr (env_config env) (lab20_call env dev) (l20_sys g)\<rparr>, out)"
| stop: "lab20_step env taken dev (g, out) (lab20_main_stop env g, out)"
| consume: "lab20_step env taken dev (g, out) (lab20_main_consume env g, out @ consumed env g)"
| status: "lab20_step env taken dev (g, out) (lab20_main_status env g, out)"
| peripheral: "taken h = taken (us_hw (l20_sys g)) \<Longrightarrow>
     lab20_step env taken dev (g, out) (g\<lparr>l20_sys := (l20_sys g)\<lparr>us_hw := h\<rparr>\<rparr>, out)"
| debugger: "lab20_step env taken dev (g, out) (g\<lparr>g_consume_enabled := c, g_stop_requested := r\<rparr>, out)"

definition lab20_reachable :: "('h, 'q) lab20_env \<Rightarrow> ('h \<Rightarrow> u8 list) \<Rightarrow> dev \<Rightarrow> ('h, 'q) lab20 \<Rightarrow> u8 list \<Rightarrow> bool" where
  "lab20_reachable env taken dev g out \<longleftrightarrow>
     (\<exists>g0. us_data (l20_sys g0) = lab20_uart_data_0 \<and> taken (us_hw (l20_sys g0)) = [] \<and> env_ready env dev \<and>
        (lab20_step env taken dev)\<^sup>*\<^sup>* (lab20_main_init env dev g0, []) (g, out))"

locale lab20_system =
  uart: cmsdk_uart "cfg_regs (env_config env)" taken + rb: zephyr_ring_buf "env_ring env" content cap
  for env :: "('h, 'q) lab20_env" and taken :: "'h \<Rightarrow> u8 list" and content :: "'q \<Rightarrow> u8 list" and cap :: "'q \<Rightarrow> nat" +
  fixes dev :: dev
  assumes base_law: "0 < unat (env_base env)" "unat (env_base env) + 16 \<le> 2 ^ 32"
begin

lemma driver_buf_unat: "i < 2 \<Longrightarrow> unat (driver_buf env i) = unat (env_base env) + i * 8"
proof -
  assume i: "i < 2"
  then have "unat (of_nat (i * 8) :: u32) = i * 8" by (intro unat_u32_of_nat) simp
  then show ?thesis using i base_law by (simp add: driver_buf_def unat_word_ariths)
qed

lemma driver_buf_nz [simp]: "i < 2 \<Longrightarrow> driver_buf env i \<noteq> 0"
  using driver_buf_unat [of i] base_law by (auto simp: word_unat_eq_iff)

lemma driver_buf_inj: "i < 2 \<Longrightarrow> j < 2 \<Longrightarrow> driver_buf env i = driver_buf env j \<longleftrightarrow> i = j"
  using driver_buf_unat [of i] driver_buf_unat [of j] by (auto simp: word_unat_eq_iff)

lemma buffer_index_driver_buf [simp]: "i < 2 \<Longrightarrow> buffer_index env (driver_buf env i) = int i"
  by (cases "i = 0") (auto simp: buffer_index_def driver_buf_inj numeral_2_eq_2 less_Suc_eq)

lemma no_overlap: "i < 2 \<Longrightarrow> \<not> buffers_overlap (driver_buf env (1 - i)) 8 (driver_buf env i) 8"
proof -
  assume i: "i < 2"
  then consider "i = 0" | "i = 1" by linarith
  then show ?thesis
    using driver_buf_unat [of 0] driver_buf_unat [of 1]
    by cases (simp_all add: buffers_overlap_def word_le_nat_alt word_less_nat_alt unat_sub)
qed

lemma emit:
  assumes "linked dev s"
  shows "lab20_uart_emit (lab20_call env dev) evt s =
    upd_data (\<lambda>d. d\<lparr>ud_in_callback := False\<rparr>)
      (rx_manager_event env 1 (Some evt) (upd_data (\<lambda>d. d\<lparr>ud_in_callback := True\<rparr>) s))"
  using assms by (simp add: lab20_uart_emit_def linked_def lab20_call_def rx_uart_callback_def Let_def)

lemma callback_flag: "\<not> ud_in_callback d \<Longrightarrow> d\<lparr>ud_in_callback := False\<rparr> = d"
  by (cases d) simp

lemma emit_released:
  assumes "linked dev s" "i < 2" "mgr_driver_owned (us_app s) ! i"
  shows "lab20_uart_emit (lab20_call env dev) (UART_RX_BUF_RELEASED (driver_buf env i)) s =
    upd_mgr (\<lambda>m. m\<lparr>mgr_driver_owned := (mgr_driver_owned m)[i := False], mgr_released_events := mgr_released_events m + 1\<rparr>) s"
  using assms by (simp add: emit rx_manager_event_def Let_def callback_flag linked_def)

lemma emit_disabled:
  "linked dev s \<Longrightarrow> lab20_uart_emit (lab20_call env dev) UART_RX_DISABLED s =
    upd_mgr (\<lambda>m. m\<lparr>mgr_enabled := False, mgr_disabled_events := mgr_disabled_events m + 1\<rparr>) s"
  by (simp add: emit rx_manager_event_def Let_def callback_flag linked_def)

lemma emit_stopped:
  "linked dev s \<Longrightarrow> lab20_uart_emit (lab20_call env dev) (UART_RX_STOPPED r b off len) s =
    upd_mgr (\<lambda>m. m\<lparr>mgr_stopped_events := mgr_stopped_events m + 1, mgr_last_stop_reason := r, mgr_last_error := - EIO\<rparr>) s"
  by (simp add: emit rx_manager_event_def Let_def callback_flag linked_def)

lemma emit_ready:
  assumes "linked dev s" "i < 2" "mgr_driver_owned (us_app s) ! i" "off \<le> 8" "len \<le> 8 - off"
    and "ring_buf_put (env_ring env) (mem_bytes (us_mem s) (driver_buf env i + off) (unat len)) (mgr_app_ring (us_app s)) = (k, q)"
  shows "lab20_uart_emit (lab20_call env dev) (UART_RX_RDY (driver_buf env i) off len) s =
    upd_mgr (\<lambda>m. m\<lparr>mgr_app_ring := q, mgr_ready_events := mgr_ready_events m + 1,
      mgr_bytes_received := mgr_bytes_received m + len, mgr_bytes_buffered := mgr_bytes_buffered m + k,
      mgr_dropped_bytes := mgr_dropped_bytes m + (len - k)\<rparr>) s"
  using assms by (simp add: emit rx_manager_event_def Let_def callback_flag linked_def)

text \<open>A request is always answered: with one buffer lent, the other is free.\<close>

lemma emit_request:
  assumes "busy env dev i s" "ud_state (us_data s) = LAB20_RX_ACTIVE" "ud_next_buf (us_data s) = 0"
    "ud_request_outstanding (us_data s)"
  shows "lab20_uart_emit (lab20_call env dev) UART_RX_BUF_REQUEST s =
    upd_data (\<lambda>d. d\<lparr>ud_next_buf := driver_buf env (1 - i), ud_next_len := 8, ud_request_outstanding := False\<rparr>)
      (upd_mgr (\<lambda>m. m\<lparr>mgr_driver_owned := (mgr_driver_owned m)[1 - i := True],
         mgr_request_events := mgr_request_events m + 1\<rparr>) s)"
proof -
  let ?owned = "mgr_driver_owned (us_app s)"
  have b: "linked dev s" "i < 2" "ud_current_buf (us_data s) = driver_buf env i" "ud_current_len (us_data s) = 8"
    "?owned ! i" "\<not> ?owned ! (1 - i)"
    using assms by (simp_all add: busy_def Let_def)
  have i: "1 - i < 2" by simp
  have "List.find (\<lambda>j. \<not> ?owned ! j) [0..<2] = Some (1 - i)"
    using b by (cases "i = 0") (auto simp: numeral_2_eq_2 less_Suc_eq)
  then show ?thesis
    using b(1) assms(2-4) b(3,4) no_overlap [OF b(2)] driver_buf_nz [OF i]
    by (simp add: emit rx_manager_event_def Let_def lab20_uart_rx_buf_rsp_def callback_flag linked_def)
qed

text \<open>Reporting moves the unreported bytes into the queue, or drops those that do not fit.\<close>

definition reported :: "('h, 'q) lab20_sys \<Rightarrow> ('h, 'q) lab20_sys \<Rightarrow> bool" where
  "reported s s' \<longleftrightarrow> us_hw s' = us_hw s \<and> us_mem s' = us_mem s \<and> ud_reported (us_data s') = ud_current_pos (us_data s) \<and>
     us_data s' = (us_data s)\<lparr>ud_reported := ud_current_pos (us_data s)\<rparr>"

lemma accounted_put:
  assumes acc: "accounted content cap rcvd s out"
    and put: "ring_buf_put (env_ring env) (unreported s) (mgr_app_ring (us_app s)) = (k, q)"
    and u: "length (unreported s) = unat len"
    and s': "mgr_app_ring (us_app s') = q" "mgr_bytes_read (us_app s') = mgr_bytes_read (us_app s)"
      "mgr_bytes_received (us_app s') = mgr_bytes_received (us_app s) + len"
      "mgr_bytes_buffered (us_app s') = mgr_bytes_buffered (us_app s) + k"
      "mgr_dropped_bytes (us_app s') = mgr_dropped_bytes (us_app s) + (len - k)"
      "ud_hardware_bytes (us_data s') = ud_hardware_bytes (us_data s)" "unreported s' = []"
  shows "accounted content cap rcvd s' out"
proof -
  let ?c = "content (mgr_app_ring (us_app s))" and ?u = "unreported s"
  have "length ?u < 2 ^ 32" using u unsigned_less [of len] by simp
  note law = rb.put_law [OF this put]
  have k: "unat k \<le> length ?u" "content q = ?c @ take (unat k) ?u" "cap q = 64" "length ?c + unat k \<le> 64"
    using law acc by (auto simp: accounted_def Let_def)
  have "subseq (out @ ?c @ take (unat k) ?u) (out @ ?c @ ?u)"
    by (intro list_emb_append_mono) (auto intro: prefix_imp_subseq take_is_prefix)
  then have sub: "subseq (held content s' out) rcvd"
    using acc k(2) s'(1,7) by (auto simp: accounted_def Let_def held_def elim: subseq_order.trans)
  have ul: "(of_nat (length ?u) :: u32) = len" using u by simp
  have "of_nat (length rcvd) = (of_nat (length (held content s out)) :: u32) + mgr_dropped_bytes (us_app s)"
    using acc by (simp add: accounted_def Let_def)
  then have "of_nat (length rcvd) = (of_nat (length (held content s' out)) :: u32) + mgr_dropped_bytes (us_app s')"
    using k s' ul by (simp add: held_def min_absorb2)
  then show ?thesis using acc sub k s' by (simp add: accounted_def Let_def min_absorb2)
qed

lemma report_current:
  assumes busy: "busy env dev i s" and acc: "accounted content cap rcvd s out"
  obtains s' where "report_current (lab20_call env dev) s = s'" "busy env dev i s'" "accounted content cap rcvd s' out"
    "reported s s'" "unreported s' = []" "mgr_driver_owned (us_app s') = mgr_driver_owned (us_app s)"
proof (cases "ud_current_pos (us_data s) = ud_reported (us_data s)")
  case True
  then have "report_current (lab20_call env dev) s = s" "reported s s" "unreported s = []"
    by (cases s; simp add: report_current_def Let_def reported_def unreported_def)+
  then show ?thesis using busy acc by (intro that) simp_all
next
  case False
  let ?d = "us_data s" and ?m = "us_app s"
  let ?len = "ud_current_pos ?d - ud_reported ?d" and ?s1 = "upd_data (\<lambda>d. d\<lparr>ud_reported := ud_current_pos d\<rparr>) s"
  obtain k q where put: "ring_buf_put (env_ring env) (unreported s) (mgr_app_ring ?m) = (k, q)" by (rule prod.exhaust)
  have b: "linked dev s" "i < 2" "ud_current_buf ?d = driver_buf env i" "ud_current_pos ?d \<le> 8"
    "ud_reported ?d \<le> ud_current_pos ?d" "mgr_driver_owned ?m ! i"
    using busy by (simp_all add: busy_def Let_def)
  have off: "ud_reported ?d \<le> 8" "?len \<le> 8 - ud_reported ?d"
    using b(4,5) by (auto simp: word_le_nat_alt unat_sub)
  have l1: "linked dev ?s1" using b(1) by (simp add: linked_def)
  let ?s' = "upd_mgr (\<lambda>m. m\<lparr>mgr_app_ring := q, mgr_ready_events := mgr_ready_events m + 1,
      mgr_bytes_received := mgr_bytes_received m + ?len, mgr_bytes_buffered := mgr_bytes_buffered m + k,
      mgr_dropped_bytes := mgr_dropped_bytes m + (?len - k)\<rparr>) ?s1"
  have run: "report_current (lab20_call env dev) s = ?s'"
    using False emit_ready [OF l1 b(2) _ off, of k q] b put
    by (simp add: report_current_def Let_def unreported_def)
  have un: "unreported ?s' = []" by (simp add: unreported_def)
  show ?thesis
  proof (rule that [OF run _ _ _ un])
    show "busy env dev i ?s'" using busy by (simp add: busy_def Let_def linked_def cong: if_cong)
    show "accounted content cap rcvd ?s' out"
      by (rule accounted_put [OF acc put, of ?len]) (simp_all add: un [simplified], simp add: unreported_def)
  qed (simp_all add: reported_def)
qed

text \<open>Stopping reports what is left, gives every lent buffer back and ends idle.\<close>

lemma accounted_cong:
  assumes "accounted content cap rcvd s out" "unreported s' = unreported s"
    "mgr_app_ring (us_app s') = mgr_app_ring (us_app s)"
    "mgr_bytes_read (us_app s') = mgr_bytes_read (us_app s)"
    "mgr_bytes_received (us_app s') = mgr_bytes_received (us_app s)"
    "mgr_bytes_buffered (us_app s') = mgr_bytes_buffered (us_app s)"
    "mgr_dropped_bytes (us_app s') = mgr_dropped_bytes (us_app s)"
    "ud_hardware_bytes (us_data s') = ud_hardware_bytes (us_data s)"
  shows "accounted content cap rcvd s' out"
  using assms by (simp add: accounted_def held_def Let_def)

lemma release_all:
  assumes "linked dev s" "i < 2" "owned = mgr_driver_owned (us_app s)" "owned ! i"
    "if nxt = 0 then \<not> owned ! (1 - i) else nxt = driver_buf env (1 - i) \<and> owned ! (1 - i)"
  obtains n where "release_buffer (lab20_call env dev) nxt (release_buffer (lab20_call env dev) (driver_buf env i) s) =
    upd_mgr (\<lambda>m. m\<lparr>mgr_driver_owned := [False, False], mgr_released_events := n\<rparr>) s"
proof -
  let ?s1 = "upd_mgr (\<lambda>m. m\<lparr>mgr_driver_owned := (mgr_driver_owned m)[i := False], mgr_released_events := mgr_released_events m + 1\<rparr>) s"
  have one: "release_buffer (lab20_call env dev) (driver_buf env i) s = ?s1"
    using emit_released [OF assms(1,2)] assms by (simp add: release_buffer_def)
  have l1: "linked dev ?s1" using assms(1) by (simp add: linked_def)
  have l2: "length owned = 2" using assms(1,3) by (simp add: linked_def)
  show ?thesis
  proof (cases "nxt = 0")
    case True
    then have "owned[i := False] = [False, False]"
      using assms(2,5) l2 by (cases "i = 0") (auto simp: list_eq_iff_nth_eq numeral_2_eq_2 less_Suc_eq)
    then show ?thesis using that [of "mgr_released_events (us_app s) + 1"] one True assms(3) by (simp add: release_buffer_def)
  next
    case False
    have i: "1 - i < 2" "i \<noteq> 1 - i" using assms(2) by (auto, arith)
    have ow: "mgr_driver_owned (us_app ?s1) ! (1 - i)" using assms(3,5) False i by simp
    have "owned[i := False, 1 - i := False] = [False, False]"
      using assms(2) l2 by (cases "i = 0") (auto simp: list_eq_iff_nth_eq numeral_2_eq_2 less_Suc_eq)
    then show ?thesis
      using that [of "mgr_released_events (us_app s) + 2"] one False assms(3,5) emit_released [OF l1 i(1) ow]
      by (simp add: release_buffer_def)
  qed
qed

lemma finish_rx:
  assumes busy: "busy env dev i s" and acc: "accounted content cap rcvd s out"
  shows "idle dev (finish_rx (env_config env) (lab20_call env dev) reason s)"
    and "accounted content cap rcvd (finish_rx (env_config env) (lab20_call env dev) reason s) out"
    and "taken (us_hw (finish_rx (env_config env) (lab20_call env dev) reason s)) = taken (us_hw s)"
    and "us_mem (finish_rx (env_config env) (lab20_call env dev) reason s) = us_mem s"
proof -
  let ?regs = "cfg_regs (env_config env)" and ?call = "lab20_call env dev"
  define s1 where "s1 = upd_data (\<lambda>d. d\<lparr>ud_state := LAB20_RX_STOPPING, ud_initial_request := False, ud_request_outstanding := False\<rparr>)
    (upd_hw (wr_intclear ?regs UART_CMSDK_INT_RX) (upd_hw (rx_ctrl_off ?regs) s))"
  let ?d = "us_data s1"
  define s2 where "s2 = (if reason \<noteq> 0 then lab20_uart_emit ?call (UART_RX_STOPPED reason (ud_current_buf ?d) (ud_reported ?d)
     (ud_current_pos ?d - ud_reported ?d)) s1 else s1)"
  have l1: "linked dev s1" using busy by (simp add: s1_def linked_def busy_def)
  have s2: "busy env dev i s2" "accounted content cap rcvd s2 out" "taken (us_hw s2) = taken (us_hw s)" "us_mem s2 = us_mem s"
    using busy acc
    by (simp_all add: s2_def emit_stopped [OF l1])
       (auto simp: s1_def busy_def Let_def linked_def uart.write_law unreported_def cong: if_cong
         intro: accounted_cong [of rcvd s out])
  obtain s3 where s3: "report_current ?call s2 = s3" "busy env dev i s3" "accounted content cap rcvd s3 out"
    "reported s2 s3" "unreported s3 = []"
    using report_current [OF s2(1,2)] by metis
  define s4 where "s4 = upd_data (\<lambda>d. d\<lparr>ud_current_buf := 0, ud_next_buf := 0, ud_current_len := 0, ud_current_pos := 0,
      ud_reported := 0, ud_next_len := 0\<rparr>) s3"
  have l4: "linked dev s4" using s3(2) by (simp add: s4_def linked_def busy_def)
  have b: "i < 2" "ud_current_buf (us_data s3) = driver_buf env i" "mgr_driver_owned (us_app s4) ! i"
    "if ud_next_buf (us_data s3) = 0 then \<not> mgr_driver_owned (us_app s4) ! (1 - i)
     else ud_next_buf (us_data s3) = driver_buf env (1 - i) \<and> mgr_driver_owned (us_app s4) ! (1 - i)"
    using s3(2) by (auto simp: busy_def Let_def s4_def split: if_splits)
  obtain n where rel: "release_buffer ?call (ud_next_buf (us_data s3)) (release_buffer ?call (driver_buf env i) s4) =
      upd_mgr (\<lambda>m. m\<lparr>mgr_driver_owned := [False, False], mgr_released_events := n\<rparr>) s4"
    by (rule release_all [OF l4 b(1) refl b(3,4)])
  define s5 where "s5 = upd_data (\<lambda>d. d\<lparr>ud_state := LAB20_RX_IDLE\<rparr>)
     (upd_mgr (\<lambda>m. m\<lparr>mgr_driver_owned := [False, False], mgr_released_events := n\<rparr>) s4)"
  have l5: "linked dev s5" using l4 by (simp add: s5_def linked_def)
  have fin: "finish_rx (env_config env) ?call reason s = lab20_uart_emit ?call UART_RX_DISABLED s5"
    unfolding finish_rx_def Let_def s1_def [symmetric] s2_def [symmetric] s3(1) s4_def [symmetric] b(2) rel s5_def ..
  have un: "unreported s5 = []" by (simp add: s5_def s4_def unreported_def)
  show "idle dev (finish_rx (env_config env) ?call reason s)"
    unfolding fin emit_disabled [OF l5] by (simp add: idle_def linked_def) (use l5 in \<open>simp add: s5_def s4_def linked_def\<close>)
  show "accounted content cap rcvd (finish_rx (env_config env) ?call reason s) out"
    unfolding fin emit_disabled [OF l5]
    by (rule accounted_cong [OF s3(3)]) (use un s3(5) in \<open>simp_all add: s5_def s4_def unreported_def\<close>)
  show "taken (us_hw (finish_rx (env_config env) ?call reason s)) = taken (us_hw s)"
    unfolding fin emit_disabled [OF l5] using s2(3) s3(4) by (simp add: s5_def s4_def reported_def)
  show "us_mem (finish_rx (env_config env) ?call reason s) = us_mem s"
    unfolding fin emit_disabled [OF l5] using s2(4) s3(4) by (simp add: s5_def s4_def reported_def)
qed

lemma request_next:
  assumes "busy env dev i s" "ud_state (us_data s) = LAB20_RX_ACTIVE" "ud_next_buf (us_data s) = 0"
  obtains s' where "request_buffer (lab20_call env dev) s = s'" "busy env dev i s'" "ud_next_buf (us_data s') \<noteq> 0"
    "us_hw s' = us_hw s" "us_mem s' = us_mem s" "ud_state (us_data s') = LAB20_RX_ACTIVE"
    "ud_initial_request (us_data s') = ud_initial_request (us_data s)" "ud_reported (us_data s') = ud_reported (us_data s)"
    "ud_current_pos (us_data s') = ud_current_pos (us_data s)"
    "\<And>rcvd out. accounted content cap rcvd s out \<Longrightarrow> accounted content cap rcvd s' out"
proof -
  let ?s1 = "upd_data (\<lambda>d. d\<lparr>ud_request_outstanding := True\<rparr>) s"
  have b1: "busy env dev i ?s1" using assms(1) by (simp add: busy_def Let_def linked_def cong: if_cong)
  let ?s' = "upd_data (\<lambda>d. d\<lparr>ud_next_buf := driver_buf env (1 - i), ud_next_len := 8, ud_request_outstanding := False\<rparr>)
      (upd_mgr (\<lambda>m. m\<lparr>mgr_driver_owned := (mgr_driver_owned m)[1 - i := True],
         mgr_request_events := mgr_request_events m + 1\<rparr>) ?s1)"
  have run: "request_buffer (lab20_call env dev) s = ?s'"
    unfolding request_buffer_def Let_def by (rule emit_request [OF b1]) (use assms in simp_all)
  have i: "i < 2" "length (mgr_driver_owned (us_app s)) = 2" using assms(1) by (simp_all add: busy_def linked_def)
  have ne: "1 - i < 2" "i \<noteq> 1 - i" using i(1) by (auto, arith)
  have busy': "busy env dev i ?s'"
    using assms(1) i ne by (simp add: busy_def Let_def linked_def)
  have acc: "accounted content cap rcvd ?s' out" if "accounted content cap rcvd s out" for rcvd out
    by (rule accounted_cong [OF that]) (simp_all add: unreported_def)
  show ?thesis by (rule that [OF run busy']) (use assms(2) ne(1) acc in simp_all)
qed

lemma isr_buffer_full:
  assumes busy: "busy env dev i s" and acc: "accounted content cap (taken (us_hw s)) s out"
    and st: "ud_state (us_data s) = LAB20_RX_ACTIVE" "ud_next_buf (us_data s) \<noteq> 0" "\<not> ud_initial_request (us_data s)"
  shows "lab20_inv env taken content cap dev (isr_buffer_full (env_config env) (lab20_call env dev) s) out \<and>
    taken (us_hw (isr_buffer_full (env_config env) (lab20_call env dev) s)) = taken (us_hw s)"
proof -
  let ?call = "lab20_call env dev"
  obtain s1 where s1: "report_current ?call s = s1" "busy env dev i s1" "accounted content cap (taken (us_hw s)) s1 out"
    "reported s s1" "unreported s1 = []" using report_current [OF busy acc] by metis
  have d1: "us_data s1 = (us_data s)\<lparr>ud_reported := ud_current_pos (us_data s)\<rparr>" "us_hw s1 = us_hw s"
    using s1(4) by (simp_all add: reported_def)
  define s2 where "s2 = upd_data (\<lambda>d. d\<lparr>ud_current_buf := ud_next_buf d, ud_current_len := ud_next_len d, ud_current_pos := 0,
      ud_reported := 0, ud_next_buf := 0, ud_next_len := 0\<rparr>) s1"
  have b: "i < 2" "linked dev s1" "mgr_driver_owned (us_app s1) ! i" "mgr_driver_owned (us_app s1) ! (1 - i)"
    "ud_next_buf (us_data s1) = driver_buf env (1 - i)" "ud_next_len (us_data s1) = 8"
    "ud_current_buf (us_data s1) = driver_buf env i"
    using s1(2) st(2) d1 by (simp_all add: busy_def Let_def split: if_splits)
  have l2: "linked dev s2" "mgr_driver_owned (us_app s2) ! i" using b by (simp_all add: s2_def linked_def)
  define s3 where "s3 = upd_mgr (\<lambda>m. m\<lparr>mgr_driver_owned := (mgr_driver_owned m)[i := False],
      mgr_released_events := mgr_released_events m + 1\<rparr>) s2"
  have s3: "release_buffer ?call (driver_buf env i) s2 = s3"
    using emit_released [OF l2(1) b(1) l2(2)] b(1) by (simp add: release_buffer_def s3_def)
  have ne: "1 - i < 2" "i \<noteq> 1 - i" "1 - (1 - i) = i" using b(1) by (auto, arith)
  have len2: "length (mgr_driver_owned (us_app s1)) = 2" using b(2) by (simp add: linked_def)
  have b3: "busy env dev (1 - i) s3"
    using b ne len2 by (simp add: s3_def s2_def busy_def Let_def linked_def)
  have st3: "ud_state (us_data s3) = LAB20_RX_ACTIVE" "ud_next_buf (us_data s3) = 0" "\<not> ud_initial_request (us_data s3)"
    "us_hw s3 = us_hw s" "ud_reported (us_data s3) = 0" "ud_current_pos (us_data s3) = 0"
    using st d1 by (simp_all add: s3_def s2_def)
  have acc3: "accounted content cap (taken (us_hw s)) s3 out"
    by (rule accounted_cong [OF s1(3)]) (use s1(5) in \<open>simp_all add: s3_def s2_def unreported_def\<close>)
  obtain s4 where s4: "request_buffer ?call s3 = s4" "busy env dev (1 - i) s4" "ud_next_buf (us_data s4) \<noteq> 0"
    "us_hw s4 = us_hw s3" "us_mem s4 = us_mem s3" "ud_state (us_data s4) = LAB20_RX_ACTIVE"
    "ud_initial_request (us_data s4) = ud_initial_request (us_data s3)" "ud_reported (us_data s4) = ud_reported (us_data s3)"
    "ud_current_pos (us_data s4) = ud_current_pos (us_data s3)"
    "\<And>rcvd out. accounted content cap rcvd s3 out \<Longrightarrow> accounted content cap rcvd s4 out"
    using request_next [OF b3 st3(1,2)] by metis
  have run: "isr_buffer_full (env_config env) ?call s = s4"
    unfolding isr_buffer_full_def Let_def s1(1) s2_def [symmetric] b(7) s3
    using st d1 st3(1) s4(1,6) by simp
  have "receiving env dev (1 - i) s4" using s4 st3 by (simp add: receiving_def)
  then show ?thesis unfolding run lab20_inv_def using s4(4,10) acc3 st3(4) by auto
qed

lemma unreported_snoc:
  assumes "ud_reported d = 0" "ud_current_pos d < 8"
    and "s' = s\<lparr>us_hw := h, us_mem := (us_mem s)(ud_current_buf d + ud_current_pos d := b),
      us_data := d\<lparr>ud_current_pos := ud_current_pos d + 1, ud_hardware_bytes := n\<rparr>\<rparr>" "d = us_data s"
  shows "unreported s' = unreported s @ [b]"
proof -
  let ?p = "ud_current_pos d"
  have p: "unat ?p < 8" using assms(2) by (simp add: word_less_nat_alt)
  then have sp: "unat (?p + 1) = Suc (unat ?p)" by (simp add: unat_word_ariths)
  have "ud_current_buf d + of_nat j \<noteq> ud_current_buf d + ?p" if "j < unat ?p" for j
    using that p unat_u32_of_nat [of j] by auto
  then show ?thesis using assms sp by (simp add: unreported_def mem_bytes_def)
qed

lemma isr_receive:
  assumes rcv: "receiving env dev i s" and acc: "accounted content cap (taken (us_hw s)) s out"
    and st: "ud_state (us_data s) = LAB20_RX_ACTIVE" "\<not> ud_initial_request (us_data s)"
  shows "lab20_inv env taken content cap dev (isr_receive (env_config env) (lab20_call env dev) s) out"
proof -
  let ?regs = "cfg_regs (env_config env)" and ?call = "lab20_call env dev" and ?d = "us_data s"
  obtain status h where rs: "rd_state ?regs (us_hw s) = (status, h)" by (rule prod.exhaust)
  have th: "taken h = taken (us_hw s)" by (rule uart.state_law [OF rs])
  have busy: "busy env dev i s" and rep: "ud_reported ?d = 0" "ud_current_pos ?d < 8" "ud_next_buf ?d \<noteq> 0"
    using rcv st by (simp_all add: receiving_def)
  show ?thesis
  proof (cases "status AND UART_CMSDK_STATE_RXOR \<noteq> 0")
    case True
    define s1 where "s1 = upd_hw (wr_intclear ?regs UART_CMSDK_INT_RXOR)
      (upd_data (\<lambda>d. d\<lparr>ud_hardware_overruns := ud_hardware_overruns d + 1\<rparr>) (s\<lparr>us_hw := h\<rparr>))"
    have b1: "busy env dev i s1" using busy by (simp add: s1_def busy_def Let_def linked_def cong: if_cong)
    have t1: "taken (us_hw s1) = taken (us_hw s)" by (simp add: s1_def uart.write_law th)
    have a1: "accounted content cap (taken (us_hw s)) s1 out"
      by (rule accounted_cong [OF acc]) (simp_all add: s1_def unreported_def)
    have "isr_receive (env_config env) ?call s = finish_rx (env_config env) ?call UART_ERROR_OVERRUN s1"
      using True rs by (simp add: isr_receive_def Let_def s1_def)
    then show ?thesis using finish_rx [OF b1 a1, of UART_ERROR_OVERRUN] t1 by (simp add: lab20_inv_def)
  next
    case no_overrun: False
    show ?thesis
    proof (cases "status AND UART_CMSDK_STATE_RXBF = 0")
      case True
      then have run: "isr_receive (env_config env) ?call s = s\<lparr>us_hw := h\<rparr>"
        using no_overrun rs by (simp add: isr_receive_def Let_def)
      have "receiving env dev i (s\<lparr>us_hw := h\<rparr>)"
        using rcv by (simp add: receiving_def busy_def Let_def linked_def cong: if_cong)
      moreover have "accounted content cap (taken h) (s\<lparr>us_hw := h\<rparr>) out"
        unfolding th by (rule accounted_cong [OF acc]) (simp_all add: unreported_def)
      ultimately show ?thesis unfolding run by (auto simp: lab20_inv_def)
    next
      case False
      obtain v h' where rd: "rd_data ?regs h = (v, h')" by (rule prod.exhaust)
      let ?b = "ucast (v AND UART_CMSDK_DATA_MASK) :: u8"
      have t': "taken h' = taken (us_hw s) @ [?b]" using uart.data_law [OF rd] th by simp
      define s1 where "s1 = s\<lparr>us_hw := h', us_mem := (us_mem s)(ud_current_buf ?d + ud_current_pos ?d := ?b),
        us_data := ?d\<lparr>ud_current_pos := ud_current_pos ?d + 1, ud_hardware_bytes := ud_hardware_bytes ?d + 1\<rparr>\<rparr>"
      have un: "unreported s1 = unreported s @ [?b]" by (rule unreported_snoc [OF rep(1,2) s1_def refl])
      have run: "isr_receive (env_config env) ?call s =
          (if ud_current_pos (us_data s1) < ud_current_len (us_data s1) then s1 else isr_buffer_full (env_config env) ?call s1)"
        using no_overrun False rs rd by (simp add: isr_receive_def Let_def s1_def)
      have pos: "ud_current_pos ?d + 1 \<le> 8" using rep(2) by (rule inc_le)
      have b1: "busy env dev i s1" using busy pos rep(1) by (simp add: s1_def busy_def Let_def linked_def cong: if_cong)
      have held1: "held content s1 out = held content s out @ [?b]" using un by (simp add: held_def s1_def)
      have a1: "accounted content cap (taken (us_hw s1)) s1 out"
        using acc held1 t' unfolding accounted_def Let_def
        by (simp add: s1_def list_emb_append_mono)
      have st1: "ud_state (us_data s1) = LAB20_RX_ACTIVE" "ud_next_buf (us_data s1) \<noteq> 0" "\<not> ud_initial_request (us_data s1)"
        using st rep(3) by (simp_all add: s1_def)
      show ?thesis
      proof (cases "ud_current_pos (us_data s1) < ud_current_len (us_data s1)")
        case True
        have "ud_current_len (us_data s1) = 8" using b1 by (simp add: busy_def Let_def)
        then have "receiving env dev i s1"
          using b1 st1 True rep(1) by (simp add: receiving_def) (simp add: s1_def)
        then show ?thesis using run True a1 by (auto simp: lab20_inv_def)
      next
        case False
        then show ?thesis using run isr_buffer_full [OF b1 a1 st1] by simp
      qed
    qed
  qed
qed

text \<open>Every step keeps the invariant.\<close>

lemma isr_inv:
  assumes "lab20_inv env taken content cap dev s out"
  shows "lab20_inv env taken content cap dev (lab20_uart_isr (env_config env) (lab20_call env dev) s) out"
proof -
  let ?regs = "cfg_regs (env_config env)" and ?call = "lab20_call env dev"
  define s1 where "s1 = upd_hw (wr_intclear ?regs UART_CMSDK_INT_RX) (upd_data (\<lambda>d. d\<lparr>ud_irq_entries := ud_irq_entries d + 1\<rparr>) s)"
  have acc1: "accounted content cap (taken (us_hw s1)) s1 out"
    using assms by (auto simp: lab20_inv_def s1_def uart.write_law unreported_def intro: accounted_cong)
  have run: "lab20_uart_isr (env_config env) ?call s =
      (if ud_state (us_data s1) = LAB20_RX_STOPPING then finish_rx (env_config env) ?call 0 s1
       else if ud_state (us_data s1) \<noteq> LAB20_RX_ACTIVE then s1
       else if ud_initial_request (us_data s1) then
         let s = request_buffer ?call (upd_data (\<lambda>d. d\<lparr>ud_initial_request := False\<rparr>) s1) in
         if ud_state (us_data s) = LAB20_RX_STOPPING then finish_rx (env_config env) ?call 0 s
         else isr_receive (env_config env) ?call s
       else isr_receive (env_config env) ?call s1)"
    unfolding lab20_uart_isr_def Let_def s1_def ..
  from assms consider "idle dev s1" | i where "receiving env dev i s1"
    by (auto simp: lab20_inv_def s1_def idle_def receiving_def busy_def Let_def linked_def cong: if_cong)
  then show ?thesis
  proof cases
    case 1
    then have "lab20_uart_isr (env_config env) ?call s = s1" using run by (simp add: idle_def)
    then show ?thesis using 1 acc1 by (simp add: lab20_inv_def)
  next
    case (2 i)
    then have busy: "busy env dev i s1" "ud_reported (us_data s1) = 0" "ud_current_pos (us_data s1) < 8"
      by (simp_all add: receiving_def)
    show ?thesis
    proof (cases "ud_state (us_data s1)")
      case LAB20_RX_IDLE
      then show ?thesis using 2 by (simp add: receiving_def)
    next
      case LAB20_RX_STOPPING
      then show ?thesis using run finish_rx [OF busy(1) acc1, of 0] by (simp add: lab20_inv_def)
    next
      case act: LAB20_RX_ACTIVE
      show ?thesis
      proof (cases "ud_initial_request (us_data s1)")
        case False
        then show ?thesis using run act isr_receive [OF 2 acc1 act False] by simp
      next
        case True
        define s2 where "s2 = upd_data (\<lambda>d. d\<lparr>ud_initial_request := False\<rparr>) s1"
        have b2: "busy env dev i s2" using busy(1) by (simp add: s2_def busy_def Let_def linked_def cong: if_cong)
        have st2: "ud_state (us_data s2) = LAB20_RX_ACTIVE" "ud_next_buf (us_data s2) = 0"
          using 2 act True by (simp_all add: s2_def receiving_def)
        have acc2: "accounted content cap (taken (us_hw s1)) s2 out"
          by (rule accounted_cong [OF acc1]) (simp_all add: s2_def unreported_def)
        obtain s3 where s3: "request_buffer ?call s2 = s3" "busy env dev i s3" "ud_next_buf (us_data s3) \<noteq> 0"
          "us_hw s3 = us_hw s2" "us_mem s3 = us_mem s2" "ud_state (us_data s3) = LAB20_RX_ACTIVE"
          "ud_initial_request (us_data s3) = ud_initial_request (us_data s2)" "ud_reported (us_data s3) = ud_reported (us_data s2)"
          "ud_current_pos (us_data s3) = ud_current_pos (us_data s2)"
          "\<And>rcvd out. accounted content cap rcvd s2 out \<Longrightarrow> accounted content cap rcvd s3 out"
          using request_next [OF b2 st2] by metis
        have "receiving env dev i s3" using s3 busy by (simp add: receiving_def s2_def)
        moreover have "accounted content cap (taken (us_hw s3)) s3 out" using s3(4,10) acc2 by (simp add: s2_def)
        moreover have "lab20_uart_isr (env_config env) ?call s = isr_receive (env_config env) ?call s3"
          using run act True s3(1,6) by (simp add: s2_def Let_def)
        ultimately show ?thesis using isr_receive [of i s3 out] s3(6,7) by (simp add: s2_def)
      qed
    qed
  qed
qed

lemma step_inv:
  assumes "lab20_step env taken dev (g, out) (g', out')" "lab20_inv env taken content cap dev (l20_sys g) out"
  shows "lab20_inv env taken content cap dev (l20_sys g') out'"
  using assms(1)
proof (cases rule: lab20_step.cases)
  case isr
  with isr_inv [OF assms(2)] show ?thesis by simp
next
  case stop
  have hw: "taken (NVIC_SetPendingIRQ (cfg_regs (env_config env)) n (rx_ctrl_off (cfg_regs (env_config env)) h)) = taken h" for n h
    by (simp add: uart.write_law)
  show ?thesis
    using assms(2) stop
    by (auto simp: lab20_main_stop_def lab20_uart_rx_disable_def Let_def lab20_inv_def idle_def receiving_def busy_def
        linked_def hw unreported_def cong: if_cong intro: accounted_cong)
next
  case consume
  show ?thesis
  proof (cases "g_consume_enabled g")
    case False
    then show ?thesis using consume assms(2) by (simp add: lab20_main_consume_def consumed_def)
  next
    case True
    let ?s = "l20_sys g" and ?m = "us_app (l20_sys g)"
    obtain bytes q where get: "ring_buf_get (env_ring env) 16 (mgr_app_ring ?m) = (bytes, q)" by (rule prod.exhaust)
    note law = rb.get_law [OF get]
    let ?s' = "upd_mgr (\<lambda>m. m\<lparr>mgr_app_ring := q, mgr_bytes_read := mgr_bytes_read m + of_nat (length bytes)\<rparr>) ?s"
    have lim: "min 16 RX_RING_SIZE = (16 :: u32)" by simp
    have s': "l20_sys g' = ?s'" "out' = out @ bytes"
      using consume True get
      by (simp_all add: lab20_main_consume_def consumed_def rx_manager_read_def lim Let_def)
    have cont: "content (mgr_app_ring ?m) = bytes @ content q" and cap_same: "cap q = cap (mgr_app_ring ?m)"
      using law by simp_all
    have held': "held content ?s' (out @ bytes) = held content ?s out"
      using cont by (simp add: held_def unreported_def)
    have acc: "accounted content cap (taken (us_hw ?s)) ?s out" using assms(2) by (simp add: lab20_inv_def)
    have "accounted content cap (taken (us_hw ?s)) ?s' (out @ bytes)"
      using acc unfolding accounted_def Let_def held'
      by (simp add: cont cap_same add.assoc)
    moreover have "idle dev ?s' \<or> (\<exists>i. receiving env dev i ?s')"
      using assms(2) by (simp add: lab20_inv_def idle_def receiving_def busy_def linked_def Let_def cong: if_cong)
    ultimately show ?thesis unfolding s' by (simp add: lab20_inv_def)
  qed
next
  case status
  then show ?thesis using assms(2) by (simp add: lab20_main_status_def)
next
  case (peripheral h)
  then show ?thesis using assms(2)
    by (auto simp: lab20_inv_def idle_def receiving_def busy_def linked_def Let_def unreported_def cong: if_cong
        intro: accounted_cong)
next
  case (debugger c r)
  then show ?thesis using assms(2) by simp
qed

lemma init_inv:
  assumes "us_data (l20_sys g) = lab20_uart_data_0" "taken (us_hw (l20_sys g)) = []" "env_ready env dev"
  shows "g_init_rc (lab20_main_init env dev g) = 0"
    and "lab20_inv env taken content cap dev (l20_sys (lab20_main_init env dev g)) []"
proof -
  let ?regs = "cfg_regs (env_config env)"
  have ctrl: "taken (case rd_ctrl ?regs h of (v, h) \<Rightarrow> wr_ctrl ?regs (f v) h) = taken h" for h f
    by (auto simp: uart.write_law split: prod.split dest: uart.ctrl_law)
  have "g_init_rc (lab20_main_init env dev g) = 0 \<and>
    lab20_inv env taken content cap dev (l20_sys (lab20_main_init env dev g)) []"
    using assms rb.init_law [of 64] driver_buf_nz [of 0]
    by (simp add: lab20_main_init_def rx_manager_init_def lab20_uart_callback_set_def lab20_uart_data_0_def
        lab20_uart_rx_enable_def rx_manager_clear_def Let_def lab20_inv_def accounted_def held_def unreported_def
        uart.write_law ctrl receiving_def busy_def linked_def idle_def)
       (rule exI [of _ 0], simp)
  then show "g_init_rc (lab20_main_init env dev g) = 0"
    "lab20_inv env taken content cap dev (l20_sys (lab20_main_init env dev g)) []" by simp_all
qed

lemma lent_reachable_inv:
  assumes "lab20_reachable env taken dev g out"
  shows "lab20_inv env taken content cap dev (l20_sys g) out"
proof -
  obtain g0 where g0: "us_data (l20_sys g0) = lab20_uart_data_0" "taken (us_hw (l20_sys g0)) = []" "env_ready env dev"
    and run: "(lab20_step env taken dev)\<^sup>*\<^sup>* (lab20_main_init env dev g0, []) (g, out)"
    using assms by (auto simp: lab20_reachable_def)
  from run show ?thesis
  proof (induction rule: rtranclp_induct2)
    case refl
    then show ?case by (rule init_inv(2) [OF g0])
  next
    case (step g out g' out')
    then show ?case using step_inv by blast
  qed
qed

lemma reachable_accounted:
  assumes "lab20_reachable env taken dev g out" "length (taken (us_hw (l20_sys g))) < 2 ^ 32"
  shows "subseq (held content (l20_sys g) out) (taken (us_hw (l20_sys g))) \<and>
    length (taken (us_hw (l20_sys g))) = length (held content (l20_sys g) out) + unat (mgr_dropped_bytes (us_app (l20_sys g)))"
proof -
  let ?t = "taken (us_hw (l20_sys g))" and ?h = "held content (l20_sys g) out"
  have acc: "subseq ?h ?t" "of_nat (length ?t) = of_nat (length ?h) + mgr_dropped_bytes (us_app (l20_sys g))"
    using lent_reachable_inv [OF assms(1)] by (simp_all add: lab20_inv_def accounted_def Let_def)
  have le: "length ?h \<le> length ?t" using acc(1) by (rule list_emb_length)
  have "mgr_dropped_bytes (us_app (l20_sys g)) = of_nat (length ?t - length ?h)"
    using acc(2) le by (simp add: of_nat_diff)
  then have "unat (mgr_dropped_bytes (us_app (l20_sys g))) = length ?t - length ?h"
    using assms(2) unat_u32_of_nat [of "length ?t - length ?h"] by simp
  then show ?thesis using acc(1) le by simp
qed

lemma stopping_isr:
  assumes "lab20_reachable env taken dev g out" "ud_state (us_data (l20_sys g)) = LAB20_RX_STOPPING"
  shows "idle dev (lab20_uart_isr (env_config env) (lab20_call env dev) (l20_sys g))"
proof -
  let ?regs = "cfg_regs (env_config env)" and ?s = "l20_sys g"
  define s1 where "s1 = upd_hw (wr_intclear ?regs UART_CMSDK_INT_RX) (upd_data (\<lambda>d. d\<lparr>ud_irq_entries := ud_irq_entries d + 1\<rparr>) ?s)"
  have inv: "lab20_inv env taken content cap dev ?s out" by (rule lent_reachable_inv [OF assms(1)])
  then obtain i where i: "receiving env dev i ?s" using assms(2) by (auto simp: lab20_inv_def idle_def)
  have "busy env dev i s1"
    using i by (simp add: s1_def receiving_def busy_def Let_def linked_def cong: if_cong)
  moreover have "accounted content cap (taken (us_hw ?s)) s1 out"
    using inv by (auto simp: lab20_inv_def s1_def unreported_def intro: accounted_cong)
  ultimately have "idle dev (finish_rx (env_config env) (lab20_call env dev) 0 s1)" by (rule finish_rx(1))
  then show ?thesis using assms(2) by (simp add: lab20_uart_isr_def Let_def s1_def)
qed

end

section \<open>Properties\<close>

text \<open>C2.  No byte is lost silently, duplicated or reordered: in every reachable state, what the
  application has read, followed by what is queued, followed by what the driver holds, is a
  subsequence of the bytes taken from the data register, and the bytes missing are exactly those
  counted as dropped.  With no drop it is the stream itself.\<close>

theorem lab20_bytes_conserved:
  assumes "lab20_system env taken content cap" "lab20_reachable env taken dev g out"
    and "length (taken (us_hw (l20_sys g))) < 2 ^ 32"
  shows "subseq (held content (l20_sys g) out) (taken (us_hw (l20_sys g))) \<and>
    length (taken (us_hw (l20_sys g))) = length (held content (l20_sys g) out) + unat (mgr_dropped_bytes (us_app (l20_sys g))) \<and>
    (mgr_dropped_bytes (us_app (l20_sys g)) = 0 \<longrightarrow> held content (l20_sys g) out = taken (us_hw (l20_sys g)))"
  using lab20_system.reachable_accounted [OF assms]
  by (auto dest: subseq_same_length)

text \<open>C4.  Ownership: the manager has marked a buffer as lent exactly while the driver fills it or
  keeps it as its next one.  An idle driver has neither.  One that is not idle fills one of the two buffers and stays
  within it; until its first request for another one is answered it has no next buffer, and from then on,
  for as long as it is not idle, the next one is the other of the two.\<close>

theorem lab20_buffer_ownership:
  assumes "lab20_system env taken content cap" "lab20_reachable env taken dev g out"
  shows "let d = us_data (l20_sys g); owned = mgr_driver_owned (us_app (l20_sys g)) in
    (if ud_state d = LAB20_RX_IDLE then owned = [False, False] \<and> ud_current_buf d = 0 \<and> ud_next_buf d = 0
     else ud_current_pos d < 8 \<and> ud_current_len d = 8 \<and> (\<exists>i < 2. ud_current_buf d = driver_buf env i \<and> owned ! i \<and>
       (if ud_initial_request d then ud_next_buf d = 0 \<and> \<not> owned ! (1 - i)
        else ud_next_buf d = driver_buf env (1 - i) \<and> owned ! (1 - i))))"
proof -
  have "lab20_inv env taken content cap dev (l20_sys g) out" by (rule lab20_system.lent_reachable_inv [OF assms])
  then consider "idle dev (l20_sys g)" | i where "receiving env dev i (l20_sys g)" by (auto simp: lab20_inv_def)
  then show ?thesis
  proof cases
    case 1
    then show ?thesis by (simp add: idle_def Let_def)
  next
    case (2 i)
    then have "ud_state (us_data (l20_sys g)) \<noteq> LAB20_RX_IDLE" by (simp add: receiving_def)
    moreover have "i < 2" "ud_current_pos (us_data (l20_sys g)) < 8" "ud_current_len (us_data (l20_sys g)) = 8"
      "ud_current_buf (us_data (l20_sys g)) = driver_buf env i" "mgr_driver_owned (us_app (l20_sys g)) ! i"
      using 2 by (simp_all add: receiving_def busy_def Let_def)
    moreover have "if ud_initial_request (us_data (l20_sys g))
      then ud_next_buf (us_data (l20_sys g)) = 0 \<and> \<not> mgr_driver_owned (us_app (l20_sys g)) ! (1 - i)
      else ud_next_buf (us_data (l20_sys g)) = driver_buf env (1 - i) \<and> mgr_driver_owned (us_app (l20_sys g)) ! (1 - i)"
      using 2 by (cases "ud_initial_request (us_data (l20_sys g))") (simp_all add: receiving_def busy_def Let_def cong: if_cong)
    ultimately show ?thesis unfolding Let_def by (simp only: if_False) blast
  qed
qed

text \<open>Note.  A stop request takes effect at the next receive interrupt: the driver is idle, every
  buffer is back with the manager and nothing received is left unreported.\<close>

theorem lab20_stop_takes_effect:
  assumes "lab20_system env taken content cap" "lab20_reachable env taken dev g out"
    and "ud_state (us_data (l20_sys g)) = LAB20_RX_STOPPING"
    and "s' = lab20_uart_isr (env_config env) (lab20_call env dev) (l20_sys g)"
  shows "ud_state (us_data s') = LAB20_RX_IDLE \<and> mgr_driver_owned (us_app s') = [False, False] \<and>
    ud_current_buf (us_data s') = 0 \<and> ud_next_buf (us_data s') = 0 \<and> unreported s' = []"
  using lab20_system.stopping_isr [OF assms(1-3)] unfolding assms(4)
  by (simp add: idle_def unreported_def)

section \<open>An instance\<close>

text \<open>A peripheral with a queue of arriving bytes, and a queue that is a list with a capacity.\<close>

record fifo_uart =
  fu_arriving :: "u8 list"
  fu_taken :: "u8 list"

definition fifo_regs :: "fifo_uart uart_cmsdk_regs" where
  "fifo_regs = \<lparr>rd_data = (\<lambda>h. case fu_arriving h of
         [] \<Rightarrow> (0, h\<lparr>fu_taken := fu_taken h @ [0]\<rparr>)
       | b # bs \<Rightarrow> (ucast b, h\<lparr>fu_arriving := bs, fu_taken := fu_taken h @ [b]\<rparr>)),
     wr_data = (\<lambda>_ h. h), rd_state = (\<lambda>h. (if fu_arriving h = [] then 0 else UART_CMSDK_STATE_RXBF, h)),
     rd_ctrl = (\<lambda>h. (0, h)), wr_ctrl = (\<lambda>_ h. h), wr_intclear = (\<lambda>_ h. h), wr_bauddiv = (\<lambda>_ h. h),
     NVIC_SetPendingIRQ = (\<lambda>_ h. h), NVIC_ClearPendingIRQ = (\<lambda>_ h. h), irq_enable = (\<lambda>_ h. h)\<rparr>"

definition list_ring :: "(nat \<times> u8 list) ring_buf_ops" where
  "list_ring = \<lparr>ring_buf_init = (\<lambda>n. (unat n, [])),
     ring_buf_put = (\<lambda>xs q. let k = min (length xs) (fst q - length (snd q)) in (of_nat k, fst q, snd q @ take k xs)),
     ring_buf_get = (\<lambda>n q. (take (unat n) (snd q), fst q, drop (unat n) (snd q))),
     ring_buf_size_get = (\<lambda>q. of_nat (length (snd q)))\<rparr>"

definition qemu_env :: "(fifo_uart, nat \<times> u8 list) lab20_env" where
  "qemu_env = \<lparr>env_config = \<lparr>cfg_regs = fifo_regs, clock_hz = 25000000, baudrate = 115200, rx_irq = 0\<rparr>,
     env_base = 0x20000000, env_ring = list_ring, env_ready = (\<lambda>_. True)\<rparr>"

interpretation qemu: lab20_system qemu_env fu_taken snd fst 0
proof
  let ?regs = "cfg_regs (env_config qemu_env)"
  show "rd_data ?regs h = (v, h') \<Longrightarrow> fu_taken h' = fu_taken h @ [ucast (v AND UART_CMSDK_DATA_MASK)]" for h h' v
  proof -
    assume rd: "rd_data ?regs h = (v, h')"
    have m: "UART_CMSDK_DATA_MASK = mask 8" by (simp add: mask_eq_exp_minus_1)
    have "ucast (ucast b AND UART_CMSDK_DATA_MASK) = b" for b :: u8
      unfolding m by (rule bit_word_eqI) (auto simp: bit_simps)
    then show ?thesis using rd by (auto simp: qemu_env_def fifo_regs_def split: list.splits)
  qed
  show "length xs < 2 ^ 32 \<Longrightarrow> ring_buf_put (env_ring qemu_env) xs q = (k, q') \<Longrightarrow>
      unat k = min (length xs) (fst q - length (snd q)) \<and> snd q' = snd q @ take (unat k) xs \<and> fst q' = fst q" for xs q k q'
    using unat_u32_of_nat [of "min (length xs) (fst q - length (snd q))"]
    by (auto simp: qemu_env_def list_ring_def Let_def)
qed (auto simp: qemu_env_def fifo_regs_def list_ring_def unat_of_nat)

definition lab20_boot :: "u8 list \<Rightarrow> (fifo_uart, nat \<times> u8 list) lab20" where
  "lab20_boot bytes = \<lparr>l20_sys = \<lparr>us_hw = \<lparr>fu_arriving = bytes, fu_taken = []\<rparr>, us_data = lab20_uart_data_0,
       us_mem = (\<lambda>_. 0), us_app = rx_manager_clear list_ring 0\<rparr>,
     g_consume_enabled = True, g_stop_requested = True, g_init_rc = 0, g_stop_rc = 0, g_last_read = replicate 16 0,
     g_last_read_len = 0, g_total_read = 0, g_ring_used = 0\<rparr>"

text \<open>A run: initialisation, the first interrupt with a byte waiting, a stop request.\<close>

definition lab20_first :: "(fifo_uart, nat \<times> u8 list) lab20" where
  "lab20_first = (let g = lab20_main_init qemu_env 0 (lab20_boot [0x41]) in
     g\<lparr>l20_sys := lab20_uart_isr (env_config qemu_env) (lab20_call qemu_env 0) (l20_sys g)\<rparr>)"

definition lab20_stopped :: "(fifo_uart, nat \<times> u8 list) lab20" where
  "lab20_stopped = lab20_main_stop qemu_env lab20_first"

lemma lab20_first_reachable: "lab20_reachable qemu_env fu_taken 0 lab20_first []"
proof -
  have "(lab20_step qemu_env fu_taken 0)\<^sup>*\<^sup>* (lab20_main_init qemu_env 0 (lab20_boot [0x41]), []) (lab20_first, [])"
    unfolding lab20_first_def Let_def by (rule r_into_rtranclp) (rule lab20_step.isr)
  then show ?thesis unfolding lab20_reachable_def
    by (intro exI [of _ "lab20_boot [0x41]"]) (simp add: lab20_boot_def qemu_env_def)
qed

lemma lab20_stopped_reachable: "lab20_reachable qemu_env fu_taken 0 lab20_stopped []"
  using lab20_first_reachable lab20_step.stop [of qemu_env fu_taken 0 lab20_first "[]"]
  unfolding lab20_reachable_def lab20_stopped_def by (meson rtranclp.rtrancl_into_rtrancl)

lemma find_two: "List.find P [0..<2] = (if P 0 then Some 0 else if P 1 then Some 1 else None)"
  by (simp add: numeral_2_eq_2)

lemmas lab20_run_defs = find_two lab20_main_init_def rx_manager_init_def lab20_boot_def lab20_uart_callback_set_def
  lab20_uart_data_0_def rx_manager_clear_def lab20_uart_rx_enable_def driver_buf_def qemu_env_def fifo_regs_def list_ring_def
  lab20_uart_isr_def request_buffer_def lab20_uart_emit_def lab20_call_def rx_uart_callback_def rx_manager_event_def
  lab20_uart_rx_buf_rsp_def buffers_overlap_def isr_receive_def

lemma lab20_first_taken: "fu_taken (us_hw (l20_sys lab20_first)) = [0x41]"
  by (simp add: lab20_first_def Let_def lab20_run_defs)

lemma lab20_stopped_state: "ud_state (us_data (l20_sys lab20_stopped)) = LAB20_RX_STOPPING"
  by (simp add: lab20_stopped_def lab20_main_stop_def lab20_uart_rx_disable_def lab20_first_def Let_def lab20_run_defs)

lemma lab20_bytes_conserved_witness:
  "subseq (held snd (l20_sys lab20_first) []) [0x41] \<and>
   1 = length (held snd (l20_sys lab20_first) []) + unat (mgr_dropped_bytes (us_app (l20_sys lab20_first)))"
  using lab20_bytes_conserved [OF qemu.lab20_system_axioms lab20_first_reachable] by (simp add: lab20_first_taken)

lemma lab20_buffer_ownership_witness:
  "ud_current_pos (us_data (l20_sys lab20_stopped)) < 8 \<and> ud_current_len (us_data (l20_sys lab20_stopped)) = 8"
  using lab20_buffer_ownership [OF qemu.lab20_system_axioms lab20_stopped_reachable]
  by (simp add: lab20_stopped_state Let_def)

lemma lab20_stop_takes_effect_witness:
  "ud_state (us_data (lab20_uart_isr (env_config qemu_env) (lab20_call qemu_env 0) (l20_sys lab20_stopped))) = LAB20_RX_IDLE"
  using lab20_stop_takes_effect [OF qemu.lab20_system_axioms lab20_stopped_reachable lab20_stopped_state refl] by simp

end
