(* ===== verification/Ring_Buffer.thy ===== *)
theory Ring_Buffer
  imports Prelude "HOL-Library.Sublist"
begin

text \<open>
  labs/lab11_uart_ringbuffer: the ring buffer between the receive interrupt and the main loop
  (ringbuffer.c), and the program around it (main.c).

  The buffer is shown to be a bounded queue.  The program is then modelled at the grain the hardware
  runs it: the interrupt handler is atomic, but it may run between any two accesses of the main loop to
  the shared, volatile fields.  The main loop is therefore a machine with a program counter, one step per
  access.
\<close>

section \<open>The buffer (ringbuffer.h, ringbuffer.c)\<close>

abbreviation (input) RB_SIZE :: nat where "RB_SIZE \<equiv> 64"

record ringbuffer =
  rb_data :: "u8 list"
  rb_head :: u32
  rb_tail :: u32

definition rb_init :: "ringbuffer \<Rightarrow> ringbuffer" where
  "rb_init rb = rb\<lparr>rb_head := 0, rb_tail := 0\<rparr>"

definition rb_empty :: "ringbuffer \<Rightarrow> bool" where
  "rb_empty rb \<longleftrightarrow> rb_head rb = rb_tail rb"

definition rb_full :: "ringbuffer \<Rightarrow> bool" where
  "rb_full rb \<longleftrightarrow> (rb_head rb + 1) mod 64 = rb_tail rb"

definition rb_push :: "u8 \<Rightarrow> ringbuffer \<Rightarrow> bool \<times> ringbuffer" where
  "rb_push c rb =
     (if rb_full rb then (False, rb)
      else
        let rb = rb\<lparr>rb_data := (rb_data rb)[unat (rb_head rb) := c]\<rparr>
        in (True, rb\<lparr>rb_head := (rb_head rb + 1) mod 64\<rparr>))"

text \<open>The out parameter is passed with its content and returned.\<close>

definition rb_pop :: "u8 \<Rightarrow> ringbuffer \<Rightarrow> bool \<times> u8 \<times> ringbuffer" where
  "rb_pop c rb =
     (if rb_empty rb then (False, c, rb)
      else
        let c = rb_data rb ! unat (rb_tail rb)
        in (True, c, rb\<lparr>rb_tail := (rb_tail rb + 1) mod 64\<rparr>))"

section \<open>A bounded queue\<close>

definition rb_wf :: "ringbuffer \<Rightarrow> bool" where
  "rb_wf rb \<longleftrightarrow> length (rb_data rb) = RB_SIZE \<and> rb_head rb < 64 \<and> rb_tail rb < 64"

definition rb_count :: "ringbuffer \<Rightarrow> nat" where
  "rb_count rb = (unat (rb_head rb) + RB_SIZE - unat (rb_tail rb)) mod RB_SIZE"

definition rb_queue :: "ringbuffer \<Rightarrow> u8 list" where
  "rb_queue rb = map (\<lambda>i. rb_data rb ! ((unat (rb_tail rb) + i) mod RB_SIZE)) [0..<rb_count rb]"

lemma length_rb_queue [simp]: "length (rb_queue rb) = rb_count rb"
  by (simp add: rb_queue_def)

lemma rb_count_less: "rb_count rb < 64"
  by (simp add: rb_count_def)

lemma unat_inc:
  assumes "x < (64 :: u32)"
  shows "unat ((x + 1) mod 64) = (if unat x = 63 then 0 else unat x + 1)" "unat x < 64"
proof -
  show x: "unat x < 64" using assms by (simp add: word_less_nat_alt)
  then have "unat (x + 1) = unat x + 1" by (simp add: unat_word_ariths)
  then show "unat ((x + 1) mod 64) = (if unat x = 63 then 0 else unat x + 1)" using x by (auto simp: unat_mod)
qed

text \<open>The ring in natural numbers, without the modulus.\<close>

lemma rb_nat:
  assumes "rb_wf rb"
  obtains h t where "unat (rb_head rb) = h" "unat (rb_tail rb) = t" "h < 64" "t < 64" "length (rb_data rb) = 64"
    "unat ((rb_head rb + 1) mod 64) = (if h = 63 then 0 else h + 1)" "unat ((rb_tail rb + 1) mod 64) = (if t = 63 then 0 else t + 1)"
  using assms unat_inc [of "rb_head rb"] unat_inc [of "rb_tail rb"] by (auto simp: rb_wf_def)

definition distance :: "nat \<Rightarrow> nat \<Rightarrow> nat" where
  "distance h t = (if t \<le> h then h - t else h + 64 - t)"

lemma rb_count_distance:
  "unat (rb_head rb) = h \<Longrightarrow> unat (rb_tail rb) = t \<Longrightarrow> h < 64 \<Longrightarrow> t < 64 \<Longrightarrow> rb_count rb = distance h t"
  by (auto simp: rb_count_def distance_def mod_if)

lemma distance_facts:
  assumes "h < 64" "t < 64"
  shows "distance h t = 0 \<longleftrightarrow> h = t" and "distance h t < 64"
    and "(if h = 63 then 0 else h + 1) = t \<longleftrightarrow> distance h t = 63"
    and "distance h t < 63 \<Longrightarrow> distance (if h = 63 then 0 else h + 1) t = Suc (distance h t)"
    and "h \<noteq> t \<Longrightarrow> distance h (if t = 63 then 0 else t + 1) = distance h t - 1"
  using assms by (auto simp: distance_def split: if_splits)

lemma distance_pos:
  assumes "h < 64" "t < 64"
  shows "(t + distance h t) mod 64 = h" and "i < distance h t \<Longrightarrow> (t + i) mod 64 \<noteq> h"
proof -
  show "(t + distance h t) mod 64 = h" using assms by (cases "t \<le> h") (simp_all add: distance_def)
  assume "i < distance h t"
  moreover have "t + i < 64 \<Longrightarrow> (t + i) mod 64 = t + i" "\<not> t + i < 64 \<Longrightarrow> t + i < 128 \<Longrightarrow> (t + i) mod 64 = t + i - 64"
    by (simp_all add: le_mod_geq)
  ultimately show "(t + i) mod 64 \<noteq> h" using assms by (cases "t + i < 64") (auto simp: distance_def split: if_splits)
qed

lemma rb_empty_queue: "rb_wf rb \<Longrightarrow> rb_empty rb \<longleftrightarrow> rb_queue rb = []"
  by (erule rb_nat) (simp add: rb_empty_def word_unat_eq_iff rb_count_distance distance_facts flip: length_0_conv)

lemma rb_full_queue: "rb_wf rb \<Longrightarrow> rb_full rb \<longleftrightarrow> rb_count rb = 63"
  by (erule rb_nat) (simp only: rb_full_def word_unat_eq_iff rb_count_distance distance_facts)

lemma rb_init_queue: "length (rb_data rb) = RB_SIZE \<Longrightarrow> rb_wf (rb_init rb) \<and> rb_queue (rb_init rb) = []"
  by (simp add: rb_wf_def rb_init_def rb_queue_def rb_count_def)

lemma mod_wf: "rb_wf rb \<Longrightarrow> rb_wf (rb\<lparr>rb_head := x mod 64\<rparr>) \<and> rb_wf (rb\<lparr>rb_tail := x mod 64\<rparr>)"
  by (simp add: rb_wf_def word_less_nat_alt unat_mod)

lemma rb_push_queue:
  assumes "rb_wf rb"
  shows "case rb_push c rb of (ok, rb') \<Rightarrow> rb_wf rb' \<and>
    (if rb_count rb < 63 then ok \<and> rb_queue rb' = rb_queue rb @ [c] else \<not> ok \<and> rb' = rb)"
proof (cases "rb_full rb")
  case True
  then show ?thesis using assms rb_full_queue [OF assms] by (simp add: rb_push_def)
next
  case False
  obtain h t where n: "unat (rb_head rb) = h" "unat (rb_tail rb) = t" "h < 64" "t < 64" "length (rb_data rb) = 64"
    "unat ((rb_head rb + 1) mod 64) = (if h = 63 then 0 else h + 1)" by (rule rb_nat [OF assms])
  let ?rb1 = "rb\<lparr>rb_data := (rb_data rb)[h := c]\<rparr>"
  let ?rb = "?rb1\<lparr>rb_head := (rb_head rb + 1) mod 64\<rparr>"
  note d = distance_facts [OF n(3,4)]
  have count: "rb_count rb = distance h t" by (rule rb_count_distance [OF n(1-4)])
  then have less: "distance h t < 63" using False rb_full_queue [OF assms] d(2) by simp
  have h': "unat (rb_head ?rb) = (if h = 63 then 0 else h + 1)" "unat (rb_tail ?rb) = t" "(if h = 63 then 0 else h + 1) < 64"
    using n by simp_all
  have count': "rb_count ?rb = Suc (distance h t)" using rb_count_distance [OF h' n(4)] d(4) [OF less] by simp
  have "(rb_data rb)[h := c] ! ((t + i) mod 64) = rb_data rb ! ((t + i) mod 64)" if "i < distance h t" for i
    using distance_pos(2) [OF n(3,4) that] by simp
  then have "rb_queue ?rb = rb_queue rb @ [c]"
    using n(2,3,5) distance_pos(1) [OF n(3,4)] unfolding rb_queue_def count count' by simp
  moreover have "rb_wf ?rb" using mod_wf [of ?rb1] assms by (simp add: rb_wf_def)
  ultimately show ?thesis using False less count n(1) by (simp add: rb_push_def Let_def)
qed

lemma rb_pop_queue:
  assumes "rb_wf rb"
  shows "case rb_pop c rb of (ok, c', rb') \<Rightarrow> rb_wf rb' \<and>
    (case rb_queue rb of [] \<Rightarrow> \<not> ok \<and> c' = c \<and> rb' = rb | q # qs \<Rightarrow> ok \<and> c' = q \<and> rb_queue rb' = qs)"
proof (cases "rb_queue rb")
  case Nil
  then show ?thesis using assms rb_empty_queue [OF assms] by (simp add: rb_pop_def)
next
  case (Cons q qs)
  obtain h t where n: "unat (rb_head rb) = h" "unat (rb_tail rb) = t" "h < 64" "t < 64" "length (rb_data rb) = 64"
    "unat ((rb_tail rb + 1) mod 64) = (if t = 63 then 0 else t + 1)" by (rule rb_nat [OF assms])
  let ?rb = "rb\<lparr>rb_tail := (rb_tail rb + 1) mod 64\<rparr>"
  note d = distance_facts [OF n(3,4)]
  have nz: "distance h t = Suc (length qs)" using Cons rb_count_distance [OF n(1-4)] by (metis length_rb_queue length_Cons)
  then have "h \<noteq> t" using d(1) by auto
  have t': "unat (rb_tail ?rb) = (if t = 63 then 0 else t + 1)" "unat (rb_head ?rb) = h" "(if t = 63 then 0 else t + 1) < 64"
    using n by simp_all
  have count': "rb_count ?rb = length qs"
    using rb_count_distance [OF t'(2,1) n(3) t'(3)] d(5) [OF \<open>h \<noteq> t\<close>] nz by simp
  have q: "rb_queue rb = rb_data rb ! t # map (\<lambda>i. rb_data rb ! ((t + Suc i) mod 64)) [0..<length qs]"
    unfolding rb_queue_def rb_count_distance [OF n(1-4)] nz using n(2,4) by (simp add: map_upt_Suc del: upt_Suc)
  have "((if t = 63 then 0 else t + 1) + i) mod 64 = (t + Suc i) mod 64" for i by simp
  then have "rb_queue ?rb = qs" using q Cons unfolding rb_queue_def count' t'(1) by simp
  then show ?thesis using Cons mod_wf [OF assms] q n(2) assms rb_empty_queue [OF assms] by (simp add: rb_pop_def Let_def)
qed

section \<open>The program, access by access (main.c)\<close>

text \<open>The program counter of the main loop.  In \<open>rb_pop\<close>: about to read the head, to read the tail and
  compare, to read the tail as an index, to read the data at an index, to read the tail, to store its
  successor.  In \<open>uart_putc\<close>: about to read the state register, with the wait loop around it, and the data
  register after it.\<close>

datatype lab11_pc = AtHead | AtCompare u32 | AtIndex | AtData u32 | AtTail | AtStore u32 | AtState | AtTransmit

text \<open>\<open>lm_c\<close> is the local \<open>c\<close> of main.  \<open>lm_sent\<close> is the history of the writes to the UART's data
  register.\<close>

record lab11 =
  rx_rb :: ringbuffer
  rx_overflow :: bool
  lm_pc :: lab11_pc
  lm_c :: u8
  lm_sent :: "u32 list"

text \<open>The handler, given what it reads from the data register.\<close>

definition UART0_Handler :: "u32 \<Rightarrow> lab11 \<Rightarrow> lab11" where
  "UART0_Handler data s =
     (let c = ucast ((ucast (ucast data :: u8) :: u32) AND 0xFF) :: u8 in
      case rb_push c (rx_rb s) of (ok, rb) \<Rightarrow>
      let s = s\<lparr>rx_rb := rb\<rparr> in if \<not> ok then s\<lparr>rx_overflow := True\<rparr> else s)"

text \<open>One access of the main loop; \<open>tx_full\<close> is what it sees of the transmit buffer if it reads the
  state register.\<close>

definition lab11_main_step :: "bool \<Rightarrow> lab11 \<Rightarrow> lab11" where
  "lab11_main_step tx_full s =
     (case lm_pc s of
        AtHead \<Rightarrow> s\<lparr>lm_pc := AtCompare (rb_head (rx_rb s))\<rparr>
      | AtCompare h \<Rightarrow> s\<lparr>lm_pc := if h = rb_tail (rx_rb s) then AtHead else AtIndex\<rparr>
      | AtIndex \<Rightarrow> s\<lparr>lm_pc := AtData (rb_tail (rx_rb s))\<rparr>
      | AtData t \<Rightarrow> s\<lparr>lm_c := rb_data (rx_rb s) ! unat t, lm_pc := AtTail\<rparr>
      | AtTail \<Rightarrow> s\<lparr>lm_pc := AtStore (rb_tail (rx_rb s))\<rparr>
      | AtStore t \<Rightarrow> s\<lparr>rx_rb := (rx_rb s)\<lparr>rb_tail := (t + 1) mod 64\<rparr>, lm_pc := AtState\<rparr>
      | AtState \<Rightarrow> if tx_full then s else s\<lparr>lm_pc := AtTransmit\<rparr>
      | AtTransmit \<Rightarrow> s\<lparr>lm_sent := lm_sent s @ [ucast (lm_c s)], lm_pc := AtHead\<rparr>)"

text \<open>main before its loop.  The interrupt is enabled only after the buffer is initialised.\<close>

definition lab11_start :: "lab11 \<Rightarrow> lab11" where
  "lab11_start s = s\<lparr>rx_rb := rb_init (rx_rb s), lm_pc := AtHead\<rparr>"

text \<open>Without an interrupt, a turn of the loop is \<open>rb_pop\<close> and, if it returned a byte, \<open>uart_putc\<close>.\<close>

lemma main_turn:
  assumes "lm_pc s = AtHead"
  shows "case rb_pop (lm_c s) (rx_rb s) of (ok, c, rb) \<Rightarrow>
    if ok then (lab11_main_step False ^^ 8) s = s\<lparr>rx_rb := rb, lm_c := c, lm_sent := lm_sent s @ [ucast c]\<rparr>
    else (lab11_main_step False ^^ 2) s = s"
  using assms by (cases s) (auto simp: rb_pop_def rb_empty_def lab11_main_step_def Let_def eval_nat_numeral)

section \<open>Interleavings\<close>

text \<open>The system with the bytes that have arrived and those the handler stored.  A byte arrives at any
  time; the main loop makes a step at any time, with any state of the transmitter.\<close>

record lab11_run =
  run_sys :: lab11
  run_arrived :: "u8 list"
  run_stored :: "u8 list"

definition stores :: "lab11 \<Rightarrow> bool" where
  "stores s \<longleftrightarrow> \<not> rb_full (rx_rb s)"

inductive lab11_step :: "lab11_run \<Rightarrow> lab11_run \<Rightarrow> bool" where
  arrive: "lab11_step r (r\<lparr>run_sys := UART0_Handler data (run_sys r), run_arrived := run_arrived r @ [ucast data],
     run_stored := run_stored r @ (if stores (run_sys r) then [ucast data] else [])\<rparr>)"
| main: "lab11_step r (r\<lparr>run_sys := lab11_main_step tx_full (run_sys r)\<rparr>)"

inductive lab11_reachable :: "lab11_run \<Rightarrow> bool" where
  start: "length (rb_data (rx_rb s)) = RB_SIZE \<Longrightarrow> \<not> rx_overflow s \<Longrightarrow> lm_sent s = [] \<Longrightarrow>
     lab11_reachable \<lparr>run_sys = lab11_start s, run_arrived = [], run_stored = []\<rparr>"
| step: "lab11_reachable r \<Longrightarrow> lab11_step r r' \<Longrightarrow> lab11_reachable r'"

text \<open>The bytes taken from the buffer and not yet sent, by the program counter, and what the main loop
  knows there.\<close>

definition in_hand :: "lab11 \<Rightarrow> u8 list" where
  "in_hand s = (if lm_pc s \<in> {AtState, AtTransmit} then [lm_c s] else [])"

definition pc_ok :: "lab11 \<Rightarrow> bool" where
  "pc_ok s \<longleftrightarrow>
     (case lm_pc s of
        AtCompare h \<Rightarrow> h = rb_tail (rx_rb s) \<or> rb_queue (rx_rb s) \<noteq> []
      | AtIndex \<Rightarrow> rb_queue (rx_rb s) \<noteq> []
      | AtData t \<Rightarrow> rb_queue (rx_rb s) \<noteq> [] \<and> t = rb_tail (rx_rb s)
      | AtTail \<Rightarrow> rb_queue (rx_rb s) \<noteq> [] \<and> lm_c s = hd (rb_queue (rx_rb s))
      | AtStore t \<Rightarrow> rb_queue (rx_rb s) \<noteq> [] \<and> lm_c s = hd (rb_queue (rx_rb s)) \<and> t = rb_tail (rx_rb s)
      | _ \<Rightarrow> True)"

definition lab11_inv :: "lab11_run \<Rightarrow> bool" where
  "lab11_inv r \<longleftrightarrow>
     (let s = run_sys r in rb_wf (rx_rb s) \<and> pc_ok s \<and>
      map ucast (run_stored r) = lm_sent s @ map ucast (in_hand s @ rb_queue (rx_rb s)) \<and>
      subseq (run_stored r) (run_arrived r) \<and> (rx_overflow s \<longleftrightarrow> run_stored r \<noteq> run_arrived r))"

lemma queue_head: "rb_wf rb \<Longrightarrow> rb_queue rb \<noteq> [] \<Longrightarrow> hd (rb_queue rb) = rb_data rb ! unat (rb_tail rb)"
  using rb_pop_queue [of rb 0] rb_empty_queue [of rb] by (cases "rb_queue rb") (auto simp: rb_pop_def Let_def)

lemma queue_tail: "rb_wf rb \<Longrightarrow> rb_queue rb \<noteq> [] \<Longrightarrow>
    rb_wf (rb\<lparr>rb_tail := (rb_tail rb + 1) mod 64\<rparr>) \<and> rb_queue (rb\<lparr>rb_tail := (rb_tail rb + 1) mod 64\<rparr>) = tl (rb_queue rb)"
  using rb_pop_queue [of rb 0] rb_empty_queue [of rb] by (cases "rb_queue rb") (auto simp: rb_pop_def Let_def)

lemma main_step_inv:
  assumes "lab11_inv r"
  shows "lab11_inv (r\<lparr>run_sys := lab11_main_step tx_full (run_sys r)\<rparr>)"
proof -
  let ?s = "run_sys r"
  have wf: "rb_wf (rx_rb ?s)" and pc: "pc_ok ?s" using assms by (simp_all add: lab11_inv_def Let_def)
  show ?thesis
  proof (cases "lm_pc ?s")
    case AtHead
    then show ?thesis using assms rb_empty_queue [OF wf]
      by (auto simp: lab11_inv_def lab11_main_step_def Let_def pc_ok_def in_hand_def rb_empty_def)
  next
    case (AtStore t)
    have q: "rb_queue (rx_rb ?s) = lm_c ?s # tl (rb_queue (rx_rb ?s))" "t = rb_tail (rx_rb ?s)"
      using pc AtStore by (auto simp: pc_ok_def)
    then show ?thesis using assms AtStore queue_tail [OF wf]
      by (auto simp: lab11_inv_def lab11_main_step_def Let_def pc_ok_def in_hand_def)
         (metis list.simps(9) q(1))+
  next
    case AtTransmit
    then show ?thesis using assms
      by (auto simp: lab11_inv_def lab11_main_step_def Let_def pc_ok_def in_hand_def)
  qed (use assms queue_head [OF wf] in
    \<open>auto simp: lab11_inv_def lab11_main_step_def Let_def pc_ok_def in_hand_def\<close>)
qed

lemma byte_read: "ucast ((ucast (ucast (data :: u32) :: u8) :: u32) AND 0xFF) = (ucast data :: u8)"
proof -
  have "ucast ((ucast (ucast data :: u8) :: u32) AND mask 8) = (ucast data :: u8)"
    by (rule bit_word_eqI) (simp add: bit_simps)
  then show ?thesis by (simp add: mask_eq_exp_minus_1)
qed

lemma pc_ok_push:
  "pc_ok s \<Longrightarrow> rb_tail rb = rb_tail (rx_rb s) \<Longrightarrow> rb_queue rb = rb_queue (rx_rb s) @ [c] \<Longrightarrow> pc_ok (s\<lparr>rx_rb := rb\<rparr>)"
  by (cases "lm_pc s") (auto simp: pc_ok_def)

lemma pc_ok_overflow: "pc_ok (s\<lparr>rx_overflow := b\<rparr>) = pc_ok s"
  by (cases "lm_pc s") (simp_all add: pc_ok_def)

lemma arrive_inv:
  assumes "lab11_inv r"
  shows "lab11_inv (r\<lparr>run_sys := UART0_Handler data (run_sys r), run_arrived := run_arrived r @ [ucast data],
    run_stored := run_stored r @ (if stores (run_sys r) then [ucast data] else [])\<rparr>)"
proof -
  let ?s = "run_sys r" and ?c = "ucast data :: u8"
  have wf: "rb_wf (rx_rb ?s)" and pc: "pc_ok ?s" and sub: "subseq (run_stored r) (run_arrived r)"
    using assms by (simp_all add: lab11_inv_def Let_def)
  obtain ok rb where p: "rb_push ?c (rx_rb ?s) = (ok, rb)" by (rule prod.exhaust)
  note push = rb_push_queue [OF wf, of ?c, unfolded p prod.case]
  have ok: "ok = stores ?s" using p by (auto simp: rb_push_def stores_def Let_def split: if_splits)
  have len: "length (run_stored r) \<le> length (run_arrived r)" using list_emb_length [OF sub] .
  have tail: "rb_tail rb = rb_tail (rx_rb ?s)" using p by (auto simp: rb_push_def Let_def split: if_splits)
  show ?thesis
  proof (cases ok)
    case True
    then have rb: "rb_wf rb" "rb_queue rb = rb_queue (rx_rb ?s) @ [?c]" using push by (auto split: if_splits)
    have h: "UART0_Handler data ?s = ?s\<lparr>rx_rb := rb\<rparr>" using p True by (simp add: UART0_Handler_def byte_read Let_def)
    have st: "stores ?s" using ok True by simp
    have eq: "run_stored r @ [?c] \<noteq> run_arrived r @ [?c] \<longleftrightarrow> run_stored r \<noteq> run_arrived r" by simp
    show ?thesis unfolding h using assms st rb sub eq pc_ok_push [OF pc tail rb(2)]
      by (simp add: lab11_inv_def Let_def in_hand_def)
  next
    case False
    then have same: "rb = rx_rb ?s" using push by (auto split: if_splits)
    have ne: "run_stored r \<noteq> run_arrived r @ [?c]"
      using len by (metis append_eq_conv_conj length_append_singleton not_less_eq_eq order_refl)
    have sub': "subseq (run_stored r) (run_arrived r @ [?c])" by (rule subseq_order.trans [OF sub prefix_imp_subseq]) simp
    have h: "UART0_Handler data ?s = ?s\<lparr>rx_overflow := True\<rparr>" using p False same by (simp add: UART0_Handler_def byte_read Let_def)
    have st: "\<not> stores ?s" using ok False by simp
    show ?thesis unfolding h using assms st ne sub'
      by (simp add: lab11_inv_def Let_def in_hand_def pc_ok_overflow)
  qed
qed

lemma lab11_reachable_inv: "lab11_reachable r \<Longrightarrow> lab11_inv r"
proof (induction rule: lab11_reachable.induct)
  case (start s)
  then show ?case using rb_init_queue [of "rx_rb s"]
    by (simp add: lab11_inv_def lab11_start_def pc_ok_def in_hand_def)
next
  case (step r r')
  from step.hyps(2) show ?case
  proof (cases rule: lab11_step.cases)
    case (arrive data)
    show ?thesis unfolding arrive by (rule arrive_inv [OF step.IH])
  next
    case (main tx_full)
    show ?thesis unfolding main by (rule main_step_inv [OF step.IH])
  qed
qed

section \<open>Sequences of operations\<close>

datatype rb_op = Push u8 | Pop

fun rb_run :: "rb_op list \<Rightarrow> ringbuffer \<Rightarrow> u8 option list \<times> ringbuffer" where
  "rb_run [] rb = ([], rb)"
| "rb_run (Push c # ops) rb =
     (case rb_push c rb of (ok, rb) \<Rightarrow> case rb_run ops rb of (outs, rb) \<Rightarrow> ((if ok then Some c else None) # outs, rb))"
| "rb_run (Pop # ops) rb =
     (case rb_pop 0 rb of (ok, c, rb) \<Rightarrow> case rb_run ops rb of (outs, rb) \<Rightarrow> ((if ok then Some c else None) # outs, rb))"

text \<open>The same operations on a list of at most 63 bytes.\<close>

fun queue_run :: "rb_op list \<Rightarrow> u8 list \<Rightarrow> u8 option list \<times> u8 list" where
  "queue_run [] q = ([], q)"
| "queue_run (Push c # ops) q =
     (if length q < 63 then (case queue_run ops (q @ [c]) of (outs, q) \<Rightarrow> (Some c # outs, q))
      else (case queue_run ops q of (outs, q) \<Rightarrow> (None # outs, q)))"
| "queue_run (Pop # ops) q =
     (case q of [] \<Rightarrow> (case queue_run ops [] of (outs, q) \<Rightarrow> (None # outs, q))
      | c # q \<Rightarrow> (case queue_run ops q of (outs, q) \<Rightarrow> (Some c # outs, q)))"

lemma run_queue:
  "rb_wf rb \<Longrightarrow> rb_run ops rb = (outs, rb') \<Longrightarrow> rb_wf rb' \<and> queue_run ops (rb_queue rb) = (outs, rb_queue rb')"
proof (induction ops arbitrary: rb outs)
  case (Cons opn ops)
  show ?case
  proof (cases opn)
    case (Push c)
    obtain ok rb1 where p: "rb_push c rb = (ok, rb1)" by (rule prod.exhaust)
    obtain outs1 where r: "rb_run ops rb1 = (outs1, rb')" "outs = (if ok then Some c else None) # outs1"
      using Cons.prems(2) Push p by (auto split: prod.splits)
    note q = rb_push_queue [OF Cons.prems(1), of c, unfolded p prod.case]
    have wf: "rb_wf rb1" using q by simp
    show ?thesis using Cons.IH [OF wf r(1)] q r(2) Push by (auto split: if_splits)
  next
    case Pop
    obtain ok c rb1 where p: "rb_pop 0 rb = (ok, c, rb1)" by (rule prod_cases3)
    obtain outs1 where r: "rb_run ops rb1 = (outs1, rb')" "outs = (if ok then Some c else None) # outs1"
      using Cons.prems(2) Pop p by (auto split: prod.splits)
    note q = rb_pop_queue [OF Cons.prems(1), of 0, unfolded p prod.case]
    have wf: "rb_wf rb1" using q by simp
    show ?thesis using Cons.IH [OF wf r(1)] q r(2) Pop by (auto split: list.splits)
  qed
qed simp

section \<open>Properties\<close>

text \<open>C12.  Any sequence of pushes and pops on an initialised buffer gives the results of the same sequence
  on a queue of at most 63 bytes: first in, first out, refused exactly when full or empty.\<close>

theorem rb_is_bounded_queue:
  assumes "length (rb_data rb) = RB_SIZE"
  shows "queue_run ops [] = (fst (rb_run ops (rb_init rb)), rb_queue (snd (rb_run ops (rb_init rb))))"
  using run_queue [of "rb_init rb" ops] rb_init_queue [OF assms] by (metis prod.collapse)

definition blank_rb :: ringbuffer where
  "blank_rb = \<lparr>rb_data = replicate 64 0, rb_head = 0, rb_tail = 0\<rparr>"

theorem rb_is_bounded_queue_witness:
  "rb_queue (snd (rb_run [Push 1, Push 2, Pop, Push 3] (rb_init blank_rb))) = [2, 3]"
  using rb_is_bounded_queue [of blank_rb "[Push 1, Push 2, Pop, Push 3]"] by (simp add: blank_rb_def)

text \<open>C8.  However the receive interrupt falls between the accesses of the main loop, the bytes sent are a
  prefix of the bytes the handler stored, in order and each once; the rest is in the main loop's hand or in
  the buffer, which holds at most 63.  The stored bytes are those that arrived, less what was dropped, and
  the overflow flag is set exactly if something was dropped.\<close>

theorem lab11_echoes_in_order:
  assumes "lab11_reachable r"
  shows "map ucast (run_stored r) = lm_sent (run_sys r) @ map ucast (in_hand (run_sys r) @ rb_queue (rx_rb (run_sys r))) \<and>
    length (rb_queue (rx_rb (run_sys r))) \<le> 63 \<and>
    subseq (run_stored r) (run_arrived r) \<and> (rx_overflow (run_sys r) \<longleftrightarrow> run_stored r \<noteq> run_arrived r)"
  using lab11_reachable_inv [OF assms] rb_count_less [of "rx_rb (run_sys r)"] by (simp add: lab11_inv_def Let_def)

definition lab11_boot :: lab11 where
  "lab11_boot = \<lparr>rx_rb = blank_rb, rx_overflow = False, lm_pc = AtHead, lm_c = 0, lm_sent = []\<rparr>"

theorem lab11_echoes_in_order_witness:
  "\<exists>r. lab11_reachable r \<and> lm_pc (run_sys r) = AtCompare 0 \<and> run_arrived r = [0x41] \<and>
    map ucast (run_stored r) = lm_sent (run_sys r) @ map ucast (in_hand (run_sys r) @ rb_queue (rx_rb (run_sys r)))"
proof -
  let ?r0 = "\<lparr>run_sys = lab11_start lab11_boot, run_arrived = [], run_stored = []\<rparr>"
  have "lab11_reachable ?r0" by (rule lab11_reachable.start) (simp_all add: lab11_boot_def blank_rb_def)
  note r1 = lab11_reachable.step [OF this lab11_step.main [of _ False]]
  note r2 = lab11_reachable.step [OF r1 lab11_step.arrive [of _ "0x141"]]
  show ?thesis
    by (rule exI, rule conjI [OF r2])
       (use lab11_echoes_in_order [OF r2] in \<open>simp add: lab11_main_step_def lab11_start_def lab11_boot_def UART0_Handler_def rb_push_def
         rb_init_def rb_full_def blank_rb_def Let_def stores_def\<close>)
qed

text \<open>Note.  A byte waiting in the buffer is sent within eight accesses of the main loop, once the
  transmitter has room and no interrupt comes.\<close>

theorem lab11_delivers:
  assumes "lab11_reachable r" "lm_pc (run_sys r) = AtHead" "rb_queue (rx_rb (run_sys r)) = c # qs"
  shows "\<exists>s'. (lab11_main_step False ^^ 8) (run_sys r) = s' \<and> lm_pc s' = AtHead \<and>
    lm_sent s' = lm_sent (run_sys r) @ [ucast c] \<and> rb_queue (rx_rb s') = qs"
proof -
  have wf: "rb_wf (rx_rb (run_sys r))" using lab11_reachable_inv [OF assms(1)] by (simp add: lab11_inv_def Let_def)
  show ?thesis using main_turn [OF assms(2)] rb_pop_queue [OF wf, of "lm_c (run_sys r)"] assms(2,3) by (auto split: prod.splits)
qed

theorem lab11_delivers_witness:
  "\<exists>r s'. lab11_reachable r \<and> (lab11_main_step False ^^ 8) (run_sys r) = s' \<and> lm_sent s' = [0x41]"
proof -
  let ?r0 = "\<lparr>run_sys = lab11_start lab11_boot, run_arrived = [], run_stored = []\<rparr>"
  have "lab11_reachable ?r0" by (rule lab11_reachable.start) (simp_all add: lab11_boot_def blank_rb_def)
  note r1 = lab11_reachable.step [OF this lab11_step.arrive [of _ "0x41"]]
  let ?r1 = "?r0\<lparr>run_sys := UART0_Handler 0x41 (run_sys ?r0), run_arrived := run_arrived ?r0 @ [ucast (0x41 :: u32)],
     run_stored := run_stored ?r0 @ (if stores (run_sys ?r0) then [ucast (0x41 :: u32)] else [])\<rparr>"
  have s1: "run_sys ?r1 = lab11_boot\<lparr>rx_rb := \<lparr>rb_data = (replicate 64 0)[0 := 0x41], rb_head = 1, rb_tail = 0\<rparr>\<rparr>"
    by (simp add: lab11_start_def lab11_boot_def UART0_Handler_def rb_push_def rb_init_def rb_full_def blank_rb_def Let_def)
  have "rb_queue (rx_rb (run_sys ?r1)) = [0x41]"
    unfolding s1 by (simp add: rb_queue_def rb_count_def)
  moreover have "lm_pc (run_sys ?r1) = AtHead" "lm_sent (run_sys ?r1) = []" unfolding s1 by (simp_all add: lab11_boot_def)
  ultimately obtain r where r: "lab11_reachable r" "rb_queue (rx_rb (run_sys r)) = [0x41]" "lm_pc (run_sys r) = AtHead"
    "lm_sent (run_sys r) = []" using r1 by blast
  show ?thesis using lab11_delivers [OF r(1,3,2)] r(1,4) by force
qed

end
