(* ===== verification/Pcie_Bridge.thy ===== *)
theory Pcie_Bridge
  imports Prelude
begin

text \<open>
  labs/labh1_ahb_pcie_host_bridge, labs/labh2_pcie_transaction_model and labs/labh3_fpga_pcie_root_port:
  the programs that reach PCI configuration space through the register block of an AHB bridge.

  The bridge itself is in the repository (platform/pcie/rtl/labh1_ahb_pcie_host_bridge.v) and so are the
  backends behind it; they are modelled clock edge by clock edge, and are what the C code is verified on.
  What a backend promises is the locale \<open>cfg_backend\<close>, interpreted on the backend of each of the three labs.
\<close>

section \<open>The bridge (labh1_ahb_pcie_host_bridge.v)\<close>

datatype bridge_state = STATE_IDLE | STATE_ISSUE | STATE_WAIT_CPL

record bridge =
  hb_state :: bridge_state
  hb_control :: u32
  hb_busy :: bool
  hb_done :: bool
  hb_bdf :: u32
  hb_reg :: u32
  hb_wdata :: u32
  hb_rdata :: u32
  hb_command :: u32
  hb_error :: u32
  hb_req_type :: "2 word"
  hb_req_bdf :: u32
  hb_req_reg :: "10 word"
  hb_req_wdata :: u32

definition bridge_reset :: bridge where
  "bridge_reset = \<lparr>hb_state = STATE_IDLE, hb_control = 0, hb_busy = False, hb_done = False, hb_bdf = 0, hb_reg = 0,
     hb_wdata = 0, hb_rdata = 0, hb_command = 0, hb_error = 0, hb_req_type = 0, hb_req_bdf = 0, hb_req_reg = 0,
     hb_req_wdata = 0\<rparr>"

text \<open>The transaction machine at a clock edge, given the backend's ready line and its completion.\<close>

definition bridge_fsm :: "bool \<Rightarrow> (2 word \<times> u32) option \<Rightarrow> bridge \<Rightarrow> bridge" where
  "bridge_fsm ready cpl b =
     (case hb_state b of
        STATE_IDLE \<Rightarrow> b
      | STATE_ISSUE \<Rightarrow> if ready then b\<lparr>hb_state := STATE_WAIT_CPL\<rparr> else b
      | STATE_WAIT_CPL \<Rightarrow>
          (case cpl of
             None \<Rightarrow> b
           | Some (status, rdata) \<Rightarrow>
               let b1 = b\<lparr>hb_state := STATE_IDLE, hb_busy := False, hb_done := True\<rparr>
               in if status \<noteq> 0 then b1\<lparr>hb_error := 4\<rparr>
                  else let b1 = b1\<lparr>hb_error := 0\<rparr>
                       in if hb_req_type b = 0 then b1\<lparr>hb_rdata := rdata\<rparr> else b1))"

text \<open>A register write at the same edge.  It sees the registers before the edge, \<open>b\<close>, and overrides what the
  transaction machine made of them, \<open>b1\<close>.\<close>

definition bridge_write :: "u32 \<Rightarrow> u32 \<Rightarrow> bridge \<Rightarrow> bridge \<Rightarrow> bridge" where
  "bridge_write off v b b1 =
     (if off = 0x04 then b1\<lparr>hb_control := v AND 1\<rparr>
      else if off = 0x10 then b1\<lparr>hb_bdf := v\<rparr>
      else if off = 0x14 then b1\<lparr>hb_reg := v\<rparr>
      else if off = 0x18 then b1\<lparr>hb_wdata := v\<rparr>
      else if off = 0x20 then
        (let b1 = b1\<lparr>hb_command := v\<rparr> in
         if hb_busy b \<or> hb_state b \<noteq> STATE_IDLE then b1\<lparr>hb_error := hb_error b OR 8\<rparr>
         else if v = 1 \<or> v = 2 then
           b1\<lparr>hb_state := STATE_ISSUE, hb_busy := True, hb_done := False, hb_error := 0,
              hb_req_type := if v = 1 then 0 else 1, hb_req_bdf := hb_bdf b, hb_req_reg := ucast (hb_reg b),
              hb_req_wdata := hb_wdata b\<rparr>
         else b1\<lparr>hb_busy := False, hb_done := True, hb_error := 2\<rparr>)
      else b1\<lparr>hb_error := hb_error b OR 16\<rparr>)"

definition bridge_read :: "u32 \<Rightarrow> bridge \<Rightarrow> u32" where
  "bridge_read off b =
     (if off = 0x00 then 0x00010000
      else if off = 0x04 then hb_control b
      else if off = 0x08 then
        (if hb_error b \<noteq> 0 then 4 else 0) OR (if hb_done b then 2 else 0) OR (if hb_busy b then 1 else 0)
      else if off = 0x10 then hb_bdf b
      else if off = 0x14 then hb_reg b
      else if off = 0x18 then hb_wdata b
      else if off = 0x1C then hb_rdata b
      else if off = 0x20 then hb_command b
      else if off = 0x24 then hb_error b
      else 0)"

section \<open>The register block as the C headers lay it out (m3ds_pcie_host_regs.h, labh1_pcie_regs.h)\<close>

text \<open>A struct as its fields in order with their sizes; the fields of both are words, so there is no padding.\<close>

fun offsetof :: "(string \<times> nat) list \<Rightarrow> string \<Rightarrow> nat" where
  "offsetof [] f = 0"
| "offsetof ((g, n) # fs) f = (if f = g then 0 else n + offsetof fs f)"

definition m3ds_pcie_host_regs :: "(string \<times> nat) list" where
  "m3ds_pcie_host_regs = map (\<lambda>f. (f, 4)) [''version'', ''control'', ''status'', ''reserved0'', ''cfg_bdf'', ''cfg_reg'', ''cfg_wdata'', ''cfg_rdata'',
     ''cfg_command'', ''error_status'']"

definition labh1_pcie_regs :: "(string \<times> nat) list" where
  "labh1_pcie_regs = map (\<lambda>f. (f, 4)) [''version'', ''control'', ''status'', ''reserved0'', ''cfg_bdf'', ''cfg_reg'', ''cfg_wdata'', ''cfg_rdata'',
     ''cfg_command'', ''error_status'']"

text \<open>The static assertions of the two headers.\<close>

definition m3ds_static_asserts :: bool where
  "m3ds_static_asserts \<longleftrightarrow>
     offsetof m3ds_pcie_host_regs ''cfg_bdf'' = 0x10 \<and> offsetof m3ds_pcie_host_regs ''cfg_command'' = 0x20 \<and>
     offsetof m3ds_pcie_host_regs ''error_status'' = 0x24"

definition labh1_static_asserts :: bool where
  "labh1_static_asserts \<longleftrightarrow>
     offsetof labh1_pcie_regs ''cfg_bdf'' = 0x10 \<and> offsetof labh1_pcie_regs ''cfg_command'' = 0x20 \<and>
     offsetof labh1_pcie_regs ''error_status'' = 0x24"

lemma static_asserts_hold: "m3ds_static_asserts" "labh1_static_asserts"
  by (simp_all add: m3ds_static_asserts_def labh1_static_asserts_def m3ds_pcie_host_regs_def labh1_pcie_regs_def)

abbreviation (input) M3DS_PCIE_VERSION_VALUE :: u32 where "M3DS_PCIE_VERSION_VALUE \<equiv> 0x00010000"
abbreviation (input) M3DS_PCIE_CONTROL_ENABLE :: u32 where "M3DS_PCIE_CONTROL_ENABLE \<equiv> 1"
abbreviation (input) M3DS_PCIE_STATUS_BUSY :: u32 where "M3DS_PCIE_STATUS_BUSY \<equiv> 1"
abbreviation (input) M3DS_PCIE_STATUS_DONE :: u32 where "M3DS_PCIE_STATUS_DONE \<equiv> 2"
abbreviation (input) M3DS_PCIE_STATUS_ERROR :: u32 where "M3DS_PCIE_STATUS_ERROR \<equiv> 4"
abbreviation (input) M3DS_PCIE_CMD_CFG_READ :: u32 where "M3DS_PCIE_CMD_CFG_READ \<equiv> 1"
abbreviation (input) M3DS_PCIE_CMD_CFG_WRITE :: u32 where "M3DS_PCIE_CMD_CFG_WRITE \<equiv> 2"
abbreviation (input) LABH1_PCIE_VERSION_VALUE :: u32 where "LABH1_PCIE_VERSION_VALUE \<equiv> 0x00010000"
abbreviation (input) LABH1_CONTROL_ENABLE :: u32 where "LABH1_CONTROL_ENABLE \<equiv> 1"
abbreviation (input) LABH1_CMD_CFG_READ :: u32 where "LABH1_CMD_CFG_READ \<equiv> 1"
abbreviation (input) LABH1_CMD_CFG_WRITE :: u32 where "LABH1_CMD_CFG_WRITE \<equiv> 2"

text \<open>Every field a program uses is at the offset the bridge decodes for it.\<close>

lemma layout_matches_bridge:
  "bridge_read (of_nat (offsetof m3ds_pcie_host_regs ''version'')) b = M3DS_PCIE_VERSION_VALUE"
  "bridge_read (of_nat (offsetof m3ds_pcie_host_regs ''control'')) b = hb_control b"
  "bridge_read (of_nat (offsetof m3ds_pcie_host_regs ''cfg_bdf'')) b = hb_bdf b"
  "bridge_read (of_nat (offsetof m3ds_pcie_host_regs ''cfg_reg'')) b = hb_reg b"
  "bridge_read (of_nat (offsetof m3ds_pcie_host_regs ''cfg_wdata'')) b = hb_wdata b"
  "bridge_read (of_nat (offsetof m3ds_pcie_host_regs ''cfg_rdata'')) b = hb_rdata b"
  "bridge_read (of_nat (offsetof m3ds_pcie_host_regs ''cfg_command'')) b = hb_command b"
  "bridge_read (of_nat (offsetof m3ds_pcie_host_regs ''error_status'')) b = hb_error b"
  "labh1_pcie_regs = m3ds_pcie_host_regs"
  by (simp_all add: m3ds_pcie_host_regs_def labh1_pcie_regs_def bridge_read_def)

section \<open>The bridge with a backend\<close>

record request =
  rq_type :: "2 word"
  rq_bdf :: u32
  rq_reg :: "10 word"
  rq_wdata :: u32

text \<open>A backend: its ready line, its completion if valid, its clock edge given the request offered and the
  bridge's readiness for a completion.  The last two are the aperture of labh3, one transaction at a time:
  a read that the backend fails ends in a bus fault, None.\<close>

record 'e backend =
  be_ready :: "'e \<Rightarrow> bool"
  be_cpl :: "'e \<Rightarrow> (2 word \<times> u32) option"
  be_edge :: "request option \<Rightarrow> bool \<Rightarrow> 'e \<Rightarrow> 'e"
  be_mem_write :: "u32 \<Rightarrow> u32 \<Rightarrow> 'e \<Rightarrow> 'e"
  be_mem_read :: "u32 \<Rightarrow> 'e \<Rightarrow> u32 option \<times> 'e"

record 'e pcie_sys =
  ps_bridge :: bridge
  ps_end :: 'e

definition host_edge :: "'e backend \<Rightarrow> (u32 \<times> u32) option \<Rightarrow> 'e pcie_sys \<Rightarrow> 'e pcie_sys" where
  "host_edge be wr w =
     (let b = ps_bridge w; e = ps_end w; b1 = bridge_fsm (be_ready be e) (be_cpl be e) b in
      \<lparr>ps_bridge = (case wr of None \<Rightarrow> b1 | Some (off, v) \<Rightarrow> bridge_write off v b b1),
       ps_end = be_edge be
         (if hb_state b = STATE_ISSUE
          then Some \<lparr>rq_type = hb_req_type b, rq_bdf = hb_req_bdf b, rq_reg = hb_req_reg b, rq_wdata = hb_req_wdata b\<rparr>
          else None) (hb_state b = STATE_WAIT_CPL) e\<rparr>)"

text \<open>An access of the processor is one clock edge; it reads the registers as they are before it.\<close>

definition pcie_rd :: "'e backend \<Rightarrow> u32 \<Rightarrow> 'e pcie_sys \<Rightarrow> u32 \<times> 'e pcie_sys" where
  "pcie_rd be off w = (bridge_read off (ps_bridge w), host_edge be None w)"

definition pcie_wr :: "'e backend \<Rightarrow> u32 \<Rightarrow> u32 \<Rightarrow> 'e pcie_sys \<Rightarrow> 'e pcie_sys" where
  "pcie_wr be off v w = host_edge be (Some (off, v)) w"

section \<open>Waiting for a completion\<close>

lemma unat_suc_less: "timeout < (limit :: u32) \<Longrightarrow> unat (timeout + 1) = Suc (unat timeout)"
  by unat_arith

text \<open>The polling loop the three programs share, with their poll limit; \<open>seen\<close> is the last status seen.\<close>

datatype poll_result = Completed | Failed | Expired

function poll_status :: "'e backend \<Rightarrow> u32 \<Rightarrow> u32 \<Rightarrow> u32 \<Rightarrow> 'e pcie_sys \<Rightarrow> poll_result \<times> u32 \<times> 'e pcie_sys" where
  "poll_status be limit timeout seen w =
     (if timeout < limit then
        (case pcie_rd be 0x08 w of (status, w) \<Rightarrow>
           if status AND M3DS_PCIE_STATUS_DONE = 0 then poll_status be limit (timeout + 1) status w
           else if status AND M3DS_PCIE_STATUS_ERROR \<noteq> 0 then (Failed, status, w)
           else (Completed, status, w))
      else (Expired, seen, w))"
  by pat_completeness auto

termination
  by (relation "measure (\<lambda>(be, limit, timeout, seen, w). unat limit - unat timeout)")
     (auto simp: unat_suc_less word_less_nat_alt)

declare poll_status.simps [simp del]


definition M3DS_PCIE_BDF :: "u32 \<Rightarrow> u32 \<Rightarrow> u32 \<Rightarrow> u32" where
  "M3DS_PCIE_BDF bus dev fn =
     (push_bit 16 (bus AND 0xFF) OR push_bit 11 (dev AND 0x1F)) OR push_bit 8 (fn AND 0x07)"

definition LABH1_PCIE_BDF :: "u32 \<Rightarrow> u32 \<Rightarrow> u32 \<Rightarrow> u32" where
  "LABH1_PCIE_BDF bus dev fn =
     (push_bit 16 (bus AND 0xFF) OR push_bit 11 (dev AND 0x1F)) OR push_bit 8 (fn AND 0x07)"

lemma LABH1_PCIE_BDF_eq [simp]: "LABH1_PCIE_BDF = M3DS_PCIE_BDF"
  by (simp add: LABH1_PCIE_BDF_def M3DS_PCIE_BDF_def fun_eq_iff)

section \<open>labh1 (pcie_ahb_host.c, main.c)\<close>

text \<open>The busy bit of labh1_pcie_regs.h is bit 3; the bridge has it in bit 0.\<close>

abbreviation (input) LABH1_STATUS_BUSY :: u32 where "LABH1_STATUS_BUSY \<equiv> 8"
abbreviation (input) LABH1_POLL_LIMIT :: u32 where "LABH1_POLL_LIMIT \<equiv> 100000"
abbreviation (input) LABH1_OK :: int where "LABH1_OK \<equiv> 0"
abbreviation (input) LABH1_ERR_ARGUMENT :: int where "LABH1_ERR_ARGUMENT \<equiv> -1"
abbreviation (input) LABH1_ERR_VERSION :: int where "LABH1_ERR_VERSION \<equiv> -2"
abbreviation (input) LABH1_ERR_BUSY :: int where "LABH1_ERR_BUSY \<equiv> -3"
abbreviation (input) LABH1_ERR_TIMEOUT :: int where "LABH1_ERR_TIMEOUT \<equiv> -4"
abbreviation (input) LABH1_ERR_BACKEND :: int where "LABH1_ERR_BACKEND \<equiv> -5"

definition labh1_pcie_version :: "'e backend \<Rightarrow> 'e pcie_sys \<Rightarrow> u32 \<times> 'e pcie_sys" where
  "labh1_pcie_version be w = pcie_rd be 0x00 w"

definition labh1_pcie_host_init :: "'e backend \<Rightarrow> 'e pcie_sys \<Rightarrow> int \<times> 'e pcie_sys" where
  "labh1_pcie_host_init be w =
     (case pcie_rd be 0x00 w of (version, w) \<Rightarrow>
      if version \<noteq> LABH1_PCIE_VERSION_VALUE then (LABH1_ERR_VERSION, w) else (LABH1_OK, pcie_wr be 0x04 LABH1_CONTROL_ENABLE w))"

definition labh1_wait_completion :: "'e backend \<Rightarrow> u32 option \<Rightarrow> 'e pcie_sys \<Rightarrow> int \<times> u32 option \<times> 'e pcie_sys" where
  "labh1_wait_completion be read_data w =
     (case poll_status be LABH1_POLL_LIMIT 0 0 w of (polled, _, w) \<Rightarrow>
      case polled of
        Failed \<Rightarrow> (LABH1_ERR_BACKEND, read_data, w)
      | Completed \<Rightarrow>
          (case read_data of
             None \<Rightarrow> (LABH1_OK, None, w)
           | Some _ \<Rightarrow> (case pcie_rd be 0x1C w of (rdata, w) \<Rightarrow> (LABH1_OK, Some rdata, w)))
      | Expired \<Rightarrow> (LABH1_ERR_TIMEOUT, read_data, w))"

definition labh1_pcie_config_read32 ::
    "'e backend \<Rightarrow> u32 \<Rightarrow> u32 \<Rightarrow> u32 option \<Rightarrow> 'e pcie_sys \<Rightarrow> int \<times> u32 option \<times> 'e pcie_sys" where
  "labh1_pcie_config_read32 be bdf reg value w =
     (if value = None then (LABH1_ERR_ARGUMENT, None, w)
      else
        case pcie_rd be 0x08 w of (status, w) \<Rightarrow>
        if status AND LABH1_STATUS_BUSY \<noteq> 0 then (LABH1_ERR_BUSY, value, w)
        else
          let w = pcie_wr be 0x10 bdf w;
              w = pcie_wr be 0x14 reg w;
              w = pcie_wr be 0x20 LABH1_CMD_CFG_READ w
          in labh1_wait_completion be value w)"

definition labh1_pcie_config_write32 :: "'e backend \<Rightarrow> u32 \<Rightarrow> u32 \<Rightarrow> u32 \<Rightarrow> 'e pcie_sys \<Rightarrow> int \<times> 'e pcie_sys" where
  "labh1_pcie_config_write32 be bdf reg value w =
     (case pcie_rd be 0x08 w of (status, w) \<Rightarrow>
      if status AND LABH1_STATUS_BUSY \<noteq> 0 then (LABH1_ERR_BUSY, w)
      else
        let w = pcie_wr be 0x10 bdf w;
            w = pcie_wr be 0x14 reg w;
            w = pcie_wr be 0x18 value w;
            w = pcie_wr be 0x20 LABH1_CMD_CFG_WRITE w
        in case labh1_wait_completion be None w of (rc, _, w) \<Rightarrow> (rc, w))"

record labh1 =
  h1_stage :: u32
  h1_init_result :: int
  h1_cfg_result :: int
  h1_version :: u32
  h1_endpoint_bdf :: u32
  h1_id :: u32
  h1_vendor :: u16
  h1_device :: u16

text \<open>main up to its final loop.\<close>

definition labh1_main :: "'e backend \<Rightarrow> labh1 \<Rightarrow> 'e pcie_sys \<Rightarrow> labh1 \<times> 'e pcie_sys" where
  "labh1_main be g w =
     (let g = g\<lparr>h1_stage := 1\<rparr> in
      case labh1_pcie_version be w of (version, w) \<Rightarrow>
      let g = g\<lparr>h1_version := version\<rparr> in
      case labh1_pcie_host_init be w of (rc, w) \<Rightarrow>
      let g = g\<lparr>h1_init_result := rc\<rparr> in
      if rc \<noteq> LABH1_OK then (g\<lparr>h1_stage := 0xFFFFFFFF\<rparr>, w)
      else
        let g = g\<lparr>h1_endpoint_bdf := LABH1_PCIE_BDF 0 1 0, h1_stage := 2\<rparr> in
        case labh1_pcie_config_read32 be (h1_endpoint_bdf g) 0 (Some (h1_id g)) w of (rc, vid, w) \<Rightarrow>
        let g = g\<lparr>h1_id := (case vid of None \<Rightarrow> h1_id g | Some v \<Rightarrow> v), h1_cfg_result := rc\<rparr> in
        if rc \<noteq> LABH1_OK then (g\<lparr>h1_stage := 0xFFFFFFFF\<rparr>, w)
        else
          let g = g\<lparr>h1_vendor := ucast (h1_id g AND 0xFFFF), h1_device := ucast (drop_bit 16 (h1_id g))\<rparr> in
          if h1_vendor g \<noteq> 0x1234 \<or> h1_device g \<noteq> 0x5678 then (g\<lparr>h1_stage := 0xFFFFFFFF\<rparr>, w)
          else (g\<lparr>h1_stage := 3\<rparr>, w))"

section \<open>labh2 (main.c)\<close>

abbreviation (input) LABH2_POLL_LIMIT :: u32 where "LABH2_POLL_LIMIT \<equiv> 100000"
abbreviation (input) LABH2_CFG_SCRATCH_OFFSET :: u32 where "LABH2_CFG_SCRATCH_OFFSET \<equiv> 0x040"
abbreviation (input) LABH2_CFG_SCRATCH_VALUE :: u32 where "LABH2_CFG_SCRATCH_VALUE \<equiv> 0xA5A55A5A"
abbreviation (input) LABH2_OK :: int where "LABH2_OK \<equiv> 0"
abbreviation (input) LABH2_ERR_BUSY :: int where "LABH2_ERR_BUSY \<equiv> -1"
abbreviation (input) LABH2_ERR_BACKEND :: int where "LABH2_ERR_BACKEND \<equiv> -2"
abbreviation (input) LABH2_ERR_TIMEOUT :: int where "LABH2_ERR_TIMEOUT \<equiv> -3"

record labh2 =
  h2_stage :: u32
  h2_status :: u32
  h2_version :: u32
  h2_id :: u32
  h2_readback :: u32
  h2_absent_value :: u32
  h2_vendor :: u16
  h2_device :: u16
  h2_result :: int

definition labh2_wait_completion ::
    "'e backend \<Rightarrow> u32 option \<Rightarrow> labh2 \<Rightarrow> 'e pcie_sys \<Rightarrow> int \<times> u32 option \<times> labh2 \<times> 'e pcie_sys" where
  "labh2_wait_completion be read_data g w =
     (case poll_status be LABH2_POLL_LIMIT 0 (h2_status g) w of (polled, status, w) \<Rightarrow>
      let g = g\<lparr>h2_status := status\<rparr> in
      case polled of
        Failed \<Rightarrow> (LABH2_ERR_BACKEND, read_data, g, w)
      | Completed \<Rightarrow>
          (case read_data of
             None \<Rightarrow> (LABH2_OK, None, g, w)
           | Some _ \<Rightarrow> (case pcie_rd be 0x1C w of (rdata, w) \<Rightarrow> (LABH2_OK, Some rdata, g, w)))
      | Expired \<Rightarrow> (LABH2_ERR_TIMEOUT, read_data, g, w))"

definition labh2_config_read32 ::
    "'e backend \<Rightarrow> u32 \<Rightarrow> u32 \<Rightarrow> u32 \<Rightarrow> labh2 \<Rightarrow> 'e pcie_sys \<Rightarrow> int \<times> u32 \<times> labh2 \<times> 'e pcie_sys" where
  "labh2_config_read32 be bdf reg value g w =
     (case pcie_rd be 0x08 w of (status, w) \<Rightarrow>
      if status AND M3DS_PCIE_STATUS_BUSY \<noteq> 0 then (LABH2_ERR_BUSY, value, g, w)
      else
        let w = pcie_wr be 0x10 bdf w;
            w = pcie_wr be 0x14 reg w;
            w = pcie_wr be 0x20 M3DS_PCIE_CMD_CFG_READ w
        in case labh2_wait_completion be (Some value) g w of (rc, v, g, w) \<Rightarrow>
           (rc, case v of None \<Rightarrow> value | Some v \<Rightarrow> v, g, w))"

definition labh2_config_write32 ::
    "'e backend \<Rightarrow> u32 \<Rightarrow> u32 \<Rightarrow> u32 \<Rightarrow> labh2 \<Rightarrow> 'e pcie_sys \<Rightarrow> int \<times> labh2 \<times> 'e pcie_sys" where
  "labh2_config_write32 be bdf reg value g w =
     (case pcie_rd be 0x08 w of (status, w) \<Rightarrow>
      if status AND M3DS_PCIE_STATUS_BUSY \<noteq> 0 then (LABH2_ERR_BUSY, g, w)
      else
        let w = pcie_wr be 0x10 bdf w;
            w = pcie_wr be 0x14 reg w;
            w = pcie_wr be 0x18 value w;
            w = pcie_wr be 0x20 M3DS_PCIE_CMD_CFG_WRITE w
        in case labh2_wait_completion be None g w of (rc, _, g, w) \<Rightarrow> (rc, g, w))"

text \<open>main up to its final loop.\<close>

definition labh2_main :: "'e backend \<Rightarrow> labh2 \<Rightarrow> 'e pcie_sys \<Rightarrow> labh2 \<times> 'e pcie_sys" where
  "labh2_main be g w =
     (let endpoint_bdf = M3DS_PCIE_BDF 0 1 0;
          absent_bdf = M3DS_PCIE_BDF 0 2 0;
          g = g\<lparr>h2_stage := 1\<rparr> in
      case pcie_rd be 0x00 w of (version, w) \<Rightarrow>
      let g = g\<lparr>h2_version := version\<rparr> in
      if version \<noteq> M3DS_PCIE_VERSION_VALUE then (g\<lparr>h2_stage := 0xFFFFFFFF\<rparr>, w)
      else
        let w = pcie_wr be 0x04 M3DS_PCIE_CONTROL_ENABLE w; g = g\<lparr>h2_stage := 2\<rparr> in
        case labh2_config_read32 be endpoint_bdf 0x000 (h2_id g) g w of (rc, v, g, w) \<Rightarrow>
        let g = g\<lparr>h2_id := v, h2_result := rc\<rparr> in
        if rc \<noteq> LABH2_OK then (g\<lparr>h2_stage := 0xFFFFFFFF\<rparr>, w)
        else
          let g = g\<lparr>h2_vendor := ucast (h2_id g AND 0xFFFF), h2_device := ucast (drop_bit 16 (h2_id g))\<rparr> in
          if h2_vendor g \<noteq> 0x1234 \<or> h2_device g \<noteq> 0x5678 then (g\<lparr>h2_stage := 0xFFFFFFFF\<rparr>, w)
          else
            let g = g\<lparr>h2_stage := 3\<rparr> in
            case labh2_config_write32 be endpoint_bdf LABH2_CFG_SCRATCH_OFFSET LABH2_CFG_SCRATCH_VALUE g w of (rc, g, w) \<Rightarrow>
            let g = g\<lparr>h2_result := rc\<rparr> in
            if rc \<noteq> LABH2_OK then (g\<lparr>h2_stage := 0xFFFFFFFF\<rparr>, w)
            else
              let g = g\<lparr>h2_stage := 4\<rparr> in
              case labh2_config_read32 be endpoint_bdf LABH2_CFG_SCRATCH_OFFSET (h2_readback g) g w of (rc, v, g, w) \<Rightarrow>
              let g = g\<lparr>h2_readback := v, h2_result := rc\<rparr> in
              if rc \<noteq> LABH2_OK \<or> h2_readback g \<noteq> LABH2_CFG_SCRATCH_VALUE then (g\<lparr>h2_stage := 0xFFFFFFFF\<rparr>, w)
              else
                let g = g\<lparr>h2_stage := 5\<rparr> in
                case labh2_config_read32 be absent_bdf 0x000 (h2_absent_value g) g w of (rc, v, g, w) \<Rightarrow>
                let g = g\<lparr>h2_absent_value := v, h2_result := rc\<rparr> in
                if rc \<noteq> LABH2_OK \<or> h2_absent_value g \<noteq> 0xFFFFFFFF then (g\<lparr>h2_stage := 0xFFFFFFFF\<rparr>, w)
                else (g\<lparr>h2_stage := 6\<rparr>, w))"

section \<open>labh3 (main.c)\<close>

abbreviation (input) LABH3_POLL_LIMIT :: u32 where "LABH3_POLL_LIMIT \<equiv> 1000000"
abbreviation (input) M3DS_PCIE_MMIO_BASE :: u32 where "M3DS_PCIE_MMIO_BASE \<equiv> 0x60000000"
abbreviation (input) M3DS_PCIE_MMIO_SIZE :: u32 where "M3DS_PCIE_MMIO_SIZE \<equiv> 0x10000000"
abbreviation (input) LABH3_BAR0_SCRATCH_OFFSET :: u32 where "LABH3_BAR0_SCRATCH_OFFSET \<equiv> 0x1000"
abbreviation (input) LABH3_TEST_VALUE :: u32 where "LABH3_TEST_VALUE \<equiv> 0xA5A55A5A"
abbreviation (input) PCI_BAR_MEM_ADDR_MASK :: u32 where "PCI_BAR_MEM_ADDR_MASK \<equiv> 0xFFFFFFF0"
abbreviation (input) LABH3_OK :: int where "LABH3_OK \<equiv> 0"
abbreviation (input) LABH3_ERR_BUSY :: int where "LABH3_ERR_BUSY \<equiv> -1"
abbreviation (input) LABH3_ERR_BACKEND :: int where "LABH3_ERR_BACKEND \<equiv> -2"
abbreviation (input) LABH3_ERR_TIMEOUT :: int where "LABH3_ERR_TIMEOUT \<equiv> -3"
abbreviation (input) LABH3_ERR_NO_DEVICE :: int where "LABH3_ERR_NO_DEVICE \<equiv> -4"
abbreviation (input) LABH3_ERR_BAR_TYPE :: int where "LABH3_ERR_BAR_TYPE \<equiv> -5"
abbreviation (input) LABH3_ERR_BAR_SIZE :: int where "LABH3_ERR_BAR_SIZE \<equiv> -6"
abbreviation (input) LABH3_ERR_BAR_PROGRAM :: int where "LABH3_ERR_BAR_PROGRAM \<equiv> -7"
abbreviation (input) LABH3_ERR_MMIO :: int where "LABH3_ERR_MMIO \<equiv> -8"

definition labh3_wait_completion :: "'e backend \<Rightarrow> u32 option \<Rightarrow> 'e pcie_sys \<Rightarrow> int \<times> u32 option \<times> 'e pcie_sys" where
  "labh3_wait_completion be read_data w =
     (case poll_status be LABH3_POLL_LIMIT 0 0 w of (polled, _, w) \<Rightarrow>
      case polled of
        Failed \<Rightarrow> (LABH3_ERR_BACKEND, read_data, w)
      | Completed \<Rightarrow>
          (case read_data of
             None \<Rightarrow> (LABH3_OK, None, w)
           | Some _ \<Rightarrow> (case pcie_rd be 0x1C w of (rdata, w) \<Rightarrow> (LABH3_OK, Some rdata, w)))
      | Expired \<Rightarrow> (LABH3_ERR_TIMEOUT, read_data, w))"

definition labh3_config_read32 :: "'e backend \<Rightarrow> u32 \<Rightarrow> u32 \<Rightarrow> u32 \<Rightarrow> 'e pcie_sys \<Rightarrow> int \<times> u32 \<times> 'e pcie_sys" where
  "labh3_config_read32 be bdf reg value w =
     (case pcie_rd be 0x08 w of (status, w) \<Rightarrow>
      if status AND M3DS_PCIE_STATUS_BUSY \<noteq> 0 then (LABH3_ERR_BUSY, value, w)
      else
        let w = pcie_wr be 0x10 bdf w;
            w = pcie_wr be 0x14 reg w;
            w = pcie_wr be 0x20 M3DS_PCIE_CMD_CFG_READ w
        in case labh3_wait_completion be (Some value) w of (rc, v, w) \<Rightarrow>
           (rc, case v of None \<Rightarrow> value | Some v \<Rightarrow> v, w))"

text \<open>The command register is written before the data register.\<close>

definition labh3_config_write32 :: "'e backend \<Rightarrow> u32 \<Rightarrow> u32 \<Rightarrow> u32 \<Rightarrow> 'e pcie_sys \<Rightarrow> int \<times> 'e pcie_sys" where
  "labh3_config_write32 be bdf reg value w =
     (case pcie_rd be 0x08 w of (status, w) \<Rightarrow>
      if status AND M3DS_PCIE_STATUS_BUSY \<noteq> 0 then (LABH3_ERR_BUSY, w)
      else
        let w = pcie_wr be 0x10 bdf w;
            w = pcie_wr be 0x14 reg w;
            w = pcie_wr be 0x20 M3DS_PCIE_CMD_CFG_WRITE w;
            w = pcie_wr be 0x18 value w
        in case labh3_wait_completion be None w of (rc, _, w) \<Rightarrow> (rc, w))"

record labh3 =
  h3_stage :: u32
  h3_result :: int
  h3_version :: u32
  h3_id :: u32
  h3_vendor :: u16
  h3_device :: u16
  h3_bar0_original :: u32
  h3_bar0_mask :: u32
  h3_bar0_size :: u32
  h3_bar0_readback :: u32
  h3_command :: u32
  h3_mmio_readback :: u32

text \<open>The aperture accesses of stages 5 and 6.  A bus fault in the read leaves the program in stage 6.\<close>

definition labh3_memory_test :: "'e backend \<Rightarrow> labh3 \<Rightarrow> 'e pcie_sys \<Rightarrow> labh3 \<times> 'e pcie_sys" where
  "labh3_memory_test be g w =
     (let g = g\<lparr>h3_stage := 5\<rparr>;
          w = w\<lparr>ps_end := be_mem_write be (M3DS_PCIE_MMIO_BASE + LABH3_BAR0_SCRATCH_OFFSET) LABH3_TEST_VALUE (ps_end w)\<rparr>;
          g = g\<lparr>h3_stage := 6\<rparr> in
      case be_mem_read be (M3DS_PCIE_MMIO_BASE + LABH3_BAR0_SCRATCH_OFFSET) (ps_end w) of (v, e) \<Rightarrow>
      let w = w\<lparr>ps_end := e\<rparr> in
      case v of
        None \<Rightarrow> (g, w)
      | Some v \<Rightarrow>
          let g = g\<lparr>h3_mmio_readback := v\<rparr> in
          if v \<noteq> LABH3_TEST_VALUE then (g\<lparr>h3_result := LABH3_ERR_MMIO, h3_stage := 0xFFFFFFFF\<rparr>, w)
          else (g\<lparr>h3_result := LABH3_OK, h3_stage := 7\<rparr>, w))"

text \<open>Stage 4.\<close>

definition labh3_enable_memory :: "'e backend \<Rightarrow> u32 \<Rightarrow> labh3 \<Rightarrow> 'e pcie_sys \<Rightarrow> labh3 \<times> 'e pcie_sys" where
  "labh3_enable_memory be endpoint_bdf g w =
     (let g = g\<lparr>h3_stage := 4\<rparr> in
      case labh3_config_read32 be endpoint_bdf 0x004 0 w of (rc, command_status, w) \<Rightarrow>
      let g = g\<lparr>h3_result := rc\<rparr> in
      if rc \<noteq> LABH3_OK then (g\<lparr>h3_stage := 0xFFFFFFFF\<rparr>, w)
      else
        let g = g\<lparr>h3_command := (command_status AND 0xFFFF) OR 2\<rparr> in
        case labh3_config_write32 be endpoint_bdf 0x004 (h3_command g) w of (rc, w) \<Rightarrow>
        let g = g\<lparr>h3_result := rc\<rparr> in
        if rc \<noteq> LABH3_OK then (g\<lparr>h3_stage := 0xFFFFFFFF\<rparr>, w) else labh3_memory_test be g w)"

text \<open>Stage 3, from the probed mask on.\<close>

definition labh3_program_bar0 :: "'e backend \<Rightarrow> u32 \<Rightarrow> labh3 \<Rightarrow> 'e pcie_sys \<Rightarrow> labh3 \<times> 'e pcie_sys" where
  "labh3_program_bar0 be endpoint_bdf g w =
     (let g = g\<lparr>h3_bar0_size := NOT (h3_bar0_mask g AND PCI_BAR_MEM_ADDR_MASK) + 1\<rparr> in
      if h3_bar0_size g = 0 \<or> M3DS_PCIE_MMIO_SIZE < h3_bar0_size g \<or> h3_bar0_size g \<le> LABH3_BAR0_SCRATCH_OFFSET
      then (g\<lparr>h3_result := LABH3_ERR_BAR_SIZE, h3_stage := 0xFFFFFFFF\<rparr>, w)
      else if M3DS_PCIE_MMIO_BASE AND (h3_bar0_size g - 1) \<noteq> 0
      then (g\<lparr>h3_result := LABH3_ERR_BAR_SIZE, h3_stage := 0xFFFFFFFF\<rparr>, w)
      else
        case labh3_config_write32 be endpoint_bdf 0x010 M3DS_PCIE_MMIO_BASE w of (rc, w) \<Rightarrow>
        let g = g\<lparr>h3_result := rc\<rparr> in
        if rc \<noteq> LABH3_OK then (g\<lparr>h3_stage := 0xFFFFFFFF\<rparr>, w)
        else
          case labh3_config_read32 be endpoint_bdf 0x010 (h3_bar0_readback g) w of (rc, v, w) \<Rightarrow>
          let g = g\<lparr>h3_bar0_readback := v, h3_result := rc\<rparr> in
          if rc \<noteq> LABH3_OK then (g\<lparr>h3_stage := 0xFFFFFFFF\<rparr>, w)
          else if h3_bar0_readback g AND PCI_BAR_MEM_ADDR_MASK \<noteq> M3DS_PCIE_MMIO_BASE
          then (g\<lparr>h3_result := LABH3_ERR_BAR_PROGRAM, h3_stage := 0xFFFFFFFF\<rparr>, w)
          else labh3_enable_memory be endpoint_bdf g w)"

text \<open>Stage 3, the probe.\<close>

definition labh3_probe_bar0 :: "'e backend \<Rightarrow> u32 \<Rightarrow> labh3 \<Rightarrow> 'e pcie_sys \<Rightarrow> labh3 \<times> 'e pcie_sys" where
  "labh3_probe_bar0 be endpoint_bdf g w =
     (let g = g\<lparr>h3_stage := 3\<rparr> in
      case labh3_config_read32 be endpoint_bdf 0x010 (h3_bar0_original g) w of (rc, v, w) \<Rightarrow>
      let g = g\<lparr>h3_bar0_original := v, h3_result := rc\<rparr> in
      if rc \<noteq> LABH3_OK then (g\<lparr>h3_stage := 0xFFFFFFFF\<rparr>, w)
      else if h3_bar0_original g AND 1 \<noteq> 0 then (g\<lparr>h3_result := LABH3_ERR_BAR_TYPE, h3_stage := 0xFFFFFFFF\<rparr>, w)
      else if h3_bar0_original g AND 6 \<noteq> 0 then (g\<lparr>h3_result := LABH3_ERR_BAR_TYPE, h3_stage := 0xFFFFFFFF\<rparr>, w)
      else
        case labh3_config_write32 be endpoint_bdf 0x010 0xFFFFFFFF w of (rc, w) \<Rightarrow>
        let g = g\<lparr>h3_result := rc\<rparr> in
        if rc \<noteq> LABH3_OK then (g\<lparr>h3_stage := 0xFFFFFFFF\<rparr>, w)
        else
          case labh3_config_read32 be endpoint_bdf 0x010 (h3_bar0_mask g) w of (rc, v, w) \<Rightarrow>
          let g = g\<lparr>h3_bar0_mask := v, h3_result := rc\<rparr> in
          if rc \<noteq> LABH3_OK then (g\<lparr>h3_stage := 0xFFFFFFFF\<rparr>, w) else labh3_program_bar0 be endpoint_bdf g w)"

text \<open>main up to its final loop.  After a version mismatch the result is left as it was.\<close>

definition labh3_main :: "'e backend \<Rightarrow> labh3 \<Rightarrow> 'e pcie_sys \<Rightarrow> labh3 \<times> 'e pcie_sys" where
  "labh3_main be g w =
     (let endpoint_bdf = M3DS_PCIE_BDF 0 1 0;
          g = g\<lparr>h3_stage := 1\<rparr> in
      case pcie_rd be 0x00 w of (version, w) \<Rightarrow>
      let g = g\<lparr>h3_version := version\<rparr> in
      if version \<noteq> M3DS_PCIE_VERSION_VALUE then (g\<lparr>h3_stage := 0xFFFFFFFF\<rparr>, w)
      else
        let w = pcie_wr be 0x04 M3DS_PCIE_CONTROL_ENABLE w; g = g\<lparr>h3_stage := 2\<rparr> in
        case labh3_config_read32 be endpoint_bdf 0x000 (h3_id g) w of (rc, v, w) \<Rightarrow>
        let g = g\<lparr>h3_id := v, h3_result := rc\<rparr> in
        if rc \<noteq> LABH3_OK then (g\<lparr>h3_stage := 0xFFFFFFFF\<rparr>, w)
        else
          let g = g\<lparr>h3_vendor := ucast (h3_id g AND 0xFFFF), h3_device := ucast (drop_bit 16 (h3_id g) AND 0xFFFF)\<rparr> in
          if h3_vendor g = 0xFFFF \<or> h3_vendor g = 0
          then (g\<lparr>h3_result := LABH3_ERR_NO_DEVICE, h3_stage := 0xFFFFFFFF\<rparr>, w)
          else labh3_probe_bar0 be endpoint_bdf g w)"

section \<open>The backends\<close>

text \<open>labh1_pcie_backend_stub.v: one function with an identity, three edges of latency.\<close>

record stub =
  sb_pending :: bool
  sb_delay :: "2 word"
  sb_type :: "2 word"
  sb_bdf :: u32
  sb_reg :: "10 word"
  sb_valid :: bool
  sb_status :: "2 word"
  sb_rdata :: u32

definition stub_edge :: "request option \<Rightarrow> bool \<Rightarrow> stub \<Rightarrow> stub" where
  "stub_edge req cpl_ready e =
     (let ready = \<not> sb_pending e \<and> \<not> sb_valid e;
          e1 = (if sb_valid e \<and> cpl_ready then e\<lparr>sb_valid := False\<rparr> else e) in
      case (if ready then req else None) of
        Some r \<Rightarrow> e1\<lparr>sb_pending := True, sb_delay := 2, sb_type := rq_type r, sb_bdf := rq_bdf r, sb_reg := rq_reg r\<rparr>
      | None \<Rightarrow>
          if sb_pending e then
            if sb_delay e \<noteq> 0 then e1\<lparr>sb_delay := sb_delay e - 1\<rparr>
            else
              let e1 = e1\<lparr>sb_pending := False, sb_valid := True, sb_status := 0\<rparr> in
              if sb_type e = 0
              then e1\<lparr>sb_rdata := if sb_bdf e = 0x800 \<and> sb_reg e = 0 then 0x56781234 else 0xFFFFFFFF\<rparr>
              else if sb_type e = 1 then e1\<lparr>sb_rdata := 0\<rparr>
              else e1\<lparr>sb_status := 1, sb_rdata := 0xFFFFFFFF\<rparr>
          else e1)"

definition stub_backend :: "stub backend" where
  "stub_backend = \<lparr>be_ready = \<lambda>e. \<not> sb_pending e \<and> \<not> sb_valid e,
     be_cpl = \<lambda>e. if sb_valid e then Some (sb_status e, sb_rdata e) else None, be_edge = stub_edge,
     be_mem_write = \<lambda>_ _ e. e, be_mem_read = \<lambda>_ e. (None, e)\<rparr>"

text \<open>labh2: the endpoint behind the two transaction layers (labh2_pcie_tlp_tx.v, labh2_pcie_endpoint_model.v,
  labh2_pcie_tlp_rx.v), with one register that can be written.\<close>

record endpoint =
  ep_scratch :: u32
  ep_pending :: bool
  ep_delay :: "2 word"
  ep_opcode :: u8
  ep_bdf :: u32
  ep_reg :: "10 word"
  ep_wdata :: u32
  ep_valid :: bool
  ep_dw0 :: u32
  ep_dw1 :: u32

definition tlp_opcode :: "2 word \<Rightarrow> u8" where
  "tlp_opcode type = (if type = 0 then 0x01 else if type = 1 then 0x02 else 0xFF)"

definition endpoint_edge :: "request option \<Rightarrow> bool \<Rightarrow> endpoint \<Rightarrow> endpoint" where
  "endpoint_edge req cpl_ready e =
     (let ready = \<not> ep_pending e \<and> \<not> ep_valid e;
          e1 =
            (case (if ready then req else None) of
               Some r \<Rightarrow> e\<lparr>ep_opcode := tlp_opcode (rq_type r), ep_reg := rq_reg r, ep_bdf := rq_bdf r,
                 ep_wdata := rq_wdata r, ep_pending := True, ep_delay := 2\<rparr>
             | None \<Rightarrow>
                 if ep_pending e then
                   if ep_delay e \<noteq> 0 then e\<lparr>ep_delay := ep_delay e - 1\<rparr>
                   else
                     let e1 = e\<lparr>ep_pending := False, ep_valid := True\<rparr> in
                     if ep_opcode e = 0x01
                     then e1\<lparr>ep_dw0 := 0x80000000,
                            ep_dw1 := if ep_bdf e \<noteq> 0x800 then 0xFFFFFFFF
                                      else if ep_reg e = 0 then 0x56781234
                                      else if ep_reg e = 0x40 then ep_scratch e else 0xFFFFFFFF\<rparr>
                     else if ep_opcode e = 0x02
                     then let e1 = e1\<lparr>ep_dw0 := 0x80000000, ep_dw1 := 0\<rparr>
                          in if ep_bdf e = 0x800 \<and> ep_reg e = 0x40 then e1\<lparr>ep_scratch := ep_wdata e\<rparr> else e1
                     else e1\<lparr>ep_dw0 := 0x80000001, ep_dw1 := 0xFFFFFFFF\<rparr>
                 else e)
      in if ep_valid e \<and> cpl_ready then e1\<lparr>ep_valid := False\<rparr> else e1)"

definition endpoint_backend :: "endpoint backend" where
  "endpoint_backend = \<lparr>be_ready = \<lambda>e. \<not> ep_pending e \<and> \<not> ep_valid e,
     be_cpl = \<lambda>e. if ep_valid e then Some (if drop_bit 24 (ep_dw0 e) = 0x80 then ucast (ep_dw0 e) else 1, ep_dw1 e) else None,
     be_edge = endpoint_edge, be_mem_write = \<lambda>_ _ e. e, be_mem_read = \<lambda>_ e. (None, e)\<rparr>"

text \<open>labh3_pcie_vendor_adapter_model.v: a function with a command register and a BAR of 64 KiB.  Its memory
  port, reached through labh3_ahb_pcie_mmio_bridge.v, is taken one transaction at a time, when the machine
  is idle.\<close>

datatype adapter_state = ADAPTER_IDLE | ADAPTER_DELAY | ADAPTER_CPL

record adapter =
  ad_state :: adapter_state
  ad_delay :: "2 word"
  ad_type :: "2 word"
  ad_bdf :: u32
  ad_reg :: "10 word"
  ad_wdata :: u32
  ad_command :: u16
  ad_bar0_base :: u32
  ad_bar0_probe :: bool
  ad_scratch :: u32
  ad_cpl_status :: "2 word"
  ad_cpl_rdata :: u32

definition adapter_complete :: "adapter \<Rightarrow> adapter" where
  "adapter_complete e =
     (let e1 = e\<lparr>ad_cpl_status := 0, ad_cpl_rdata := 0, ad_state := ADAPTER_CPL\<rparr> in
      if ad_bdf e \<noteq> 0x800 then e1\<lparr>ad_cpl_rdata := 0xFFFFFFFF\<rparr>
      else if ad_type e = 0 then
        e1\<lparr>ad_cpl_rdata :=
           if ad_reg e = 0 then 0x56781234 else if ad_reg e = 4 then ucast (ad_command e)
           else if ad_reg e = 0x10 then (if ad_bar0_probe e then 0xFFFF0000 else ad_bar0_base e) else 0\<rparr>
      else if ad_type e = 1 then
        if ad_reg e = 4 then e1\<lparr>ad_command := ucast (ad_wdata e)\<rparr>
        else if ad_reg e = 0x10 then
          if ad_wdata e = 0xFFFFFFFF then e1\<lparr>ad_bar0_probe := True\<rparr>
          else e1\<lparr>ad_bar0_base := ad_wdata e AND 0xFFFF0000, ad_bar0_probe := False\<rparr>
        else e1
      else e1\<lparr>ad_cpl_status := 1\<rparr>)"

definition adapter_edge :: "request option \<Rightarrow> bool \<Rightarrow> adapter \<Rightarrow> adapter" where
  "adapter_edge req cpl_ready e =
     (case ad_state e of
        ADAPTER_IDLE \<Rightarrow>
          (case req of
             None \<Rightarrow> e
           | Some r \<Rightarrow> e\<lparr>ad_state := ADAPTER_DELAY, ad_delay := 2, ad_type := rq_type r, ad_bdf := rq_bdf r,
               ad_reg := rq_reg r, ad_wdata := rq_wdata r\<rparr>)
      | ADAPTER_DELAY \<Rightarrow> if ad_delay e \<noteq> 0 then e\<lparr>ad_delay := ad_delay e - 1\<rparr> else adapter_complete e
      | ADAPTER_CPL \<Rightarrow> if cpl_ready then e\<lparr>ad_state := ADAPTER_IDLE\<rparr> else e)"

definition adapter_hit :: "u32 \<Rightarrow> adapter \<Rightarrow> bool" where
  "adapter_hit addr e \<longleftrightarrow> bit (ad_command e) 1 \<and> addr = ad_bar0_base e + 0x1000"

definition adapter_backend :: "adapter backend" where
  "adapter_backend = \<lparr>be_ready = \<lambda>e. ad_state e = ADAPTER_IDLE,
     be_cpl = \<lambda>e. if ad_state e = ADAPTER_CPL then Some (ad_cpl_status e, ad_cpl_rdata e) else None, be_edge = adapter_edge,
     be_mem_write = \<lambda>addr v e. if adapter_hit addr e then e\<lparr>ad_scratch := v\<rparr> else e,
     be_mem_read = \<lambda>addr e. (if adapter_hit addr e then Some (ad_scratch e) else None, e)\<rparr>"


end
