(* ===== verification/Pcie_Programs.thy ===== *)
theory Pcie_Programs
  imports Pcie_Bridge
begin

text \<open>
  What the programs of labh1, labh2 and labh3 do on the bridge: the contract of a backend, what a
  configuration access then returns and changes, its error paths, and the three programs on the backends of
  the repository.
\<close>

section \<open>Register accesses\<close>

lemma status_bits:
  "bridge_read 0x08 b AND 1 = 0 \<longleftrightarrow> \<not> hb_busy b"
  "bridge_read 0x08 b AND 2 = 0 \<longleftrightarrow> \<not> hb_done b"
  "bridge_read 0x08 b AND 4 = 0 \<longleftrightarrow> hb_error b = 0"
  "bridge_read 0x08 b AND 8 = 0"
  by (simp_all add: bridge_read_def)

text \<open>The bridge between commands, and the same with a command accepted by the backend.\<close>

definition bridge_idle :: "bridge \<Rightarrow> bool" where
  "bridge_idle b \<longleftrightarrow> hb_state b = STATE_IDLE \<and> \<not> hb_busy b"

lemma idle_read:
  "bridge_idle b \<Longrightarrow> pcie_rd be off \<lparr>ps_bridge = b, ps_end = e\<rparr> =
     (bridge_read off b, \<lparr>ps_bridge = b, ps_end = be_edge be None False e\<rparr>)"
  by (simp add: pcie_rd_def host_edge_def bridge_fsm_def bridge_idle_def Let_def)

lemma idle_write:
  "bridge_idle b \<Longrightarrow> pcie_wr be off v \<lparr>ps_bridge = b, ps_end = e\<rparr> =
     \<lparr>ps_bridge = bridge_write off v b b, ps_end = be_edge be None False e\<rparr>"
  by (simp add: pcie_wr_def host_edge_def bridge_fsm_def bridge_idle_def Let_def)

lemma not_busy: "bridge_idle b \<Longrightarrow> bridge_read 0x08 b AND 1 = 0"
  using status_bits(1) by (auto simp: bridge_idle_def)

lemma status_read: "fst (pcie_rd be 0x08 w) = bridge_read 0x08 (ps_bridge w)"
  by (simp add: pcie_rd_def)

section \<open>Polling\<close>

text \<open>The completion of a backend that has accepted a request, within \<open>n\<close> edges, with the backend after it.\<close>

fun answer :: "'e backend \<Rightarrow> nat \<Rightarrow> 'e \<Rightarrow> ((2 word \<times> u32) \<times> 'e) option" where
  "answer be 0 e = None"
| "answer be (Suc n) e =
     (case be_cpl be e of
        Some c \<Rightarrow> Some (c, be_edge be None True e)
      | None \<Rightarrow> answer be n (be_edge be None True e))"

lemma wait_edge:
  "hb_state b = STATE_WAIT_CPL \<Longrightarrow> host_edge be None \<lparr>ps_bridge = b, ps_end = e\<rparr> =
     \<lparr>ps_bridge = bridge_fsm True (be_cpl be e) b, ps_end = be_edge be None True e\<rparr>"
  by (simp add: host_edge_def bridge_fsm_def Let_def)

lemma fsm_completed:
  assumes "hb_state b = STATE_WAIT_CPL"
  shows "bridge_idle (bridge_fsm True (Some (st, d)) b)" "hb_done (bridge_fsm True (Some (st, d)) b)"
    "hb_error (bridge_fsm True (Some (st, d)) b) = (if st = 0 then 0 else 4)" "bridge_fsm True None b = b"
  using assms by (simp_all add: bridge_fsm_def bridge_idle_def Let_def)

lemma poll_wait:
  "answer be n e = Some ((st, d), e') \<Longrightarrow> hb_state b = STATE_WAIT_CPL \<Longrightarrow> \<not> hb_done b \<Longrightarrow> unat t + n < unat limit \<Longrightarrow>
   \<exists>s. poll_status be limit t seen \<lparr>ps_bridge = b, ps_end = e\<rparr> =
     (if st = 0 then Completed else Failed, s,
      \<lparr>ps_bridge = bridge_fsm True (Some (st, d)) b, ps_end = be_edge be None False e'\<rparr>)"
proof (induction n arbitrary: e t seen)
  case (Suc n)
  have lim: "t < limit" "t + 1 < limit" "unat (t + 1) = Suc (unat t)"
    using Suc.prems(4) unat_suc_less [of t limit] by (simp_all add: word_less_nat_alt)
  have nd: "bridge_read 0x08 b AND 2 = 0" using Suc.prems(3) status_bits by blast
  show ?case
  proof (cases "be_cpl be e")
    case None
    have "poll_status be limit t seen \<lparr>ps_bridge = b, ps_end = e\<rparr> =
        poll_status be limit (t + 1) (bridge_read 0x08 b) \<lparr>ps_bridge = b, ps_end = be_edge be None True e\<rparr>"
      using lim(1) nd None fsm_completed(4) [OF Suc.prems(2)]
      by (subst poll_status.simps) (simp add: pcie_rd_def wait_edge [OF Suc.prems(2)])
    then show ?thesis using Suc.IH [of "be_edge be None True e" "t + 1"] Suc.prems None lim(3) by simp
  next
    case (Some c)
    then have c: "c = (st, d)" "e' = be_edge be None True e" using Suc.prems(1) by simp_all
    let ?b = "bridge_fsm True (Some (st, d)) b"
    note fin = fsm_completed(1-3) [OF Suc.prems(2), of st d]
    have "bridge_read 0x08 ?b AND 2 \<noteq> 0" "bridge_read 0x08 ?b AND 4 = 0 \<longleftrightarrow> st = 0"
      using fin status_bits(2,3) [of ?b] by simp_all
    then have last: "poll_status be limit (t + 1) (bridge_read 0x08 b) \<lparr>ps_bridge = ?b, ps_end = e'\<rparr> =
        (if st = 0 then Completed else Failed, bridge_read 0x08 ?b, \<lparr>ps_bridge = ?b, ps_end = be_edge be None False e'\<rparr>)"
      using lim(2) by (subst poll_status.simps) (simp add: idle_read [OF fin(1)])
    have "poll_status be limit t seen \<lparr>ps_bridge = b, ps_end = e\<rparr> =
        poll_status be limit (t + 1) (bridge_read 0x08 b) \<lparr>ps_bridge = ?b, ps_end = e'\<rparr>"
      using lim(1) nd Some c
      by (subst poll_status.simps) (simp add: pcie_rd_def wait_edge [OF Suc.prems(2)])
    then show ?thesis using last by simp
  qed
qed simp

text \<open>A backend that does not answer.\<close>

lemma poll_expires:
  "answer be n e = None \<Longrightarrow> hb_state b = STATE_WAIT_CPL \<Longrightarrow> \<not> hb_done b \<Longrightarrow> unat limit \<le> unat t + n + 1 \<Longrightarrow>
   \<exists>s w'. poll_status be limit t seen \<lparr>ps_bridge = b, ps_end = e\<rparr> = (Expired, s, w')"
proof (induction n arbitrary: e t seen)
  case 0
  have nd: "bridge_read 0x08 b AND 2 = 0" using 0 status_bits by blast
  have over: "t < limit \<Longrightarrow> \<not> t + 1 < limit" using 0(4) unat_suc_less [of t limit] by (simp add: word_less_nat_alt)
  show ?case using nd over by (subst poll_status.simps) (auto simp: pcie_rd_def poll_status.simps [of be limit "t + 1"])
next
  case (Suc n)
  have nd: "bridge_read 0x08 b AND 2 = 0" using Suc.prems(3) status_bits by blast
  have none: "be_cpl be e = None" "answer be n (be_edge be None True e) = None"
    using Suc.prems(1) by (auto split: option.splits)
  show ?case
  proof (cases "t < limit")
    case True
    have "poll_status be limit t seen \<lparr>ps_bridge = b, ps_end = e\<rparr> =
        poll_status be limit (t + 1) (bridge_read 0x08 b) \<lparr>ps_bridge = b, ps_end = be_edge be None True e\<rparr>"
      using True nd none(1) fsm_completed(4) [OF Suc.prems(2)]
      by (subst poll_status.simps) (simp add: pcie_rd_def wait_edge [OF Suc.prems(2)])
    then show ?thesis using Suc.IH [OF none(2) Suc.prems(2,3), of "t + 1"] Suc.prems(4) unat_suc_less [OF True] by simp
  next
    case False
    then show ?thesis by (subst poll_status.simps) simp
  qed
qed

section \<open>The contract of a backend\<close>

text \<open>The request the bridge makes of its registers.\<close>

definition request_of :: "u32 \<Rightarrow> bridge \<Rightarrow> request" where
  "request_of v b = \<lparr>rq_type = if v = 1 then 0 else 1, rq_bdf = hb_bdf b, rq_reg = ucast (hb_reg b), rq_wdata = hb_wdata b\<rparr>"

lemma request_of_sel [simp]:
  "rq_bdf (request_of v b) = hb_bdf b" "rq_reg (request_of v b) = ucast (hb_reg b)" "rq_wdata (request_of v b) = hb_wdata b"
  "rq_type (request_of v b) = 0 \<longleftrightarrow> v = 1" "v = 1 \<or> rq_type (request_of v b) = 1"
  by (simp_all add: request_of_def)

lemma command_edge:
  assumes "bridge_idle b" "v = 1 \<or> v = 2"
  shows "pcie_wr be 0x20 v \<lparr>ps_bridge = b, ps_end = e\<rparr> =
    \<lparr>ps_bridge = bridge_write 0x20 v b b, ps_end = be_edge be None False e\<rparr>"
    and "hb_state (bridge_write 0x20 v b b) = STATE_ISSUE" "\<not> hb_done (bridge_write 0x20 v b b)"
    and "hb_wdata (bridge_write 0x20 v b b) = hb_wdata b" "hb_rdata (bridge_write 0x20 v b b) = hb_rdata b"
    and "hb_req_type (bridge_write 0x20 v b b) = rq_type (request_of v b)"
    and "\<lparr>rq_type = hb_req_type (bridge_write 0x20 v b b), rq_bdf = hb_req_bdf (bridge_write 0x20 v b b),
      rq_reg = hb_req_reg (bridge_write 0x20 v b b), rq_wdata = hb_req_wdata (bridge_write 0x20 v b b)\<rparr> = request_of v b"
  using assms by (auto simp: idle_write bridge_write_def bridge_idle_def request_of_def Let_def)

text \<open>The edge at which the backend accepts the request.\<close>

lemma accept_edge:
  "hb_state b = STATE_ISSUE \<Longrightarrow> be_ready be e \<Longrightarrow>
   \<lparr>rq_type = hb_req_type b, rq_bdf = hb_req_bdf b, rq_reg = hb_req_reg b, rq_wdata = hb_req_wdata b\<rparr> = r \<Longrightarrow>
   host_edge be None \<lparr>ps_bridge = b, ps_end = e\<rparr> =
     \<lparr>ps_bridge = b\<lparr>hb_state := STATE_WAIT_CPL\<rparr>, ps_end = be_edge be (Some r) False e\<rparr> \<and>
   pcie_wr be 0x18 x \<lparr>ps_bridge = b, ps_end = e\<rparr> =
     \<lparr>ps_bridge = b\<lparr>hb_state := STATE_WAIT_CPL, hb_wdata := x\<rparr>, ps_end = be_edge be (Some r) False e\<rparr>"
  by (auto simp: pcie_wr_def host_edge_def bridge_fsm_def bridge_write_def Let_def)

text \<open>A backend gives access to a configuration space: between requests it is quiet, and it serves a request
  within \<open>lat\<close> edges, a read from the space and a write by \<open>put\<close>.\<close>

locale cfg_backend =
  fixes be :: "'e backend" and quiet :: "'e \<Rightarrow> bool" and space :: "'e \<Rightarrow> u32 \<Rightarrow> 10 word \<Rightarrow> u32"
    and put :: "u32 \<Rightarrow> 10 word \<Rightarrow> u32 \<Rightarrow> (u32 \<Rightarrow> 10 word \<Rightarrow> u32) \<Rightarrow> u32 \<Rightarrow> 10 word \<Rightarrow> u32" and lat :: nat
  assumes quiet_ready: "quiet e \<Longrightarrow> be_ready be e"
    and quiet_edge: "quiet e \<Longrightarrow> quiet (be_edge be None False e) \<and> space (be_edge be None False e) = space e"
    and serves: "quiet e \<Longrightarrow> rq_type r = 0 \<or> rq_type r = 1 \<Longrightarrow>
      \<exists>d e'. answer be lat (be_edge be (Some r) False e) = Some ((0, d), e') \<and> quiet e' \<and>
        (if rq_type r = 0 then d = space e (rq_bdf r) (rq_reg r) \<and> space e' = space e
         else space e' = put (rq_bdf r) (rq_reg r) (rq_wdata r) (space e))"
    and lat_bound: "lat < 99998"
begin

lemma served:
  assumes q: "quiet e" and b: "hb_state b = STATE_WAIT_CPL" "\<not> hb_done b" "hb_req_type b = rq_type r" "rq_type r = 0 \<or> rq_type r = 1"
    and t: "unat t + lat < unat limit"
  shows "\<exists>s b' e'. poll_status be limit t seen \<lparr>ps_bridge = b, ps_end = be_edge be (Some r) False e\<rparr> =
      (Completed, s, \<lparr>ps_bridge = b', ps_end = e'\<rparr>) \<and> bridge_idle b' \<and> quiet e' \<and> hb_wdata b' = hb_wdata b \<and>
      (if rq_type r = 0 then hb_rdata b' = space e (rq_bdf r) (rq_reg r) \<and> space e' = space e
       else space e' = put (rq_bdf r) (rq_reg r) (rq_wdata r) (space e))"
proof -
  obtain d e' where a: "answer be lat (be_edge be (Some r) False e) = Some ((0, d), e')" "quiet e'"
    and d: "if rq_type r = 0 then d = space e (rq_bdf r) (rq_reg r) \<and> space e' = space e
       else space e' = put (rq_bdf r) (rq_reg r) (rq_wdata r) (space e)"
    using serves [OF q b(4)] by blast
  let ?b = "bridge_fsm True (Some (0, d)) b"
  obtain s where "poll_status be limit t seen \<lparr>ps_bridge = b, ps_end = be_edge be (Some r) False e\<rparr> =
      (Completed, s, \<lparr>ps_bridge = ?b, ps_end = be_edge be None False e'\<rparr>)"
    using poll_wait [OF a(1) b(1,2) t, of seen] by auto
  moreover have "hb_wdata ?b = hb_wdata b" "rq_type r = 0 \<longrightarrow> hb_rdata ?b = d"
    using b(1,3) by (simp_all add: bridge_fsm_def Let_def)
  ultimately show ?thesis using fsm_completed(1) [OF b(1)] quiet_edge [OF a(2)] d
    by (intro exI [of _ s] exI [of _ ?b] exI [of _ "be_edge be None False e'"]) simp
qed

text \<open>A command, then polling; and a command, a write of the data register, then polling.\<close>

lemma command_served:
  assumes q: "quiet e" and b: "bridge_idle b" and v: "v = 1 \<or> v = 2" and lim: "lat + 1 < unat limit"
  shows "\<exists>s b' e'. poll_status be limit 0 seen (pcie_wr be 0x20 v \<lparr>ps_bridge = b, ps_end = e\<rparr>) =
      (Completed, s, \<lparr>ps_bridge = b', ps_end = e'\<rparr>) \<and> bridge_idle b' \<and> quiet e' \<and> hb_wdata b' = hb_wdata b \<and>
      (if v = 1 then hb_rdata b' = space e (hb_bdf b) (ucast (hb_reg b)) \<and> space e' = space e
       else space e' = put (hb_bdf b) (ucast (hb_reg b)) (hb_wdata b) (space e))"
    and "\<exists>s b' e'. poll_status be limit 0 seen (pcie_wr be 0x18 x (pcie_wr be 0x20 v \<lparr>ps_bridge = b, ps_end = e\<rparr>)) =
      (Completed, s, \<lparr>ps_bridge = b', ps_end = e'\<rparr>) \<and> bridge_idle b' \<and> quiet e' \<and> hb_wdata b' = x \<and>
      (if v = 1 then hb_rdata b' = space e (hb_bdf b) (ucast (hb_reg b)) \<and> space e' = space e
       else space e' = put (hb_bdf b) (ucast (hb_reg b)) (hb_wdata b) (space e))"
proof -
  let ?b = "bridge_write 0x20 v b b" and ?e = "be_edge be None False e" and ?r = "request_of v b"
  note c = command_edge [OF b v]
  have q': "quiet ?e" "space ?e = space e" using quiet_edge [OF q] by simp_all
  have l: "0 < limit" "unat (1 :: u32) + lat < unat limit" "unat (0 :: u32) + lat < unat limit"
    using lim by (simp_all add: word_less_nat_alt)
  note acc = accept_edge [OF c(2) quiet_ready [OF q'(1)] c(7)]
  have "poll_status be limit 0 seen \<lparr>ps_bridge = ?b, ps_end = ?e\<rparr> =
      poll_status be limit 1 (bridge_read 0x08 ?b) \<lparr>ps_bridge = ?b\<lparr>hb_state := STATE_WAIT_CPL\<rparr>, ps_end = be_edge be (Some ?r) False ?e\<rparr>"
    using l(1) acc c(3) status_bits(2) [of ?b] by (subst poll_status.simps) (simp add: pcie_rd_def)
  note poll = this
  show "\<exists>s b' e'. poll_status be limit 0 seen (pcie_wr be 0x20 v \<lparr>ps_bridge = b, ps_end = e\<rparr>) =
      (Completed, s, \<lparr>ps_bridge = b', ps_end = e'\<rparr>) \<and> bridge_idle b' \<and> quiet e' \<and> hb_wdata b' = hb_wdata b \<and>
      (if v = 1 then hb_rdata b' = space e (hb_bdf b) (ucast (hb_reg b)) \<and> space e' = space e
       else space e' = put (hb_bdf b) (ucast (hb_reg b)) (hb_wdata b) (space e))"
    unfolding c(1) poll using served [OF q'(1), of "?b\<lparr>hb_state := STATE_WAIT_CPL\<rparr>" ?r 1 limit "bridge_read 0x08 ?b"]
      c(3,4,6) l(2) q'(2) by (simp split del: if_split cong: if_cong)
  show "\<exists>s b' e'. poll_status be limit 0 seen (pcie_wr be 0x18 x (pcie_wr be 0x20 v \<lparr>ps_bridge = b, ps_end = e\<rparr>)) =
      (Completed, s, \<lparr>ps_bridge = b', ps_end = e'\<rparr>) \<and> bridge_idle b' \<and> quiet e' \<and> hb_wdata b' = x \<and>
      (if v = 1 then hb_rdata b' = space e (hb_bdf b) (ucast (hb_reg b)) \<and> space e' = space e
       else space e' = put (hb_bdf b) (ucast (hb_reg b)) (hb_wdata b) (space e))"
    unfolding c(1) acc [THEN conjunct2]
    using served [OF q'(1), of "?b\<lparr>hb_state := STATE_WAIT_CPL, hb_wdata := x\<rparr>" ?r 0 limit seen]
      c(3,4,6) l(3) q'(2) by (simp split del: if_split cong: if_cong)
qed

text \<open>The three labs' accesses.  Outside a command the bridge is idle and the backend quiet.\<close>

abbreviation (input) ok :: "'e pcie_sys \<Rightarrow> bool" where
  "ok w \<equiv> bridge_idle (ps_bridge w) \<and> quiet (ps_end w)"

lemma set_address:
  assumes "ok w"
  shows "\<exists>b e. pcie_wr be 0x14 reg (pcie_wr be 0x10 bdf (snd (pcie_rd be 0x08 w))) = \<lparr>ps_bridge = b, ps_end = e\<rparr> \<and>
    bridge_idle b \<and> quiet e \<and> space e = space (ps_end w) \<and> hb_bdf b = bdf \<and> hb_reg b = reg \<and> hb_wdata b = hb_wdata (ps_bridge w)"
proof (cases w)
  case (fields b e)
  let ?b1 = "bridge_write 0x10 bdf b b"
  have i: "bridge_idle b" "bridge_idle ?b1" and q: "quiet e"
    using assms fields by (simp_all add: bridge_write_def bridge_idle_def)
  have "pcie_wr be 0x14 reg (pcie_wr be 0x10 bdf (snd (pcie_rd be 0x08 w))) =
      \<lparr>ps_bridge = bridge_write 0x14 reg ?b1 ?b1, ps_end = be_edge be None False (be_edge be None False (be_edge be None False e))\<rparr>"
    using i fields by (simp add: idle_read idle_write)
  moreover have "bridge_idle (bridge_write 0x14 reg ?b1 ?b1)" "hb_bdf (bridge_write 0x14 reg ?b1 ?b1) = bdf"
    "hb_reg (bridge_write 0x14 reg ?b1 ?b1) = reg" "hb_wdata (bridge_write 0x14 reg ?b1 ?b1) = hb_wdata b"
    using i by (simp_all add: bridge_write_def bridge_idle_def)
  ultimately show ?thesis using quiet_edge q fields by simp
qed

lemma set_data:
  assumes "bridge_idle b" "quiet e"
  shows "\<exists>b' e'. pcie_wr be 0x18 v \<lparr>ps_bridge = b, ps_end = e\<rparr> = \<lparr>ps_bridge = b', ps_end = e'\<rparr> \<and> bridge_idle b' \<and> quiet e' \<and>
    space e' = space e \<and> hb_bdf b' = hb_bdf b \<and> hb_reg b' = hb_reg b \<and> hb_wdata b' = v"
  using assms quiet_edge [OF assms(2)] by (simp add: idle_write) (simp add: bridge_write_def bridge_idle_def)

lemma get_data:
  "bridge_idle b \<Longrightarrow> quiet e \<Longrightarrow> \<exists>e'. pcie_rd be 0x1C \<lparr>ps_bridge = b, ps_end = e\<rparr> = (hb_rdata b, \<lparr>ps_bridge = b, ps_end = e'\<rparr>) \<and>
     quiet e' \<and> space e' = space e"
  using quiet_edge [of e] by (simp add: idle_read) (simp add: bridge_read_def)

abbreviation (input) address :: "u32 \<Rightarrow> u32 \<Rightarrow> 'e pcie_sys \<Rightarrow> 'e pcie_sys" where
  "address bdf reg w \<equiv> pcie_wr be 0x14 reg (pcie_wr be 0x10 bdf (snd (pcie_rd be 0x08 w)))"

lemma read_sequence:
  assumes "ok w" "100000 \<le> unat limit"
  shows "\<exists>s w1 w'. poll_status be limit 0 seen (pcie_wr be 0x20 1 (address bdf reg w)) = (Completed, s, w1) \<and>
    pcie_rd be 0x1C w1 = (space (ps_end w) bdf (ucast reg), w') \<and> ok w' \<and> space (ps_end w') = space (ps_end w) \<and>
    hb_wdata (ps_bridge w') = hb_wdata (ps_bridge w)"
proof -
  obtain b e where a: "address bdf reg w = \<lparr>ps_bridge = b, ps_end = e\<rparr>" "bridge_idle b" "quiet e" "space e = space (ps_end w)"
    "hb_bdf b = bdf" "hb_reg b = reg" "hb_wdata b = hb_wdata (ps_bridge w)" using set_address [OF assms(1)] by blast
  have lim: "lat + 1 < unat limit" using assms(2) lat_bound by simp
  obtain s b' e' where c: "poll_status be limit 0 seen (pcie_wr be 0x20 1 \<lparr>ps_bridge = b, ps_end = e\<rparr>) =
      (Completed, s, \<lparr>ps_bridge = b', ps_end = e'\<rparr>)" "bridge_idle b'" "quiet e'" "hb_wdata b' = hb_wdata b"
      "hb_rdata b' = space e (hb_bdf b) (ucast (hb_reg b))" "space e' = space e"
    using command_served(1) [OF a(3,2) _ lim, of 1 seen] by auto
  show ?thesis using a c get_data [OF c(2,3)] by auto
qed

lemma write_sequence:
  assumes "ok w" "100000 \<le> unat limit"
  shows "\<exists>s w'. poll_status be limit 0 seen (pcie_wr be 0x20 2 (pcie_wr be 0x18 v (address bdf reg w))) = (Completed, s, w') \<and>
    ok w' \<and> space (ps_end w') = put bdf (ucast reg) v (space (ps_end w))"
    and "\<exists>s w'. poll_status be limit 0 seen (pcie_wr be 0x18 v (pcie_wr be 0x20 2 (address bdf reg w))) = (Completed, s, w') \<and>
    ok w' \<and> space (ps_end w') = put bdf (ucast reg) (hb_wdata (ps_bridge w)) (space (ps_end w)) \<and> hb_wdata (ps_bridge w') = v"
proof -
  obtain b e where a: "address bdf reg w = \<lparr>ps_bridge = b, ps_end = e\<rparr>" "bridge_idle b" "quiet e" "space e = space (ps_end w)"
    "hb_bdf b = bdf" "hb_reg b = reg" "hb_wdata b = hb_wdata (ps_bridge w)" using set_address [OF assms(1)] by blast
  have lim: "lat + 1 < unat limit" using assms(2) lat_bound by simp
  obtain b1 e1 where d: "pcie_wr be 0x18 v \<lparr>ps_bridge = b, ps_end = e\<rparr> = \<lparr>ps_bridge = b1, ps_end = e1\<rparr>" "bridge_idle b1"
    "quiet e1" "space e1 = space e" "hb_bdf b1 = bdf" "hb_reg b1 = reg" "hb_wdata b1 = v"
    using set_data [OF a(2,3)] a(5,6) by blast
  show "\<exists>s w'. poll_status be limit 0 seen (pcie_wr be 0x20 2 (pcie_wr be 0x18 v (address bdf reg w))) = (Completed, s, w') \<and>
    ok w' \<and> space (ps_end w') = put bdf (ucast reg) v (space (ps_end w))"
    using command_served(1) [OF d(3,2) _ lim, of 2 seen] a d by auto
  show "\<exists>s w'. poll_status be limit 0 seen (pcie_wr be 0x18 v (pcie_wr be 0x20 2 (address bdf reg w))) = (Completed, s, w') \<and>
    ok w' \<and> space (ps_end w') = put bdf (ucast reg) (hb_wdata (ps_bridge w)) (space (ps_end w)) \<and> hb_wdata (ps_bridge w') = v"
    using command_served(2) [OF a(3,2) _ lim, of 2 seen v] a by auto
qed

lemma ok_status: "ok w \<Longrightarrow> bridge_read 0x08 (ps_bridge w) AND 1 = 0"
  by (simp add: not_busy)

lemma labh1_read:
  assumes "ok w"
  shows "\<exists>w'. labh1_pcie_config_read32 be bdf reg (Some v) w = (0, Some (space (ps_end w) bdf (ucast reg)), w') \<and> ok w' \<and>
    space (ps_end w') = space (ps_end w)"
  using read_sequence [OF assms, where limit = "LABH1_POLL_LIMIT" and seen = 0 and bdf = bdf and reg = reg]
  by (auto simp: labh1_pcie_config_read32_def labh1_wait_completion_def status_read case_prod_beta status_bits(4) Let_def)

lemma labh1_write:
  assumes "ok w"
  shows "\<exists>w'. labh1_pcie_config_write32 be bdf reg v w = (0, w') \<and> ok w' \<and>
    space (ps_end w') = put bdf (ucast reg) v (space (ps_end w))"
  using write_sequence(1) [OF assms, where limit = "LABH1_POLL_LIMIT" and seen = 0 and bdf = bdf and reg = reg and v = v]
  by (auto simp: labh1_pcie_config_write32_def labh1_wait_completion_def status_read case_prod_beta status_bits(4) Let_def)

lemma labh2_read:
  assumes "ok w"
  shows "\<exists>s w'. labh2_config_read32 be bdf reg v g w = (0, space (ps_end w) bdf (ucast reg), g\<lparr>h2_status := s\<rparr>, w') \<and> ok w' \<and>
    space (ps_end w') = space (ps_end w)"
  using read_sequence [OF assms, where limit = "LABH2_POLL_LIMIT" and seen = "h2_status g" and bdf = bdf and reg = reg] ok_status [OF assms]
  by (auto simp: labh2_config_read32_def labh2_wait_completion_def status_read case_prod_beta Let_def)

lemma labh2_write:
  assumes "ok w"
  shows "\<exists>s w'. labh2_config_write32 be bdf reg v g w = (0, g\<lparr>h2_status := s\<rparr>, w') \<and> ok w' \<and>
    space (ps_end w') = put bdf (ucast reg) v (space (ps_end w))"
  using write_sequence(1) [OF assms, where limit = "LABH2_POLL_LIMIT" and seen = "h2_status g" and bdf = bdf and reg = reg and v = v] ok_status [OF assms]
  by (auto simp: labh2_config_write32_def labh2_wait_completion_def status_read case_prod_beta Let_def)

lemma labh3_read:
  assumes "ok w"
  shows "\<exists>w'. labh3_config_read32 be bdf reg v w = (0, space (ps_end w) bdf (ucast reg), w') \<and> ok w' \<and>
    space (ps_end w') = space (ps_end w) \<and> hb_wdata (ps_bridge w') = hb_wdata (ps_bridge w)"
  using read_sequence [OF assms, where limit = "LABH3_POLL_LIMIT" and seen = 0 and bdf = bdf and reg = reg] ok_status [OF assms]
  by (auto simp: labh3_config_read32_def labh3_wait_completion_def status_read case_prod_beta Let_def)

lemma labh3_write:
  assumes "ok w"
  shows "\<exists>w'. labh3_config_write32 be bdf reg v w = (0, w') \<and> ok w' \<and>
    space (ps_end w') = put bdf (ucast reg) (hb_wdata (ps_bridge w)) (space (ps_end w)) \<and> hb_wdata (ps_bridge w') = v"
  using write_sequence(2) [OF assms, where limit = "LABH3_POLL_LIMIT" and seen = 0 and bdf = bdf and reg = reg and v = v] ok_status [OF assms]
  by (auto simp: labh3_config_write32_def labh3_wait_completion_def status_read case_prod_beta Let_def)

end

section \<open>The backends of the repository\<close>

abbreviation (input) stub_quiet :: "stub \<Rightarrow> bool" where "stub_quiet e \<equiv> \<not> sb_pending e \<and> \<not> sb_valid e"

definition stub_space :: "stub \<Rightarrow> u32 \<Rightarrow> 10 word \<Rightarrow> u32" where
  "stub_space e bdf reg = (if bdf = 0x800 \<and> reg = 0 then 0x56781234 else 0xFFFFFFFF)"

abbreviation (input) endpoint_quiet :: "endpoint \<Rightarrow> bool" where "endpoint_quiet e \<equiv> \<not> ep_pending e \<and> \<not> ep_valid e"

definition endpoint_space :: "endpoint \<Rightarrow> u32 \<Rightarrow> 10 word \<Rightarrow> u32" where
  "endpoint_space e bdf reg =
     (if bdf \<noteq> 0x800 then 0xFFFFFFFF else if reg = 0 then 0x56781234 else if reg = 0x40 then ep_scratch e else 0xFFFFFFFF)"

definition endpoint_put :: "u32 \<Rightarrow> 10 word \<Rightarrow> u32 \<Rightarrow> (u32 \<Rightarrow> 10 word \<Rightarrow> u32) \<Rightarrow> u32 \<Rightarrow> 10 word \<Rightarrow> u32" where
  "endpoint_put bdf reg v s = (if bdf = 0x800 \<and> reg = 0x40 then s(0x800 := (s 0x800)(0x40 := v)) else s)"

abbreviation (input) adapter_quiet :: "adapter \<Rightarrow> bool" where "adapter_quiet e \<equiv> ad_state e = ADAPTER_IDLE"

definition adapter_space :: "adapter \<Rightarrow> u32 \<Rightarrow> 10 word \<Rightarrow> u32" where
  "adapter_space e bdf reg =
     (if bdf \<noteq> 0x800 then 0xFFFFFFFF else if reg = 0 then 0x56781234 else if reg = 4 then ucast (ad_command e)
      else if reg = 0x10 then (if ad_bar0_probe e then 0xFFFF0000 else ad_bar0_base e) else 0)"

definition adapter_put :: "u32 \<Rightarrow> 10 word \<Rightarrow> u32 \<Rightarrow> (u32 \<Rightarrow> 10 word \<Rightarrow> u32) \<Rightarrow> u32 \<Rightarrow> 10 word \<Rightarrow> u32" where
  "adapter_put bdf reg v s =
     (if bdf = 0x800 \<and> reg = 4 then s(0x800 := (s 0x800)(4 := ucast (ucast v :: u16)))
      else if bdf = 0x800 \<and> reg = 0x10
      then s(0x800 := (s 0x800)(0x10 := if v = 0xFFFFFFFF then 0xFFFF0000 else v AND 0xFFFF0000))
      else s)"

lemma answer_four:
  "answer be 4 e = (case be_cpl be e of Some c \<Rightarrow> Some (c, be_edge be None True e) | None \<Rightarrow> answer be 3 (be_edge be None True e))"
  "answer be 3 e = (case be_cpl be e of Some c \<Rightarrow> Some (c, be_edge be None True e) | None \<Rightarrow> answer be 2 (be_edge be None True e))"
  "answer be 2 e = (case be_cpl be e of Some c \<Rightarrow> Some (c, be_edge be None True e) | None \<Rightarrow> answer be 1 (be_edge be None True e))"
  "answer be 1 e = (case be_cpl be e of Some c \<Rightarrow> Some (c, be_edge be None True e) | None \<Rightarrow> None)"
  by (simp_all add: eval_nat_numeral cong: option.case_cong)

interpretation h1: cfg_backend stub_backend stub_quiet stub_space "\<lambda>_ _ _ s. s" 4
  by unfold_locales
    (auto simp: stub_backend_def stub_edge_def stub_space_def answer_four Let_def fun_eq_iff)

interpretation h2: cfg_backend endpoint_backend endpoint_quiet endpoint_space endpoint_put 4
  by unfold_locales
    (auto simp: endpoint_backend_def endpoint_edge_def endpoint_space_def endpoint_put_def tlp_opcode_def answer_four Let_def fun_eq_iff)

interpretation h3: cfg_backend adapter_backend adapter_quiet adapter_space adapter_put 4
  by unfold_locales
    (auto simp: adapter_backend_def adapter_edge_def adapter_complete_def adapter_space_def adapter_put_def answer_four Let_def fun_eq_iff)

section \<open>Any backend\<close>

lemma config_issue:
  assumes "bridge_idle b"
  shows "\<exists>b1. pcie_wr be 0x20 1 (pcie_wr be 0x14 reg (pcie_wr be 0x10 bdf (snd (pcie_rd be 0x08 \<lparr>ps_bridge = b, ps_end = e\<rparr>)))) =
      \<lparr>ps_bridge = b1, ps_end = (be_edge be None False ^^ 4) e\<rparr> \<and> hb_state b1 = STATE_ISSUE \<and> \<not> hb_done b1 \<and> hb_req_type b1 = 0 \<and>
      \<lparr>rq_type = hb_req_type b1, rq_bdf = hb_req_bdf b1, rq_reg = hb_req_reg b1, rq_wdata = hb_req_wdata b1\<rparr> =
        \<lparr>rq_type = 0, rq_bdf = bdf, rq_reg = ucast reg, rq_wdata = hb_wdata b\<rparr>"
proof -
  let ?b1 = "bridge_write 0x10 bdf b b"
  let ?b2 = "bridge_write 0x14 reg ?b1 ?b1"
  have i: "bridge_idle ?b1" "bridge_idle ?b2" and r: "hb_bdf ?b2 = bdf" "hb_reg ?b2 = reg" "hb_wdata ?b2 = hb_wdata b"
    using assms by (simp_all add: bridge_write_def bridge_idle_def)
  have four: "(f ^^ 4) x = f (f (f (f x)))" for f :: "'a \<Rightarrow> 'a" and x by (simp add: eval_nat_numeral)
  have "pcie_wr be 0x20 1 (pcie_wr be 0x14 reg (pcie_wr be 0x10 bdf (snd (pcie_rd be 0x08 \<lparr>ps_bridge = b, ps_end = e\<rparr>)))) =
      \<lparr>ps_bridge = bridge_write 0x20 1 ?b2 ?b2, ps_end = (be_edge be None False ^^ 4) e\<rparr>"
    unfolding four by (simp add: idle_read [OF assms] idle_write [OF assms] idle_write [OF i(1)] idle_write [OF i(2)])
  moreover have "request_of 1 ?b2 = \<lparr>rq_type = 0, rq_bdf = bdf, rq_reg = ucast reg, rq_wdata = hb_wdata b\<rparr>"
    using r by (simp add: request_of_def)
  ultimately show ?thesis using command_edge(2,3,6,7) [OF i(2), of 1] by (intro exI [of _ "bridge_write 0x20 1 ?b2 ?b2"]) simp
qed

definition read_outcome :: "((2 word \<times> u32) \<times> 'e) option \<Rightarrow> u32 \<Rightarrow> int \<times> u32" where
  "read_outcome a v =
     (case a of
        None \<Rightarrow> (LABH2_ERR_TIMEOUT, v)
      | Some ((status, d), _) \<Rightarrow> if status = 0 then (LABH2_OK, d) else (LABH2_ERR_BACKEND, v))"

text \<open>A backend that is offered the request \<open>r\<close> until it takes it, and its completion, all within \<open>n\<close> edges.\<close>

fun served_within :: "'e backend \<Rightarrow> request \<Rightarrow> nat \<Rightarrow> 'e \<Rightarrow> ((2 word \<times> u32) \<times> 'e) option" where
  "served_within be r 0 e = None"
| "served_within be r (Suc n) e =
     (if be_ready be e then answer be n (be_edge be (Some r) False e)
      else served_within be r n (be_edge be (Some r) False e))"

text \<open>Polling from the issue of the request.  The remaining polls decide: the last one only sees the register.\<close>

lemma poll_issue:
  assumes "hb_state b = STATE_ISSUE" "\<not> hb_done b" "t < limit"
    and "\<lparr>rq_type = hb_req_type b, rq_bdf = hb_req_bdf b, rq_reg = hb_req_reg b, rq_wdata = hb_req_wdata b\<rparr> = r"
  shows "poll_status be limit t seen \<lparr>ps_bridge = b, ps_end = e\<rparr> =
    poll_status be limit (t + 1) (bridge_read 0x08 b)
      \<lparr>ps_bridge = if be_ready be e then b\<lparr>hb_state := STATE_WAIT_CPL\<rparr> else b, ps_end = be_edge be (Some r) False e\<rparr>"
proof -
  have "host_edge be None \<lparr>ps_bridge = b, ps_end = e\<rparr> =
      \<lparr>ps_bridge = if be_ready be e then b\<lparr>hb_state := STATE_WAIT_CPL\<rparr> else b, ps_end = be_edge be (Some r) False e\<rparr>"
    using assms(1,4) by (simp add: host_edge_def bridge_fsm_def Let_def)
  then show ?thesis using assms(2,3) status_bits(2) [of b] by (subst poll_status.simps) (simp add: pcie_rd_def)
qed

lemma poll_served:
  assumes "hb_state b = STATE_ISSUE" "\<not> hb_done b" "unat limit = unat t + n + 1"
    and r: "\<lparr>rq_type = hb_req_type b, rq_bdf = hb_req_bdf b, rq_reg = hb_req_reg b, rq_wdata = hb_req_wdata b\<rparr> = r"
  shows "case served_within be r n e of
      None \<Rightarrow> \<exists>s w'. poll_status be limit t seen \<lparr>ps_bridge = b, ps_end = e\<rparr> = (Expired, s, w')
    | Some ((st, d), e') \<Rightarrow> \<exists>s. poll_status be limit t seen \<lparr>ps_bridge = b, ps_end = e\<rparr> =
        (if st = 0 then Completed else Failed, s,
         \<lparr>ps_bridge = bridge_fsm True (Some (st, d)) (b\<lparr>hb_state := STATE_WAIT_CPL\<rparr>), ps_end = be_edge be None False e'\<rparr>)"
  using assms(3)
proof (induction n arbitrary: t seen e)
  case 0
  have "t < limit" "\<not> t + 1 < limit" using 0 unat_suc_less [of t limit] by (simp_all add: word_less_nat_alt)
  then show ?case using poll_issue [OF assms(1,2) _ r, where t = t and limit = limit and be = be and seen = seen and e = e]
    by (auto simp: poll_status.simps [of be limit "t + 1"])
next
  case (Suc n)
  let ?b = "b\<lparr>hb_state := STATE_WAIT_CPL\<rparr>" and ?e = "be_edge be (Some r) False e"
  have t: "t < limit" "unat limit = unat (t + 1) + n + 1"
    using Suc.prems unat_suc_less [of t limit] by (simp_all add: word_less_nat_alt)
  note poll = poll_issue [OF assms(1,2) t(1) r, where be = be and seen = seen and e = e]
  have b: "hb_state ?b = STATE_WAIT_CPL" "\<not> hb_done ?b" using assms(2) by simp_all
  show ?case
  proof (cases "be_ready be e")
    case False
    then show ?thesis using Suc.IH [OF t(2), of "bridge_read 0x08 b" ?e] unfolding poll by simp
  next
    case True
    have now: "poll_status be limit t seen \<lparr>ps_bridge = b, ps_end = e\<rparr> =
        poll_status be limit (t + 1) (bridge_read 0x08 b) \<lparr>ps_bridge = ?b, ps_end = ?e\<rparr>" using poll True by simp
    show ?thesis
    proof (cases "answer be n ?e")
      case None
      then show ?thesis using poll_expires [OF None b, of limit "t + 1" "bridge_read 0x08 b"] t(2) now True by simp
    next
      case (Some a)
      obtain st d e' where a: "answer be n ?e = Some ((st, d), e')" using Some by (cases a) auto
      then show ?thesis using poll_wait [OF a b, of "t + 1" limit "bridge_read 0x08 b"] t(2) now True by simp
    qed
  qed
qed

text \<open>C31.  A configuration read on any backend, from an idle bridge: the backend sees the four edges at which the
  driver reads the status and writes the registers, is then offered the request until it takes it, and has, with
  the waiting for that, 99999 edges to complete it.  A completion with status 0 gives the data; one with another
  status gives the backend error, and none in time, as from a backend that never takes the request, the
  timeout; both leave the caller's variable as it was.\<close>

theorem labh2_config_read_outcome:
  assumes "hb_state (ps_bridge w) = STATE_IDLE" "\<not> hb_busy (ps_bridge w)"
  shows "\<exists>s w'. labh2_config_read32 be bdf reg v g w =
    (case served_within be \<lparr>rq_type = 0, rq_bdf = bdf, rq_reg = ucast reg, rq_wdata = hb_wdata (ps_bridge w)\<rparr> 99999
        ((be_edge be None False ^^ 4) (ps_end w)) of
       None \<Rightarrow> (LABH2_ERR_TIMEOUT, v, g\<lparr>h2_status := s\<rparr>, w')
     | Some ((status, d), _) \<Rightarrow>
         if status = 0 then (LABH2_OK, d, g\<lparr>h2_status := s\<rparr>, w') else (LABH2_ERR_BACKEND, v, g\<lparr>h2_status := s\<rparr>, w'))"
proof -
  obtain b e where w: "w = \<lparr>ps_bridge = b, ps_end = e\<rparr>" by (cases w)
  have i: "bridge_idle b" using assms w by (simp add: bridge_idle_def)
  let ?e = "(be_edge be None False ^^ 4) e"
  let ?r = "\<lparr>rq_type = 0, rq_bdf = bdf, rq_reg = ucast reg, rq_wdata = hb_wdata b\<rparr>"
  obtain b1 where b1: "pcie_wr be 0x20 1 (pcie_wr be 0x14 reg (pcie_wr be 0x10 bdf (snd (pcie_rd be 0x08 w)))) =
      \<lparr>ps_bridge = b1, ps_end = ?e\<rparr>" "hb_state b1 = STATE_ISSUE" "\<not> hb_done b1" "hb_req_type b1 = 0"
      "\<lparr>rq_type = hb_req_type b1, rq_bdf = hb_req_bdf b1, rq_reg = hb_req_reg b1, rq_wdata = hb_req_wdata b1\<rparr> = ?r"
    using config_issue [OF i, of be reg bdf e] w by auto
  have lim: "unat LABH2_POLL_LIMIT = unat (0 :: u32) + 99999 + 1" by simp
  note poll = poll_served [OF b1(2,3) lim b1(5), where be = be and e = ?e and seen = "h2_status g"]
  note st = not_busy [OF i]
  have data: "hb_rdata (bridge_fsm True (Some (0, d)) (b1\<lparr>hb_state := STATE_WAIT_CPL\<rparr>)) = d" for d
    using b1(4) by (simp add: bridge_fsm_def Let_def)
  show ?thesis
  proof (cases "served_within be ?r 99999 ?e")
    case None
    then show ?thesis using poll b1(1) w st
      by (auto simp: labh2_config_read32_def labh2_wait_completion_def case_prod_beta Let_def status_read)
  next
    case (Some c)
    then obtain status d e' where "served_within be ?r 99999 ?e = Some ((status, d), e')" by (cases c) auto
    then show ?thesis using poll b1(1) w st data
      by (cases "status = 0") (auto simp: labh2_config_read32_def labh2_wait_completion_def case_prod_beta Let_def status_read pcie_rd_def bridge_read_def)
  qed
qed

section \<open>The registers stay well formed\<close>

text \<open>Busy exactly while a transaction runs, never busy and done, and no error but one of the backend: no
  access out of place, no command that is refused.\<close>

definition bridge_wf :: "bridge \<Rightarrow> bool" where
  "bridge_wf b \<longleftrightarrow> (hb_busy b \<longleftrightarrow> hb_state b \<noteq> STATE_IDLE) \<and> \<not> (hb_busy b \<and> hb_done b) \<and>
     (hb_error b = 0 \<or> hb_error b = 4 \<and> hb_done b)"

lemma fsm_wf: "bridge_wf b \<Longrightarrow> bridge_wf (bridge_fsm ready cpl b)"
  by (auto simp: bridge_wf_def bridge_fsm_def Let_def split: bridge_state.splits option.splits)

lemma rd_wf: "bridge_wf (ps_bridge w) \<Longrightarrow> bridge_wf (ps_bridge (snd (pcie_rd be off w)))"
  by (simp add: pcie_rd_def host_edge_def Let_def fsm_wf)

lemma wr_wf:
  assumes "bridge_wf (ps_bridge w)" "off \<in> {0x10, 0x14, 0x18}"
  shows "bridge_wf (ps_bridge (pcie_wr be off v w))"
proof -
  have "bridge_wf b1 \<Longrightarrow> bridge_wf (bridge_write off v b b1)" for b b1
    using assms(2) by (auto simp: bridge_write_def bridge_wf_def)
  then show ?thesis using fsm_wf [OF assms(1)] by (simp add: pcie_wr_def host_edge_def Let_def)
qed

lemma command_wf:
  assumes "bridge_wf (ps_bridge w)" "\<not> hb_busy (ps_bridge w)" "v = 1 \<or> v = 2"
  shows "bridge_wf (ps_bridge (pcie_wr be 0x20 v w))"
  using assms by (auto simp: pcie_wr_def host_edge_def bridge_write_def bridge_fsm_def bridge_wf_def Let_def)

lemma idle_stays:
  assumes "bridge_wf (ps_bridge w)" "\<not> hb_busy (ps_bridge w)"
  shows "\<not> hb_busy (ps_bridge (snd (pcie_rd be off w)))"
    "off \<in> {0x10, 0x14, 0x18} \<Longrightarrow> \<not> hb_busy (ps_bridge (pcie_wr be off v w))"
  using assms by (auto simp: pcie_rd_def pcie_wr_def host_edge_def bridge_write_def bridge_fsm_def bridge_wf_def Let_def)

lemma poll_wf: "bridge_wf (ps_bridge w) \<Longrightarrow> bridge_wf (ps_bridge (snd (snd (poll_status be limit t seen w))))"
proof (induction be limit t seen w rule: poll_status.induct)
  case (1 be limit t seen w)
  show ?case using 1 rd_wf [OF "1.prems", of be "0x08"] by (subst poll_status.simps) (auto simp: case_prod_beta)
qed

lemma address_wf:
  assumes "bridge_wf (ps_bridge w)" "\<not> hb_busy (ps_bridge w)"
  shows "bridge_wf (ps_bridge (pcie_wr be 0x14 reg (pcie_wr be 0x10 bdf (snd (pcie_rd be 0x08 w)))))"
    "\<not> hb_busy (ps_bridge (pcie_wr be 0x14 reg (pcie_wr be 0x10 bdf (snd (pcie_rd be 0x08 w)))))"
  using assms by (simp_all add: rd_wf wr_wf idle_stays)

lemma busy_bit: "fst (pcie_rd be 0x08 w) AND 1 = 0 \<longleftrightarrow> \<not> hb_busy (ps_bridge w)"
  by (simp add: status_read status_bits(1))

text \<open>C37.  Every configuration access of labh2, on any backend and whatever its outcome, keeps the registers of
  the bridge well formed: the program never accesses it out of place and never has a command refused.\<close>

theorem labh2_access_wf:
  assumes "bridge_wf (ps_bridge w)"
  shows "bridge_wf (ps_bridge (snd (snd (snd (labh2_config_read32 be bdf reg v g w))))) \<and>
    bridge_wf (ps_bridge (snd (snd (labh2_config_write32 be bdf reg v g w))))"
  using assms address_wf [OF assms, of be reg bdf]
  by (auto simp: labh2_config_read32_def labh2_config_write32_def labh2_wait_completion_def case_prod_beta Let_def busy_bit
      rd_wf wr_wf idle_stays command_wf poll_wf split: poll_result.splits)

section \<open>The programs\<close>

definition stub_reset :: stub where
  "stub_reset = \<lparr>sb_pending = False, sb_delay = 0, sb_type = 0, sb_bdf = 0, sb_reg = 0, sb_valid = False, sb_status = 0, sb_rdata = 0\<rparr>"

definition endpoint_reset :: endpoint where
  "endpoint_reset = \<lparr>ep_scratch = 0, ep_pending = False, ep_delay = 0, ep_opcode = 0, ep_bdf = 0, ep_reg = 0, ep_wdata = 0,
     ep_valid = False, ep_dw0 = 0, ep_dw1 = 0\<rparr>"

definition adapter_reset :: adapter where
  "adapter_reset = \<lparr>ad_state = ADAPTER_IDLE, ad_delay = 0, ad_type = 0, ad_bdf = 0, ad_reg = 0, ad_wdata = 0, ad_command = 0,
     ad_bar0_base = 0, ad_bar0_probe = False, ad_scratch = 0, ad_cpl_status = 0, ad_cpl_rdata = 0\<rparr>"

lemma reset_idle: "bridge_idle bridge_reset" "bridge_wf bridge_reset" "hb_wdata bridge_reset = 0"
  by (simp_all add: bridge_idle_def bridge_wf_def bridge_reset_def)

text \<open>Enabling the bridge.\<close>

lemma enable_ok:
  "bridge_idle b \<Longrightarrow> pcie_wr be 0x04 1 (snd (pcie_rd be off \<lparr>ps_bridge = b, ps_end = e\<rparr>)) =
     \<lparr>ps_bridge = b\<lparr>hb_control := 1\<rparr>, ps_end = be_edge be None False (be_edge be None False e)\<rparr>"
  by (simp add: idle_read idle_write) (simp add: bridge_write_def)

text \<open>C26.  On the bridge and the endpoint of labh2, a configuration write and then a read, of whatever registers,
  both succeed; the read gives the value written if both name the scratch register, and otherwise what it
  would have given without the write.\<close>

theorem labh2_config_write_read:
  assumes "hb_state (ps_bridge w) = STATE_IDLE" "\<not> hb_busy (ps_bridge w)" "\<not> ep_pending (ps_end w)" "\<not> ep_valid (ps_end w)"
  shows "\<exists>g1 w1 g2 w2. labh2_config_write32 endpoint_backend bdf reg v g w = (LABH2_OK, g1, w1) \<and>
    labh2_config_read32 endpoint_backend bdf' reg' x g1 w1 =
      (LABH2_OK, if bdf = 0x800 \<and> ucast reg = (0x40 :: 10 word) \<and> bdf' = 0x800 \<and> ucast reg' = (0x40 :: 10 word) then v
         else endpoint_space (ps_end w) bdf' (ucast reg'), g2, w2)"
proof -
  have ok: "bridge_idle (ps_bridge w) \<and> \<not> ep_pending (ps_end w) \<and> \<not> ep_valid (ps_end w)" using assms by (simp add: bridge_idle_def)
  obtain s w1 where w: "labh2_config_write32 endpoint_backend bdf reg v g w = (0, g\<lparr>h2_status := s\<rparr>, w1)"
    "bridge_idle (ps_bridge w1) \<and> \<not> ep_pending (ps_end w1) \<and> \<not> ep_valid (ps_end w1)"
    "endpoint_space (ps_end w1) = endpoint_put bdf (ucast reg) v (endpoint_space (ps_end w))"
    using h2.labh2_write [OF ok, of bdf reg v g] by blast
  obtain s' w2 where "labh2_config_read32 endpoint_backend bdf' reg' x (g\<lparr>h2_status := s\<rparr>) w1 =
      (0, endpoint_space (ps_end w1) bdf' (ucast reg'), g\<lparr>h2_status := s, h2_status := s'\<rparr>, w2)"
    using h2.labh2_read [OF w(2), of bdf' reg' x "g\<lparr>h2_status := s\<rparr>"] by blast
  then show ?thesis using w(1,3) by (auto simp: endpoint_put_def)
qed

text \<open>Note.  From reset, the programs of labh1 and labh2 end in their last stages on their own hardware: both find
  the endpoint, and labh2 reads back what it wrote and sees all ones for the absent function.\<close>

theorem labh1_labh2_main_pass:
  "h1_stage (fst (labh1_main stub_backend g1 \<lparr>ps_bridge = bridge_reset, ps_end = stub_reset\<rparr>)) = 3 \<and>
   (case labh2_main endpoint_backend g2 \<lparr>ps_bridge = bridge_reset, ps_end = endpoint_reset\<rparr> of (g, w) \<Rightarrow>
      h2_stage g = 6 \<and> h2_id g = 0x56781234 \<and> h2_readback g = LABH2_CFG_SCRATCH_VALUE \<and> h2_absent_value g = 0xFFFFFFFF)"
proof (cases g1)
  case 1: fields
  show ?thesis
  proof (cases g2)
    case fields
    show ?thesis unfolding 1 fields by code_simp
  qed
qed

text \<open>C40.  labh3 writes the data register after the command, and so sends what was in the data register before.\<close>

theorem labh3_write_sends_previous:
  assumes "hb_state (ps_bridge w) = STATE_IDLE" "\<not> hb_busy (ps_bridge w)" "ad_state (ps_end w) = ADAPTER_IDLE"
  shows "\<exists>w'. labh3_config_write32 adapter_backend bdf reg v w = (LABH3_OK, w') \<and>
    adapter_space (ps_end w') = adapter_put bdf (ucast reg) (hb_wdata (ps_bridge w)) (adapter_space (ps_end w)) \<and>
    hb_wdata (ps_bridge w') = v"
  using h3.labh3_write [of w bdf reg v] assms by (auto simp: bridge_idle_def)

text \<open>Note.  So the program of labh3 fails on its own hardware: its probe of BAR 0 writes zeros where it means to
  write ones, it reads the size zero and gives up.\<close>

theorem labh3_main_misprobes:
  "case labh3_main adapter_backend g \<lparr>ps_bridge = bridge_reset, ps_end = adapter_reset\<rparr> of (g', w') \<Rightarrow>
     h3_stage g' = 0xFFFFFFFF \<and> h3_result g' = LABH3_ERR_BAR_SIZE \<and> h3_bar0_mask g' = 0 \<and> \<not> ad_bar0_probe (ps_end w')"
proof (cases g)
  case fields
  show ?thesis unfolding fields by code_simp
qed

text \<open>The busy bit labh1 tests is never set, so a read started while another is under way is not refused,
  and returns the data of the other: here the absent function 00:02.0 answers with the identity of 00:01.0.\<close>

definition stub_busy :: "stub pcie_sys" where
  "stub_busy = pcie_wr stub_backend 0x20 1
     (pcie_wr stub_backend 0x10 0x800 \<lparr>ps_bridge = bridge_reset, ps_end = stub_reset\<rparr>)"

lemmas stub_run = stub_busy_def pcie_rd_def pcie_wr_def host_edge_def stub_backend_def stub_edge_def stub_reset_def
  bridge_reset_def bridge_fsm_def bridge_write_def bridge_read_def Let_def

lemma labh1_read_while_busy:
  "hb_busy (ps_bridge stub_busy)"
  "\<exists>w. labh1_pcie_config_read32 stub_backend 0x1000 0 (Some 0) stub_busy = (LABH1_OK, Some 0x56781234, w)"
proof -
  show "hb_busy (ps_bridge stub_busy)" by (simp add: stub_run)
  let ?b = "bridge_reset\<lparr>hb_bdf := 0x1000, hb_command := 1, hb_state := STATE_WAIT_CPL, hb_busy := True, hb_error := 8, hb_req_bdf := 0x800\<rparr>"
  let ?e = "stub_reset\<lparr>sb_bdf := 0x800, sb_valid := True, sb_rdata := 0x56781234\<rparr>"
  have issue: "pcie_wr stub_backend 0x20 1 (pcie_wr stub_backend 0x14 0 (pcie_wr stub_backend 0x10 0x1000 (snd (pcie_rd stub_backend 0x08 stub_busy)))) =
      \<lparr>ps_bridge = ?b, ps_end = ?e\<rparr>"
    by (simp add: stub_run)
  have "\<exists>e'. answer stub_backend 1 ?e = Some ((0, 0x56781234), e')" by (simp add: stub_run)
  then obtain e' s where "poll_status stub_backend LABH1_POLL_LIMIT 0 0 \<lparr>ps_bridge = ?b, ps_end = ?e\<rparr> =
      (Completed, s, \<lparr>ps_bridge = bridge_fsm True (Some (0, 0x56781234)) ?b, ps_end = be_edge stub_backend None False e'\<rparr>)"
    using poll_wait [of stub_backend 1 ?e 0 "0x56781234" _ ?b 0 LABH1_POLL_LIMIT 0] by (auto simp: bridge_reset_def)
  then show "\<exists>w. labh1_pcie_config_read32 stub_backend 0x1000 0 (Some 0) stub_busy = (LABH1_OK, Some 0x56781234, w)"
    using issue status_bits(4) [of "ps_bridge stub_busy"]
    by (simp add: labh1_pcie_config_read32_def labh1_wait_completion_def case_prod_beta Let_def status_read)
      (simp add: pcie_rd_def bridge_read_def bridge_fsm_def bridge_reset_def Let_def)
qed

section \<open>Witnesses\<close>

lemma answer_numeral:
  "answer be (numeral k) e =
     (case be_cpl be e of
        Some c \<Rightarrow> Some (c, be_edge be None True e)
      | None \<Rightarrow> answer be (pred_numeral k) (be_edge be None True e))"
  by (simp add: numeral_eq_Suc)

text \<open>A backend that takes no request, as the configuration port of labh3_pcie_vendor_adapter.v, which states the
  interface for a vendor to fill in.\<close>

definition refusing :: "unit backend" where
  "refusing = \<lparr>be_ready = \<lambda>_. False, be_cpl = \<lambda>_. None, be_edge = \<lambda>_ _ e. e, be_mem_write = \<lambda>_ _ e. e,
     be_mem_read = \<lambda>e. Pair None\<rparr>"

lemma never_ready: "(\<And>e. \<not> be_ready be e) \<Longrightarrow> served_within be r n e = None"
  by (induction n arbitrary: e) auto

lemma served_numeral:
  "served_within be r (numeral k) e =
     (if be_ready be e then answer be (pred_numeral k) (be_edge be (Some r) False e)
      else served_within be r (pred_numeral k) (be_edge be (Some r) False e))"
  by (simp add: numeral_eq_Suc)

theorem labh2_config_read_outcome_witness:
  "\<forall>g. (\<exists>s w'. labh2_config_read32 stub_backend 0x800 0 7 g \<lparr>ps_bridge = bridge_reset, ps_end = stub_reset\<rparr> =
     (LABH2_OK, 0x56781234, g\<lparr>h2_status := s\<rparr>, w')) \<and>
   (\<exists>s w'. labh2_config_read32 refusing 0x800 0 7 g \<lparr>ps_bridge = bridge_reset, ps_end = ()\<rparr> =
     (LABH2_ERR_TIMEOUT, 7, g\<lparr>h2_status := s\<rparr>, w'))"
proof
  fix g
  have edges: "(be_edge stub_backend None False ^^ 4) stub_reset = stub_reset"
    by (simp add: eval_nat_numeral stub_backend_def stub_edge_def stub_reset_def Let_def)
  let ?r = "\<lparr>rq_type = 0, rq_bdf = 0x800, rq_reg = 0, rq_wdata = 0\<rparr>"
  have "\<exists>e'. served_within stub_backend ?r 99999 stub_reset = Some ((0, 0x56781234), e')"
    by (simp add: served_numeral answer_numeral stub_backend_def stub_edge_def stub_reset_def Let_def)
  then obtain e' where e': "served_within stub_backend ?r 99999 stub_reset = Some ((0, 0x56781234), e')" by blast
  have never: "served_within refusing ?r 99999 e = None" for e
    by (rule never_ready) (simp add: refusing_def)
  show "(\<exists>s w'. labh2_config_read32 stub_backend 0x800 0 7 g \<lparr>ps_bridge = bridge_reset, ps_end = stub_reset\<rparr> =
       (LABH2_OK, 0x56781234, g\<lparr>h2_status := s\<rparr>, w')) \<and>
     (\<exists>s w'. labh2_config_read32 refusing 0x800 0 7 g \<lparr>ps_bridge = bridge_reset, ps_end = ()\<rparr> =
       (LABH2_ERR_TIMEOUT, 7, g\<lparr>h2_status := s\<rparr>, w'))"
    using labh2_config_read_outcome [of "\<lparr>ps_bridge = bridge_reset, ps_end = stub_reset\<rparr>" stub_backend "0x800" 0 7 g]
      labh2_config_read_outcome [of "\<lparr>ps_bridge = bridge_reset, ps_end = ()\<rparr>" refusing "0x800" 0 7 g] e' edges never
    by (simp add: bridge_reset_def)
qed

theorem labh2_access_wf_witness:
  "bridge_wf (ps_bridge (snd (snd (snd (labh2_config_read32 stub_backend 0x800 0 7
     \<lparr>h2_stage = 0, h2_status = 0, h2_version = 0, h2_id = 0, h2_readback = 0, h2_absent_value = 0, h2_vendor = 0, h2_device = 0, h2_result = 0\<rparr>
     \<lparr>ps_bridge = bridge_reset, ps_end = stub_reset\<rparr>)))))"
  using labh2_access_wf [of "\<lparr>ps_bridge = bridge_reset, ps_end = stub_reset\<rparr>"] reset_idle by simp

theorem labh2_config_write_read_witness:
  "\<forall>g. \<exists>g1 w1 g2 w2. labh2_config_write32 endpoint_backend 0x800 0x40 9 g \<lparr>ps_bridge = bridge_reset, ps_end = endpoint_reset\<rparr> = (LABH2_OK, g1, w1) \<and>
     labh2_config_read32 endpoint_backend 0x800 0x40 0 g1 w1 = (LABH2_OK, 9, g2, w2)"
proof
  fix g
  show "\<exists>g1 w1 g2 w2. labh2_config_write32 endpoint_backend 0x800 0x40 9 g \<lparr>ps_bridge = bridge_reset, ps_end = endpoint_reset\<rparr> = (LABH2_OK, g1, w1) \<and>
     labh2_config_read32 endpoint_backend 0x800 0x40 0 g1 w1 = (LABH2_OK, 9, g2, w2)"
    using labh2_config_write_read [of "\<lparr>ps_bridge = bridge_reset, ps_end = endpoint_reset\<rparr>" "0x800" "0x40" 9 g "0x800" "0x40" 0]
    by (simp add: bridge_reset_def endpoint_reset_def)
qed

theorem labh3_write_sends_previous_witness:
  "\<exists>w'. labh3_config_write32 adapter_backend 0x800 0x10 0xFFFFFFFF \<lparr>ps_bridge = bridge_reset, ps_end = adapter_reset\<rparr> = (LABH3_OK, w') \<and>
     adapter_space (ps_end w') 0x800 0x10 = 0"
  using labh3_write_sends_previous [of "\<lparr>ps_bridge = bridge_reset, ps_end = adapter_reset\<rparr>" "0x800" "0x10" "0xFFFFFFFF"]
  by (auto simp: bridge_reset_def adapter_reset_def adapter_put_def)

end
