(* ===== verification/Runtime.thy ===== *)
theory Runtime
  imports Prelude
begin

text \<open>
  platform/runtime (runtime.c, syscalls.c) and labs/lab06_startup_runtime: what runs before main.  Memory is
  a function from addresses to bytes; the symbols the linker script defines are the record \<open>linker\<close>, with
  what linker.ld guarantees of them in \<open>linker_ok\<close>.  The loops compare pointers and may in principle not end;
  they are partial, and are shown to end for what the linker script lays out.
\<close>

section \<open>Memory and the linker script (linker.ld)\<close>

type_synonym mem = "u32 \<Rightarrow> u8"

definition ld32 :: "u32 \<Rightarrow> mem \<Rightarrow> u32" where
  "ld32 a m = ucast (m a) OR push_bit 8 (ucast (m (a + 1))) OR push_bit 16 (ucast (m (a + 2))) OR push_bit 24 (ucast (m (a + 3)))"

definition st32 :: "u32 \<Rightarrow> u32 \<Rightarrow> mem \<Rightarrow> mem" where
  "st32 a v m = m(a := ucast v, a + 1 := ucast (drop_bit 8 v), a + 2 := ucast (drop_bit 16 v), a + 3 := ucast (drop_bit 24 v))"

record linker =
  lk_sidata :: u32
  lk_sdata :: u32
  lk_edata :: u32
  lk_sbss :: u32
  lk_ebss :: u32
  lk_far_load :: u32
  lk_far_start :: u32
  lk_far_end :: u32
  lk_heap_start :: u32
  lk_heap_end :: u32

text \<open>The sections of RAM in their order, aligned, and the load images in flash.\<close>

definition linker_ok :: "linker \<Rightarrow> bool" where
  "linker_ok l \<longleftrightarrow>
     0x20000000 \<le> lk_far_start l \<and> lk_far_start l \<le> lk_far_end l \<and> lk_far_end l \<le> lk_sdata l \<and> lk_sdata l \<le> lk_edata l \<and>
     lk_edata l \<le> lk_sbss l \<and> lk_sbss l \<le> lk_ebss l \<and> lk_ebss l \<le> lk_heap_start l \<and>
     lk_heap_end l = lk_heap_start l + 0x0800 \<and> lk_heap_start l \<le> 0x2000E800 \<and>
     4 dvd unat (lk_sdata l) \<and> 4 dvd unat (lk_edata l) \<and> 4 dvd unat (lk_sbss l) \<and> 4 dvd unat (lk_ebss l) \<and>
     unat (lk_sidata l) + (unat (lk_edata l) - unat (lk_sdata l)) \<le> 0x40000 \<and>
     unat (lk_far_load l) + (unat (lk_far_end l) - unat (lk_far_start l)) \<le> 0x40000"

section \<open>Initialised and zeroed data (runtime.c)\<close>

partial_function (option) copy_words :: "u32 \<Rightarrow> u32 \<Rightarrow> u32 \<Rightarrow> mem \<Rightarrow> mem option" where
  "copy_words edata src dst m =
     (if dst < edata then copy_words edata (src + 4) (dst + 4) (st32 dst (ld32 src m) m) else Some m)"

definition copy_data :: "linker \<Rightarrow> mem \<Rightarrow> mem option" where
  "copy_data l m = copy_words (lk_edata l) (lk_sidata l) (lk_sdata l) m"

partial_function (option) zero_words :: "u32 \<Rightarrow> u32 \<Rightarrow> mem \<Rightarrow> mem option" where
  "zero_words ebss dst m = (if dst < ebss then zero_words ebss (dst + 4) (st32 dst 0 m) else Some m)"

definition zero_bss :: "linker \<Rightarrow> mem \<Rightarrow> mem option" where
  "zero_bss l m = zero_words (lk_ebss l) (lk_sbss l) m"

text \<open>The destructors, of which the linker keeps a table, are called from the last to the first.\<close>

fun cpp_fini_loop :: "('w \<Rightarrow> 'w) list \<Rightarrow> nat \<Rightarrow> 'w \<Rightarrow> 'w" where
  "cpp_fini_loop fini_array 0 w = w"
| "cpp_fini_loop fini_array (Suc i) w = cpp_fini_loop fini_array i ((fini_array ! i) w)"

definition local_cpp_fini :: "('w \<Rightarrow> 'w) list \<Rightarrow> 'w \<Rightarrow> 'w" where
  "local_cpp_fini fini_array w = cpp_fini_loop fini_array (length fini_array) w"

lemma fini_loop: "n \<le> length fs \<Longrightarrow> cpp_fini_loop fs n w = fold id (rev (take n fs)) w"
  by (induction n arbitrary: w) (auto simp: take_Suc_conv_app_nth)

lemma local_cpp_fini_reversed: "local_cpp_fini fs w = foldr id fs w"
  by (simp add: local_cpp_fini_def fini_loop foldr_conv_fold)

text \<open>platform/selftest: its runtime.c has the same two loops and calls the constructors itself, the counter an
  unsigned int and the tables shorter than its range.\<close>

function init_array_loop :: "('w \<Rightarrow> 'w) list \<Rightarrow> nat \<Rightarrow> 'w \<Rightarrow> 'w" where
  "init_array_loop init_array i w =
     (if i < length init_array then init_array_loop init_array (i + 1) ((init_array ! i) w) else w)"
  by pat_completeness auto
termination
  by (relation "measure (\<lambda>(fs, i, _). length fs - i)") auto

declare init_array_loop.simps [simp del]

definition local_init_array :: "('w \<Rightarrow> 'w) list \<Rightarrow> ('w \<Rightarrow> 'w) list \<Rightarrow> 'w \<Rightarrow> 'w" where
  "local_init_array preinit_array init_array w = (let w = init_array_loop preinit_array 0 w in init_array_loop init_array 0 w)"

lemma init_loop: "init_array_loop fs i w = fold id (drop i fs) w"
proof (induction fs i w rule: init_array_loop.induct)
  case (1 fs i w)
  then show ?case by (subst init_array_loop.simps) (auto simp: id_def simp flip: Cons_nth_drop_Suc)
qed

lemma local_init_array_in_order: "local_init_array ps fs w = fold id (ps @ fs) w"
  by (simp add: local_init_array_def init_loop)

text \<open>A destructor table that undoes the constructors in their order leaves nothing of them.\<close>

lemma local_cpp_fini_undoes:
  assumes "list_all2 (\<lambda>f d. \<forall>w. d (f w) = w) fs ds"
  shows "local_cpp_fini ds (local_init_array [] fs w) = w"
proof -
  have "foldr id ds (fold id fs w) = w" using assms
    by (induction arbitrary: w) auto
  then show ?thesis by (simp add: local_cpp_fini_reversed local_init_array_in_order)
qed

section \<open>The heap (syscalls.c)\<close>

text \<open>The increment is an int in two's complement; the new break and the caller's stack pointer are compared as
  addresses; \<open>heap_errno\<close> is errno.\<close>

record heap =
  heap_ptr :: u32
  heap_errno :: int

abbreviation (input) ENOMEM :: int where "ENOMEM \<equiv> 12"

definition sbrk :: "linker \<Rightarrow> u32 \<Rightarrow> u32 \<Rightarrow> heap \<Rightarrow> u32 \<times> heap" where
  "sbrk l sp incr h =
     (let prev_heap_ptr = heap_ptr h in
      if lk_heap_end l < heap_ptr h + incr then (- 1, h\<lparr>heap_errno := ENOMEM\<rparr>)
      else if sp < heap_ptr h + incr then (- 1, h\<lparr>heap_errno := ENOMEM\<rparr>)
      else (prev_heap_ptr, h\<lparr>heap_ptr := heap_ptr h + incr\<rparr>))"

section \<open>lab06 (farfunc.c, main.c)\<close>

partial_function (option) copy_far_bytes :: "u32 \<Rightarrow> u32 \<Rightarrow> u32 \<Rightarrow> mem \<Rightarrow> mem option" where
  "copy_far_bytes end_far src dst m =
     (if dst < end_far then copy_far_bytes end_far (src + 1) (dst + 1) (m(dst := m src)) else Some m)"

definition relocate_far_text :: "linker \<Rightarrow> mem \<Rightarrow> mem option" where
  "relocate_far_text l m = copy_far_bytes (lk_far_end l) (lk_far_load l) (lk_far_start l) m"

definition farfunc :: "u32 \<Rightarrow> u32" where
  "farfunc v = (v XOR 0xA5A55A5A) + 1"

record lab06 =
  g_far_result :: u32
  g_constructor_called :: u32
  g_constructor_count :: u32
  l6_mem :: mem

definition test_constructor_1 :: "lab06 \<Rightarrow> lab06" where
  "test_constructor_1 s =
     (let s = s\<lparr>g_constructor_called := 0x12345678\<rparr> in s\<lparr>g_constructor_count := g_constructor_count s + 1\<rparr>)"

definition test_constructor_2 :: "lab06 \<Rightarrow> lab06" where
  "test_constructor_2 s = s\<lparr>g_constructor_count := g_constructor_count s + 1\<rparr>"

text \<open>The call of \<open>farfunc\<close> executes what is in RAM at its address: it is the function if the code has been
  copied there, and anything otherwise, None.\<close>

definition far_code_loaded :: "linker \<Rightarrow> mem \<Rightarrow> bool" where
  "far_code_loaded l m \<longleftrightarrow>
     list_all (\<lambda>i. m (lk_far_start l + of_nat i) = m (lk_far_load l + of_nat i)) [0..<unat (lk_far_end l - lk_far_start l)]"

definition call_farfunc :: "linker \<Rightarrow> mem \<Rightarrow> u32 \<Rightarrow> u32 option" where
  "call_farfunc l m v = (if far_code_loaded l m then Some (farfunc v) else None)"

text \<open>The loops main may end in.  The allocator is a parameter: whether malloc succeeds.\<close>

datatype lab06_end = ConstructorsNotRun | FarCallLost | FarResultWrong | OutOfMemory | Lab06Done

definition lab06_main :: "linker \<Rightarrow> bool \<Rightarrow> lab06 \<Rightarrow> lab06_end \<times> lab06" where
  "lab06_main l malloc_ok s =
     (if g_constructor_called s \<noteq> 0x12345678 \<or> g_constructor_count s \<noteq> 2 then (ConstructorsNotRun, s)
      else
        case call_farfunc l (l6_mem s) 0x11223344 of
          None \<Rightarrow> (FarCallLost, s)
        | Some v \<Rightarrow>
            let s = s\<lparr>g_far_result := v\<rparr> in
            if g_far_result s \<noteq> 0xB487691F then (FarResultWrong, s)
            else if \<not> malloc_ok then (OutOfMemory, s)
            else (Lab06Done, s))"

section \<open>Copying\<close>

lemma ld32_bytes:
  "ucast (ld32 a m) = m a" "ucast (drop_bit 8 (ld32 a m)) = m (a + 1)" "ucast (drop_bit 16 (ld32 a m)) = m (a + 2)"
  "ucast (drop_bit 24 (ld32 a m)) = m (a + 3)"
  by (rule bit_word_eqI, auto simp: ld32_def bit_simps dest: bit_imp_le_length)+

text \<open>The four addresses of a word.\<close>

lemma word_addresses:
  fixes d :: u32
  assumes "unat d + 4 < 2 ^ 32"
  shows "unat (d + 1) = unat d + 1" "unat (d + 2) = unat d + 2" "unat (d + 3) = unat d + 3" "unat (d + 4) = unat d + 4"
  using assms by (simp_all add: unat_word_ariths)

lemma copy_word:
  assumes "unat d + 4 < 2 ^ 32"
  shows "st32 d (ld32 s m) m x = (if d \<le> x \<and> unat x < unat d + 4 then m (s + (x - d)) else m x)"
proof -
  note a = word_addresses [OF assms]
  consider "x = d" | "x = d + 1" | "x = d + 2" | "x = d + 3" | "\<not> (d \<le> x \<and> unat x < unat d + 4)" "x \<noteq> d" "x \<noteq> d + 1" "x \<noteq> d + 2" "x \<noteq> d + 3"
    using a by (auto simp: word_unat_eq_iff word_le_nat_alt)
  then show ?thesis
  proof cases
    case 5
    then show ?thesis by (auto simp: st32_def)
  qed (use a in \<open>simp_all add: st32_def ld32_bytes word_le_nat_alt\<close>)
qed

lemma zero_word:
  assumes "unat d + 4 < 2 ^ 32"
  shows "st32 d 0 m x = (if d \<le> x \<and> unat x < unat d + 4 then 0 else m x)"
proof -
  note a = word_addresses [OF assms]
  have "d \<le> x \<and> unat x < unat d + 4 \<longleftrightarrow> x \<in> {d, d + 1, d + 2, d + 3}"
    using a by (auto simp: word_unat_eq_iff word_le_nat_alt)
  then show ?thesis by (auto simp: st32_def)
qed

text \<open>A copy from below, in words and in bytes.\<close>

lemma copy_words_copies:
  assumes "unat edata = unat dst + 4 * n" "unat edata + 4 < 2 ^ 32" "unat src + 4 * n \<le> unat dst"
  shows "copy_words edata src dst m = Some (\<lambda>x. if dst \<le> x \<and> x < edata then m (src + (x - dst)) else m x)"
  using assms
proof (induction n arbitrary: src dst m)
  case 0
  then have "edata = dst" by (simp add: word_unat_eq_iff)
  then show ?case by (subst copy_words.simps) (auto simp: fun_eq_iff)
next
  case (Suc n)
  have lt: "dst < edata" using Suc.prems(1) by (simp add: word_less_nat_alt)
  have d: "unat dst + 4 < 2 ^ 32" "unat src + 4 < 2 ^ 32" using Suc.prems by simp_all
  note a = word_addresses(4) [OF d(1)] word_addresses(4) [OF d(2)]
  let ?m = "st32 dst (ld32 src m) m"
  have "copy_words edata (src + 4) (dst + 4) ?m =
      Some (\<lambda>x. if dst + 4 \<le> x \<and> x < edata then ?m (src + 4 + (x - (dst + 4))) else ?m x)"
    using Suc.IH [of "dst + 4" "src + 4" ?m] Suc.prems a by simp
  also have "(\<lambda>x. if dst + 4 \<le> x \<and> x < edata then ?m (src + 4 + (x - (dst + 4))) else ?m x) =
      (\<lambda>x. if dst \<le> x \<and> x < edata then m (src + (x - dst)) else m x)" (is "?f = ?g")
  proof
    fix x
    have cw: "\<And>y. ?m y = (if dst \<le> y \<and> unat y < unat dst + 4 then m (src + (y - dst)) else m y)"
      by (rule copy_word [OF d(1)])
    show "?f x = ?g x"
    proof (cases "dst + 4 \<le> x \<and> x < edata")
      case True
      then have "unat (x - dst) = unat x - unat dst"
        using a by (intro unat_sub) (simp add: word_le_nat_alt)
      moreover have k: "unat src + (unat x - unat dst) < unat dst" "unat dst < 2 ^ 32"
        using True Suc.prems a unfolding word_le_nat_alt word_less_nat_alt by linarith+
      ultimately have "unat (src + (x - dst)) < unat dst" by (simp add: unat_word_ariths)
      then have "?m (src + (x - dst)) = m (src + (x - dst))" unfolding cw by (simp add: word_le_nat_alt)
      moreover have "dst \<le> x" using True a by (simp add: word_le_nat_alt)
      ultimately show ?thesis using True by simp
    next
      case False
      then show ?thesis using Suc.prems(1) a unfolding cw by (auto simp: word_le_nat_alt word_less_nat_alt)
    qed
  qed
  finally show ?case using lt by (subst copy_words.simps) simp
qed

lemma copy_far_bytes_copies:
  assumes "unat end_far = unat dst + n" "unat end_far + 1 < 2 ^ 32" "unat src + n \<le> unat dst"
  shows "copy_far_bytes end_far src dst m = Some (\<lambda>x. if dst \<le> x \<and> x < end_far then m (src + (x - dst)) else m x)"
  using assms
proof (induction n arbitrary: src dst m)
  case 0
  then have "end_far = dst" by (simp add: word_unat_eq_iff)
  then show ?case by (subst copy_far_bytes.simps) (auto simp: fun_eq_iff)
next
  case (Suc n)
  have lt: "dst < end_far" using Suc.prems(1) by (simp add: word_less_nat_alt)
  have a: "unat (dst + 1) = unat dst + 1" "unat (src + 1) = unat src + 1"
    using Suc.prems by (simp_all add: unat_word_ariths)
  let ?m = "m(dst := m src)"
  have "copy_far_bytes end_far (src + 1) (dst + 1) ?m =
      Some (\<lambda>x. if dst + 1 \<le> x \<and> x < end_far then ?m (src + 1 + (x - (dst + 1))) else ?m x)"
    by (rule Suc.IH) (use Suc.prems a in simp_all)
  also have "(\<lambda>x. if dst + 1 \<le> x \<and> x < end_far then ?m (src + 1 + (x - (dst + 1))) else ?m x) =
      (\<lambda>x. if dst \<le> x \<and> x < end_far then m (src + (x - dst)) else m x)" (is "?f = ?g")
  proof
    fix x
    show "?f x = ?g x"
    proof (cases "dst + 1 \<le> x \<and> x < end_far")
      case True
      then have "unat (x - dst) = unat x - unat dst"
        using a by (intro unat_sub) (simp add: word_le_nat_alt)
      moreover have k: "unat src + (unat x - unat dst) < unat dst" "unat dst < 2 ^ 32"
        using True Suc.prems a unfolding word_le_nat_alt word_less_nat_alt by linarith+
      ultimately have "unat (src + (x - dst)) < unat dst" by (simp add: unat_word_ariths)
      then have "src + (x - dst) \<noteq> dst" by (metis order_less_irrefl)
      moreover have "dst \<le> x" using True a by (simp add: word_le_nat_alt)
      ultimately show ?thesis using True by simp
    next
      case False
      show ?thesis
      proof (cases "x = dst")
        case False
        then have "\<not> (dst \<le> x \<and> x < end_far)"
          using \<open>\<not> (dst + 1 \<le> x \<and> x < end_far)\<close> a by (auto simp: word_le_nat_alt word_less_nat_alt word_unat_eq_iff)
        then show ?thesis using False \<open>\<not> (dst + 1 \<le> x \<and> x < end_far)\<close> by auto
      qed (use lt a in \<open>auto simp: word_le_nat_alt\<close>)
    qed
  qed
  finally have "copy_far_bytes end_far (src + 1) (dst + 1) ?m = Some ?g" .
  then show ?case using lt by (subst copy_far_bytes.simps) (simp only: if_True)
qed

lemma zero_words_zeroes:
  assumes "unat ebss = unat dst + 4 * n" "unat ebss + 4 < 2 ^ 32"
  shows "zero_words ebss dst m = Some (\<lambda>x. if dst \<le> x \<and> x < ebss then 0 else m x)"
  using assms
proof (induction n arbitrary: dst m)
  case 0
  then have "ebss = dst" by (simp add: word_unat_eq_iff)
  then show ?case by (subst zero_words.simps) (auto simp: fun_eq_iff)
next
  case (Suc n)
  have lt: "dst < ebss" using Suc.prems(1) by (simp add: word_less_nat_alt)
  have d: "unat dst + 4 < 2 ^ 32" using Suc.prems by simp
  note a = word_addresses(4) [OF d]
  have "zero_words ebss (dst + 4) (st32 dst 0 m) = Some (\<lambda>x. if dst + 4 \<le> x \<and> x < ebss then 0 else st32 dst 0 m x)"
    using Suc.IH [of "dst + 4" "st32 dst 0 m"] Suc.prems a by simp
  also have "(\<lambda>x. if dst + 4 \<le> x \<and> x < ebss then 0 else st32 dst 0 m x) = (\<lambda>x. if dst \<le> x \<and> x < ebss then 0 else m x)"
    using Suc.prems(1) a unfolding zero_word [OF d] by (auto simp: fun_eq_iff word_le_nat_alt word_less_nat_alt)
  finally show ?case using lt by (subst zero_words.simps) simp
qed

section \<open>What the linker script gives\<close>

lemma words_between:
  assumes "a \<le> b" "4 dvd unat a" "4 dvd unat b"
  shows "\<exists>n. unat b = unat a + 4 * n"
  using assms by (metis word_le_nat_alt le_Suc_ex dvd_add_right_iff dvdE)

lemma linker_facts:
  assumes "linker_ok l"
  shows "unat (lk_ebss l) + 4 < 2 ^ 32" "unat (lk_edata l) + 4 < 2 ^ 32" "unat (lk_far_end l) + 1 < 2 ^ 32"
    "0x20000000 \<le> unat (lk_far_start l)" "unat (lk_far_start l) \<le> unat (lk_far_end l)" "unat (lk_far_end l) \<le> unat (lk_sdata l)"
    "unat (lk_sdata l) \<le> unat (lk_edata l)" "unat (lk_edata l) \<le> unat (lk_sbss l)" "unat (lk_sbss l) \<le> unat (lk_ebss l)"
    "unat (lk_ebss l) \<le> unat (lk_heap_start l)" "unat (lk_heap_start l) \<le> 0x2000E800"
    "unat (lk_heap_end l) = unat (lk_heap_start l) + 0x800"
proof -
  have o: "0x20000000 \<le> unat (lk_far_start l)" "unat (lk_far_start l) \<le> unat (lk_far_end l)" "unat (lk_far_end l) \<le> unat (lk_sdata l)"
    "unat (lk_sdata l) \<le> unat (lk_edata l)" "unat (lk_edata l) \<le> unat (lk_sbss l)" "unat (lk_sbss l) \<le> unat (lk_ebss l)"
    "unat (lk_ebss l) \<le> unat (lk_heap_start l)" "unat (lk_heap_start l) \<le> 0x2000E800"
    using assms by (simp_all add: linker_ok_def word_le_nat_alt)
  then show "unat (lk_ebss l) + 4 < 2 ^ 32" "unat (lk_edata l) + 4 < 2 ^ 32" "unat (lk_far_end l) + 1 < 2 ^ 32" by simp_all
  show "unat (lk_heap_end l) = unat (lk_heap_start l) + 0x800"
    using assms o(8) by (simp add: linker_ok_def unat_word_ariths)
qed (use assms in \<open>simp_all add: linker_ok_def word_le_nat_alt\<close>)

lemma copy_data_copies:
  assumes "linker_ok l"
  shows "copy_data l m = Some (\<lambda>x. if lk_sdata l \<le> x \<and> x < lk_edata l then m (lk_sidata l + (x - lk_sdata l)) else m x)"
proof -
  obtain n where n: "unat (lk_edata l) = unat (lk_sdata l) + 4 * n"
    using words_between [of "lk_sdata l" "lk_edata l"] assms by (auto simp: linker_ok_def)
  have "unat (lk_sidata l) + 4 * n \<le> unat (lk_sdata l)" using n assms linker_facts [OF assms] by (simp add: linker_ok_def)
  then show ?thesis unfolding copy_data_def by (rule copy_words_copies [OF n linker_facts(2) [OF assms]])
qed

lemma zero_bss_zeroes:
  assumes "linker_ok l"
  shows "zero_bss l m = Some (\<lambda>x. if lk_sbss l \<le> x \<and> x < lk_ebss l then 0 else m x)"
proof -
  obtain n where n: "unat (lk_ebss l) = unat (lk_sbss l) + 4 * n"
    using words_between [of "lk_sbss l" "lk_ebss l"] assms by (auto simp: linker_ok_def)
  then show ?thesis unfolding zero_bss_def by (rule zero_words_zeroes [OF _ linker_facts(1) [OF assms]])
qed

lemma relocate_copies:
  assumes "linker_ok l"
  shows "relocate_far_text l m =
    Some (\<lambda>x. if lk_far_start l \<le> x \<and> x < lk_far_end l then m (lk_far_load l + (x - lk_far_start l)) else m x)"
proof -
  note f = linker_facts [OF assms]
  have n: "unat (lk_far_end l) = unat (lk_far_start l) + (unat (lk_far_end l) - unat (lk_far_start l))" using f(5) by simp
  have "unat (lk_far_load l) + (unat (lk_far_end l) - unat (lk_far_start l)) \<le> unat (lk_far_start l)"
    using f(4) assms by (simp add: linker_ok_def)
  then show ?thesis unfolding relocate_far_text_def by (rule copy_far_bytes_copies [OF n f(3)])
qed

lemma relocated_code_loaded:
  assumes "linker_ok l" "relocate_far_text l m = Some m'"
  shows "far_code_loaded l m'"
  unfolding far_code_loaded_def list_all_iff
proof
  fix i assume "i \<in> set [0..<unat (lk_far_end l - lk_far_start l)]"
  note f = linker_facts [OF assms(1)]
  have sz: "unat (lk_far_end l - lk_far_start l) = unat (lk_far_end l) - unat (lk_far_start l)"
    using f(5) by (intro unat_sub) (simp add: word_le_nat_alt)
  then have i: "unat (lk_far_start l) + i < unat (lk_far_end l)" using \<open>i \<in> _\<close> by simp
  then have i32: "i < 2 ^ 32" using f(3) by simp
  have a: "unat (lk_far_start l + of_nat i) = unat (lk_far_start l) + i"
    using i i32 f(3) by (simp add: unat_word_ariths unat_of_nat)
  have b: "unat (lk_far_load l + of_nat i) < 0x20000000"
  proof -
    have "unat (lk_far_load l) + (unat (lk_far_end l) - unat (lk_far_start l)) \<le> 0x40000"
      using assms(1) by (simp add: linker_ok_def)
    then have "unat (lk_far_load l) + i < 0x20000000" using i by linarith
    then show ?thesis using i32 by (simp add: unat_word_ariths unat_of_nat)
  qed
  show "m' (lk_far_start l + of_nat i) = m' (lk_far_load l + of_nat i)"
    using assms(2) a b i f(4) unfolding relocate_copies [OF assms(1)] by (auto simp: word_le_nat_alt word_less_nat_alt)
qed

section \<open>Properties\<close>

text \<open>C27.  For every layout the linker script can produce, the two startup loops end, and then memory holds the
  load image in .data, zeros in .bss, and everywhere else what it held.\<close>

theorem startup_initialises_memory:
  assumes "linker_ok l"
  shows "\<exists>m1 m2. copy_data l m = Some m1 \<and> zero_bss l m1 = Some m2 \<and>
    m2 = (\<lambda>x. if lk_sdata l \<le> x \<and> x < lk_edata l then m (lk_sidata l + (x - lk_sdata l))
               else if lk_sbss l \<le> x \<and> x < lk_ebss l then 0 else m x)"
proof (intro exI conjI)
  show "copy_data l m = Some (\<lambda>x. if lk_sdata l \<le> x \<and> x < lk_edata l then m (lk_sidata l + (x - lk_sdata l)) else m x)"
    by (rule copy_data_copies [OF assms])
qed (rule zero_bss_zeroes [OF assms], use linker_facts(8) [OF assms] in \<open>auto simp: fun_eq_iff word_le_nat_alt word_less_nat_alt\<close>)

text \<open>Note.  lab06 boots: the copy of the far function, then its two constructors in either order, and main finds
  what they did and gets the expected result from the function in RAM.  A failing allocator stops it.\<close>

theorem lab06_boots:
  assumes "linker_ok l" "g_constructor_count s = 0"
  shows "\<exists>m'. relocate_far_text l (l6_mem s) = Some m' \<and>
    fst (lab06_main l malloc_ok (test_constructor_2 (test_constructor_1 (s\<lparr>l6_mem := m'\<rparr>)))) = (if malloc_ok then Lab06Done else OutOfMemory) \<and>
    fst (lab06_main l malloc_ok (test_constructor_1 (test_constructor_2 (s\<lparr>l6_mem := m'\<rparr>)))) = (if malloc_ok then Lab06Done else OutOfMemory)"
proof -
  obtain m' where m': "relocate_far_text l (l6_mem s) = Some m'" using relocate_copies [OF assms(1)] by blast
  have "farfunc 0x11223344 = 0xB487691F" by (simp add: farfunc_def)
  then show ?thesis using relocated_code_loaded [OF assms(1) m'] m' assms(2)
    by (simp add: lab06_main_def call_farfunc_def test_constructor_1_def test_constructor_2_def Let_def)
qed

text \<open>A run of requests, each with the stack pointer of its caller, and the blocks it is granted.\<close>

fun sbrk_run :: "linker \<Rightarrow> (u32 \<times> u32) list \<Rightarrow> heap \<Rightarrow> (u32 \<times> u32) list \<times> heap" where
  "sbrk_run l [] h = ([], h)"
| "sbrk_run l ((sp, incr) # reqs) h =
     (case sbrk l sp incr h of (p, h) \<Rightarrow>
      case sbrk_run l reqs h of (bs, h) \<Rightarrow> (if p = - 1 then bs else (p, incr) # bs, h))"

text \<open>Blocks that follow each other from an address to another.\<close>

fun contiguous :: "nat \<Rightarrow> (u32 \<times> u32) list \<Rightarrow> nat \<Rightarrow> bool" where
  "contiguous lo [] hi \<longleftrightarrow> lo = hi"
| "contiguous lo ((p, n) # bs) hi \<longleftrightarrow> unat p = lo \<and> contiguous (lo + unat n) bs hi"

lemma contiguous_le: "contiguous lo bs hi \<Longrightarrow> lo \<le> hi"
  by (induction lo bs hi rule: contiguous.induct) auto

lemma sbrk_step:
  assumes "linker_ok l" "unat (lk_heap_start l) \<le> unat (heap_ptr h)" "unat (heap_ptr h) \<le> unat (lk_heap_end l)" "unat incr < 2 ^ 31"
  shows "case sbrk l sp incr h of (p, h') \<Rightarrow>
    if p = - 1 then heap_ptr h' = heap_ptr h
    else p = heap_ptr h \<and> unat (heap_ptr h') = unat p + unat incr \<and> unat (heap_ptr h') \<le> unat (lk_heap_end l) \<and> heap_ptr h' \<le> sp"
proof -
  note f = linker_facts(11,12) [OF assms(1)]
  have "unat (heap_ptr h + incr) = unat (heap_ptr h) + unat incr"
    using assms(3,4) f by (simp add: unat_word_ariths)
  moreover have "heap_ptr h \<noteq> - 1" using assms(3) f by (auto simp: unsigned_minus_1_eq_mask mask_eq_exp_minus_1)
  ultimately show ?thesis by (auto simp: sbrk_def Let_def word_le_nat_alt word_less_nat_alt)
qed

lemma sbrk_run_contiguous:
  assumes "linker_ok l" "unat (lk_heap_start l) \<le> unat (heap_ptr h)" "unat (heap_ptr h) \<le> unat (lk_heap_end l)"
    and "list_all (\<lambda>(sp, incr). unat incr < 2 ^ 31) reqs"
  shows "case sbrk_run l reqs h of (bs, h') \<Rightarrow> contiguous (unat (heap_ptr h)) bs (unat (heap_ptr h')) \<and> unat (heap_ptr h') \<le> unat (lk_heap_end l)"
  using assms(2-)
proof (induction reqs arbitrary: h)
  case (Cons r reqs)
  obtain sp incr where r: "r = (sp, incr)" by (rule prod.exhaust)
  obtain p h1 where st: "sbrk l sp incr h = (p, h1)" by (rule prod.exhaust)
  note step = sbrk_step [OF assms(1) Cons.prems(1,2), of incr sp, unfolded st prod.case]
  have i: "unat incr < 2 ^ 31" using Cons.prems(3) r by simp
  have "unat (lk_heap_start l) \<le> unat (heap_ptr h1)" "unat (heap_ptr h1) \<le> unat (lk_heap_end l)"
    using step [OF i] Cons.prems(1,2) by (auto split: if_splits)
  then show ?case using Cons.IH [of h1] Cons.prems(3) step [OF i] r st by (auto split: if_splits prod.splits)
qed simp

text \<open>Note.  The blocks the allocator's break gives out, whatever is asked and with whatever stack, follow each
  other from the start of the heap to the break and lie in the heap; a refused request moves nothing.\<close>

theorem sbrk_blocks_disjoint:
  assumes "linker_ok l" "list_all (\<lambda>(sp, incr). unat incr < 2 ^ 31) reqs"
  shows "case sbrk_run l reqs \<lparr>heap_ptr = lk_heap_start l, heap_errno = 0\<rparr> of (bs, h) \<Rightarrow>
    contiguous (unat (lk_heap_start l)) bs (unat (heap_ptr h)) \<and> unat (heap_ptr h) \<le> unat (lk_heap_start l) + 0x800"
proof -
  let ?h = "\<lparr>heap_ptr = lk_heap_start l, heap_errno = 0\<rparr>"
  note f = linker_facts(12) [OF assms(1)]
  have "unat (lk_heap_start l) \<le> unat (heap_ptr ?h)" "unat (heap_ptr ?h) \<le> unat (lk_heap_end l)" using f by simp_all
  from sbrk_run_contiguous [OF assms(1) this assms(2)] show ?thesis using f by simp
qed

text \<open>A negative request has no lower bound: it takes the break below the heap.\<close>

lemma sbrk_below_heap:
  assumes "linker_ok l"
  shows "case sbrk l 0x20010000 (- 16) \<lparr>heap_ptr = lk_heap_start l, heap_errno = 0\<rparr> of (p, h) \<Rightarrow>
    p = lk_heap_start l \<and> heap_ptr h < lk_heap_start l"
proof -
  note f = linker_facts [OF assms]
  have "unat (lk_heap_start l - 16) = unat (lk_heap_start l) - 16"
    using f by (subst unat_sub) (simp_all add: word_le_nat_alt)
  then show ?thesis using f by (simp add: sbrk_def Let_def word_less_nat_alt)
qed

section \<open>Witnesses\<close>

definition small_linker :: linker where
  "small_linker = \<lparr>lk_sidata = 0x1000, lk_sdata = 0x20000010, lk_edata = 0x20000020, lk_sbss = 0x20000020, lk_ebss = 0x20000040,
     lk_far_load = 0x2000, lk_far_start = 0x20000000, lk_far_end = 0x2000000C, lk_heap_start = 0x20000040, lk_heap_end = 0x20000840\<rparr>"

lemma small_linker_ok: "linker_ok small_linker"
  by (simp add: linker_ok_def small_linker_def)

theorem startup_initialises_memory_witness:
  "\<exists>m1 m2. copy_data small_linker (\<lambda>a. if a = 0x1000 then 7 else 9) = Some m1 \<and> zero_bss small_linker m1 = Some m2 \<and>
     m2 0x20000010 = 7 \<and> m2 0x20000020 = 0 \<and> m2 0x20000040 = 9"
proof -
  obtain m1 m2 where "copy_data small_linker (\<lambda>a. if a = 0x1000 then 7 else 9) = Some m1" "zero_bss small_linker m1 = Some m2"
    "m2 0x20000010 = 7" "m2 0x20000020 = 0" "m2 0x20000040 = 9"
    using startup_initialises_memory [OF small_linker_ok, of "\<lambda>a. if a = 0x1000 then 7 else 9"]
    by (auto simp: small_linker_def)
  then show ?thesis by blast
qed

theorem lab06_boots_witness:
  "\<exists>m'. relocate_far_text small_linker (\<lambda>_. 5) = Some m' \<and>
     fst (lab06_main small_linker True (test_constructor_2 (test_constructor_1
       \<lparr>g_far_result = 0, g_constructor_called = 0, g_constructor_count = 0, l6_mem = m'\<rparr>))) = Lab06Done"
  using lab06_boots [OF small_linker_ok, of "\<lparr>g_far_result = 0, g_constructor_called = 0, g_constructor_count = 0, l6_mem = \<lambda>_. 5\<rparr>" True]
  by auto

theorem sbrk_blocks_disjoint_witness:
  "case sbrk_run small_linker [(0x20001000, 100), (0x20001000, 0x1000), (0x20001000, 8)] \<lparr>heap_ptr = lk_heap_start small_linker, heap_errno = 0\<rparr> of (bs, h) \<Rightarrow>
     contiguous (unat (lk_heap_start small_linker)) bs (unat (heap_ptr h)) \<and> unat (heap_ptr h) \<le> unat (lk_heap_start small_linker) + 0x800"
  using sbrk_blocks_disjoint [OF small_linker_ok, of "[(0x20001000, 100), (0x20001000, 0x1000), (0x20001000, 8)]"]
  by (simp del: sbrk_run.simps)

end
