(* ===== verification/Uart_Polling.thy ===== *)
theory Uart_Polling
  imports Prelude
begin

text \<open>
  labs/lab08_uart_register to labs/lab12_uart_driver_abstraction: the polled UART.  The functions of uart.c,
  which the labs repeat, the interrupt handler of lab10, and the console of lab12 with its newline
  translation.  The register accesses are the parameter \<open>uart_io\<close> and the bit masks of the vendor's header the
  parameter \<open>uart_masks\<close>; what the code relies on is the locale \<open>uart_port\<close>.  The wait loops are partial: that
  they end is shown from the contract.
\<close>

section \<open>The registers\<close>

record uart_masks =
  TXEN_Msk :: u32
  RXEN_Msk :: u32
  TXBF_Msk :: u32
  RXBF_Msk :: u32
  DATA_Msk :: u32
  RXIRQEN_Msk :: u32
  RXIRQ_Msk :: u32
  RXORIRQ_Msk :: u32

record 'w uart_io =
  rd_data :: "'w \<Rightarrow> u32 \<times> 'w"
  rd_state :: "'w \<Rightarrow> u32 \<times> 'w"
  rd_ctrl :: "'w \<Rightarrow> u32 \<times> 'w"
  rd_intstatus :: "'w \<Rightarrow> u32 \<times> 'w"
  wr_data :: "u32 \<Rightarrow> 'w \<Rightarrow> 'w"
  wr_ctrl :: "u32 \<Rightarrow> 'w \<Rightarrow> 'w"
  wr_intclear :: "u32 \<Rightarrow> 'w \<Rightarrow> 'w"
  wr_bauddiv :: "u32 \<Rightarrow> 'w \<Rightarrow> 'w"
  enable_irq :: "'w \<Rightarrow> 'w"

section \<open>uart.c\<close>

definition uart_init :: "'w uart_io \<Rightarrow> uart_masks \<Rightarrow> 'w \<Rightarrow> 'w" where
  "uart_init io k w =
     (let w = wr_ctrl io 0 w;
          w = wr_bauddiv io 217 w
      in wr_ctrl io (TXEN_Msk k OR RXEN_Msk k) w)"

definition uart_enable_irq :: "'w uart_io \<Rightarrow> uart_masks \<Rightarrow> 'w \<Rightarrow> 'w" where
  "uart_enable_irq io k w =
     (case rd_ctrl io w of (ctrl, w) \<Rightarrow> enable_irq io (wr_ctrl io (ctrl OR RXIRQEN_Msk k) w))"

partial_function (option) wait_tx_room :: "'w uart_io \<Rightarrow> uart_masks \<Rightarrow> 'w \<Rightarrow> 'w option" where
  "wait_tx_room io k w =
     (case rd_state io w of (st, w) \<Rightarrow> if st AND TXBF_Msk k \<noteq> 0 then wait_tx_room io k w else Some w)"

partial_function (option) wait_rx_data :: "'w uart_io \<Rightarrow> uart_masks \<Rightarrow> 'w \<Rightarrow> 'w option" where
  "wait_rx_data io k w =
     (case rd_state io w of (st, w) \<Rightarrow> if st AND RXBF_Msk k = 0 then wait_rx_data io k w else Some w)"

definition uart_putc :: "'w uart_io \<Rightarrow> uart_masks \<Rightarrow> u8 \<Rightarrow> 'w \<Rightarrow> 'w option" where
  "uart_putc io k c w = (case wait_tx_room io k w of None \<Rightarrow> None | Some w \<Rightarrow> Some (wr_data io (ucast c) w))"

text \<open>The string as the bytes from its address on; running off them without a terminator is None.\<close>

fun uart_puts :: "'w uart_io \<Rightarrow> uart_masks \<Rightarrow> u8 list \<Rightarrow> 'w \<Rightarrow> 'w option" where
  "uart_puts io k [] w = None"
| "uart_puts io k (c # s) w =
     (if c = 0 then Some w else case uart_putc io k c w of None \<Rightarrow> None | Some w \<Rightarrow> uart_puts io k s w)"

definition uart_getc :: "'w uart_io \<Rightarrow> uart_masks \<Rightarrow> 'w \<Rightarrow> (u8 \<times> 'w) option" where
  "uart_getc io k w =
     (case wait_rx_data io k w of
        None \<Rightarrow> None
      | Some w \<Rightarrow> (case rd_data io w of (d, w) \<Rightarrow> Some (ucast (d AND DATA_Msk k), w)))"

text \<open>lab10's receive interrupt: echo, and clear an overrun.\<close>

definition lab10_UART0_Handler :: "'w uart_io \<Rightarrow> uart_masks \<Rightarrow> 'w \<Rightarrow> 'w option" where
  "lab10_UART0_Handler io k w =
     (case rd_intstatus io w of (status, w) \<Rightarrow>
      case (if status AND RXIRQ_Msk k \<noteq> 0
            then (case rd_data io w of (d, w) \<Rightarrow>
                  let c = ucast (d AND DATA_Msk k); w = wr_intclear io (RXIRQ_Msk k) w in uart_putc io k c w)
            else Some w) of
        None \<Rightarrow> None
      | Some w \<Rightarrow> Some (if status AND RXORIRQ_Msk k \<noteq> 0 then wr_intclear io (RXORIRQ_Msk k) w else w))"

text \<open>The mains of lab08, lab09 and lab10 up to their loops, which wait for interrupts.\<close>

definition lab08_main :: "'w uart_io \<Rightarrow> uart_masks \<Rightarrow> 'w \<Rightarrow> 'w" where
  "lab08_main io k w = wr_data io 0x41 (uart_init io k w)"

definition lab09_hello :: "u8 list" where
  "lab09_hello = map (of_nat \<circ> of_char) ''Hello Cortex-M3'' @ [0x0D, 0x0A, 0]"

definition lab09_main :: "'w uart_io \<Rightarrow> uart_masks \<Rightarrow> 'w \<Rightarrow> 'w option" where
  "lab09_main io k w = uart_puts io k lab09_hello (uart_init io k w)"

definition lab10_main :: "'w uart_io \<Rightarrow> uart_masks \<Rightarrow> 'w \<Rightarrow> 'w" where
  "lab10_main io k w = uart_enable_irq io k (uart_init io k w)"

section \<open>lab12: driver, console, retargeting\<close>

text \<open>lab12's \<open>uart_getc\<close> returns an int.\<close>

definition lab12_uart_getc :: "'w uart_io \<Rightarrow> uart_masks \<Rightarrow> 'w \<Rightarrow> (int \<times> 'w) option" where
  "lab12_uart_getc io k w =
     (case wait_rx_data io k w of
        None \<Rightarrow> None
      | Some w \<Rightarrow> (case rd_data io w of (d, w) \<Rightarrow> Some (sint (d AND DATA_Msk k), w)))"

record 'w uart_driver_ops =
  drv_init :: "'w \<Rightarrow> 'w option"
  drv_putc :: "u8 \<Rightarrow> 'w \<Rightarrow> 'w option"
  drv_getc :: "'w \<Rightarrow> (int \<times> 'w) option"

record 'w uart_device =
  dev_ops :: "'w uart_driver_ops"

definition uart_driver_init :: "'w uart_device \<Rightarrow> 'w \<Rightarrow> 'w option" where
  "uart_driver_init dev w = drv_init (dev_ops dev) w"

definition uart_driver_putc :: "'w uart_device \<Rightarrow> u8 \<Rightarrow> 'w \<Rightarrow> 'w option" where
  "uart_driver_putc dev c w = drv_putc (dev_ops dev) c w"

definition uart_driver_getc :: "'w uart_device \<Rightarrow> 'w \<Rightarrow> (int \<times> 'w) option" where
  "uart_driver_getc dev w = drv_getc (dev_ops dev) w"

definition uart0 :: "'w uart_io \<Rightarrow> uart_masks \<Rightarrow> 'w uart_device" where
  "uart0 io k = \<lparr>dev_ops = \<lparr>drv_init = \<lambda>w. Some (uart_init io k w), drv_putc = uart_putc io k, drv_getc = lab12_uart_getc io k\<rparr>\<rparr>"

definition console_init :: "'w uart_io \<Rightarrow> uart_masks \<Rightarrow> 'w \<Rightarrow> 'w option" where
  "console_init io k w = uart_driver_init (uart0 io k) w"

definition console_putc :: "'w uart_io \<Rightarrow> uart_masks \<Rightarrow> u8 \<Rightarrow> 'w \<Rightarrow> 'w option" where
  "console_putc io k c w = uart_driver_putc (uart0 io k) c w"

definition console_getc :: "'w uart_io \<Rightarrow> uart_masks \<Rightarrow> 'w \<Rightarrow> (int \<times> 'w) option" where
  "console_getc io k w = uart_driver_getc (uart0 io k) w"

definition sendchar :: "'w uart_io \<Rightarrow> uart_masks \<Rightarrow> int \<Rightarrow> 'w \<Rightarrow> (int \<times> 'w) option" where
  "sendchar io k ch w = (case console_putc io k (word_of_int ch) w of None \<Rightarrow> None | Some w \<Rightarrow> Some (ch, w))"

definition retarget_fputc :: "'w uart_io \<Rightarrow> uart_masks \<Rightarrow> int \<Rightarrow> 'w \<Rightarrow> (int \<times> 'w) option" where
  "retarget_fputc io k ch w =
     (case (if ch = 10 then sendchar io k 13 w else Some (0, w)) of
        None \<Rightarrow> None
      | Some (_, w) \<Rightarrow> (case sendchar io k ch w of None \<Rightarrow> None | Some (_, w) \<Rightarrow> Some (ch, w)))"

fun write_chars :: "'w uart_io \<Rightarrow> uart_masks \<Rightarrow> u8 list \<Rightarrow> 'w \<Rightarrow> 'w option" where
  "write_chars io k [] w = Some w"
| "write_chars io k (c # buf) w =
     (case (if c = 10 then sendchar io k 13 w else Some (0, w)) of
        None \<Rightarrow> None
      | Some (_, w) \<Rightarrow>
          (case sendchar io k (uint c) w of None \<Rightarrow> None | Some (_, w) \<Rightarrow> write_chars io k buf w))"

definition retarget_write :: "'w uart_io \<Rightarrow> uart_masks \<Rightarrow> u8 list \<Rightarrow> 'w \<Rightarrow> (int \<times> 'w) option" where
  "retarget_write io k buf w =
     (case write_chars io k buf w of None \<Rightarrow> None | Some w \<Rightarrow> Some (int (length buf), w))"

text \<open>One turn of lab12's loop, and main up to it; printf writes its string through \<open>_write\<close>.\<close>

definition lab12_turn :: "'w uart_io \<Rightarrow> uart_masks \<Rightarrow> 'w \<Rightarrow> 'w option" where
  "lab12_turn io k w =
     (case console_getc io k w of
        None \<Rightarrow> None
      | Some (c, w) \<Rightarrow> if 0 \<le> c then console_putc io k (word_of_int c) w else Some w)"

definition lab12_text :: "u8 list" where
  "lab12_text = map (of_nat \<circ> of_char) ''Lab12 printf test'' @ [0x0A]"

definition lab12_main :: "'w uart_io \<Rightarrow> uart_masks \<Rightarrow> 'w \<Rightarrow> 'w option" where
  "lab12_main io k w =
     (case console_init io k w of
        None \<Rightarrow> None
      | Some w \<Rightarrow>
          (case retarget_fputc io k 0x41 w of
             None \<Rightarrow> None
           | Some (_, w) \<Rightarrow>
               (case retarget_fputc io k 10 w of
                  None \<Rightarrow> None
                | Some (_, w) \<Rightarrow> (case retarget_write io k lab12_text w of None \<Rightarrow> None | Some (_, w) \<Rightarrow> Some w))))"

section \<open>What the code relies on\<close>

text \<open>Newlines as the terminal wants them.\<close>

definition crlf :: "u8 list \<Rightarrow> u8 list" where
  "crlf buf = concat (map (\<lambda>c. if c = 10 then [13, 10] else [c]) buf)"

fun lab12_turns :: "'w uart_io \<Rightarrow> uart_masks \<Rightarrow> nat \<Rightarrow> 'w \<Rightarrow> 'w option" where
  "lab12_turns io k 0 w = Some w"
| "lab12_turns io k (Suc n) w = (case lab12_turn io k w of None \<Rightarrow> None | Some w \<Rightarrow> lab12_turns io k n w)"

lemma sint_byte: "sint (ucast (c :: u8) :: u32) = uint c"
proof -
  have b: "uint c < 256" "0 \<le> uint c" using unsigned_less [of c] by simp_all
  then have "signed_take_bit 31 (uint c) = uint c" 
    using order_trans [of "- (2 ^ 31)" 0 "uint c"] by (intro signed_take_bit_int_eq_self) simp_all
  then show ?thesis using b by (simp add: sint_uint unsigned_ucast_eq take_bit_int_eq_self)
qed

lemma byte_of_word: "ucast (ucast (c :: u8) :: u32) = c"
  by (rule bit_word_eqI) (simp add: bit_simps)

text \<open>A port: what it has sent, what is still to arrive, and how many polls its transmitter and its receiver
  need until there is room or a byte.\<close>

locale uart_port =
  fixes io :: "'w uart_io" and k :: uart_masks and sent :: "'w \<Rightarrow> u32 list" and rx :: "'w \<Rightarrow> u8 list"
    and tx_wait :: "'w \<Rightarrow> nat" and rx_wait :: "'w \<Rightarrow> nat"
  assumes state_read: "rd_state io w = (st, w') \<Longrightarrow> sent w' = sent w \<and> rx w' = rx w \<and>
      (st AND TXBF_Msk k = 0 \<longleftrightarrow> tx_wait w = 0) \<and> (if tx_wait w = 0 then tx_wait w' = 0 else tx_wait w' < tx_wait w)"
    and state_read_rx: "rd_state io w = (st, w') \<Longrightarrow> rx w \<noteq> [] \<Longrightarrow>
      (st AND RXBF_Msk k = 0 \<longleftrightarrow> rx_wait w \<noteq> 0) \<and> (if rx_wait w = 0 then rx_wait w' = 0 else rx_wait w' < rx_wait w)"
    and data_read: "rd_data io w = (d, w') \<Longrightarrow> rx w = c # cs \<Longrightarrow> rx_wait w = 0 \<Longrightarrow>
      d AND DATA_Msk k = ucast c \<and> rx w' = cs \<and> sent w' = sent w"
    and data_write: "tx_wait w = 0 \<Longrightarrow> sent (wr_data io x w) = sent w @ [x] \<and> rx (wr_data io x w) = rx w"
    and quiet: "sent (wr_ctrl io v w) = sent w" "rx (wr_ctrl io v w) = rx w" "sent (wr_bauddiv io v w) = sent w"
      "rx (wr_bauddiv io v w) = rx w" "sent (wr_intclear io v w) = sent w" "rx (wr_intclear io v w) = rx w"
begin

lemma waits_for_room: "\<exists>w'. wait_tx_room io k w = Some w' \<and> tx_wait w' = 0 \<and> sent w' = sent w \<and> rx w' = rx w"
proof (induction "tx_wait w" arbitrary: w rule: less_induct)
  case less
  obtain st w1 where r: "rd_state io w = (st, w1)" by (rule prod.exhaust)
  note f = state_read [OF r]
  show ?case
  proof (cases "tx_wait w = 0")
    case True
    then show ?thesis using f r by (subst wait_tx_room.simps) simp
  next
    case False
    then have "tx_wait w1 < tx_wait w" using f by simp
    from less [OF this] show ?thesis using False f r by (subst wait_tx_room.simps) simp
  qed
qed

lemma waits_for_data:
  "rx w \<noteq> [] \<Longrightarrow> \<exists>w'. wait_rx_data io k w = Some w' \<and> rx_wait w' = 0 \<and> sent w' = sent w \<and> rx w' = rx w"
proof (induction "rx_wait w" arbitrary: w rule: less_induct)
  case less
  obtain st w1 where r: "rd_state io w = (st, w1)" by (rule prod.exhaust)
  note f = state_read [OF r] state_read_rx [OF r less.prems]
  show ?case
  proof (cases "rx_wait w = 0")
    case True
    then show ?thesis using f r by (subst wait_rx_data.simps) simp
  next
    case False
    then have "rx_wait w1 < rx_wait w" "rx w1 \<noteq> []" using f less.prems by simp_all
    from less.hyps [OF this] show ?thesis using False f r by (subst wait_rx_data.simps) simp
  qed
qed

lemma putc_sends: "\<exists>w'. uart_putc io k c w = Some w' \<and> sent w' = sent w @ [ucast c] \<and> rx w' = rx w"
  using waits_for_room [of w] data_write by (auto simp: uart_putc_def)

lemma puts_sends:
  "0 \<notin> set s \<Longrightarrow> \<exists>w'. uart_puts io k (s @ 0 # junk) w = Some w' \<and> sent w' = sent w @ map ucast s \<and> rx w' = rx w"
proof (induction s arbitrary: w)
  case (Cons c s)
  obtain w1 where w1: "uart_putc io k c w = Some w1" "sent w1 = sent w @ [ucast c]" "rx w1 = rx w" using putc_sends by blast
  have c: "c \<noteq> 0" "0 \<notin> set s" using Cons.prems by auto
  obtain w' where "uart_puts io k (s @ 0 # junk) w1 = Some w'" "sent w' = sent w1 @ map ucast s" "rx w' = rx w1"
    using Cons.IH [OF c(2)] by blast
  then show ?case using w1 c(1) by simp
qed simp

lemma getc_receives:
  assumes "rx w = c # cs"
  shows "\<exists>w'. uart_getc io k w = Some (c, w') \<and> sent w' = sent w \<and> rx w' = cs"
    and "\<exists>w'. lab12_uart_getc io k w = Some (uint c, w') \<and> sent w' = sent w \<and> rx w' = cs"
proof -
  obtain w1 where w1: "wait_rx_data io k w = Some w1" "rx_wait w1 = 0" "sent w1 = sent w" "rx w1 = c # cs"
    using waits_for_data [of w] assms by auto
  obtain d w2 where r: "rd_data io w1 = (d, w2)" by (rule prod.exhaust)
  note f = data_read [OF r w1(4,2)]
  show "\<exists>w'. uart_getc io k w = Some (c, w') \<and> sent w' = sent w \<and> rx w' = cs" using w1 r f by (simp add: uart_getc_def byte_of_word)
  show "\<exists>w'. lab12_uart_getc io k w = Some (uint c, w') \<and> sent w' = sent w \<and> rx w' = cs"
    using w1 r f by (simp add: lab12_uart_getc_def sint_byte)
qed

lemma sendchar_sends:
  "\<exists>w'. sendchar io k ch w = Some (ch, w') \<and> sent w' = sent w @ [ucast (word_of_int ch :: u8)] \<and> rx w' = rx w"
  using putc_sends [of "word_of_int ch" w] by (auto simp: sendchar_def console_putc_def uart_driver_putc_def uart0_def)

lemma write_chars_sends: "\<exists>w'. write_chars io k buf w = Some w' \<and> sent w' = sent w @ map ucast (crlf buf) \<and> rx w' = rx w"
proof (induction buf arbitrary: w)
  case Nil
  then show ?case by (simp add: crlf_def)
next
  case (Cons c buf)
  obtain w1 where w1: "(if c = 10 then sendchar io k 13 w else Some (0, w)) = Some (if c = 10 then 13 else 0, w1)"
    "sent w1 = sent w @ (if c = 10 then [13] else [])" "rx w1 = rx w"
    using sendchar_sends [of 13 w] by (cases "c = 10") auto
  obtain w2 where w2: "sendchar io k (uint c) w1 = Some (uint c, w2)" "sent w2 = sent w1 @ [ucast c]" "rx w2 = rx w1"
    using sendchar_sends [of "uint c" w1] by auto
  obtain w' where "write_chars io k buf w2 = Some w'" "sent w' = sent w2 @ map ucast (crlf buf)" "rx w' = rx w2"
    using Cons.IH by blast
  then show ?case using w1 w2 by (auto simp: crlf_def)
qed

lemma turn_echoes:
  assumes "rx w = c # cs"
  shows "\<exists>w'. lab12_turn io k w = Some w' \<and> sent w' = sent w @ [ucast c] \<and> rx w' = cs"
proof -
  obtain w1 where w1: "lab12_uart_getc io k w = Some (uint c, w1)" "sent w1 = sent w" "rx w1 = cs"
    using getc_receives(2) [OF assms] by blast
  then show ?thesis using putc_sends [of c w1]
    by (auto simp: lab12_turn_def console_getc_def console_putc_def uart_driver_getc_def uart_driver_putc_def uart0_def)
qed

lemma turns_echo:
  "rx w = input @ pending \<Longrightarrow> \<exists>w'. lab12_turns io k (length input) w = Some w' \<and> sent w' = sent w @ map ucast input \<and> rx w' = pending"
proof (induction input arbitrary: w)
  case (Cons c cs)
  obtain w1 where w1: "lab12_turn io k w = Some w1" "sent w1 = sent w @ [ucast c]" "rx w1 = cs @ pending"
    using turn_echoes [of w c "cs @ pending"] Cons.prems by auto
  then show ?case using Cons.IH [OF w1(3)] by auto
qed simp

end

section \<open>A port\<close>

text \<open>The CMSDK UART: one byte of buffer each way, a transmitter that is busy for \<open>cu_speed\<close> polls after a byte, and
  a line that brings a byte every \<open>cu_speed\<close> polls.\<close>

record polled_uart =
  cu_ctrl :: u32
  cu_bauddiv :: u32
  cu_intstatus :: u32
  cu_irq :: bool
  cu_speed :: nat
  cu_sent :: "u32 list"
  cu_tx_wait :: nat
  cu_line :: "u8 list"
  cu_rx_wait :: nat

definition cmsdk_masks :: uart_masks where
  "cmsdk_masks = \<lparr>TXEN_Msk = 1, RXEN_Msk = 2, TXBF_Msk = 1, RXBF_Msk = 2, DATA_Msk = 0xFF, RXIRQEN_Msk = 8, RXIRQ_Msk = 2, RXORIRQ_Msk = 8\<rparr>"

definition cmsdk_io :: "polled_uart uart_io" where
  "cmsdk_io = \<lparr>
     rd_data = \<lambda>u. (case cu_line u of [] \<Rightarrow> (0, u) | c # cs \<Rightarrow> (ucast c, u\<lparr>cu_line := cs, cu_rx_wait := cu_speed u\<rparr>)),
     rd_state = \<lambda>u. ((if cu_tx_wait u \<noteq> 0 then 1 else 0) OR (if cu_line u \<noteq> [] \<and> cu_rx_wait u = 0 then 2 else 0),
        u\<lparr>cu_tx_wait := cu_tx_wait u - 1, cu_rx_wait := cu_rx_wait u - 1\<rparr>),
     rd_ctrl = \<lambda>u. (cu_ctrl u, u),
     rd_intstatus = \<lambda>u. (cu_intstatus u, u),
     wr_data = \<lambda>x u. if cu_tx_wait u = 0 then u\<lparr>cu_sent := cu_sent u @ [x], cu_tx_wait := cu_speed u\<rparr> else u,
     wr_ctrl = \<lambda>v u. u\<lparr>cu_ctrl := v\<rparr>,
     wr_intclear = \<lambda>v u. u\<lparr>cu_intstatus := cu_intstatus u AND NOT v\<rparr>,
     wr_bauddiv = \<lambda>v u. u\<lparr>cu_bauddiv := v\<rparr>,
     enable_irq = \<lambda>u. u\<lparr>cu_irq := True\<rparr>\<rparr>"

lemma byte_mask: "(ucast (c :: u8) :: u32) AND 0xFF = ucast c"
proof -
  have "(ucast c :: u32) AND mask 8 = ucast c" by (rule bit_word_eqI) (auto simp: bit_simps dest: bit_imp_le_length)
  then show ?thesis by (simp add: mask_eq_exp_minus_1)
qed

interpretation cmsdk: uart_port cmsdk_io cmsdk_masks cu_sent cu_line cu_tx_wait cu_rx_wait
  by unfold_locales (auto simp: cmsdk_io_def cmsdk_masks_def byte_mask split: list.splits)

lemma cmsdk_wait:
  "wait_tx_room cmsdk_io cmsdk_masks u = Some (u\<lparr>cu_tx_wait := 0, cu_rx_wait := cu_rx_wait u - Suc (cu_tx_wait u)\<rparr>)"
proof (induction "cu_tx_wait u" arbitrary: u)
  case 0
  then show ?case by (subst wait_tx_room.simps) (simp add: cmsdk_io_def cmsdk_masks_def)
next
  case (Suc n)
  let ?u = "u\<lparr>cu_tx_wait := n, cu_rx_wait := cu_rx_wait u - 1\<rparr>"
  have "wait_tx_room cmsdk_io cmsdk_masks ?u = Some (?u\<lparr>cu_tx_wait := 0, cu_rx_wait := cu_rx_wait ?u - Suc n\<rparr>)"
    using Suc.hyps(1) [of ?u] by simp
  then show ?case using Suc.hyps(2) [symmetric] by (subst wait_tx_room.simps) (simp add: cmsdk_io_def cmsdk_masks_def)
qed

lemma bit_clear: "bit (x AND NOT (2 ^ m)) n \<longleftrightarrow> bit x n \<and> n \<noteq> m" for x :: u32
  by (auto simp: bit_simps dest: bit_imp_le_length)

lemma cmsdk_reads:
  "rd_intstatus cmsdk_io u = (cu_intstatus u, u)" "cu_line u = c # cs \<Longrightarrow> rd_data cmsdk_io u = (ucast c, u\<lparr>cu_line := cs, cu_rx_wait := cu_speed u\<rparr>)"
  "wr_intclear cmsdk_io v u = u\<lparr>cu_intstatus := cu_intstatus u AND NOT v\<rparr>"
  "cu_tx_wait u = 0 \<Longrightarrow> wr_data cmsdk_io x u = u\<lparr>cu_sent := cu_sent u @ [x], cu_tx_wait := cu_speed u\<rparr>"
  "DATA_Msk cmsdk_masks = 0xFF" "RXIRQ_Msk cmsdk_masks = 2" "RXORIRQ_Msk cmsdk_masks = 8"
  by (simp_all add: cmsdk_io_def cmsdk_masks_def)

section \<open>Properties\<close>

lemma fputc_sends:
  "\<exists>u2. retarget_fputc cmsdk_io cmsdk_masks (uint c) u = Some (uint c, u2) \<and> cu_sent u2 = cu_sent u @ map ucast (crlf [c])"
proof -
  have ten: "uint c = 10 \<longleftrightarrow> c = 10" using word_uint_eq_iff [of c 10] by simp
  obtain u3 where u3: "(if uint c = 10 then sendchar cmsdk_io cmsdk_masks 13 u else Some (0, u)) = Some (if c = 10 then 13 else 0, u3)"
    "cu_sent u3 = cu_sent u @ (if c = 10 then [13] else [])"
    using cmsdk.sendchar_sends [of 13 u] ten by (cases "c = 10") auto
  obtain u2 where "sendchar cmsdk_io cmsdk_masks (uint c) u3 = Some (uint c, u2)" "cu_sent u2 = cu_sent u3 @ [ucast c]"
    using cmsdk.sendchar_sends [of "uint c" u3] by auto
  then show ?thesis using u3 by (auto simp: retarget_fputc_def crlf_def)
qed

text \<open>Note.  Writing a buffer through \<open>_write\<close> always returns its length and sends its bytes in order, each newline
  as carriage return and newline; \<open>fputc\<close> of a character sends the same as a buffer of that character.\<close>

theorem lab12_write_sends_crlf:
  "\<exists>u1 u2. retarget_write cmsdk_io cmsdk_masks buf u = Some (int (length buf), u1) \<and> cu_sent u1 = cu_sent u @ map ucast (crlf buf) \<and>
     retarget_fputc cmsdk_io cmsdk_masks (uint c) u = Some (uint c, u2) \<and> cu_sent u2 = cu_sent u @ map ucast (crlf [c])"
  using cmsdk.write_chars_sends [of buf u] fputc_sends [of c u] by (auto simp: retarget_write_def)

text \<open>Note.  The loop of lab12 sends back whatever arrives, byte by byte and in order, and waits only for the
  line and the transmitter.\<close>

theorem lab12_loop_echoes:
  assumes "cu_line u = input @ pending"
  shows "\<exists>u'. lab12_turns cmsdk_io cmsdk_masks (length input) u = Some u' \<and>
    cu_sent u' = cu_sent u @ map ucast input \<and> cu_line u' = pending"
  by (rule cmsdk.turns_echo [OF assms])

text \<open>Note.  The receive interrupt of lab10 echoes the byte that arrived when the status says so, and sends
  nothing otherwise; either way it ends, with the causes it was called for cleared.\<close>

theorem lab10_handler_echoes:
  assumes "cu_line u = c # cs" "cu_rx_wait u = 0"
  shows "\<exists>u'. lab10_UART0_Handler cmsdk_io cmsdk_masks u = Some u' \<and>
    cu_sent u' = cu_sent u @ (if bit (cu_intstatus u) 1 then [ucast c] else []) \<and>
    cu_line u' = (if bit (cu_intstatus u) 1 then cs else c # cs) \<and>
    (\<forall>n. bit (cu_intstatus u') n \<longleftrightarrow> bit (cu_intstatus u) n \<and> n \<noteq> 1 \<and> n \<noteq> 3)"
proof -
  have two: "cu_intstatus u AND 2 = 0 \<longleftrightarrow> \<not> bit (cu_intstatus u) 1" "cu_intstatus u AND 8 = 0 \<longleftrightarrow> \<not> bit (cu_intstatus u) 3"
    using flag_clear [of "cu_intstatus u" 1] flag_clear [of "cu_intstatus u" 3] by simp_all
  have clear: "bit (cu_intstatus u AND NOT 2) n \<longleftrightarrow> bit (cu_intstatus u) n \<and> n \<noteq> 1"
    "bit (cu_intstatus u AND NOT 8) n \<longleftrightarrow> bit (cu_intstatus u) n \<and> n \<noteq> 3"
    "bit ((cu_intstatus u AND NOT 2) AND NOT 8) n \<longleftrightarrow> bit (cu_intstatus u) n \<and> n \<noteq> 1 \<and> n \<noteq> 3" for n
    using bit_clear [of "cu_intstatus u" 1 n] bit_clear [of "cu_intstatus u" 3 n] bit_clear [of "cu_intstatus u AND NOT 2" 3 n] by simp_all
  show ?thesis using assms two clear
    by (auto simp: lab10_UART0_Handler_def uart_putc_def cmsdk_wait byte_of_word byte_mask cmsdk_reads Let_def)
qed

text \<open>Note.  On power up lab12 prints an A, a newline and its text, and lab09 its greeting.\<close>

theorem lab09_lab12_main_print:
  "(\<exists>u'. lab12_main cmsdk_io cmsdk_masks u = Some u' \<and> cu_sent u' = cu_sent u @ map ucast (crlf ([0x41, 10] @ lab12_text))) \<and>
   (\<exists>u'. lab09_main cmsdk_io cmsdk_masks u = Some u' \<and> cu_sent u' = cu_sent u @ map ucast (butlast lab09_hello))"
proof
  let ?u0 = "uart_init cmsdk_io cmsdk_masks u"
  have init: "cu_sent ?u0 = cu_sent u" by (simp add: uart_init_def cmsdk.quiet Let_def)
  obtain u1 where u1: "retarget_fputc cmsdk_io cmsdk_masks 0x41 ?u0 = Some (0x41, u1)" "cu_sent u1 = cu_sent u @ [0x41]"
    using fputc_sends [of "0x41" ?u0] init by (auto simp: crlf_def)
  obtain u2 where u2: "retarget_fputc cmsdk_io cmsdk_masks 10 u1 = Some (10, u2)" "cu_sent u2 = cu_sent u @ map ucast [0x41, 13, 10 :: u8]"
    using fputc_sends [of 10 u1] u1 by (auto simp: crlf_def)
  obtain u3 where "write_chars cmsdk_io cmsdk_masks lab12_text u2 = Some u3" "cu_sent u3 = cu_sent u2 @ map ucast (crlf lab12_text)"
    using cmsdk.write_chars_sends by blast
  then show "\<exists>u'. lab12_main cmsdk_io cmsdk_masks u = Some u' \<and> cu_sent u' = cu_sent u @ map ucast (crlf ([0x41, 10] @ lab12_text))"
    using u1 u2 by (simp add: lab12_main_def console_init_def uart_driver_init_def uart0_def retarget_write_def crlf_def)
  have "lab09_hello = butlast lab09_hello @ 0 # []" "0 \<notin> set (butlast lab09_hello)" by code_simp+
  then show "\<exists>u'. lab09_main cmsdk_io cmsdk_masks u = Some u' \<and> cu_sent u' = cu_sent u @ map ucast (butlast lab09_hello)"
    using cmsdk.puts_sends [of "butlast lab09_hello" "[]" ?u0] init unfolding lab09_main_def by metis
qed

section \<open>Witnesses\<close>

definition blank_uart :: polled_uart where
  "blank_uart = \<lparr>cu_ctrl = 0, cu_bauddiv = 0, cu_intstatus = 2, cu_irq = False, cu_speed = 3, cu_sent = [], cu_tx_wait = 2,
     cu_line = [0x41, 0x0A], cu_rx_wait = 0\<rparr>"

theorem lab12_loop_echoes_witness:
  "\<exists>u'. lab12_turns cmsdk_io cmsdk_masks (Suc (Suc 0)) blank_uart = Some u' \<and> cu_sent u' = [0x41, 0x0A] \<and> cu_line u' = []"
  using lab12_loop_echoes [of blank_uart "[0x41, 0x0A]" "[]"] by (auto simp: blank_uart_def simp del: lab12_turns.simps)

theorem lab10_handler_echoes_witness:
  "\<exists>u'. lab10_UART0_Handler cmsdk_io cmsdk_masks blank_uart = Some u' \<and> cu_sent u' = [0x41] \<and> cu_line u' = [0x0A]"
  using lab10_handler_echoes [of blank_uart "0x41" "[0x0A]"] flag_clear [of "2 :: u32" 1]
  by (auto simp: blank_uart_def)

end
