(* ===== verification/Core_Labs.thy ===== *)
theory Core_Labs
  imports Prelude
begin

text \<open>
  labs/lab01_core_registers to labs/lab05_privilege_stack: the processor core.  The special registers, the
  exceptions, the MPU and memory as the processor reaches it are the parameter \<open>cpu\<close>, the bit positions of the
  CMSIS header the parameter \<open>cmsis\<close>.  The properties are about the machine \<open>m3\<close>, which does what the ARMv7-M
  architecture documents of them.
\<close>

section \<open>The processor\<close>

text \<open>Bits of the MPU and SCB registers (core_cm3.h), and the base addresses of the board.\<close>

record cmsis =
  AP_Pos :: nat
  SIZE_Pos :: nat
  XN_Msk :: u32
  C_Msk :: u32
  B_Msk :: u32
  RASR_ENABLE_Msk :: u32
  CTRL_ENABLE_Msk :: u32
  CTRL_PRIVDEFENA_Msk :: u32
  MEMFAULTENA_Msk :: u32
  FLASH_BASE :: u32
  SRAM_BASE :: u32

text \<open>A load or a store may fault: Inl is the machine after the entry of the fault exception.  \<open>supervisor_call\<close>
  takes r0 to r3 and enters the SVC exception; \<open>link_register\<close> is lr in a handler.\<close>

record 'h cpu =
  get_CONTROL :: "'h \<Rightarrow> u32"
  set_CONTROL :: "u32 \<Rightarrow> 'h \<Rightarrow> 'h"
  get_PRIMASK :: "'h \<Rightarrow> u32"
  get_IPSR :: "'h \<Rightarrow> u32"
  get_MSP :: "'h \<Rightarrow> u32"
  get_PSP :: "'h \<Rightarrow> u32"
  set_PSP :: "u32 \<Rightarrow> 'h \<Rightarrow> 'h"
  disable_irq :: "'h \<Rightarrow> 'h"
  enable_irq :: "'h \<Rightarrow> 'h"
  nop :: "'h \<Rightarrow> 'h"
  MPU_TYPE :: "'h \<Rightarrow> u32"
  MPU_CTRL :: "'h \<Rightarrow> u32"
  set_MPU_CTRL :: "u32 \<Rightarrow> 'h \<Rightarrow> 'h"
  set_MPU_RNR :: "u32 \<Rightarrow> 'h \<Rightarrow> 'h"
  set_MPU_RBAR :: "u32 \<Rightarrow> 'h \<Rightarrow> 'h"
  set_MPU_RASR :: "u32 \<Rightarrow> 'h \<Rightarrow> 'h"
  set_SCB_SHCSR :: "u32 \<Rightarrow> 'h \<Rightarrow> 'h"
  SCB_CFSR :: "'h \<Rightarrow> u32"
  SCB_MMFAR :: "'h \<Rightarrow> u32"
  load32 :: "u32 \<Rightarrow> 'h \<Rightarrow> 'h + u32"
  store32 :: "u32 \<Rightarrow> u32 \<Rightarrow> 'h \<Rightarrow> 'h + 'h"
  supervisor_call :: "u32 \<Rightarrow> u32 \<Rightarrow> u32 \<Rightarrow> u32 \<Rightarrow> 'h \<Rightarrow> 'h"
  link_register :: "'h \<Rightarrow> u32"
  exception_return :: "u32 \<Rightarrow> 'h \<Rightarrow> 'h"

section \<open>lab01, lab02\<close>

record lab01 =
  g_control :: u32
  g_primask :: u32
  g_ipsr :: u32
  g_msp :: u32
  g_psp :: u32

definition lab01_main :: "'h cpu \<Rightarrow> lab01 \<Rightarrow> 'h \<Rightarrow> lab01" where
  "lab01_main hw g h =
     g\<lparr>g_control := get_CONTROL hw h, g_primask := get_PRIMASK hw h, g_ipsr := get_IPSR hw h, g_msp := get_MSP hw h,
       g_psp := get_PSP hw h\<rparr>"

record lab02 =
  g_before :: u32
  g_after_disable :: u32
  g_after_restore :: u32

definition CriticalSection :: "'h cpu \<Rightarrow> 'h \<Rightarrow> 'h" where
  "CriticalSection hw h = (nop hw ^^ 1000) h"

definition lab02_main :: "'h cpu \<Rightarrow> lab02 \<Rightarrow> 'h \<Rightarrow> lab02 \<times> 'h" where
  "lab02_main hw g h =
     (let old = get_PRIMASK hw h;
          g = g\<lparr>g_before := old\<rparr>;
          h = disable_irq hw h;
          g = g\<lparr>g_after_disable := get_PRIMASK hw h\<rparr>;
          h = CriticalSection hw h;
          h = (if old = 0 then enable_irq hw h else h)
      in (g\<lparr>g_after_restore := get_PRIMASK hw h\<rparr>, h))"

section \<open>lab03, lab04: the SVC handlers, instruction by instruction\<close>

text \<open>Where lr points: to the interrupted program, by an EXC_RETURN value, or to an instruction of the
  handler.\<close>

datatype link = ExcReturn u32 | Instruction nat

text \<open>lab03: \<open>exc_return\<close> is stored from lr and the handler returns.\<close>

definition lab03_SVC_Handler :: "'h cpu \<Rightarrow> 'h \<Rightarrow> u32 \<times> 'h" where
  "lab03_SVC_Handler hw h = (let r0 = link_register hw h; exc_return = r0 in (exc_return, exception_return hw (link_register hw h) h))"

definition lab03_main :: "'h cpu \<Rightarrow> 'h \<Rightarrow> u32 \<times> 'h" where
  "lab03_main hw h = lab03_SVC_Handler hw (supervisor_call hw 0 0 0 0 h)"

record lab04 =
  l4_dump :: "u32 list"
  l4_exc_return :: u32

text \<open>The loop of the C part: eight words from the stack.\<close>

fun dump_stack :: "'h cpu \<Rightarrow> nat \<Rightarrow> u32 \<Rightarrow> 'h \<Rightarrow> u32 list" where
  "dump_stack hw 0 stack h = []"
| "dump_stack hw (Suc n) stack h = (case load32 hw stack h of Inl _ \<Rightarrow> [] | Inr v \<Rightarrow> v # dump_stack hw n (stack + 4) h)"

definition lab04_SVC_Handler_C :: "'h cpu \<Rightarrow> u32 \<Rightarrow> 'h \<Rightarrow> lab04 \<Rightarrow> lab04" where
  "lab04_SVC_Handler_C hw stack h g = g\<lparr>l4_dump := dump_stack hw 8 stack h\<rparr>"

text \<open>The six instructions of the naked handler.  \<open>bl\<close> sets lr to the instruction after it.\<close>

partial_function (option) lab04_handler_from :: "'h cpu \<Rightarrow> 'h \<Rightarrow> nat \<Rightarrow> link \<Rightarrow> u32 \<Rightarrow> link \<Rightarrow> lab04 \<Rightarrow> (lab04 \<times> 'h) option" where
  "lab04_handler_from hw h pc lr r0 r1 g =
     (if pc = 0 then lab04_handler_from hw h 1 lr (get_MSP hw h) r1 g
      else if pc = 1 then lab04_handler_from hw h 2 lr r0 lr g
      else if pc = 2 then lab04_handler_from hw h 3 lr r0 r1 g
      else if pc = 3 then
        lab04_handler_from hw h 4 lr r0 r1 (case r1 of ExcReturn v \<Rightarrow> g\<lparr>l4_exc_return := v\<rparr> | Instruction _ \<Rightarrow> g)
      else if pc = 4 then lab04_handler_from hw h 5 (Instruction 5) r0 r1 (lab04_SVC_Handler_C hw r0 h g)
      else
        (case lr of
           ExcReturn v \<Rightarrow> Some (g, exception_return hw v h)
         | Instruction n \<Rightarrow> lab04_handler_from hw h n lr r0 r1 g))"

definition lab04_main :: "'h cpu \<Rightarrow> lab04 \<Rightarrow> 'h \<Rightarrow> (lab04 \<times> 'h) option" where
  "lab04_main hw g h =
     (let h = supervisor_call hw 0x11111111 0x22222222 0x33333333 0x44444444 h in
      lab04_handler_from hw h 0 (ExcReturn (link_register hw h)) 0x11111111 (ExcReturn 0x22222222) g)"

section \<open>lab05: MPU\<close>

definition MPU_AP_PRIV_RW_USER_NONE :: "cmsis \<Rightarrow> u32" where "MPU_AP_PRIV_RW_USER_NONE cm = push_bit (AP_Pos cm) 1"
definition MPU_AP_FULL_ACCESS :: "cmsis \<Rightarrow> u32" where "MPU_AP_FULL_ACCESS cm = push_bit (AP_Pos cm) 3"
definition MPU_AP_READ_ONLY :: "cmsis \<Rightarrow> u32" where "MPU_AP_READ_ONLY cm = push_bit (AP_Pos cm) 6"
definition MPU_SIZE_32KB :: "cmsis \<Rightarrow> u32" where "MPU_SIZE_32KB cm = push_bit (SIZE_Pos cm) 4"
definition MPU_SIZE_128KB :: "cmsis \<Rightarrow> u32" where "MPU_SIZE_128KB cm = push_bit (SIZE_Pos cm) 16"
definition MPU_SIZE_256KB :: "cmsis \<Rightarrow> u32" where "MPU_SIZE_256KB cm = push_bit (SIZE_Pos cm) 17"
definition MPU_NORMAL_MEMORY :: "cmsis \<Rightarrow> u32" where "MPU_NORMAL_MEMORY cm = C_Msk cm OR B_Msk cm"

text \<open>The variables the lab reads in the debugger.\<close>

record lab05_mpu =
  mpu_type :: u32
  mpu_ctrl_after_enable :: u32
  privileged_readback :: u32
  unprivileged_normal_readback :: u32
  fault_cfsr :: u32
  fault_mmfar :: u32
  fault_exc_return :: u32
  fault_stacked_pc :: u32
  fault_stacked_xpsr :: u32
  fault_control :: u32
  test_stage :: u32

record lab05 = lab05_mpu +
  l5_dump :: "u32 list"
  l5_exc_return :: u32
  control_before :: u32
  control_after :: u32
  msp_before :: u32
  psp_before :: u32
  msp_after :: u32
  psp_after :: u32
  debug_control :: u32
  debug_psp :: u32
  debug_msp :: u32
  debug_ipsr :: u32

text \<open>Where the linker put the three objects the tests touch.\<close>

record lab05_addresses =
  at_normal_ram_word :: u32
  at_protected_words :: u32
  at_process_stack :: u32

definition mpu_configure_region :: "'h cpu \<Rightarrow> cmsis \<Rightarrow> u32 \<Rightarrow> u32 \<Rightarrow> u32 \<Rightarrow> 'h \<Rightarrow> 'h" where
  "mpu_configure_region hw cm region base attributes h =
     (let h = set_MPU_RNR hw region h;
          h = set_MPU_RBAR hw base h
      in set_MPU_RASR hw (attributes OR RASR_ENABLE_Msk cm) h)"

definition MPU_Init :: "'h cpu \<Rightarrow> cmsis \<Rightarrow> lab05_addresses \<Rightarrow> lab05 \<Rightarrow> 'h \<Rightarrow> lab05 \<times> 'h" where
  "MPU_Init hw cm at g h =
     (let g = g\<lparr>mpu_type := MPU_TYPE hw h\<rparr>;
          h = set_MPU_CTRL hw 0 h;
          h = mpu_configure_region hw cm 0 (FLASH_BASE cm) (MPU_AP_READ_ONLY cm OR MPU_NORMAL_MEMORY cm OR MPU_SIZE_256KB cm) h;
          h = mpu_configure_region hw cm 1 (SRAM_BASE cm)
                (XN_Msk cm OR MPU_AP_FULL_ACCESS cm OR MPU_NORMAL_MEMORY cm OR MPU_SIZE_128KB cm) h;
          h = mpu_configure_region hw cm 2 (at_protected_words at)
                (XN_Msk cm OR MPU_AP_PRIV_RW_USER_NONE cm OR MPU_NORMAL_MEMORY cm OR MPU_SIZE_32KB cm) h;
          h = set_SCB_SHCSR hw (MEMFAULTENA_Msk cm) h;
          h = set_MPU_CTRL hw (CTRL_ENABLE_Msk cm OR CTRL_PRIVDEFENA_Msk cm) h
      in (g\<lparr>mpu_ctrl_after_enable := MPU_CTRL hw h\<rparr>, h))"

definition DumpSpecialRegisters :: "'h cpu \<Rightarrow> lab05 \<Rightarrow> 'h \<Rightarrow> lab05" where
  "DumpSpecialRegisters hw g h =
     g\<lparr>debug_control := get_CONTROL hw h, debug_psp := get_PSP hw h, debug_msp := get_MSP hw h, debug_ipsr := get_IPSR hw h\<rparr>"

text \<open>Both handlers take the stack the exception frame is on from bit 2 of lr.\<close>

definition frame_stack :: "'h cpu \<Rightarrow> 'h \<Rightarrow> u32" where
  "frame_stack hw h = (if link_register hw h AND 4 = 0 then get_MSP hw h else get_PSP hw h)"

definition or_zero :: "'h + u32 \<Rightarrow> u32" where
  "or_zero r = (case r of Inl _ \<Rightarrow> 0 | Inr v \<Rightarrow> v)"

text \<open>The fault handler does not return.\<close>

definition MemManage_Handler :: "'h cpu \<Rightarrow> lab05 \<Rightarrow> 'h \<Rightarrow> lab05" where
  "MemManage_Handler hw g h =
     (let stack = frame_stack hw h; lr = link_register hw h in
      g\<lparr>fault_exc_return := lr, fault_cfsr := SCB_CFSR hw h, fault_mmfar := SCB_MMFAR hw h,
        fault_stacked_pc := or_zero (load32 hw (stack + 24) h), fault_stacked_xpsr := or_zero (load32 hw (stack + 28) h),
        fault_control := get_CONTROL hw h, test_stage := 0xDEAD\<rparr>)"

definition lab05_SVC_Handler :: "'h cpu \<Rightarrow> lab05 \<Rightarrow> 'h \<Rightarrow> lab05 \<times> 'h" where
  "lab05_SVC_Handler hw g h =
     (let stack = frame_stack hw h; lr = link_register hw h in
      (g\<lparr>l5_exc_return := lr, l5_dump := dump_stack hw 8 stack h\<rparr>, exception_return hw lr h))"

definition lab05_Trigger_SVC :: "'h cpu \<Rightarrow> lab05 \<Rightarrow> 'h \<Rightarrow> lab05 \<times> 'h" where
  "lab05_Trigger_SVC hw g h = lab05_SVC_Handler hw g (supervisor_call hw 0x11111111 0x22222222 0x33333333 0x44444444 h)"

text \<open>main from the drop of privilege on: the three tests.\<close>

definition lab05_unprivileged :: "'h cpu \<Rightarrow> lab05_addresses \<Rightarrow> lab05 \<Rightarrow> 'h \<Rightarrow> lab05 \<times> 'h" where
  "lab05_unprivileged hw at g h =
     (let g = g\<lparr>test_stage := 3\<rparr>;
          g = g\<lparr>control_after := get_CONTROL hw h, msp_after := get_MSP hw h, psp_after := get_PSP hw h\<rparr>;
          g = DumpSpecialRegisters hw g h in
      case load32 hw (at_normal_ram_word at) h of
        Inl h \<Rightarrow> (MemManage_Handler hw g h, h)
      | Inr v \<Rightarrow>
          let g = g\<lparr>unprivileged_normal_readback := v, test_stage := 4\<rparr> in
          case lab05_Trigger_SVC hw g h of (g, h) \<Rightarrow>
          let g = g\<lparr>test_stage := 5\<rparr> in
          case store32 hw (at_protected_words at) 0xBAD0BAD0 h of
            Inl h \<Rightarrow> (MemManage_Handler hw g h, h)
          | Inr h \<Rightarrow> (g\<lparr>test_stage := 6\<rparr>, h))"

definition lab05_main :: "'h cpu \<Rightarrow> cmsis \<Rightarrow> lab05_addresses \<Rightarrow> lab05 \<Rightarrow> 'h \<Rightarrow> lab05 \<times> 'h" where
  "lab05_main hw cm at g h =
     (let g = g\<lparr>test_stage := 1, control_before := get_CONTROL hw h, msp_before := get_MSP hw h, psp_before := get_PSP hw h\<rparr>;
          g = DumpSpecialRegisters hw g h;
          h = set_PSP hw (at_process_stack at + 256) h in
      case MPU_Init hw cm at g h of (g, h) \<Rightarrow>
      let g = g\<lparr>test_stage := 2\<rparr> in
      case store32 hw (at_protected_words at) 0x12345678 h of
        Inl h \<Rightarrow> (MemManage_Handler hw g h, h)
      | Inr h \<Rightarrow>
          (case load32 hw (at_protected_words at) h of
             Inl h \<Rightarrow> (MemManage_Handler hw g h, h)
           | Inr v \<Rightarrow>
               let g = g\<lparr>privileged_readback := v\<rparr> in
               (case store32 hw (at_normal_ram_word at) 0xA5A55A5A h of
                  Inl h \<Rightarrow> (MemManage_Handler hw g h, h)
                | Inr h \<Rightarrow> lab05_unprivileged hw at g (set_CONTROL hw (get_CONTROL hw h OR 3) h))))"

section \<open>The machine\<close>

text \<open>The registers the labs touch, the MPU with its eight regions, memory by words, and in \<open>m_context\<close> the rest of
  the frame an exception stacks (r12, lr, the return address, xPSR).\<close>

record m3 =
  m_control :: u32
  m_primask :: u32
  m_ipsr :: u32
  m_msp :: u32
  m_psp :: u32
  m_lr :: u32
  m_mpu_ctrl :: u32
  m_mpu_rnr :: u32
  m_rbar :: "nat \<Rightarrow> u32"
  m_rasr :: "nat \<Rightarrow> u32"
  m_shcsr :: u32
  m_cfsr :: u32
  m_mmfar :: u32
  m_context :: "u32 \<times> u32 \<times> u32 \<times> u32"
  m_mem :: "u32 \<Rightarrow> u32"

definition core_cm3 :: cmsis where
  "core_cm3 = \<lparr>AP_Pos = 24, SIZE_Pos = 1, XN_Msk = 0x10000000, C_Msk = 0x20000, B_Msk = 0x10000, RASR_ENABLE_Msk = 1, CTRL_ENABLE_Msk = 1,
     CTRL_PRIVDEFENA_Msk = 4, MEMFAULTENA_Msk = 0x10000, FLASH_BASE = 0, SRAM_BASE = 0x20000000\<rparr>"

text \<open>Handlers are privileged, threads unless bit 0 of CONTROL is set.\<close>

definition m3_privileged :: "m3 \<Rightarrow> bool" where
  "m3_privileged h \<longleftrightarrow> m_ipsr h \<noteq> 0 \<or> \<not> bit (m_control h) 0"

text \<open>A region of size field \<open>s\<close> has \<open>2 ^ (s + 1)\<close> bytes and is aligned to them; of the regions an address is in, the
  one of the highest number decides.\<close>

definition region_bits :: "u32 \<Rightarrow> nat" where
  "region_bits rasr = unat (drop_bit 1 rasr AND 0x1F) + 1"

definition region_hit :: "m3 \<Rightarrow> u32 \<Rightarrow> nat \<Rightarrow> bool" where
  "region_hit h a r \<longleftrightarrow> bit (m_rasr h r) 0 \<and> drop_bit (region_bits (m_rasr h r)) a = drop_bit (region_bits (m_rasr h r)) (m_rbar h r)"

definition access_allowed :: "bool \<Rightarrow> bool \<Rightarrow> u32 \<Rightarrow> bool" where
  "access_allowed privileged is_write ap =
     (if ap = 1 then privileged else if ap = 2 then privileged \<or> \<not> is_write else if ap = 3 then True
      else if ap = 5 then privileged \<and> \<not> is_write else if ap = 6 \<or> ap = 7 then \<not> is_write else False)"

definition m3_allows :: "bool \<Rightarrow> u32 \<Rightarrow> m3 \<Rightarrow> bool" where
  "m3_allows is_write a h =
     (if \<not> bit (m_mpu_ctrl h) 0 then True
      else case find (region_hit h a) [7, 6, 5, 4, 3, 2, 1, 0] of
             None \<Rightarrow> bit (m_mpu_ctrl h) 2 \<and> m3_privileged h
           | Some r \<Rightarrow> access_allowed (m3_privileged h) is_write (drop_bit 24 (m_rasr h r) AND 7))"

text \<open>Exception entry: eight words on the stack in use, whose pointer is a multiple of eight; the handler runs
  on the main stack, with the way back in lr.\<close>

definition m3_enter :: "u32 \<Rightarrow> u32 \<Rightarrow> u32 \<Rightarrow> u32 \<Rightarrow> u32 \<Rightarrow> m3 \<Rightarrow> m3" where
  "m3_enter exc r0 r1 r2 r3 h =
     (let thread = m_ipsr h = 0; on_psp = thread \<and> bit (m_control h) 1;
          sp = (if on_psp then m_psp h else m_msp h) - 32;
          (r12, lr, pc, xpsr) = m_context h in
      (if on_psp then h\<lparr>m_psp := sp\<rparr> else h\<lparr>m_msp := sp\<rparr>)
        \<lparr>m_mem := (m_mem h)(sp := r0, sp + 4 := r1, sp + 8 := r2, sp + 12 := r3, sp + 16 := r12, sp + 20 := lr, sp + 24 := pc, sp + 28 := xpsr),
         m_lr := if on_psp then 0xFFFFFFFD else if thread then 0xFFFFFFF9 else 0xFFFFFFF1,
         m_control := m_control h AND NOT 2, m_ipsr := exc\<rparr>)"

definition m3_leave :: "u32 \<Rightarrow> m3 \<Rightarrow> m3" where
  "m3_leave lr h =
     (if lr = 0xFFFFFFFD then h\<lparr>m_psp := m_psp h + 32, m_control := m_control h OR 2, m_ipsr := 0\<rparr>
      else if lr = 0xFFFFFFF9 then h\<lparr>m_msp := m_msp h + 32, m_ipsr := 0\<rparr>
      else h\<lparr>m_msp := m_msp h + 32\<rparr>)"

text \<open>An access the MPU refuses sets DACCVIOL and MMARVALID and enters MemManage.\<close>

definition m3_fault :: "u32 \<Rightarrow> m3 \<Rightarrow> m3" where
  "m3_fault a h = m3_enter 4 0 0 0 0 (h\<lparr>m_cfsr := m_cfsr h OR 0x82, m_mmfar := a\<rparr>)"

text \<open>An unprivileged read of a stack pointer or of PRIMASK gives zero, and an unprivileged write of CONTROL is
  ignored.\<close>

definition m3_cpu :: "m3 cpu" where
  "m3_cpu = \<lparr>
     get_CONTROL = m_control,
     set_CONTROL = \<lambda>v h. if m3_privileged h then h\<lparr>m_control := v AND 3\<rparr> else h,
     get_PRIMASK = \<lambda>h. if m3_privileged h then m_primask h else 0,
     get_IPSR = m_ipsr,
     get_MSP = \<lambda>h. if m3_privileged h then m_msp h else 0,
     get_PSP = \<lambda>h. if m3_privileged h then m_psp h else 0,
     set_PSP = \<lambda>v h. if m3_privileged h then h\<lparr>m_psp := v\<rparr> else h,
     disable_irq = \<lambda>h. if m3_privileged h then h\<lparr>m_primask := 1\<rparr> else h,
     enable_irq = \<lambda>h. if m3_privileged h then h\<lparr>m_primask := 0\<rparr> else h,
     nop = \<lambda>h. h,
     MPU_TYPE = \<lambda>_. 0x800,
     MPU_CTRL = m_mpu_ctrl,
     set_MPU_CTRL = \<lambda>v h. h\<lparr>m_mpu_ctrl := v\<rparr>,
     set_MPU_RNR = \<lambda>v h. h\<lparr>m_mpu_rnr := v\<rparr>,
     set_MPU_RBAR = \<lambda>v h.
       let h = (if bit v 4 then h\<lparr>m_mpu_rnr := v AND 0xF\<rparr> else h) in h\<lparr>m_rbar := (m_rbar h)(unat (m_mpu_rnr h) := v AND NOT 0x1F)\<rparr>,
     set_MPU_RASR = \<lambda>v h. h\<lparr>m_rasr := (m_rasr h)(unat (m_mpu_rnr h) := v)\<rparr>,
     set_SCB_SHCSR = \<lambda>v h. h\<lparr>m_shcsr := v\<rparr>,
     SCB_CFSR = m_cfsr,
     SCB_MMFAR = m_mmfar,
     load32 = \<lambda>a h. if m3_allows False a h then Inr (m_mem h a) else Inl (m3_fault a h),
     store32 = \<lambda>a v h. if m3_allows True a h then Inr (h\<lparr>m_mem := (m_mem h)(a := v)\<rparr>) else Inl (m3_fault a h),
     supervisor_call = m3_enter 11,
     link_register = m_lr,
     exception_return = m3_leave\<rparr>"

text \<open>The lab run on concrete addresses.\<close>

definition demo_at :: lab05_addresses where
  "demo_at = \<lparr>at_normal_ram_word = 0x20000100, at_protected_words = 0x20000120, at_process_stack = 0x20000200\<rparr>"

definition demo_m3 :: m3 where
  "demo_m3 = \<lparr>m_control = 0, m_primask = 0, m_ipsr = 0, m_msp = 0x20010000, m_psp = 0, m_lr = 0, m_mpu_ctrl = 0, m_mpu_rnr = 0,
     m_rbar = \<lambda>_. 0, m_rasr = \<lambda>_. 0, m_shcsr = 0, m_cfsr = 0, m_mmfar = 0, m_context = (0, 1, 2, 3), m_mem = \<lambda>_. 0\<rparr>"

definition demo_g :: lab05 where
  "demo_g = \<lparr>mpu_type = 0, mpu_ctrl_after_enable = 0, privileged_readback = 0, unprivileged_normal_readback = 0, fault_cfsr = 0,
     fault_mmfar = 0, fault_exc_return = 0, fault_stacked_pc = 0, fault_stacked_xpsr = 0, fault_control = 0, test_stage = 0, l5_dump = [],
     l5_exc_return = 0, control_before = 0, control_after = 0, msp_before = 0, psp_before = 0, msp_after = 0, psp_after = 0,
     debug_control = 0, debug_psp = 0, debug_msp = 0, debug_ipsr = 0\<rparr>"

section \<open>The MPU as lab05 sets it up\<close>

text \<open>The three objects in SRAM, the protected block aligned, and the others clear of it and of each other.\<close>

definition at_ok :: "lab05_addresses \<Rightarrow> bool" where
  "at_ok at \<longleftrightarrow>
     (let pw = unat (at_protected_words at); nw = unat (at_normal_ram_word at); sp = unat (at_process_stack at) + 256 in
      0x20000000 \<le> pw \<and> pw + 32 \<le> 0x20020000 \<and> 32 dvd pw \<and> 0x20000000 \<le> nw \<and> nw < 0x20020000 \<and> (nw < pw \<or> pw + 32 \<le> nw) \<and>
      0x20000000 + 256 \<le> sp \<and> sp \<le> 0x20020000 \<and> 4 dvd sp \<and> 4 dvd nw \<and> (sp \<le> pw \<or> pw + 32 \<le> sp - 32) \<and> (sp \<le> nw \<or> nw < sp - 32))"

definition mpu_ready :: "lab05_addresses \<Rightarrow> m3 \<Rightarrow> bool" where
  "mpu_ready at h \<longleftrightarrow> m_mpu_ctrl h = 5 \<and> m_shcsr h = 0x10000 \<and>
     m_rbar h 0 = 0 \<and> m_rasr h 0 = 0x06030023 \<and> m_rbar h 1 = 0x20000000 \<and> m_rasr h 1 = 0x13030021 \<and>
     m_rbar h 2 = at_protected_words at \<and> m_rasr h 2 = 0x11030009 \<and> list_all (\<lambda>r. \<not> bit (m_rasr h r) 0) [3, 4, 5, 6, 7]"

abbreviation in_sram :: "u32 \<Rightarrow> bool" where
  "in_sram a \<equiv> 0x20000000 \<le> unat a \<and> unat a < 0x20020000"

abbreviation in_block :: "lab05_addresses \<Rightarrow> u32 \<Rightarrow> bool" where
  "in_block at a \<equiv> unat (at_protected_words at) \<le> unat a \<and> unat a < unat (at_protected_words at) + 32"

lemma drop_bit_eq_iff: "drop_bit n a = drop_bit n b \<longleftrightarrow> unat a div 2 ^ n = unat b div 2 ^ n" for a b :: u32
  by (simp only: word_unat_eq_iff unat_drop_bit_eq) (simp add: drop_bit_eq_div)

lemma mpu_decides:
  assumes "mpu_ready at h" "at_ok at" "in_sram a"
  shows "m3_allows w a h \<longleftrightarrow> m3_privileged h \<or> \<not> in_block at a"
proof -
  have bits: "region_bits 0x13030021 = 17" "region_bits 0x11030009 = 5"
    by (simp_all add: region_bits_def)
  have "unat a div 131072 = 4096" by (rule div_nat_eqI) (use assms(3) in simp_all)
  then have "drop_bit 17 a = drop_bit 17 0x20000000" unfolding drop_bit_eq_iff by simp
  then have hit1: "region_hit h a 1"
    using assms(1) by (simp add: region_hit_def mpu_ready_def bits)
  have "unat a div 32 = unat (at_protected_words at) div 32 \<longleftrightarrow> in_block at a"
    using assms(2) by (auto simp: at_ok_def Let_def dvd_def)
  then have hit2: "region_hit h a 2 \<longleftrightarrow> in_block at a"
    using assms(1) by (simp add: region_hit_def mpu_ready_def bits drop_bit_eq_iff)
  have miss: "\<not> region_hit h a r" if "r \<in> {3, 4, 5, 6, 7}" for r
    using assms(1) that by (auto simp: region_hit_def mpu_ready_def)
  have "find (region_hit h a) [7, 6, 5, 4, 3, 2, 1, 0] = Some (if in_block at a then 2 else 1)"
    using hit1 hit2 miss by simp
  then show ?thesis using assms(1) by (auto simp: m3_allows_def mpu_ready_def access_allowed_def)
qed

lemma aligned_32:
  assumes "32 dvd unat (x :: u32)"
  shows "x AND NOT 0x1F = x" "\<not> bit x 4"
proof -
  have "take_bit 5 (unat x) = 0" using assms by (simp add: take_bit_eq_mod)
  then have t: "take_bit 5 x = 0" by (simp only: flip: unsigned_take_bit_eq) (simp only: unsigned_eq_0_iff)
  have low: "\<not> bit x n" if "n < 5" for n
    using t that by (metis bit_take_bit_iff bit_0_eq bot_apply bot_bool_def)
  then show "\<not> bit x 4" by simp
  have "5 \<le> n" if "bit x n" for n using low that by (meson not_less)
  then have "x AND NOT (mask 5) = x" by (intro bit_word_eqI) (auto simp: bit_simps not_less)
  then show "x AND NOT 0x1F = x" by (simp add: mask_eq_exp_minus_1)
qed

text \<open>Before the drop of privilege.\<close>

definition lab05_initial :: "m3 \<Rightarrow> bool" where
  "lab05_initial h \<longleftrightarrow> m_ipsr h = 0 \<and> \<not> bit (m_control h) 0 \<and> m_cfsr h = 0 \<and> list_all (\<lambda>r. \<not> bit (m_rasr h r) 0) [3, 4, 5, 6, 7]"

lemma m3_sel:
  "get_CONTROL m3_cpu = m_control" "get_IPSR m3_cpu = m_ipsr" "MPU_CTRL m3_cpu = m_mpu_ctrl" "SCB_CFSR m3_cpu = m_cfsr"
  "SCB_MMFAR m3_cpu = m_mmfar" "link_register m3_cpu = m_lr" "exception_return m3_cpu = m3_leave" "supervisor_call m3_cpu = m3_enter 11"
  "m3_privileged h \<Longrightarrow> get_MSP m3_cpu h = m_msp h" "m3_privileged h \<Longrightarrow> get_PSP m3_cpu h = m_psp h"
  "load32 m3_cpu a h = (if m3_allows False a h then Inr (m_mem h a) else Inl (m3_fault a h))"
  "store32 m3_cpu a v h = (if m3_allows True a h then Inr (h\<lparr>m_mem := (m_mem h)(a := v)\<rparr>) else Inl (m3_fault a h))"
  by (simp_all add: m3_cpu_def)

lemma MPU_Init_m3:
  assumes "lab05_initial h" "at_ok at"
  shows "case MPU_Init m3_cpu core_cm3 at g h of (g', h') \<Rightarrow>
    g' = g\<lparr>mpu_type := 0x800, mpu_ctrl_after_enable := 5\<rparr> \<and> mpu_ready at h' \<and> m_control h' = m_control h \<and> m_ipsr h' = 0 \<and>
    m_psp h' = m_psp h \<and> m_msp h' = m_msp h \<and> m_cfsr h' = 0 \<and> m_mem h' = m_mem h \<and> m_context h' = m_context h"
proof -
  have "32 dvd unat (at_protected_words at)" using assms(2) by (simp add: at_ok_def Let_def)
  then show ?thesis using aligned_32 [of "at_protected_words at"] assms(1)
    by (simp add: MPU_Init_def mpu_configure_region_def m3_cpu_def core_cm3_def Let_def mpu_ready_def lab05_initial_def
        MPU_AP_READ_ONLY_def MPU_NORMAL_MEMORY_def MPU_SIZE_256KB_def MPU_AP_FULL_ACCESS_def MPU_SIZE_128KB_def
        MPU_AP_PRIV_RW_USER_NONE_def MPU_SIZE_32KB_def)
qed

text \<open>The frame of an exception on the process stack lies in SRAM, clear of the two tested objects.\<close>

definition frame_ok :: "lab05_addresses \<Rightarrow> u32 \<Rightarrow> bool" where
  "frame_ok at sp \<longleftrightarrow> list_all (\<lambda>a. in_sram a \<and> a \<noteq> at_protected_words at \<and> a \<noteq> at_normal_ram_word at)
     [sp, sp + 4, sp + 8, sp + 12, sp + 16, sp + 20, sp + 24, sp + 28]"

lemma frame_addresses:
  assumes "at_ok at" "k < 32" "sp = at_process_stack at + 224"
  shows "in_sram (sp + of_nat k) \<and> sp + of_nat k \<noteq> at_protected_words at \<and> sp + of_nat k \<noteq> at_normal_ram_word at"
proof -
  have k: "unat (of_nat k :: u32) = k" using assms(2) by (simp add: unat_of_nat)
  have a: "unat (at_process_stack at) + 256 \<le> 0x20020000" using assms(1) by (simp add: at_ok_def Let_def)
  then have "unat sp = unat (at_process_stack at) + 224" using assms(3) by (simp add: unat_word_ariths)
  then have e: "unat (sp + of_nat k) = unat (at_process_stack at) + 224 + k"
    using a k assms(2) by (simp add: unat_word_ariths)
  have "in_sram (sp + of_nat k)" unfolding e using assms by (simp add: at_ok_def Let_def)
  moreover have "sp + of_nat k \<noteq> at_protected_words at" "sp + of_nat k \<noteq> at_normal_ram_word at"
    using assms e by (auto simp: at_ok_def Let_def word_unat_eq_iff)
  ultimately show ?thesis by simp
qed

lemma process_frame_ok: "at_ok at \<Longrightarrow> sp = at_process_stack at + 224 \<Longrightarrow> frame_ok at sp"
  using frame_addresses [of at 0 sp] frame_addresses [of at 4 sp] frame_addresses [of at 8 sp]
    frame_addresses [of at 12 sp] frame_addresses [of at 16 sp] frame_addresses [of at 20 sp]
    frame_addresses [of at 24 sp] frame_addresses [of at 28 sp] by (simp add: frame_ok_def)

lemma object_addresses:
  assumes "at_ok at"
  shows "in_sram (at_protected_words at)" "in_block at (at_protected_words at)" "in_sram (at_normal_ram_word at)"
    "\<not> in_block at (at_normal_ram_word at)" "at_normal_ram_word at \<noteq> at_protected_words at"
  using assms by (auto simp: at_ok_def Let_def)

lemma dump_eight:
  assumes "list_all (\<lambda>a. load32 hw a h = Inr (f a)) [sp, sp + 4, sp + 8, sp + 12, sp + 16, sp + 20, sp + 24, sp + 28]"
  shows "dump_stack hw 8 sp h = map f [sp, sp + 4, sp + 8, sp + 12, sp + 16, sp + 20, sp + 24, sp + 28]"
  using assms by (simp add: eval_nat_numeral add.commute [of sp])

text \<open>What the tests see, from the drop of privilege on.\<close>

lemma unprivileged_run:
  assumes r: "mpu_ready at h" and at: "at_ok at" and c: "m_control h = 3" "m_ipsr h = 0" "m_psp h = sp + 32" "m_cfsr h = 0"
    and f: "frame_ok at sp" and m: "m_mem h (at_normal_ram_word at) = x" "m_mem h (at_protected_words at) = y"
  shows "case lab05_unprivileged m3_cpu at g h of (g', h') \<Rightarrow>
    test_stage g' = 0xDEAD \<and> msp_after g' = 0 \<and> psp_after g' = 0 \<and> unprivileged_normal_readback g' = x \<and> privileged_readback g' = privileged_readback g \<and>
    fault_cfsr g' = 0x82 \<and> fault_mmfar g' = at_protected_words at \<and> fault_exc_return g' = 0xFFFFFFFD \<and> fault_control g' = 1 \<and>
    l5_exc_return g' = 0xFFFFFFFD \<and> take 4 (l5_dump g') = [0x11111111, 0x22222222, 0x33333333, 0x44444444] \<and>
    m_mem h' (at_protected_words at) = y"
proof -
  note o = object_addresses [OF at]
  have unpriv: "\<not> m3_privileged h" using c by (simp add: m3_privileged_def)
  then have sp: "get_MSP m3_cpu h = 0" "get_PSP m3_cpu h = 0" by (simp_all add: m3_cpu_def)
  have ld: "load32 m3_cpu (at_normal_ram_word at) h = Inr x"
    using mpu_decides [OF r at o(3), of False] o(4) m by (simp add: m3_sel)
  obtain r12 lr pc xpsr where ctx: "m_context h = (r12, lr, pc, xpsr)" by (metis prod_cases4)
  define h1 where "h1 = h\<lparr>m_psp := sp, m_mem := (m_mem h)(sp := 0x11111111, sp + 4 := 0x22222222, sp + 8 := 0x33333333, sp + 12 := 0x44444444,
      sp + 16 := r12, sp + 20 := lr, sp + 24 := pc, sp + 28 := xpsr), m_lr := 0xFFFFFFFD, m_control := 1, m_ipsr := 11\<rparr>"
  have svc: "m3_enter 11 0x11111111 0x22222222 0x33333333 0x44444444 h = h1"
    using c ctx by (simp add: m3_enter_def Let_def h1_def ac_simps)
  have r1: "mpu_ready at h1" and p1: "m3_privileged h1" using r by (simp_all add: mpu_ready_def m3_privileged_def h1_def)
  have ld1: "load32 m3_cpu a h1 = Inr (m_mem h1 a)" if "in_sram a" for a
    using mpu_decides [OF r1 at that, of False] p1 by (simp add: m3_sel)
  have fr: "in_sram sp" "in_sram (sp + 4)" "in_sram (sp + 8)" "in_sram (sp + 12)" "in_sram (sp + 16)" "in_sram (sp + 20)" "in_sram (sp + 24)" "in_sram (sp + 28)"
    using f by (simp_all add: frame_ok_def)
  have mem1: "m_mem h1 sp = 0x11111111" "m_mem h1 (sp + 4) = 0x22222222" "m_mem h1 (sp + 8) = 0x33333333" "m_mem h1 (sp + 12) = 0x44444444"
    "m_mem h1 (at_protected_words at) = y"
    using f m(2) by (auto simp: h1_def frame_ok_def)
  have dump: "take 4 (dump_stack m3_cpu 8 sp h1) = [0x11111111, 0x22222222, 0x33333333, 0x44444444]"
    using ld1 fr mem1 dump_eight [of m3_cpu h1 "m_mem h1" sp] by simp
  have stack: "frame_stack m3_cpu h1 = sp" "link_register m3_cpu h1 = 0xFFFFFFFD"
    using p1 by (simp_all add: frame_stack_def m3_sel) (simp_all add: h1_def)
  define h2 where "h2 = h1\<lparr>m_psp := sp + 32, m_control := 3, m_ipsr := 0\<rparr>"
  have leave: "m3_leave 0xFFFFFFFD h1 = h2" by (simp add: m3_leave_def h2_def h1_def)
  have r2: "mpu_ready at h2" and p2: "\<not> m3_privileged h2" and c2: "m_cfsr h2 = 0" "m_control h2 = 3" "m_ipsr h2 = 0" "m_psp h2 = sp + 32"
    "m_context h2 = (r12, lr, pc, xpsr)" "m_mem h2 = m_mem h1"
    using r1 c ctx by (simp_all add: mpu_ready_def m3_privileged_def h2_def h1_def)
  define h3 where "h3 = m3_fault (at_protected_words at) h2"
  have st: "store32 m3_cpu (at_protected_words at) 0xBAD0BAD0 h2 = Inl h3"
    using mpu_decides [OF r2 at o(1), of True] o(2) p2 by (simp add: m3_sel h3_def)
  have h3: "m_cfsr h3 = 0x82" "m_mmfar h3 = at_protected_words at" "m_lr h3 = 0xFFFFFFFD" "m_control h3 = 1" "m_mem h3 (at_protected_words at) = y"
    using c2 f mem1(5) by (auto simp: h3_def m3_fault_def m3_enter_def Let_def frame_ok_def)
  show ?thesis using ld svc stack dump leave st h3 sp
    by (simp add: lab05_unprivileged_def lab05_Trigger_SVC_def lab05_SVC_Handler_def MemManage_Handler_def DumpSpecialRegisters_def m3_sel Let_def)
qed

text \<open>lab02 and lab03 on the machine: the critical section restores PRIMASK whatever it was, and the SVC of a thread
  on the main stack leaves the EXC_RETURN value of thread mode and comes back.\<close>

lemma CriticalSection_m3: "CriticalSection m3_cpu h = h"
proof -
  have "((\<lambda>h. h) ^^ n) h = h" for n and h :: m3 by (induction n) simp_all
  then show ?thesis by (simp add: CriticalSection_def m3_cpu_def)
qed

lemma lab02_restores_primask:
  assumes "m3_privileged h" "m_primask h = 0 \<or> m_primask h = 1"
  shows "lab02_main m3_cpu g h = (g\<lparr>g_before := m_primask h, g_after_disable := 1, g_after_restore := m_primask h\<rparr>, h)"
proof -
  have "m3_privileged (h\<lparr>m_primask := 1\<rparr>)" using assms(1) by (simp add: m3_privileged_def)
  then show ?thesis using assms by (auto simp: lab02_main_def CriticalSection_m3 Let_def) (simp_all add: m3_cpu_def)
qed

lemma lab03_exc_return:
  assumes "m_ipsr h = 0" "m_control h = 0"
  shows "fst (lab03_main m3_cpu h) = 0xFFFFFFF9 \<and> m_ipsr (snd (lab03_main m3_cpu h)) = 0 \<and> m_msp (snd (lab03_main m3_cpu h)) = m_msp h"
  using assms by (auto simp: lab03_main_def lab03_SVC_Handler_def m3_cpu_def m3_enter_def m3_leave_def Let_def split: prod.splits)

text \<open>From its first five instructions on, and then at its return instruction with lr pointing there, the handler
  of lab04 has no result.\<close>

lemma lab04_handler_loops:
  assumes "lab04_handler_from hw h pc lr r0 r1 g = Some y" "lr = Instruction 5 \<and> pc = 5 \<or> pc < 5"
  shows False
proof -
  have "\<not> (lr = Instruction 5 \<and> pc = 5 \<or> pc < 5)"
    by (rule lab04_handler_from.raw_induct
          [where P = "\<lambda>hw h pc lr r0 r1 g y. \<not> (lr = Instruction 5 \<and> pc = 5 \<or> pc < 5)", OF _ assms(1)])
      (auto split: if_splits link.splits; fastforce)
  then show False using assms(2) by blast
qed

section \<open>Properties\<close>

text \<open>C10.  lab05, for every placement of its objects by the linker: the privileged code reads and writes the
  protected block, the unprivileged code reads ordinary memory and calls the supervisor through the process
  stack, and its write to the protected block changes nothing and ends in the MemManage handler with the
  cause and the address of the violation.\<close>

theorem lab05_mpu_stops_write:
  assumes "lab05_initial h" "at_ok at"
  shows "case lab05_main m3_cpu core_cm3 at g h of (g', h') \<Rightarrow>
    test_stage g' = 0xDEAD \<and> msp_after g' = 0 \<and> psp_after g' = 0 \<and> privileged_readback g' = 0x12345678 \<and> unprivileged_normal_readback g' = 0xA5A55A5A \<and>
    fault_cfsr g' = 0x82 \<and> fault_mmfar g' = at_protected_words at \<and> fault_exc_return g' = 0xFFFFFFFD \<and> fault_control g' = 1 \<and>
    l5_exc_return g' = 0xFFFFFFFD \<and> take 4 (l5_dump g') = [0x11111111, 0x22222222, 0x33333333, 0x44444444] \<and>
    m_mem h' (at_protected_words at) = 0x12345678"
proof -
  note o = object_addresses [OF assms(2)]
  let ?g0 = "DumpSpecialRegisters m3_cpu (g\<lparr>test_stage := 1, control_before := get_CONTROL m3_cpu h, msp_before := get_MSP m3_cpu h,
    psp_before := get_PSP m3_cpu h\<rparr>) h"
  define h0 where "h0 = set_PSP m3_cpu (at_process_stack at + 256) h"
  have p: "m3_privileged h" using assms(1) by (simp add: lab05_initial_def m3_privileged_def)
  have h0: "lab05_initial h0" "m_psp h0 = at_process_stack at + 256" "m_control h0 = m_control h"
    using assms(1) p by (simp_all add: h0_def m3_cpu_def lab05_initial_def)
  obtain g1 h1 where init: "MPU_Init m3_cpu core_cm3 at ?g0 h0 = (g1, h1)" by (rule prod.exhaust)
  note i = MPU_Init_m3 [OF h0(1) assms(2), of ?g0, unfolded init prod.case]
  have p1: "m3_privileged h1" using i p assms(1) h0(3) by (simp add: m3_privileged_def lab05_initial_def)
  define h2 where "h2 = h1\<lparr>m_mem := (m_mem h1)(at_protected_words at := 0x12345678)\<rparr>"
  have st: "store32 m3_cpu (at_protected_words at) 0x12345678 h1 = Inr h2"
    using mpu_decides [of at h1 "at_protected_words at" True] i assms(2) o(1) p1 by (simp add: m3_sel h2_def)
  have r2: "mpu_ready at h2" and p2: "m3_privileged h2" using i p1 by (simp_all add: h2_def mpu_ready_def m3_privileged_def)
  have ld: "load32 m3_cpu (at_protected_words at) h2 = Inr 0x12345678"
    using mpu_decides [OF r2 assms(2) o(1), of False] p2 by (simp add: m3_sel) (simp add: h2_def)
  define h3 where "h3 = h2\<lparr>m_mem := (m_mem h2)(at_normal_ram_word at := 0xA5A55A5A)\<rparr>"
  have st2: "store32 m3_cpu (at_normal_ram_word at) 0xA5A55A5A h2 = Inr h3"
    using mpu_decides [OF r2 assms(2) o(3), of True] p2 by (simp add: m3_sel h3_def)
  define h4 where "h4 = set_CONTROL m3_cpu (get_CONTROL m3_cpu h3 OR 3) h3"
  have p3: "m3_privileged h3" using p2 by (simp add: h3_def m3_privileged_def)
  have c4: "m_control h4 = 3" using p3 by (simp add: h4_def m3_cpu_def)
  have h4: "mpu_ready at h4" "m_ipsr h4 = 0" "m_psp h4 = (at_process_stack at + 224) + 32" "m_cfsr h4 = 0"
    "m_mem h4 (at_normal_ram_word at) = 0xA5A55A5A" "m_mem h4 (at_protected_words at) = 0x12345678"
    using r2 p3 i h0(2) o(5) by (simp_all add: h4_def m3_cpu_def h3_def h2_def mpu_ready_def)
  have "lab05_main m3_cpu core_cm3 at g h = lab05_unprivileged m3_cpu at (g1\<lparr>test_stage := 2, privileged_readback := 0x12345678\<rparr>) h4"
    using init st ld st2 by (simp add: lab05_main_def Let_def h0_def [symmetric] h4_def)
  then show ?thesis
    using unprivileged_run [OF h4(1) assms(2) c4 h4(2,3,4) process_frame_ok [OF assms(2) refl] h4(5,6), of "g1\<lparr>test_stage := 2, privileged_readback := 0x12345678\<rparr>"]
    by (simp add: case_prod_beta)
qed

theorem lab05_mpu_stops_write_witness:
  "lab05_initial demo_m3 \<and> at_ok demo_at \<and> fault_cfsr (fst (lab05_main m3_cpu core_cm3 demo_at demo_g demo_m3)) = 0x82"
proof -
  have pre: "lab05_initial demo_m3" "at_ok demo_at"
    by (simp_all add: lab05_initial_def demo_m3_def at_ok_def demo_at_def)
  show ?thesis using lab05_mpu_stops_write [OF pre, of demo_g] pre by (simp add: case_prod_beta)
qed

text \<open>Note.  The SVC handler of lab04 reaches its dump but never returns: the call of the C part overwrites lr with
  the address of the return instruction, which then branches to itself.\<close>

theorem lab04_handler_never_returns:
  "lab04_main hw g h = None"
proof (cases "lab04_main hw g h")
  case (Some y)
  then show ?thesis unfolding lab04_main_def Let_def by (rule lab04_handler_loops [THEN FalseE]) simp
qed

end
