(* ===== verification/Optimization.thy ===== *)
theory Optimization
  imports Core_Labs
begin

text \<open>
  labs/lab07_optimization: the experiments of main.c, as the C they are written in prescribes.  The value another
  agent gives \<open>volatile_flag\<close> is the parameter \<open>flag\<close>, one value per read; the processor is the parameter \<open>hw\<close> of
  lab01 and the cycle counter and the barrier are the parameter \<open>cc\<close>.
\<close>

section \<open>State\<close>

record 'h counters =
  get_DEMCR :: "'h \<Rightarrow> u32"
  set_DEMCR :: "u32 \<Rightarrow> 'h \<Rightarrow> 'h"
  get_DWT_CTRL :: "'h \<Rightarrow> u32"
  set_DWT_CTRL :: "u32 \<Rightarrow> 'h \<Rightarrow> 'h"
  get_CYCCNT :: "'h \<Rightarrow> u32"
  set_CYCCNT :: "u32 \<Rightarrow> 'h \<Rightarrow> 'h"
  DMB :: "'h \<Rightarrow> 'h"
  TRCENA_Msk :: u32
  CYCCNTENA_Msk :: u32

text \<open>The globals, and in \<open>order\<close> the accesses of the second practice as the program issues them.\<close>

datatype access = Store_data u32 | Store_ready u32 | Compiler_barrier | Dmb_barrier

record lab07 =
  normal_flag :: u32
  sink :: u32
  l7_result :: u32
  cycles :: u32
  l7_data :: u32
  l7_ready :: u32
  cycle_normal :: u32
  cycle_inline :: u32
  global_var :: u32
  order :: "access list"

section \<open>The practices\<close>

text \<open>Practice 1.  Nothing changes \<open>normal_flag\<close> while its loop runs.\<close>

partial_function (option) test_nonvolatile :: "lab07 \<Rightarrow> lab07 option" where
  "test_nonvolatile g = (if normal_flag g = 0 then test_nonvolatile g else Some (g\<lparr>sink := normal_flag g\<rparr>))"

text \<open>\<open>n\<close> counts the reads of the flag; the value kept is that of a read of its own.\<close>

partial_function (option) test_volatile :: "(nat \<Rightarrow> u32) \<Rightarrow> nat \<Rightarrow> lab07 \<Rightarrow> lab07 option" where
  "test_volatile flag n g = (if flag n = 0 then test_volatile flag (n + 1) g else Some (g\<lparr>sink := flag (n + 1)\<rparr>))"

definition store_data :: "u32 \<Rightarrow> lab07 \<Rightarrow> lab07" where
  "store_data v g = g\<lparr>l7_data := v, order := order g @ [Store_data v]\<rparr>"

definition store_ready :: "u32 \<Rightarrow> lab07 \<Rightarrow> lab07" where
  "store_ready v g = g\<lparr>l7_ready := v, order := order g @ [Store_ready v]\<rparr>"

definition without_barrier :: "lab07 \<Rightarrow> lab07" where
  "without_barrier g = store_ready 1 (store_data 100 g)"

definition compiler_barrier :: "lab07 \<Rightarrow> lab07" where
  "compiler_barrier g = (let g = store_data 100 g; g = g\<lparr>order := order g @ [Compiler_barrier]\<rparr> in store_ready 1 g)"

definition dmb_barrier :: "lab07 \<Rightarrow> lab07" where
  "dmb_barrier g = (let g = store_data 100 g; g = g\<lparr>order := order g @ [Dmb_barrier]\<rparr> in store_ready 1 g)"

text \<open>Practice 3: the loop in full.\<close>

function sum_from :: "u32 \<Rightarrow> u32 \<Rightarrow> u32" where
  "sum_from i s = (if i < 1000 then sum_from (i + 1) (s + i) else s)"
  by pat_completeness auto
termination
  by (relation "measure (\<lambda>(i, _). 1000 - unat i)") (auto simp: word_less_nat_alt unat_word_ariths)

declare sum_from.simps [simp del]

definition sum_loop :: u32 where
  "sum_loop = sum_from 0 0"

text \<open>Practices 4 to 7.\<close>

definition lab07_delay_loop :: "'h cpu \<Rightarrow> 'h \<Rightarrow> 'h" where
  "lab07_delay_loop hw h = (nop hw ^^ 1000) h"

definition add_normal :: "u32 \<Rightarrow> u32 \<Rightarrow> u32" where
  "add_normal a b = a + b"

definition add_inline :: "u32 \<Rightarrow> u32 \<Rightarrow> u32" where
  "add_inline a b = a + b"

definition register_access :: "lab07 \<Rightarrow> lab07" where
  "register_access g = (let r = global_var g in g\<lparr>sink := r\<rparr>)"

definition stack_access :: "lab07 \<Rightarrow> lab07" where
  "stack_access g = (let local = global_var g in g\<lparr>sink := local\<rparr>)"

definition global_access :: "lab07 \<Rightarrow> lab07" where
  "global_access g = g\<lparr>sink := global_var g\<rparr>"

definition cmsis_disable_irq :: "'h cpu \<Rightarrow> 'h \<Rightarrow> 'h" where
  "cmsis_disable_irq hw h = disable_irq hw h"

text \<open>\<open>cpsid i\<close> is what the CMSIS function is made of.\<close>

definition intrinsic_disable_irq :: "'h cpu \<Rightarrow> 'h \<Rightarrow> 'h" where
  "intrinsic_disable_irq hw h = disable_irq hw h"

definition cmsis_dmb :: "'h counters \<Rightarrow> 'h \<Rightarrow> 'h" where
  "cmsis_dmb cc h = DMB cc h"

definition asm_dmb :: "'h counters \<Rightarrow> 'h \<Rightarrow> 'h" where
  "asm_dmb cc h = DMB cc h"

definition dwt_init :: "'h counters \<Rightarrow> 'h \<Rightarrow> 'h" where
  "dwt_init cc h =
     (let h = set_DEMCR cc (get_DEMCR cc h OR TRCENA_Msk cc) h
      in set_DWT_CTRL cc (get_DWT_CTRL cc h OR CYCCNTENA_Msk cc) h)"

section \<open>main\<close>

text \<open>\<open>practice\<close> holds of the numbers whose macro is defined.\<close>

definition lab07_cycles :: "'h cpu \<Rightarrow> 'h counters \<Rightarrow> (nat \<Rightarrow> bool) \<Rightarrow> lab07 \<Rightarrow> 'h \<Rightarrow> lab07 \<times> 'h" where
  "lab07_cycles hw cc practice g h =
     (let (g, h) = (if practice 4 then
            let h = dwt_init cc h; h = set_CYCCNT cc 0 h; h = lab07_delay_loop hw h in (g\<lparr>cycles := get_CYCCNT cc h\<rparr>, h)
          else (g, h)) in
      if practice 5 then
        let h = dwt_init cc h; h = set_CYCCNT cc 0 h; _ = add_normal 1 2; g = g\<lparr>cycle_normal := get_CYCCNT cc h\<rparr>;
            h = set_CYCCNT cc 0 h; _ = add_inline 1 2
        in (g\<lparr>cycle_inline := get_CYCCNT cc h\<rparr>, h)
      else (g, h))"

definition lab07_main :: "'h cpu \<Rightarrow> 'h counters \<Rightarrow> (nat \<Rightarrow> bool) \<Rightarrow> (nat \<Rightarrow> u32) \<Rightarrow> lab07 \<Rightarrow> 'h \<Rightarrow> (lab07 \<times> 'h) option" where
  "lab07_main hw cc practice flag g h =
     (case (if practice 1 then Option.bind (test_nonvolatile g) (test_volatile flag 0) else Some g) of
        None \<Rightarrow> None
      | Some g \<Rightarrow>
          let g = (if practice 2 then dmb_barrier (compiler_barrier (without_barrier g)) else g);
              g = (if practice 3 then g\<lparr>l7_result := sum_loop\<rparr> else g);
              (g, h) = lab07_cycles hw cc practice g h;
              g = (if practice 6 then global_access (stack_access (register_access g)) else g);
              h = (if practice 7 then asm_dmb cc (cmsis_dmb cc (intrinsic_disable_irq hw (cmsis_disable_irq hw h))) else h)
          in Some (g, h))"

section \<open>Lemmas\<close>

lemma test_nonvolatile_stuck: "normal_flag g = 0 \<Longrightarrow> test_nonvolatile g = None"
proof (cases "test_nonvolatile g")
  case (Some y)
  assume "normal_flag g = 0"
  moreover have "normal_flag g \<noteq> 0"
    by (rule test_nonvolatile.raw_induct [where P = "\<lambda>g y. normal_flag g \<noteq> 0", OF _ Some]) (auto split: if_splits)
  ultimately show ?thesis by simp
qed

lemma test_volatile_waits: "(\<And>i. i < k \<Longrightarrow> flag (n + i) = 0) \<Longrightarrow> test_volatile flag n g = test_volatile flag (n + k) g"
proof (induction k)
  case (Suc k)
  then show ?case using test_volatile.simps [of flag "n + k" g] by simp
qed simp

lemma test_volatile_stuck: "\<forall>i\<ge>n. flag i = 0 \<Longrightarrow> test_volatile flag n g = None"
proof (cases "test_volatile flag n g")
  case (Some y)
  assume *: "\<forall>i\<ge>n. flag i = 0"
  have "\<exists>i\<ge>n. flag i \<noteq> 0"
    by (rule test_volatile.raw_induct [where P = "\<lambda>flag n g y. \<exists>i\<ge>n. flag i \<noteq> 0", OF _ Some])
      (auto split: if_splits, meson Suc_leD)
  then show ?thesis using * by blast
qed simp

lemma upt_from_end: "n < m \<Longrightarrow> [m - Suc n..<m] = (m - Suc n) # [m - n..<m]"
  by (simp add: upt_conv_Cons Suc_diff_Suc)

lemma sum_from_eq:
  assumes "n \<le> 1000"
  shows "sum_from (of_nat (1000 - n)) s = s + of_nat (\<Sum>i\<leftarrow>[1000 - n..<1000]. i)"
  using assms
proof (induction n arbitrary: s)
  case (Suc n)
  have u: "(of_nat (1000 - Suc n) :: u32) < 1000"
    using Suc.prems unsigned_less [where 'b = 32] by (simp only: word_less_nat_alt unat_of_nat) simp
  have s: "of_nat (1000 - Suc n) + 1 = (of_nat (1000 - n) :: u32)"
    using Suc.prems by (simp flip: of_nat_Suc add: Suc_diff_Suc)
  have l: "[1000 - Suc n..<1000] = (1000 - Suc n) # [1000 - n..<1000]"
    using Suc.prems by (intro upt_from_end) simp
  show ?case using Suc.IH [of "s + of_nat (1000 - Suc n)"] Suc.prems u s
    unfolding l by (subst sum_from.simps) (simp add: add.assoc)
qed (simp add: sum_from.simps [of 1000])

section \<open>Properties\<close>

text \<open>Note.  The volatile wait of lab07 returns exactly when some read of the flag is not zero, and what it keeps is
  the value of the read after the first of these, whatever that is by then.\<close>

theorem test_volatile_returns:
  "test_volatile flag 0 g =
     (if \<exists>n. flag n \<noteq> 0 then Some (g\<lparr>sink := flag (Suc (LEAST n. flag n \<noteq> 0))\<rparr>) else None)"
proof (cases "\<exists>n. flag n \<noteq> 0")
  case True
  define l where "l = (LEAST n. flag n \<noteq> 0)"
  have "flag l \<noteq> 0" unfolding l_def using True by (rule LeastI_ex)
  then have "test_volatile flag l g = Some (g\<lparr>sink := flag (Suc l)\<rparr>)" by (subst test_volatile.simps) simp
  moreover have "flag (0 + i) = 0" if "i < l" for i
    using not_less_Least [of i "\<lambda>n. flag n \<noteq> 0"] that by (simp add: l_def)
  then have "test_volatile flag 0 g = test_volatile flag (0 + l) g" by (rule test_volatile_waits)
  ultimately show ?thesis using True by (simp add: l_def [symmetric])
next
  case False
  then show ?thesis by (simp add: test_volatile_stuck)
qed

lemma sum_upto_1000: "(\<Sum>i\<leftarrow>[0..<1000]. i) = (499500 :: nat)"
proof -
  have "2 * (\<Sum>i\<leftarrow>[0..<n]. i) + n = n * n" for n :: nat
    by (induction n) (simp_all add: algebra_simps)
  from this [of 1000] show ?thesis by (simp del: upt_rec_numeral)
qed

lemma sum_loop_result: "sum_loop = 499500"
proof -
  have "sum_loop = sum_from (of_nat (1000 - 1000)) 0" by (simp add: sum_loop_def)
  also have "\<dots> = 0 + of_nat (\<Sum>i\<leftarrow>[1000 - 1000..<1000]. i)" by (rule sum_from_eq) (rule order_refl)
  also have "\<dots> = 0 + of_nat 499500" by (simp only: sum_upto_1000 diff_self_eq_0)
  also have "\<dots> = 499500" by (simp only: of_nat_numeral add_0_left)
  finally show ?thesis .
qed

lemma lab07_practice1_stuck: "practice 1 \<Longrightarrow> normal_flag g = 0 \<Longrightarrow> lab07_main hw cc practice flag g h = None"
  by (simp add: lab07_main_def test_nonvolatile_stuck)

end
