(* ===== verification/Startup.thy ===== *)
theory Startup
  imports Runtime
begin

text \<open>
  platform/runtime/startup.s and platform/selftest/startup.s: the reset handler, instruction by instruction, on a
  small machine with the instructions it uses.  Its two loops are shown to be copy_data and zero_bss of runtime.c,
  and lab06 is followed from reset to the end of its main, with its globals in memory.
\<close>

section \<open>The machine\<close>

datatype reg = R0 | R1 | R2 | R3

datatype callee = SystemInit | Init_array | Main | Fini_array

text \<open>Post-indexed loads and stores add four to the address register; labels are positions in the program.\<close>

datatype instr =
  LDR_eq reg u32
| CMP reg reg
| BCC nat
| B nat
| LDR_post reg reg
| STR_post reg reg
| MOVS reg u32
| BL callee

record machine =
  mc_pc :: nat
  mc_reg :: "reg \<Rightarrow> u32"
  mc_carry :: bool
  mc_mem :: mem

definition next_pc :: "machine \<Rightarrow> machine" where
  "next_pc s = s\<lparr>mc_pc := mc_pc s + 1\<rparr>"

definition set_reg :: "reg \<Rightarrow> u32 \<Rightarrow> machine \<Rightarrow> machine" where
  "set_reg r v s = s\<lparr>mc_reg := (mc_reg s)(r := v)\<rparr>"

text \<open>A routine that is called acts on memory, or does not return; CMP sets the carry if there is no borrow.\<close>

fun step :: "(callee \<Rightarrow> mem \<Rightarrow> mem option) \<Rightarrow> instr \<Rightarrow> machine \<Rightarrow> machine option" where
  "step call (LDR_eq r v) s = Some (next_pc (set_reg r v s))"
| "step call (CMP a b) s = Some (next_pc (s\<lparr>mc_carry := (mc_reg s b \<le> mc_reg s a)\<rparr>))"
| "step call (BCC n) s = Some (if mc_carry s then next_pc s else s\<lparr>mc_pc := n\<rparr>)"
| "step call (B n) s = Some (s\<lparr>mc_pc := n\<rparr>)"
| "step call (LDR_post r a) s = Some (next_pc (set_reg a (mc_reg s a + 4) (set_reg r (ld32 (mc_reg s a) (mc_mem s)) s)))"
| "step call (STR_post r a) s =
     Some (next_pc (set_reg a (mc_reg s a + 4) (s\<lparr>mc_mem := st32 (mc_reg s a) (mc_reg s r) (mc_mem s)\<rparr>)))"
| "step call (MOVS r v) s = Some (next_pc (set_reg r v s))"
| "step call (BL f) s = (case call f (mc_mem s) of None \<Rightarrow> None | Some m \<Rightarrow> Some (next_pc (s\<lparr>mc_mem := m\<rparr>)))"

text \<open>Execution up to the position \<open>stop\<close>; None if it is never reached.\<close>

partial_function (option) run_to :: "(callee \<Rightarrow> mem \<Rightarrow> mem option) \<Rightarrow> instr list \<Rightarrow> nat \<Rightarrow> machine \<Rightarrow> machine option" where
  "run_to call code stop s =
     (if mc_pc s = stop then Some s
      else case step call (code ! mc_pc s) s of None \<Rightarrow> None | Some s \<Rightarrow> run_to call code stop s)"

section \<open>The reset handler (startup.s)\<close>

text \<open>The labels copy_loop, copy_word, zero_begin, zero_loop, zero_word and init_done are 3, 6, 9, 11, 14 and 17; the
  program parks at 21.\<close>

definition Reset_Handler :: "linker \<Rightarrow> instr list" where
  "Reset_Handler l =
     [LDR_eq R0 (lk_sidata l), LDR_eq R1 (lk_sdata l), LDR_eq R2 (lk_edata l),
      CMP R1 R2, BCC 6, B 9,
      LDR_post R3 R0, STR_post R3 R1, B 3,
      LDR_eq R1 (lk_sbss l), LDR_eq R2 (lk_ebss l),
      CMP R1 R2, BCC 14, B 17,
      MOVS R3 0, STR_post R3 R1, B 11,
      BL SystemInit, BL Init_array, BL Main, BL Fini_array,
      B 21]"

definition reset_to :: "(callee \<Rightarrow> mem \<Rightarrow> mem option) \<Rightarrow> linker \<Rightarrow> nat \<Rightarrow> machine \<Rightarrow> machine option" where
  "reset_to call l stop s = run_to call (Reset_Handler l) stop (s\<lparr>mc_pc := 0\<rparr>)"

section \<open>The loops\<close>

text \<open>A number of instructions, none of them at \<open>stop\<close>.\<close>

primrec moves :: "(callee \<Rightarrow> mem \<Rightarrow> mem option) \<Rightarrow> instr list \<Rightarrow> nat \<Rightarrow> nat \<Rightarrow> machine \<Rightarrow> machine option" where
  "moves call code stop 0 s = Some s"
| "moves call code stop (Suc n) s =
     (if mc_pc s = stop then None else Option.bind (step call (code ! mc_pc s) s) (moves call code stop n))"

lemma moves_numeral [simp]:
  "moves call code stop (numeral k) s =
     (if mc_pc s = stop then None else Option.bind (step call (code ! mc_pc s) s) (moves call code stop (pred_numeral k)))"
  by (simp add: numeral_eq_Suc)

lemma run_moves: "moves call code stop n s = Some s' \<Longrightarrow> run_to call code stop s = run_to call code stop s'"
proof (induction n arbitrary: s)
  case (Suc n)
  then show ?case by (subst run_to.simps) (auto split: if_splits option.splits simp: bind_eq_Some_conv)
qed simp

lemma run_stop: "mc_pc s = stop \<Longrightarrow> run_to call code stop s = Some s"
  by (subst run_to.simps) simp

lemma reset_code:
  "Reset_Handler l ! 0 = LDR_eq R0 (lk_sidata l)" "Reset_Handler l ! Suc 0 = LDR_eq R1 (lk_sdata l)" "Reset_Handler l ! 2 = LDR_eq R2 (lk_edata l)"
  "Reset_Handler l ! Suc (Suc 0) = LDR_eq R2 (lk_edata l)"
  "Reset_Handler l ! 3 = CMP R1 R2" "Reset_Handler l ! 4 = BCC 6" "Reset_Handler l ! 5 = B 9" "Reset_Handler l ! 6 = LDR_post R3 R0"
  "Reset_Handler l ! 7 = STR_post R3 R1" "Reset_Handler l ! 8 = B 3" "Reset_Handler l ! 9 = LDR_eq R1 (lk_sbss l)"
  "Reset_Handler l ! 10 = LDR_eq R2 (lk_ebss l)" "Reset_Handler l ! 11 = CMP R1 R2" "Reset_Handler l ! 12 = BCC 14" "Reset_Handler l ! 13 = B 17"
  "Reset_Handler l ! 14 = MOVS R3 0" "Reset_Handler l ! 15 = STR_post R3 R1" "Reset_Handler l ! 16 = B 11" "Reset_Handler l ! 17 = BL SystemInit"
  "Reset_Handler l ! 18 = BL Init_array" "Reset_Handler l ! 19 = BL Main" "Reset_Handler l ! 20 = BL Fini_array"
  by (simp_all add: Reset_Handler_def)

lemmas machine_step = reset_code next_pc_def set_reg_def

text \<open>From copy_loop with the pointers in r0 to r2 the machine reaches zero_begin with the memory of the C loop, and
  from zero_loop with them in r1 and r2 init_done.\<close>

lemma word_up:
  fixes d e :: u32
  assumes "unat e = unat d + 4 * Suc n" "unat e + 4 < 2 ^ 32"
  shows "d < e" "unat e = unat (d + 4) + 4 * n" "\<not> e \<le> d"
proof -
  have "unat d + 4 < 2 ^ 32" using assms by simp
  then show "unat e = unat (d + 4) + 4 * n" using assms(1) word_addresses(4) [of d] by simp
qed (use assms in \<open>simp_all add: word_less_nat_alt word_le_nat_alt\<close>)

lemma copy_loop_refines:
  assumes "unat (mc_reg s R2) = unat (mc_reg s R1) + 4 * n" "unat (mc_reg s R2) + 4 < 2 ^ 32" "mc_pc s = 3" "17 \<le> stop"
  shows "\<exists>s'. mc_pc s' = 9 \<and> copy_words (mc_reg s R2) (mc_reg s R0) (mc_reg s R1) (mc_mem s) = Some (mc_mem s') \<and>
    run_to call (Reset_Handler l) stop s = run_to call (Reset_Handler l) stop s'"
  using assms
proof (induction n arbitrary: s)
  case 0
  then have e: "mc_reg s R1 = mc_reg s R2" by (simp add: word_unat_eq_iff)
  let ?s = "s\<lparr>mc_carry := True, mc_pc := 9\<rparr>"
  have "moves call (Reset_Handler l) stop 3 s = Some ?s" using 0 e by (simp add: machine_step)
  from run_moves [OF this] show ?case using e by (intro exI [of _ ?s]) (simp add: copy_words.simps)
next
  case (Suc n)
  note up = word_up [OF Suc.prems(1,2)]
  let ?v = "ld32 (mc_reg s R0) (mc_mem s)"
  let ?s = "s\<lparr>mc_carry := False, mc_reg := (mc_reg s)(R3 := ?v, R0 := mc_reg s R0 + 4, R1 := mc_reg s R1 + 4),
    mc_mem := st32 (mc_reg s R1) ?v (mc_mem s), mc_pc := 3\<rparr>"
  have "moves call (Reset_Handler l) stop 5 s = Some ?s" using Suc.prems(3,4) up(3) by (simp add: machine_step)
  from run_moves [OF this] Suc.IH [of ?s] up Suc.prems show ?case by (subst copy_words.simps) simp
qed

lemma zero_loop_refines:
  assumes "unat (mc_reg s R2) = unat (mc_reg s R1) + 4 * n" "unat (mc_reg s R2) + 4 < 2 ^ 32" "mc_pc s = 11" "17 \<le> stop"
  shows "\<exists>s'. mc_pc s' = 17 \<and> zero_words (mc_reg s R2) (mc_reg s R1) (mc_mem s) = Some (mc_mem s') \<and>
    run_to call (Reset_Handler l) stop s = run_to call (Reset_Handler l) stop s'"
  using assms
proof (induction n arbitrary: s)
  case 0
  then have e: "mc_reg s R1 = mc_reg s R2" by (simp add: word_unat_eq_iff)
  let ?s = "s\<lparr>mc_carry := True, mc_pc := 17\<rparr>"
  have "moves call (Reset_Handler l) stop 3 s = Some ?s" using 0 e by (simp add: machine_step)
  from run_moves [OF this] show ?case using e by (intro exI [of _ ?s]) (simp add: zero_words.simps)
next
  case (Suc n)
  note up = word_up [OF Suc.prems(1,2)]
  let ?s = "s\<lparr>mc_carry := False, mc_reg := (mc_reg s)(R3 := 0, R1 := mc_reg s R1 + 4),
    mc_mem := st32 (mc_reg s R1) 0 (mc_mem s), mc_pc := 11\<rparr>"
  have "moves call (Reset_Handler l) stop 5 s = Some ?s" using Suc.prems(3,4) up(3) by (simp add: machine_step)
  from run_moves [OF this] Suc.IH [of ?s] up Suc.prems show ?case by (subst zero_words.simps) simp
qed


lemma reset_runs:
  assumes "linker_ok l" "17 \<le> stop"
  shows "\<exists>s' m1. mc_pc s' = 17 \<and> copy_data l (mc_mem s) = Some m1 \<and> zero_bss l m1 = Some (mc_mem s') \<and>
    reset_to call l stop s = run_to call (Reset_Handler l) stop s'"
proof -
  note f = linker_facts [OF assms(1)]
  obtain n k where n: "unat (lk_edata l) = unat (lk_sdata l) + 4 * n" "unat (lk_ebss l) = unat (lk_sbss l) + 4 * k"
    using words_between [of "lk_sdata l" "lk_edata l"] words_between [of "lk_sbss l" "lk_ebss l"] assms(1)
    by (auto simp: linker_ok_def)
  let ?s1 = "s\<lparr>mc_pc := 3, mc_reg := (mc_reg s)(R0 := lk_sidata l, R1 := lk_sdata l, R2 := lk_edata l)\<rparr>"
  have "moves call (Reset_Handler l) stop 3 (s\<lparr>mc_pc := 0\<rparr>) = Some ?s1" using assms(2) by (simp add: machine_step)
  note r1 = run_moves [OF this]
  obtain s2 where s2: "mc_pc s2 = 9" "copy_data l (mc_mem s) = Some (mc_mem s2)"
    "run_to call (Reset_Handler l) stop ?s1 = run_to call (Reset_Handler l) stop s2"
    using copy_loop_refines [of ?s1 n stop call l] n(1) f(2) assms(2) by (auto simp: copy_data_def)
  let ?s3 = "s2\<lparr>mc_pc := 11, mc_reg := (mc_reg s2)(R1 := lk_sbss l, R2 := lk_ebss l)\<rparr>"
  have "moves call (Reset_Handler l) stop 2 s2 = Some ?s3" using assms(2) s2(1) by (simp add: machine_step)
  note r3 = run_moves [OF this]
  obtain s4 where "mc_pc s4 = 17" "zero_bss l (mc_mem s2) = Some (mc_mem s4)"
    "run_to call (Reset_Handler l) stop ?s3 = run_to call (Reset_Handler l) stop s4"
    using zero_loop_refines [of ?s3 k stop call l] n(2) f(1) assms(2) by (auto simp: zero_bss_def)
  then show ?thesis using r1 s2 r3 by (intro exI [of _ s4] exI [of _ "mc_mem s2"]) (simp add: reset_to_def)
qed

text \<open>The calls after the loops, up to the one of main and up to the park.\<close>

lemma run_call:
  assumes "mc_pc s \<noteq> stop" "code ! mc_pc s = BL f"
  shows "run_to call code stop s =
    (case call f (mc_mem s) of None \<Rightarrow> None | Some m \<Rightarrow> run_to call code stop (s\<lparr>mc_mem := m, mc_pc := mc_pc s + 1\<rparr>))"
  using assms by (subst run_to.simps) (auto simp: next_pc_def split: option.splits)

lemma calls_run:
  assumes "mc_pc s = 17"
  shows "map_option mc_mem (run_to call (Reset_Handler l) 19 s) = Option.bind (call SystemInit (mc_mem s)) (call Init_array)"
    and "map_option mc_mem (run_to call (Reset_Handler l) 21 s) =
      Option.bind (Option.bind (Option.bind (call SystemInit (mc_mem s)) (call Init_array)) (call Main)) (call Fini_array)"
  using assms by (simp_all add: run_call run_stop reset_code split: option.split)


section \<open>lab06 in memory\<close>

text \<open>Where the linker put the variables of lab06 and the clock variable SystemInit sets.\<close>

record lab06_addresses =
  at_far_result :: u32
  at_called :: u32
  at_count :: u32
  at_core_clock :: u32

definition apart :: "u32 \<Rightarrow> u32 \<Rightarrow> bool" where
  "apart a b \<longleftrightarrow> unat a + 4 \<le> unat b \<or> unat b + 4 \<le> unat a"

text \<open>The variables are words of .bss, the clock anywhere in .data or .bss, all of them apart.\<close>

definition lab06_addresses_ok :: "linker \<Rightarrow> lab06_addresses \<Rightarrow> bool" where
  "lab06_addresses_ok l at \<longleftrightarrow>
     list_all (\<lambda>a. unat (lk_sbss l) \<le> unat a \<and> unat a + 4 \<le> unat (lk_ebss l) \<and> apart a (at_core_clock at)) [at_far_result at, at_called at, at_count at] \<and>
     apart (at_far_result at) (at_called at) \<and> apart (at_far_result at) (at_count at) \<and> apart (at_called at) (at_count at) \<and>
     unat (lk_sdata l) \<le> unat (at_core_clock at) \<and> unat (at_core_clock at) + 4 \<le> unat (lk_ebss l)"

definition lab06_globals :: "lab06_addresses \<Rightarrow> mem \<Rightarrow> lab06" where
  "lab06_globals at m =
     \<lparr>g_far_result = ld32 (at_far_result at) m, g_constructor_called = ld32 (at_called at) m, g_constructor_count = ld32 (at_count at) m,
      l6_mem = m\<rparr>"

definition lab06_write :: "lab06_addresses \<Rightarrow> lab06 \<Rightarrow> mem" where
  "lab06_write at s =
     st32 (at_far_result at) (g_far_result s) (st32 (at_called at) (g_constructor_called s)
       (st32 (at_count at) (g_constructor_count s) (l6_mem s)))"

definition on_memory :: "lab06_addresses \<Rightarrow> (lab06 \<Rightarrow> lab06) \<Rightarrow> mem \<Rightarrow> mem" where
  "on_memory at f m = lab06_write at (f (lab06_globals at m))"

text \<open>What the reset handler of lab06 calls: the constructor with a priority comes first, the two others in an order
  \<open>cs\<close> the linker chooses, and main does not return.\<close>

definition lab06_call :: "linker \<Rightarrow> lab06_addresses \<Rightarrow> (mem \<Rightarrow> mem) \<Rightarrow> (lab06 \<Rightarrow> lab06) list \<Rightarrow> callee \<Rightarrow> mem \<Rightarrow> mem option" where
  "lab06_call l at sysinit cs f m =
     (case f of
        SystemInit \<Rightarrow> Some (sysinit m)
      | Init_array \<Rightarrow>
          local_init_array [] ((\<lambda>m. Option.bind m (relocate_far_text l)) # map (\<lambda>c. map_option (on_memory at c)) cs) (Some m)
      | Main \<Rightarrow> None
      | Fini_array \<Rightarrow> Some m)"

lemma st32_other: "unat b + 4 < 2 ^ 32 \<Longrightarrow> \<not> (unat b \<le> unat x \<and> unat x < unat b + 4) \<Longrightarrow> st32 b v m x = m x"
  using word_addresses [of b] by (auto simp: st32_def)

lemma ld32_cong:
  assumes "unat a + 4 < 2 ^ 32" "\<And>x. unat a \<le> unat x \<Longrightarrow> unat x < unat a + 4 \<Longrightarrow> m' x = m x"
  shows "ld32 a m' = ld32 a m"
  using assms(2) [of a] assms(2) [of "a + 1"] assms(2) [of "a + 2"] assms(2) [of "a + 3"] word_addresses [OF assms(1)]
  by (simp add: ld32_def)

lemma ld32_st32_same: "ld32 a (st32 a v m) = v"
proof (rule bit_word_eqI)
  fix n assume "n < LENGTH(32)"
  then consider "n < 8" | "8 \<le> n" "n < 16" | "16 \<le> n" "n < 24" | "24 \<le> n" "n < 32" by force
  then show "bit (ld32 a (st32 a v m)) n \<longleftrightarrow> bit v n"
    by cases (auto simp: ld32_def st32_def bit_simps)
qed

lemma ld32_st32_apart:
  "apart a b \<Longrightarrow> unat a + 4 < 2 ^ 32 \<Longrightarrow> unat b + 4 < 2 ^ 32 \<Longrightarrow> ld32 a (st32 b v m) = ld32 a m"
  by (rule ld32_cong) (auto simp: apart_def intro!: st32_other)

lemma ld32_zero:
  assumes "unat a + 4 < 2 ^ 32" "\<And>x. unat a \<le> unat x \<Longrightarrow> unat x < unat a + 4 \<Longrightarrow> m x = 0"
  shows "ld32 a m = 0"
  using ld32_cong [OF assms(1), of m "\<lambda>_. 0"] assms(2) by (simp add: ld32_def)

text \<open>Memory below .data: flash and the relocated code.\<close>

definition same_below :: "linker \<Rightarrow> mem \<Rightarrow> mem \<Rightarrow> bool" where
  "same_below l m m' \<longleftrightarrow> (\<forall>x. unat x < unat (lk_sdata l) \<longrightarrow> m' x = m x)"

lemma far_code_kept:
  assumes "linker_ok l" "same_below l m m'" "far_code_loaded l m"
  shows "far_code_loaded l m'"
  unfolding far_code_loaded_def list_all_iff
proof
  fix i assume i: "i \<in> set [0..<unat (lk_far_end l - lk_far_start l)]"
  note f = linker_facts [OF assms(1)]
  have "unat (lk_far_end l - lk_far_start l) = unat (lk_far_end l) - unat (lk_far_start l)"
    using f(5) by (intro unat_sub) (simp add: word_le_nat_alt)
  then have b: "unat (lk_far_start l) + i < unat (lk_far_end l)" using i by simp
  then have "unat (of_nat i :: u32) = i" using f(3) by (simp add: unat_of_nat)
  moreover have low: "unat (lk_far_load l) + i < 0x40000"
  proof -
    have "unat (lk_far_load l) + (unat (lk_far_end l) - unat (lk_far_start l)) \<le> 0x40000"
      using assms(1) by (simp only: linker_ok_def)
    then show ?thesis using b by arith
  qed
  ultimately have "unat (lk_far_start l + of_nat i) = unat (lk_far_start l) + i" "unat (lk_far_load l + of_nat i) = unat (lk_far_load l) + i"
    using b f(3) by (simp_all add: unat_word_ariths)
  then show "m' (lk_far_start l + of_nat i) = m' (lk_far_load l + of_nat i)"
    using assms(2,3) i b low f by (simp add: same_below_def far_code_loaded_def list_all_iff)
qed

lemma address_facts:
  assumes "linker_ok l" "lab06_addresses_ok l at" "a \<in> {at_far_result at, at_called at, at_count at}"
  shows "unat a + 4 < 2 ^ 32" "unat (lk_sbss l) \<le> unat a" "unat a + 4 \<le> unat (lk_ebss l)" "unat (lk_sdata l) \<le> unat a"
    "apart a (at_core_clock at)"
  using assms(2,3) linker_facts [OF assms(1)] by (auto simp: lab06_addresses_ok_def)

lemma lab06_write_reads:
  assumes "linker_ok l" "lab06_addresses_ok l at"
  shows "lab06_globals at (lab06_write at s) = s\<lparr>l6_mem := lab06_write at s\<rparr>" "same_below l (l6_mem s) (lab06_write at s)"
proof -
  note a = address_facts [OF assms]
  have "apart (at_far_result at) (at_called at)" "apart (at_far_result at) (at_count at)" "apart (at_called at) (at_count at)"
    using assms(2) by (simp_all add: lab06_addresses_ok_def)
  moreover from this have "apart (at_called at) (at_far_result at)" "apart (at_count at) (at_far_result at)" "apart (at_count at) (at_called at)"
    by (auto simp: apart_def)
  moreover have "unat (at_far_result at) + 4 < 2 ^ 32" "unat (at_called at) + 4 < 2 ^ 32" "unat (at_count at) + 4 < 2 ^ 32"
    by (rule a, simp)+
  ultimately show "lab06_globals at (lab06_write at s) = s\<lparr>l6_mem := lab06_write at s\<rparr>"
    unfolding lab06_globals_def lab06_write_def by (simp only: ld32_st32_apart ld32_st32_same) simp
  have "st32 b v m x = m x" if "unat x < unat (lk_sdata l)" "b \<in> {at_far_result at, at_called at, at_count at}" for b v m x
    using a(1,4) [OF that(2)] that(1) by (intro st32_other) simp_all
  then show "same_below l (l6_mem s) (lab06_write at s)" by (simp add: same_below_def lab06_write_def)
qed


lemma on_memory_reads:
  assumes "linker_ok l" "lab06_addresses_ok l at"
  shows "lab06_globals at (on_memory at test_constructor_1 m) =
      test_constructor_1 (lab06_globals at m)\<lparr>l6_mem := on_memory at test_constructor_1 m\<rparr>"
    and "lab06_globals at (on_memory at test_constructor_2 m) =
      test_constructor_2 (lab06_globals at m)\<lparr>l6_mem := on_memory at test_constructor_2 m\<rparr>"
    and "same_below l m (on_memory at test_constructor_1 m)" "same_below l m (on_memory at test_constructor_2 m)"
  using lab06_write_reads [OF assms, of "test_constructor_1 (lab06_globals at m)"]
    lab06_write_reads [OF assms, of "test_constructor_2 (lab06_globals at m)"]
  by (simp_all add: on_memory_def test_constructor_1_def test_constructor_2_def lab06_globals_def)

text \<open>After both constructors, in either order, on a count of zero.\<close>

lemma constructors_done:
  assumes "linker_ok l" "lab06_addresses_ok l at" "cs = [test_constructor_1, test_constructor_2] \<or> cs = [test_constructor_2, test_constructor_1]"
    and "g_constructor_count (lab06_globals at m) = 0"
  shows "let m' = fold (on_memory at) cs m in
    g_constructor_called (lab06_globals at m') = 0x12345678 \<and> g_constructor_count (lab06_globals at m') = 2 \<and> same_below l m m'"
  using assms(3)
proof (elim disjE)
  note r = on_memory_reads [OF assms(1,2)]
  assume "cs = [test_constructor_1, test_constructor_2]"
  then show ?thesis using r(3) [of m] r(4) [of "on_memory at test_constructor_1 m"] assms(4)
    by (simp add: r(1,2) Let_def test_constructor_1_def test_constructor_2_def same_below_def)
next
  note r = on_memory_reads [OF assms(1,2)]
  assume "cs = [test_constructor_2, test_constructor_1]"
  then show ?thesis using r(4) [of m] r(3) [of "on_memory at test_constructor_2 m"] assms(4)
    by (simp add: r(1,2) Let_def test_constructor_1_def test_constructor_2_def same_below_def)
qed

lemma init_array_lab06:
  assumes "relocate_far_text l m = Some m1"
  shows "lab06_call l at sysinit cs Init_array m = Some (fold (on_memory at) cs m1)"
proof -
  have "fold id (map (\<lambda>c. map_option (on_memory at c)) cs) (Some n) = Some (fold (on_memory at) cs n)" for n
    by (induction cs arbitrary: n) simp_all
  then show ?thesis using assms by (simp add: lab06_call_def local_init_array_in_order)
qed

lemma call_SystemInit: "lab06_call l at sysinit cs SystemInit m = Some (sysinit m)"
  by (simp add: lab06_call_def)

text \<open>SystemInit sets the clock variable and nothing else.\<close>

definition sets_clock_only :: "lab06_addresses \<Rightarrow> (mem \<Rightarrow> mem) \<Rightarrow> bool" where
  "sets_clock_only at sysinit \<longleftrightarrow>
     (\<forall>m x. (\<forall>i \<in> {0, 1, 2, 3}. x \<noteq> at_core_clock at + i) \<longrightarrow> sysinit m x = m x)"

section \<open>Properties\<close>

text \<open>C21.  The reset handler, instruction by instruction, does what the C of runtime.c says: it builds the image with
  the two loops and then makes the four calls in their order, each on the memory the one before left, and reaches
  its park exactly if all of them return.\<close>

theorem reset_handler_refines:
  assumes "linker_ok l"
  shows "map_option mc_mem (reset_to call l 21 s) =
    Option.bind (copy_data l (mc_mem s)) (\<lambda>m. Option.bind (zero_bss l m) (\<lambda>m. Option.bind (call SystemInit m) (\<lambda>m.
      Option.bind (call Init_array m) (\<lambda>m. Option.bind (call Main m) (call Fini_array)))))"
proof -
  obtain s' m1 where r: "mc_pc s' = 17" "copy_data l (mc_mem s) = Some m1" "zero_bss l m1 = Some (mc_mem s')"
    "reset_to call l 21 s = run_to call (Reset_Handler l) 21 s'"
    using reset_runs [OF assms, of 21 s call] by auto
  show ?thesis using r calls_run(2) [OF r(1), of call l] by simp
qed

text \<open>C13.  lab06 from reset: whatever memory holds but for the load images, the reset handler arrives at the call of
  main, and main then finds its constructors run and its far function in place and ends where it should.\<close>

theorem lab06_from_reset:
  assumes "linker_ok l" "lab06_addresses_ok l at" "sets_clock_only at sysinit"
    and "cs = [test_constructor_1, test_constructor_2] \<or> cs = [test_constructor_2, test_constructor_1]"
  shows "\<exists>s'. reset_to (lab06_call l at sysinit cs) l 19 s = Some s' \<and>
    fst (lab06_main l malloc_ok (lab06_globals at (mc_mem s'))) = (if malloc_ok then Lab06Done else OutOfMemory)"
proof -
  note f = linker_facts [OF assms(1)] and a = address_facts [OF assms(1,2)]
  let ?call = "lab06_call l at sysinit cs"
  obtain s2 m1 where r: "mc_pc s2 = 17" "copy_data l (mc_mem s) = Some m1" "zero_bss l m1 = Some (mc_mem s2)"
    "reset_to ?call l 19 s = run_to ?call (Reset_Handler l) 19 s2"
    using reset_runs [OF assms(1), of 19 s ?call] by auto
  let ?m3 = "sysinit (mc_mem s2)"
  have c: "unat (at_core_clock at) + 4 < 2 ^ 32" using assms(2) f(1) by (simp add: lab06_addresses_ok_def)
  have bss: "mc_mem s2 x = 0" if "unat (lk_sbss l) \<le> unat x" "unat x < unat (lk_ebss l)" for x
    using zero_bss_zeroes [OF assms(1), of m1] r(3) that by (auto simp: word_le_nat_alt word_less_nat_alt)
  obtain m4 where m4: "relocate_far_text l ?m3 = Some m4"
    "m4 = (\<lambda>x. if lk_far_start l \<le> x \<and> x < lk_far_end l then ?m3 (lk_far_load l + (x - lk_far_start l)) else ?m3 x)"
    using relocate_copies [OF assms(1)] by simp
  have "ld32 (at_count at) m4 = 0"
  proof (rule ld32_zero)
    fix x :: u32 assume x: "unat (at_count at) \<le> unat x" "unat x < unat (at_count at) + 4"
    then have "\<forall>i \<in> {0, 1, 2, 3}. x \<noteq> at_core_clock at + i"
      using a(5) [of "at_count at"] word_addresses [OF c] by (auto simp: apart_def)
    then have "?m3 x = mc_mem s2 x" using assms(3) by (simp add: sets_clock_only_def)
    moreover have "\<not> x < lk_far_end l" using x a(4) [of "at_count at"] f(6) by (simp add: word_less_nat_alt)
    ultimately show "m4 x = 0" unfolding m4(2) using bss [of x] x a(2,3) [of "at_count at"] by simp
  qed (use a(1) in simp)
  then have count: "g_constructor_count (lab06_globals at m4) = 0" by (simp add: lab06_globals_def)
  let ?m5 = "fold (on_memory at) cs m4"
  note fin = constructors_done [OF assms(1,2,4) count, unfolded Let_def]
  have "map_option mc_mem (run_to ?call (Reset_Handler l) 19 s2) = Some ?m5"
    unfolding calls_run(1) [OF r(1)] call_SystemInit by (simp add: init_array_lab06 [OF m4(1)])
  then obtain s' where s': "run_to ?call (Reset_Handler l) 19 s2 = Some s'" "mc_mem s' = ?m5" by auto
  have "far_code_loaded l ?m5" using far_code_kept [OF assms(1)] fin relocated_code_loaded [OF assms(1) m4(1)] by blast
  moreover have "farfunc 0x11223344 = 0xB487691F" by (simp add: farfunc_def)
  ultimately show ?thesis using r(4) s' fin by (simp add: lab06_main_def call_farfunc_def Let_def lab06_globals_def)
qed


section \<open>Witnesses\<close>

definition small_at :: lab06_addresses where
  "small_at = \<lparr>at_far_result = 0x20000020, at_called = 0x20000024, at_count = 0x20000028, at_core_clock = 0x20000030\<rparr>"

definition small_machine :: machine where
  "small_machine = \<lparr>mc_pc = 0, mc_reg = \<lambda>_. 7, mc_carry = False, mc_mem = \<lambda>_. 9\<rparr>"

theorem reset_handler_refines_witness:
  "map_option mc_mem (reset_to (\<lambda>_. Some) small_linker 21 small_machine) =
     Option.bind (copy_data small_linker (\<lambda>_. 9)) (zero_bss small_linker)"
  using reset_handler_refines [OF small_linker_ok, of "\<lambda>_. Some" small_machine] by (simp add: small_machine_def comp_def)

theorem lab06_from_reset_witness:
  "\<exists>s'. reset_to (lab06_call small_linker small_at (st32 0x20000030 25000000) [test_constructor_1, test_constructor_2]) small_linker 19 small_machine = Some s' \<and>
     fst (lab06_main small_linker True (lab06_globals small_at (mc_mem s'))) = Lab06Done"
proof -
  have "lab06_addresses_ok small_linker small_at" by (simp add: lab06_addresses_ok_def small_linker_def small_at_def apart_def)
  moreover have "sets_clock_only small_at (st32 0x20000030 25000000)" by (simp add: sets_clock_only_def small_at_def st32_def)
  ultimately show ?thesis
    using lab06_from_reset [OF small_linker_ok, of small_at "st32 0x20000030 25000000" "[test_constructor_1, test_constructor_2]" small_machine True]
    by simp
qed

end
