(* ===== verification/Uart_Labs.thy ===== *)
theory Uart_Labs
  imports Ring_Buffer Uart_Polling
begin

text \<open>
  The copies of uart.c in lab08, lab09, lab11 and lab12, which are shown to be the functions of lab10 that
  Uart_Polling is about, and the main loop of lab11 over its copy: what Ring_Buffer shows access by access is
  here carried to the registers of a port, wait loop included.
\<close>

section \<open>The copies of uart.c\<close>

definition lab08_uart_init :: "'w uart_io \<Rightarrow> uart_masks \<Rightarrow> 'w \<Rightarrow> 'w" where
  "lab08_uart_init io k w =
     (let w = wr_ctrl io 0 w;
          w = wr_bauddiv io 217 w
      in wr_ctrl io (TXEN_Msk k OR RXEN_Msk k) w)"

definition lab09_uart_init :: "'w uart_io \<Rightarrow> uart_masks \<Rightarrow> 'w \<Rightarrow> 'w" where
  "lab09_uart_init io k w =
     (let w = wr_ctrl io 0 w;
          w = wr_bauddiv io 217 w
      in wr_ctrl io (TXEN_Msk k OR RXEN_Msk k) w)"

definition lab09_uart_putc :: "'w uart_io \<Rightarrow> uart_masks \<Rightarrow> u8 \<Rightarrow> 'w \<Rightarrow> 'w option" where
  "lab09_uart_putc io k c w = (case wait_tx_room io k w of None \<Rightarrow> None | Some w \<Rightarrow> Some (wr_data io (ucast c) w))"

fun lab09_uart_puts :: "'w uart_io \<Rightarrow> uart_masks \<Rightarrow> u8 list \<Rightarrow> 'w \<Rightarrow> 'w option" where
  "lab09_uart_puts io k [] w = None"
| "lab09_uart_puts io k (c # s) w =
     (if c = 0 then Some w else case lab09_uart_putc io k c w of None \<Rightarrow> None | Some w \<Rightarrow> lab09_uart_puts io k s w)"

definition lab09_uart_getc :: "'w uart_io \<Rightarrow> uart_masks \<Rightarrow> 'w \<Rightarrow> (u8 \<times> 'w) option" where
  "lab09_uart_getc io k w =
     (case wait_rx_data io k w of
        None \<Rightarrow> None
      | Some w \<Rightarrow> (case rd_data io w of (d, w) \<Rightarrow> Some (ucast (d AND DATA_Msk k), w)))"

definition lab11_uart_init :: "'w uart_io \<Rightarrow> uart_masks \<Rightarrow> 'w \<Rightarrow> 'w" where
  "lab11_uart_init io k w =
     (let w = wr_ctrl io 0 w;
          w = wr_bauddiv io 217 w
      in wr_ctrl io (TXEN_Msk k OR RXEN_Msk k) w)"

definition lab11_uart_enable_irq :: "'w uart_io \<Rightarrow> uart_masks \<Rightarrow> 'w \<Rightarrow> 'w" where
  "lab11_uart_enable_irq io k w =
     (case rd_ctrl io w of (ctrl, w) \<Rightarrow> enable_irq io (wr_ctrl io (ctrl OR RXIRQEN_Msk k) w))"

definition lab11_uart_putc :: "'w uart_io \<Rightarrow> uart_masks \<Rightarrow> u8 \<Rightarrow> 'w \<Rightarrow> 'w option" where
  "lab11_uart_putc io k c w = (case wait_tx_room io k w of None \<Rightarrow> None | Some w \<Rightarrow> Some (wr_data io (ucast c) w))"

fun lab11_uart_puts :: "'w uart_io \<Rightarrow> uart_masks \<Rightarrow> u8 list \<Rightarrow> 'w \<Rightarrow> 'w option" where
  "lab11_uart_puts io k [] w = None"
| "lab11_uart_puts io k (c # s) w =
     (if c = 0 then Some w else case lab11_uart_putc io k c w of None \<Rightarrow> None | Some w \<Rightarrow> lab11_uart_puts io k s w)"

definition lab11_uart_getc :: "'w uart_io \<Rightarrow> uart_masks \<Rightarrow> 'w \<Rightarrow> (u8 \<times> 'w) option" where
  "lab11_uart_getc io k w =
     (case wait_rx_data io k w of
        None \<Rightarrow> None
      | Some w \<Rightarrow> (case rd_data io w of (d, w) \<Rightarrow> Some (ucast (d AND DATA_Msk k), w)))"

definition lab12_uart_init :: "'w uart_io \<Rightarrow> uart_masks \<Rightarrow> 'w \<Rightarrow> 'w" where
  "lab12_uart_init io k w =
     (let w = wr_ctrl io 0 w;
          w = wr_bauddiv io 217 w
      in wr_ctrl io (TXEN_Msk k OR RXEN_Msk k) w)"

definition lab12_uart_putc :: "'w uart_io \<Rightarrow> uart_masks \<Rightarrow> u8 \<Rightarrow> 'w \<Rightarrow> 'w option" where
  "lab12_uart_putc io k c w = (case wait_tx_room io k w of None \<Rightarrow> None | Some w \<Rightarrow> Some (wr_data io (ucast c) w))"

lemma uart_init_copies:
  "lab08_uart_init = uart_init" "lab09_uart_init = uart_init" "lab11_uart_init = uart_init" "lab12_uart_init = uart_init"
  "lab11_uart_enable_irq = uart_enable_irq"
  by (simp_all add: fun_eq_iff uart_init_def lab08_uart_init_def lab09_uart_init_def lab11_uart_init_def lab12_uart_init_def
      lab11_uart_enable_irq_def uart_enable_irq_def)

lemma uart_putc_copies: "lab09_uart_putc = uart_putc" "lab11_uart_putc = uart_putc" "lab12_uart_putc = uart_putc"
  by (simp_all add: fun_eq_iff uart_putc_def lab09_uart_putc_def lab11_uart_putc_def lab12_uart_putc_def)

lemma uart_puts_copies: "lab09_uart_puts io k s w = uart_puts io k s w" "lab11_uart_puts io k s w = uart_puts io k s w"
  by (induction s arbitrary: w) (simp_all add: uart_putc_copies split: option.splits)

lemma uart_getc_copies: "lab09_uart_getc = uart_getc" "lab11_uart_getc = uart_getc"
  by (simp_all add: fun_eq_iff uart_getc_def lab09_uart_getc_def lab11_uart_getc_def)

section \<open>lab11 over a port\<close>

text \<open>main before its loop, and one turn of the loop with no interrupt in it.\<close>

definition lab11_setup :: "'w uart_io \<Rightarrow> uart_masks \<Rightarrow> lab11 \<Rightarrow> 'w \<Rightarrow> lab11 \<times> 'w" where
  "lab11_setup io k s w =
     (let w = lab11_uart_init io k w;
          s = lab11_start s;
          w = lab11_uart_enable_irq io k w
      in (s, w))"

definition lab11_turn :: "'w uart_io \<Rightarrow> uart_masks \<Rightarrow> lab11 \<Rightarrow> 'w \<Rightarrow> (lab11 \<times> 'w) option" where
  "lab11_turn io k s w =
     (case rb_pop (lm_c s) (rx_rb s) of (ok, c, rb) \<Rightarrow>
      let s = s\<lparr>rx_rb := rb, lm_c := c\<rparr> in
      if ok then map_option (Pair s) (lab11_uart_putc io k c w) else Some (s, w))"

fun lab11_turns :: "'w uart_io \<Rightarrow> uart_masks \<Rightarrow> nat \<Rightarrow> lab11 \<Rightarrow> 'w \<Rightarrow> (lab11 \<times> 'w) option" where
  "lab11_turns io k 0 s w = Some (s, w)"
| "lab11_turns io k (Suc n) s w = (case lab11_turn io k s w of None \<Rightarrow> None | Some (s, w) \<Rightarrow> lab11_turns io k n s w)"

text \<open>The handler over the registers.\<close>

definition lab11_interrupt :: "'w uart_io \<Rightarrow> uart_masks \<Rightarrow> lab11 \<Rightarrow> 'w \<Rightarrow> lab11 \<times> 'w" where
  "lab11_interrupt io k s w =
     (case rd_data io w of (d, w) \<Rightarrow> (UART0_Handler d s, wr_intclear io (RXIRQ_Msk k) w))"

fun lab11_interrupts :: "'w uart_io \<Rightarrow> uart_masks \<Rightarrow> nat \<Rightarrow> lab11 \<Rightarrow> 'w \<Rightarrow> lab11 \<times> 'w" where
  "lab11_interrupts io k 0 s w = (s, w)"
| "lab11_interrupts io k (Suc n) s w = (case lab11_interrupt io k s w of (s, w) \<Rightarrow> lab11_interrupts io k n s w)"

text \<open>A burst the buffer has room for is stored in order.\<close>

lemma handler_stores:
  assumes "rb_wf (rx_rb s)" "rb_count (rx_rb s) < 63" "ucast d = c"
  shows "\<exists>rb. UART0_Handler d s = s\<lparr>rx_rb := rb\<rparr> \<and> rb_wf rb \<and> rb_queue rb = rb_queue (rx_rb s) @ [c]"
proof -
  have b: "ucast ((ucast c :: u32) AND 0xFF) = c" by (simp add: byte_mask byte_of_word)
  obtain ok rb where p: "rb_push c (rx_rb s) = (ok, rb)" by (rule prod.exhaust)
  then have "ok" "rb_wf rb" "rb_queue rb = rb_queue (rx_rb s) @ [c]" using rb_push_queue [OF assms(1), of c] assms(2) by auto
  then show ?thesis using p b assms(3) by (intro exI [of _ rb]) (simp add: UART0_Handler_def)
qed

context uart_port
begin

lemma turn_sends:
  assumes "rb_wf (rx_rb s)" "rb_queue (rx_rb s) = q # qs"
  shows "\<exists>s' w'. lab11_turn io k s w = Some (s', w') \<and> rb_wf (rx_rb s') \<and> rb_queue (rx_rb s') = qs \<and>
    rx_overflow s' = rx_overflow s \<and> sent w' = sent w @ [ucast q] \<and> rx w' = rx w"
proof -
  obtain ok c rb where p: "rb_pop (lm_c s) (rx_rb s) = (ok, c, rb)" by (rule prod_cases3)
  then have "ok" "c = q" "rb_wf rb" "rb_queue rb = qs" using rb_pop_queue [OF assms(1), of "lm_c s"] assms(2) by auto
  then show ?thesis using p putc_sends [of q w] by (auto simp: lab11_turn_def uart_putc_copies)
qed

lemma turns_send:
  assumes "rb_wf (rx_rb s)"
  shows "\<exists>s' w'. lab11_turns io k (rb_count (rx_rb s)) s w = Some (s', w') \<and> rb_wf (rx_rb s') \<and> rb_queue (rx_rb s') = [] \<and>
    rx_overflow s' = rx_overflow s \<and> sent w' = sent w @ map ucast (rb_queue (rx_rb s)) \<and> rx w' = rx w"
  using assms
proof (induction "rb_queue (rx_rb s)" arbitrary: s w)
  case Nil
  then show ?case by (simp flip: length_rb_queue)
next
  case (Cons q qs)
  obtain s1 w1 where t: "lab11_turn io k s w = Some (s1, w1)" "rb_wf (rx_rb s1)" "rb_queue (rx_rb s1) = qs"
    "rx_overflow s1 = rx_overflow s" "sent w1 = sent w @ [ucast q]" "rx w1 = rx w"
    using turn_sends [OF Cons.prems Cons.hyps(2) [symmetric]] by blast
  have "rb_count (rx_rb s) = Suc (rb_count (rx_rb s1))" using Cons.hyps(2) t(3) by (metis length_Cons length_rb_queue)
  then show ?case using Cons.hyps(1) [OF t(3) [symmetric] t(2), of w1] t Cons.hyps(2) [symmetric] by auto
qed

end

section \<open>Properties\<close>

text \<open>Note.  The five copies of uart.c are the same functions.\<close>

theorem uart_copies_agree:
  "lab08_uart_init io k w = uart_init io k w \<and> lab09_uart_init io k w = uart_init io k w \<and> lab11_uart_init io k w = uart_init io k w \<and>
   lab12_uart_init io k w = uart_init io k w \<and> lab11_uart_enable_irq io k w = uart_enable_irq io k w \<and>
   lab09_uart_putc io k c w = uart_putc io k c w \<and> lab11_uart_putc io k c w = uart_putc io k c w \<and>
   lab12_uart_putc io k c w = uart_putc io k c w \<and> lab09_uart_puts io k s w = uart_puts io k s w \<and>
   lab11_uart_puts io k s w = uart_puts io k s w \<and> lab09_uart_getc io k w = uart_getc io k w \<and> lab11_uart_getc io k w = uart_getc io k w"
  by (simp add: uart_init_copies uart_putc_copies uart_puts_copies uart_getc_copies)

text \<open>A burst of interrupts on the CMSDK port while the buffer has room.\<close>

lemma burst_stored:
  assumes "rb_wf (rx_rb s)" "rb_count (rx_rb s) + length input \<le> 63" "cu_line w = input @ pending"
  shows "\<exists>rb w'. lab11_interrupts cmsdk_io cmsdk_masks (length input) s w = (s\<lparr>rx_rb := rb\<rparr>, w') \<and> rb_wf rb \<and>
    rb_queue rb = rb_queue (rx_rb s) @ input \<and> cu_line w' = pending \<and> cu_sent w' = cu_sent w"
  using assms
proof (induction input arbitrary: s w)
  case Nil
  then show ?case by (intro exI [of _ "rx_rb s"]) simp
next
  case (Cons c cs)
  let ?w = "w\<lparr>cu_line := cs @ pending, cu_rx_wait := cu_speed w, cu_intstatus := cu_intstatus w AND NOT 2\<rparr>"
  obtain rb where rb: "UART0_Handler (ucast c) s = s\<lparr>rx_rb := rb\<rparr>" "rb_wf rb" "rb_queue rb = rb_queue (rx_rb s) @ [c]"
    using handler_stores [of s "ucast c" c] Cons.prems(1,2) byte_of_word [of c] by auto
  have i: "lab11_interrupt cmsdk_io cmsdk_masks s w = (s\<lparr>rx_rb := rb\<rparr>, ?w)"
    using Cons.prems(3) rb(1) by (simp add: lab11_interrupt_def cmsdk_io_def cmsdk_masks_def)
  have "rb_count rb = Suc (rb_count (rx_rb s))" using rb(3) by (metis length_append_singleton length_rb_queue)
  then have "rb_count (rx_rb (s\<lparr>rx_rb := rb\<rparr>)) + length cs \<le> 63" using Cons.prems(2) by simp
  then show ?case using Cons.IH [of "s\<lparr>rx_rb := rb\<rparr>" ?w] rb i by auto
qed

text \<open>C24.  lab11 from its boot over the registers of the port: a burst of at most 63 bytes taken by the interrupt and
  then as many turns of the main loop as there are bytes send the burst back, in order, with nothing lost, however
  slow the transmitter is.\<close>

theorem lab11_burst_echoed:
  assumes "length (rb_data (rx_rb s)) = RB_SIZE" "\<not> rx_overflow s" "cu_line w = input @ pending" "length input \<le> 63"
  shows "case lab11_setup cmsdk_io cmsdk_masks s w of (s0, w0) \<Rightarrow> cu_irq w0 \<and> cu_ctrl w0 = 11 \<and>
    (case lab11_interrupts cmsdk_io cmsdk_masks (length input) s0 w0 of (s1, w1) \<Rightarrow>
      \<exists>s2 w2. lab11_turns cmsdk_io cmsdk_masks (length input) s1 w1 = Some (s2, w2) \<and>
        cu_sent w2 = cu_sent w @ map ucast input \<and> rb_queue (rx_rb s2) = [] \<and> \<not> rx_overflow s2 \<and> cu_line w2 = pending)"
proof -
  let ?s0 = "lab11_start s" and ?w0 = "w\<lparr>cu_ctrl := 11, cu_bauddiv := 217, cu_irq := True\<rparr>"
  have boot: "lab11_setup cmsdk_io cmsdk_masks s w = (?s0, ?w0)"
    by (simp add: lab11_setup_def lab11_uart_init_def lab11_uart_enable_irq_def cmsdk_io_def cmsdk_masks_def)
  have q: "rb_wf (rx_rb ?s0)" "rb_queue (rx_rb ?s0) = []" using rb_init_queue [OF assms(1)] by (simp_all add: lab11_start_def)
  then have c: "rb_count (rx_rb ?s0) = 0" by (metis length_rb_queue list.size(3))
  obtain rb w1 where b: "lab11_interrupts cmsdk_io cmsdk_masks (length input) ?s0 ?w0 = (?s0\<lparr>rx_rb := rb\<rparr>, w1)" "rb_wf rb"
    "rb_queue rb = input" "cu_line w1 = pending" "cu_sent w1 = cu_sent w"
    using burst_stored [of ?s0 input ?w0 pending] q c assms(3,4) by auto
  have "rb_count rb = length input" using b(3) by (metis length_rb_queue)
  then show ?thesis using cmsdk.turns_send [of "?s0\<lparr>rx_rb := rb\<rparr>" w1] boot b assms(2) by (auto simp: lab11_start_def)
qed

section \<open>Witnesses\<close>

definition cold_lab11 :: lab11 where
  "cold_lab11 = \<lparr>rx_rb = \<lparr>rb_data = replicate 64 0, rb_head = 5, rb_tail = 9\<rparr>, rx_overflow = False, lm_pc = AtHead, lm_c = 0, lm_sent = []\<rparr>"

definition slow_uart :: polled_uart where
  "slow_uart = \<lparr>cu_ctrl = 0, cu_bauddiv = 0, cu_intstatus = 0, cu_irq = False, cu_speed = 3, cu_sent = [], cu_tx_wait = 2,
     cu_line = [0x41, 0x42], cu_rx_wait = 0\<rparr>"

theorem lab11_burst_echoed_witness:
  "case lab11_setup cmsdk_io cmsdk_masks cold_lab11 slow_uart of (s0, w0) \<Rightarrow>
    (case lab11_interrupts cmsdk_io cmsdk_masks (Suc (Suc 0)) s0 w0 of (s1, w1) \<Rightarrow>
      \<exists>s2 w2. lab11_turns cmsdk_io cmsdk_masks (Suc (Suc 0)) s1 w1 = Some (s2, w2) \<and> cu_sent w2 = [0x41, 0x42])"
proof -
  have "length (rb_data (rx_rb cold_lab11)) = RB_SIZE" "\<not> rx_overflow cold_lab11" by (simp_all add: cold_lab11_def)
  moreover have "cu_line slow_uart = [0x41, 0x42] @ []" "length ([0x41, 0x42] :: u8 list) \<le> 63" "cu_sent slow_uart = []"
    by (simp_all add: slow_uart_def)
  ultimately show ?thesis using lab11_burst_echoed [of cold_lab11 slow_uart "[0x41, 0x42]" "[]"]
    by (auto split: prod.splits simp del: lab11_turns.simps lab11_interrupts.simps)
qed

end
