(* ===== verification/I2c_Wire.thy ===== *)
theory I2c_Wire
  imports Prelude
begin

text \<open>
  An open-drain two-wire bus with one target, the environment in which the I2C masters of the
  repository (labs 13 and 14) are studied.  It is not code of the repository: it states what the I2C
  specification says of the two lines.

  The target is arbitrary: given the history of conditions and bits it has seen, it decides whether to
  pull SDA low during the next bit, and for how many polls to hold SCL low after the master has
  released it.  It changes SDA only while SCL is low, as the specification demands.
\<close>

datatype i2c_event = EvStart | EvStop | EvBit bool

record i2c_target =
  tgt_pull :: "i2c_event list \<Rightarrow> bool"
  tgt_hold :: "i2c_event list \<Rightarrow> nat"

text \<open>\<open>m_sda\<close> and \<open>m_scl\<close>: the master has released the line.\<close>

record i2c_wire =
  m_sda :: bool
  m_scl :: bool
  t_pull :: bool
  t_hold :: nat
  history :: "i2c_event list"

definition sda_line :: "i2c_wire \<Rightarrow> bool" where
  "sda_line w \<longleftrightarrow> m_sda w \<and> \<not> t_pull w"

definition scl_line :: "i2c_wire \<Rightarrow> bool" where
  "scl_line w \<longleftrightarrow> m_scl w \<and> t_hold w = 0"

text \<open>A change of SDA while SCL is high is a start or a stop condition.\<close>

definition set_sda :: "bool \<Rightarrow> i2c_wire \<Rightarrow> i2c_wire" where
  "set_sda b w =
     (let w' = w\<lparr>m_sda := b\<rparr> in
      if scl_line w \<and> sda_line w' \<noteq> sda_line w
      then w'\<lparr>history := history w @ [if sda_line w' then EvStop else EvStart]\<rparr> else w')"

text \<open>SCL rises: the level of SDA is a bit.  SCL falls: the target chooses its next level.\<close>

definition scl_rise :: "i2c_wire \<Rightarrow> i2c_wire" where
  "scl_rise w = w\<lparr>history := history w @ [EvBit (sda_line w)]\<rparr>"

definition set_scl :: "i2c_target \<Rightarrow> bool \<Rightarrow> i2c_wire \<Rightarrow> i2c_wire" where
  "set_scl T b w =
     (if b = m_scl w then w
      else if b then
        (let w' = w\<lparr>m_scl := True, t_hold := tgt_hold T (history w)\<rparr> in if t_hold w' = 0 then scl_rise w' else w')
      else w\<lparr>m_scl := False, t_hold := 0, t_pull := tgt_pull T (history w)\<rparr>)"

text \<open>Time passes at a poll of the lines.\<close>

definition poll_lines :: "i2c_wire \<Rightarrow> (bool \<times> bool) \<times> i2c_wire" where
  "poll_lines w = ((sda_line w, scl_line w),
     if t_hold w = 0 then w
     else let w' = w\<lparr>t_hold := t_hold w - 1\<rparr> in if t_hold w' = 0 \<and> m_scl w' then scl_rise w' else w')"

section \<open>Where the bus can be between two operations of a master\<close>

text \<open>SCL driven low; both lines high; SCL high with SDA held by someone.\<close>

definition at_low :: "i2c_target \<Rightarrow> i2c_event list \<Rightarrow> i2c_wire \<Rightarrow> bool" where
  "at_low T H w \<longleftrightarrow> history w = H \<and> \<not> m_scl w \<and> t_hold w = 0 \<and> t_pull w = tgt_pull T H"

definition at_idle :: "i2c_event list \<Rightarrow> i2c_wire \<Rightarrow> bool" where
  "at_idle H w \<longleftrightarrow> history w = H \<and> m_scl w \<and> m_sda w \<and> t_hold w = 0 \<and> \<not> t_pull w"

definition at_high :: "i2c_event list \<Rightarrow> i2c_wire \<Rightarrow> bool" where
  "at_high H w \<longleftrightarrow> history w = H \<and> m_scl w \<and> t_hold w = 0"

section \<open>Frames\<close>

definition msb_bits :: "u8 \<Rightarrow> bool list" where
  "msb_bits v = map (\<lambda>i. bit v (7 - i)) [0..<8]"

fun byte_of_bits :: "u8 \<Rightarrow> bool list \<Rightarrow> u8" where
  "byte_of_bits acc [] = acc"
| "byte_of_bits acc (b # bs) = byte_of_bits (push_bit 1 acc OR of_bool b) bs"

lemma length_msb_bits [simp]: "length (msb_bits v) = 8"
  by (simp add: msb_bits_def)

text \<open>Wired-and: what the bus shows of a bit the master sends.\<close>

definition wired :: "i2c_target \<Rightarrow> bool \<Rightarrow> i2c_event list \<Rightarrow> i2c_event list" where
  "wired T b H = H @ [EvBit (b \<and> \<not> tgt_pull T H)]"

fun wired_bits :: "i2c_target \<Rightarrow> bool list \<Rightarrow> i2c_event list \<Rightarrow> i2c_event list" where
  "wired_bits T [] H = H"
| "wired_bits T (b # bs) H = wired_bits T bs (wired T b H)"

fun sampled_bits :: "i2c_target \<Rightarrow> nat \<Rightarrow> i2c_event list \<Rightarrow> bool list" where
  "sampled_bits T 0 H = []"
| "sampled_bits T (Suc n) H = (\<not> tgt_pull T H) # sampled_bits T n (wired T True H)"

lemma wired_bits_append: "wired_bits T (xs @ ys) H = wired_bits T ys (wired_bits T xs H)"
  by (induction xs arbitrary: H) auto

section \<open>Moves of the master\<close>

lemma set_sda_low: "at_low T H w \<Longrightarrow> at_low T H (set_sda b w) \<and> m_sda (set_sda b w) = b"
  by (simp add: set_sda_def at_low_def scl_line_def Let_def)

lemma fall: "m_scl w \<Longrightarrow> at_low T (history w) (set_scl T False w)"
  by (simp add: set_scl_def at_low_def)

lemma fall_low: "at_low T H w \<Longrightarrow> set_scl T False w = w"
  by (simp add: set_scl_def at_low_def)

datatype i2c_phase = Idle | Low | High

fun wire_at :: "i2c_target \<Rightarrow> i2c_phase \<Rightarrow> i2c_event list \<Rightarrow> i2c_wire \<Rightarrow> bool" where
  "wire_at T Idle H w = at_idle H w"
| "wire_at T Low H w = at_low T H w"
| "wire_at T High H w = (at_high H w \<and> t_pull w)"

lemma to_low: "wire_at T p H w \<Longrightarrow> at_low T H (set_scl T False w)"
  by (cases p) (auto simp: at_idle_def at_high_def fall_low intro: fall [of w T, simplified])

section \<open>Bytes and listening targets\<close>

lemma top_bits:
  fixes v :: u8
  assumes "k \<le> 7"
  shows "map (\<lambda>i. bit v (7 - i)) [0..<Suc k] = bit v 7 # map (\<lambda>i. bit (push_bit 1 v) (7 - i)) [0..<k]"
proof (rule nth_equalityI)
  fix j assume "j < length (map (\<lambda>i. bit v (7 - i)) [0..<Suc k])"
  then have j: "j \<le> k" by simp
  show "map (\<lambda>i. bit v (7 - i)) [0..<Suc k] ! j = (bit v 7 # map (\<lambda>i. bit (push_bit 1 v) (7 - i)) [0..<k]) ! j"
  proof (cases j)
    case (Suc i)
    then have "bit (push_bit 1 v) (7 - i) \<longleftrightarrow> bit v (7 - Suc i)"
      using j assms unfolding bit_push_bit_iff by (auto simp: bit_simps)
    then show ?thesis using Suc j by (simp del: upt_Suc push_bit_of_1 add: nth_upt)
  qed (simp del: upt_Suc)
qed simp

text \<open>The events of a listening target: it acknowledges every ninth bit of a frame and nothing else.\<close>

fun is_bit :: "i2c_event \<Rightarrow> bool" where
  "is_bit (EvBit b) = True"
| "is_bit e = False"

definition bits_since :: "i2c_event list \<Rightarrow> nat" where
  "bits_since H = length (takeWhile is_bit (rev H))"

definition listening :: "i2c_target \<Rightarrow> bool" where
  "listening T \<longleftrightarrow> (\<forall>H. tgt_pull T H \<longleftrightarrow> bits_since H mod 9 = 8)"

definition acked_frame :: "u8 \<Rightarrow> i2c_event list" where
  "acked_frame v = map EvBit (msb_bits v) @ [EvBit False]"

lemma bits_since_simps [simp]:
  "bits_since (H @ [EvBit b]) = Suc (bits_since H)" "bits_since (H @ [EvStart]) = 0" "bits_since (H @ [EvStop]) = 0"
  by (simp_all add: bits_since_def)

lemma listening_bits:
  assumes "listening T" "bits_since H mod 9 + length bs \<le> 8"
  shows "wired_bits T bs H = H @ map EvBit bs \<and> bits_since (H @ map EvBit bs) = bits_since H + length bs"
  using assms(2)
proof (induction bs arbitrary: H)
  case (Cons b bs)
  then have "\<not> tgt_pull T H" using assms(1) by (simp add: listening_def)
  then have w: "wired T b H = H @ [EvBit b]" by (simp add: wired_def)
  have "bits_since H mod 9 < 8" using Cons.prems by simp
  then have "Suc (bits_since H) mod 9 = Suc (bits_since H mod 9)" by (simp add: mod_Suc)
  then have "bits_since (H @ [EvBit b]) mod 9 + length bs \<le> 8" using Cons.prems by simp
  note Cons.IH [OF this]
  then show ?case by (simp add: w)
qed simp

text \<open>A byte and its acknowledgement.  Both masters report 0 for an acknowledged byte and -3 otherwise.\<close>

definition spec_write_byte :: "i2c_target \<Rightarrow> u8 \<Rightarrow> i2c_event list \<Rightarrow> int \<times> i2c_event list" where
  "spec_write_byte T v H =
     (let H1 = wired_bits T (msb_bits v) H in
      (if tgt_pull T H1 then 0 else - 3, wired T True H1))"

lemma listening_byte:
  assumes "listening T" "bits_since H mod 9 = 0"
  shows "spec_write_byte T v H = (0, H @ acked_frame v)" "bits_since (H @ acked_frame v) mod 9 = 0"
proof -
  let ?H1 = "H @ map EvBit (msb_bits v)"
  have b: "wired_bits T (msb_bits v) H = ?H1" "bits_since ?H1 = bits_since H + 8"
    using listening_bits [OF assms(1), of H "msb_bits v"] assms(2) by simp_all
  have "bits_since ?H1 mod 9 = 8" using assms(2) b(2) by (simp add: mod_add_left_eq [of "bits_since H" 9 8, symmetric])
  then have pull: "tgt_pull T ?H1" using assms(1) by (simp add: listening_def)
  then show "spec_write_byte T v H = (0, H @ acked_frame v)"
    by (simp add: spec_write_byte_def b(1) Let_def wired_def acked_frame_def)
  have "bits_since (?H1 @ [EvBit False]) = bits_since H + 9" unfolding bits_since_simps b(2) by simp
  then show "bits_since (H @ acked_frame v) mod 9 = 0" using assms(2) by (simp add: acked_frame_def)
qed

end
