(* ===== verification/I2c_Bitbang.thy ===== *)
theory I2c_Bitbang
  imports I2c_Wire
begin

text \<open>
  labs/lab13_i2c_transaction: an I2C master (i2c_message.c) that toggles SCL and SDA through the CONTROL
  (set) and CONTROLC (clear) registers of the CM3DS I2C peripheral, and the program that writes one
  register of an EEPROM with it.  The master never checks that SCL has risen, so it serves targets
  that do not stretch the clock; on the bus of \<open>I2c_Wire\<close> with such a target the transfer is shown to
  follow a specification on the history of bus conditions.

  The peripheral is a record of register accesses on a world \<open>'w\<close>; its masks come from the vendor's
  header.
\<close>

section \<open>Messages and registers (i2c_message.h)\<close>

abbreviation (input) I2C_MSG_WRITE :: u8 where "I2C_MSG_WRITE \<equiv> 0"
abbreviation (input) I2C_MSG_READ :: u8 where "I2C_MSG_READ \<equiv> 1"
abbreviation (input) I2C_MSG_STOP :: u8 where "I2C_MSG_STOP \<equiv> 2"
abbreviation (input) I2C_MSG_RESTART :: u8 where "I2C_MSG_RESTART \<equiv> 4"

abbreviation (input) I2C_OK :: int where "I2C_OK \<equiv> 0"
abbreviation (input) I2C_ERR_ARGUMENT :: int where "I2C_ERR_ARGUMENT \<equiv> - 1"
abbreviation (input) I2C_ERR_ADDRESS :: int where "I2C_ERR_ADDRESS \<equiv> - 2"
abbreviation (input) I2C_ERR_NACK :: int where "I2C_ERR_NACK \<equiv> - 3"
abbreviation (input) I2C_ERR_UNSUPPORTED :: int where "I2C_ERR_UNSUPPORTED \<equiv> - 4"

record i2c_msg =
  im_buf :: "u8 list option"
  im_len :: u32
  im_flags :: u8

record 'w lab13_i2c =
  read_CONTROL :: "'w \<Rightarrow> u32 \<times> 'w"
  write_CONTROL :: "u32 \<Rightarrow> 'w \<Rightarrow> 'w"
  write_CONTROLC :: "u32 \<Rightarrow> 'w \<Rightarrow> 'w"
  I2C_SCL_Msk :: u32
  I2C_SDA_Msk :: u32

section \<open>Lines, conditions and bytes (i2c_message.c)\<close>

fun nop_loop :: "nat \<Rightarrow> 'w \<Rightarrow> 'w" where
  "nop_loop 0 w = w"
| "nop_loop (Suc i) w = nop_loop i w"

definition i2c_delay :: "'w \<Rightarrow> 'w" where
  "i2c_delay w = nop_loop 100 w"

definition i2c_scl_high :: "'w lab13_i2c \<Rightarrow> 'w \<Rightarrow> 'w" where
  "i2c_scl_high i2c w = i2c_delay (write_CONTROL i2c (I2C_SCL_Msk i2c) w)"

definition i2c_scl_low :: "'w lab13_i2c \<Rightarrow> 'w \<Rightarrow> 'w" where
  "i2c_scl_low i2c w = i2c_delay (write_CONTROLC i2c (I2C_SCL_Msk i2c) w)"

definition i2c_sda_high :: "'w lab13_i2c \<Rightarrow> 'w \<Rightarrow> 'w" where
  "i2c_sda_high i2c w = i2c_delay (write_CONTROL i2c (I2C_SDA_Msk i2c) w)"

definition i2c_sda_low :: "'w lab13_i2c \<Rightarrow> 'w \<Rightarrow> 'w" where
  "i2c_sda_low i2c w = i2c_delay (write_CONTROLC i2c (I2C_SDA_Msk i2c) w)"

definition i2c_sda_read :: "'w lab13_i2c \<Rightarrow> 'w \<Rightarrow> int \<times> 'w" where
  "i2c_sda_read i2c w = (case read_CONTROL i2c w of (v, w) \<Rightarrow> (of_bool (v AND I2C_SDA_Msk i2c \<noteq> 0), w))"

definition i2c_bus_idle :: "'w lab13_i2c \<Rightarrow> 'w \<Rightarrow> 'w" where
  "i2c_bus_idle i2c w = i2c_scl_high i2c (i2c_sda_high i2c w)"

definition i2c_start :: "'w lab13_i2c \<Rightarrow> 'w \<Rightarrow> 'w" where
  "i2c_start i2c w =
     (let w = i2c_sda_high i2c w; w = i2c_scl_high i2c w; w = i2c_sda_low i2c w in i2c_scl_low i2c w)"

definition i2c_restart :: "'w lab13_i2c \<Rightarrow> 'w \<Rightarrow> 'w" where
  "i2c_restart i2c w =
     (let w = i2c_sda_high i2c w; w = i2c_scl_high i2c w; w = i2c_sda_low i2c w in i2c_scl_low i2c w)"

definition i2c_stop :: "'w lab13_i2c \<Rightarrow> 'w \<Rightarrow> 'w" where
  "i2c_stop i2c w = (let w = i2c_sda_low i2c w; w = i2c_scl_high i2c w in i2c_sda_high i2c w)"

fun send_bits :: "'w lab13_i2c \<Rightarrow> nat \<Rightarrow> u8 \<Rightarrow> 'w \<Rightarrow> 'w" where
  "send_bits i2c 0 val w = w"
| "send_bits i2c (Suc n) val w =
     (let w = (if val AND 0x80 \<noteq> 0 then i2c_sda_high i2c w else i2c_sda_low i2c w);
          w = i2c_scl_high i2c w; w = i2c_scl_low i2c w
      in send_bits i2c n (push_bit 1 val) w)"

definition i2c_send_byte :: "'w lab13_i2c \<Rightarrow> u8 \<Rightarrow> 'w \<Rightarrow> 'w" where
  "i2c_send_byte i2c val w = send_bits i2c 8 val w"

definition i2c_receive_ack :: "'w lab13_i2c \<Rightarrow> 'w \<Rightarrow> int \<times> 'w" where
  "i2c_receive_ack i2c w =
     (let w = i2c_sda_high i2c w; w = i2c_scl_high i2c w in
      case i2c_sda_read i2c w of (nack, w) \<Rightarrow>
      let w = i2c_scl_low i2c w in (if nack = 0 then I2C_OK else I2C_ERR_NACK, w))"

definition i2c_send_address :: "'w lab13_i2c \<Rightarrow> u8 \<Rightarrow> bool \<Rightarrow> 'w \<Rightarrow> int \<times> 'w" where
  "i2c_send_address i2c target_addr is_read w =
     (if target_addr > 0x7F then (I2C_ERR_ADDRESS, w)
      else i2c_receive_ack i2c (i2c_send_byte i2c (push_bit 1 target_addr OR (if is_read then 1 else 0)) w))"

fun i2c_write_bytes :: "'w lab13_i2c \<Rightarrow> u8 list \<Rightarrow> nat list \<Rightarrow> 'w \<Rightarrow> int \<times> 'w" where
  "i2c_write_bytes i2c buf [] w = (I2C_OK, w)"
| "i2c_write_bytes i2c buf (index # rest) w =
     (case i2c_receive_ack i2c (i2c_send_byte i2c (buf ! index) w) of (ret, w) \<Rightarrow>
      if ret \<noteq> I2C_OK then (ret, w) else i2c_write_bytes i2c buf rest w)"

definition i2c_write_message :: "'w lab13_i2c \<Rightarrow> i2c_msg option \<Rightarrow> 'w \<Rightarrow> int \<times> 'w" where
  "i2c_write_message i2c msg w =
     (case msg of None \<Rightarrow> (I2C_ERR_ARGUMENT, w)
      | Some m \<Rightarrow>
        if im_buf m = None \<or> im_len m = 0 then (I2C_ERR_ARGUMENT, w)
        else i2c_write_bytes i2c (the (im_buf m)) [0..<unat (im_len m)] w)"

section \<open>Transfers\<close>

text \<open>One pass of the loop over the messages.  A return from inside the loop is a result other than
  \<open>I2C_OK\<close>.\<close>

definition transfer_msg :: "'w lab13_i2c \<Rightarrow> u8 \<Rightarrow> nat \<Rightarrow> i2c_msg \<Rightarrow> 'w \<Rightarrow> int \<times> 'w" where
  "transfer_msg i2c target_addr index msg w =
     (if im_buf msg = None \<or> im_len msg = 0 then (I2C_ERR_ARGUMENT, i2c_stop i2c w)
      else
        let is_read = (im_flags msg AND I2C_MSG_READ \<noteq> 0) in
        if index \<noteq> 0 \<and> im_flags msg AND I2C_MSG_RESTART = 0 then (I2C_ERR_ARGUMENT, i2c_stop i2c w)
        else
          let w = (if index = 0 then i2c_start i2c w else i2c_restart i2c w) in
          case i2c_send_address i2c target_addr is_read w of (ret, w) \<Rightarrow>
          if ret \<noteq> I2C_OK then (ret, i2c_stop i2c w)
          else if is_read then (I2C_ERR_UNSUPPORTED, i2c_stop i2c w)
          else
            case i2c_write_message i2c (Some msg) w of (ret, w) \<Rightarrow>
            if ret \<noteq> I2C_OK then (ret, i2c_stop i2c w)
            else (I2C_OK, if im_flags msg AND I2C_MSG_STOP \<noteq> 0 then i2c_stop i2c w else w))"

fun transfer_msgs :: "'w lab13_i2c \<Rightarrow> u8 \<Rightarrow> nat \<Rightarrow> i2c_msg list \<Rightarrow> 'w \<Rightarrow> int \<times> 'w" where
  "transfer_msgs i2c target_addr index [] w = (I2C_OK, w)"
| "transfer_msgs i2c target_addr index (msg # rest) w =
     (case transfer_msg i2c target_addr index msg w of (ret, w) \<Rightarrow>
      if ret \<noteq> I2C_OK then (ret, w) else transfer_msgs i2c target_addr (Suc index) rest w)"

text \<open>The array and its count are the list of the messages, at most 255 of them.\<close>

definition i2c_transfer_bitbang :: "'w lab13_i2c \<Rightarrow> u8 \<Rightarrow> i2c_msg list option \<Rightarrow> 'w \<Rightarrow> int \<times> 'w" where
  "i2c_transfer_bitbang i2c target_addr msgs w =
     (case msgs of None \<Rightarrow> (I2C_ERR_ARGUMENT, w)
      | Some ms \<Rightarrow>
        if ms = [] then (I2C_ERR_ARGUMENT, w)
        else if target_addr > 0x7F then (I2C_ERR_ADDRESS, w)
        else transfer_msgs i2c target_addr 0 ms (i2c_bus_idle i2c w))"

section \<open>The program (main.c)\<close>

abbreviation (input) EEPROM13_TARGET_ADDR :: u8 where "EEPROM13_TARGET_ADDR \<equiv> 0x50"
abbreviation (input) TEST_REGISTER_ADDR :: u8 where "TEST_REGISTER_ADDR \<equiv> 0x10"
abbreviation (input) TEST_REGISTER_VALUE :: u8 where "TEST_REGISTER_VALUE \<equiv> 0xAB"

definition lab13_main :: "'w lab13_i2c \<Rightarrow> 'w \<Rightarrow> int \<times> 'w" where
  "lab13_main i2c w =
     (let msg = \<lparr>im_buf = Some [TEST_REGISTER_ADDR, TEST_REGISTER_VALUE], im_len = 2,
                 im_flags = I2C_MSG_WRITE OR I2C_MSG_STOP\<rparr>
      in i2c_transfer_bitbang i2c EEPROM13_TARGET_ADDR (Some [msg]) w)"

section \<open>The master on the wire\<close>

definition lab13_wire :: "i2c_target \<Rightarrow> i2c_wire lab13_i2c" where
  "lab13_wire T = \<lparr>read_CONTROL = (\<lambda>w. case poll_lines w of ((sda, scl), w) \<Rightarrow>
       ((if scl then 1 else 0) OR (if sda then 2 else 0), w)),
     write_CONTROL = (\<lambda>v w. let w = (if v AND 2 \<noteq> 0 then set_sda True w else w) in
       if v AND 1 \<noteq> 0 then set_scl T True w else w),
     write_CONTROLC = (\<lambda>v w. let w = (if v AND 2 \<noteq> 0 then set_sda False w else w) in
       if v AND 1 \<noteq> 0 then set_scl T False w else w),
     I2C_SCL_Msk = 1, I2C_SDA_Msk = 2\<rparr>"

lemma nop_loop [simp]: "nop_loop n w = w"
  by (induction n) auto

lemma i2c_delay [simp]: "i2c_delay w = w"
  by (simp add: i2c_delay_def)

lemma lab13_ops [simp]:
  "i2c_sda_high (lab13_wire T) w = set_sda True w" "i2c_sda_low (lab13_wire T) w = set_sda False w"
  "i2c_scl_high (lab13_wire T) w = set_scl T True w" "i2c_scl_low (lab13_wire T) w = set_scl T False w"
  "i2c_sda_read (lab13_wire T) w = (of_bool (sda_line w), snd (poll_lines w))"
  by (auto simp: i2c_sda_high_def i2c_sda_low_def i2c_scl_high_def i2c_scl_low_def i2c_sda_read_def lab13_wire_def
      poll_lines_def Let_def)

text \<open>A target that never stretches the clock.\<close>

definition prompt :: "i2c_target \<Rightarrow> bool" where
  "prompt T \<longleftrightarrow> (\<forall>H. tgt_hold T H = 0)"

lemma rise:
  assumes "at_low T H w" "prompt T"
  shows "set_scl T True w = w\<lparr>m_scl := True, history := H @ [EvBit (m_sda w \<and> \<not> tgt_pull T H)]\<rparr>"
  using assms by (cases w) (simp add: set_scl_def at_low_def prompt_def scl_rise_def sda_line_def Let_def)

text \<open>One clock: the bit on the wire, and the bus low again.\<close>

lemma clock:
  assumes "at_low T H w" "prompt T"
  shows "at_low T (wired T b H) (set_scl T False (set_scl T True (set_sda b w)))"
    and "set_scl T True (set_sda b w) = (set_sda b w)\<lparr>m_scl := True, history := wired T b H\<rparr>"
proof -
  have low: "at_low T H (set_sda b w)" "m_sda (set_sda b w) = b" using set_sda_low [OF assms(1)] by simp_all
  show up: "set_scl T True (set_sda b w) = (set_sda b w)\<lparr>m_scl := True, history := wired T b H\<rparr>"
    using rise [OF low(1) assms(2)] low(2) by (simp add: wired_def)
  show "at_low T (wired T b H) (set_scl T False (set_scl T True (set_sda b w)))"
    using fall [of "(set_sda b w)\<lparr>m_scl := True, history := wired T b H\<rparr>" T] by (simp add: up)
qed

lemma send_bits_wire:
  "at_low T H w \<Longrightarrow> prompt T \<Longrightarrow> k \<le> 8 \<Longrightarrow>
    at_low T (wired_bits T (map (\<lambda>i. bit v (7 - i)) [0..<k]) H) (send_bits (lab13_wire T) k v w)"
proof (induction k arbitrary: v w H)
  case (Suc k)
  have b: "v AND 0x80 \<noteq> 0 \<longleftrightarrow> bit v 7" using flag_clear [of v 7] by simp
  have k7: "k \<le> 7" "k \<le> 8" using Suc.prems(3) by simp_all
  have "send_bits (lab13_wire T) (Suc k) v w =
      send_bits (lab13_wire T) k (push_bit 1 v) (set_scl T False (set_scl T True (set_sda (bit v 7) w)))"
    by (simp add: b)
  then show ?case
    using Suc.IH [OF clock(1) [OF Suc.prems(1,2), of "bit v 7"] Suc.prems(2) k7(2), of "push_bit 1 v"]
    by (simp only: top_bits [OF k7(1)] wired_bits.simps)
qed simp

lemma ack_wire:
  assumes "at_low T H w" "prompt T"
  obtains w' where "i2c_receive_ack (lab13_wire T) w = (if tgt_pull T H then I2C_OK else I2C_ERR_NACK, w')"
    "at_low T (wired T True H) w'"
proof -
  let ?w = "(set_sda True w)\<lparr>m_scl := True, history := wired T True H\<rparr>"
  have low: "at_low T H (set_sda True w)" "m_sda (set_sda True w)" using set_sda_low [OF assms(1)] by simp_all
  note c = clock [OF assms, of True]
  have "poll_lines ?w = ((\<not> tgt_pull T H, True), ?w)" "sda_line ?w \<longleftrightarrow> \<not> tgt_pull T H"
    using low by (simp_all add: poll_lines_def sda_line_def scl_line_def at_low_def)
  then have "i2c_receive_ack (lab13_wire T) w =
      (if tgt_pull T H then I2C_OK else I2C_ERR_NACK, set_scl T False (set_scl T True (set_sda True w)))"
    by (simp add: i2c_receive_ack_def c(2) Let_def)
  then show ?thesis using that c(1) by blast
qed

section \<open>Specification on the history of the bus\<close>

text \<open>Where the bus is, and what it has seen.  \<open>High\<close> is SCL high with SDA held by the target: no
  start condition is possible there.\<close>

type_synonym bus_view = "i2c_phase \<times> i2c_event list"

definition spec13_idle :: "i2c_target \<Rightarrow> bus_view \<Rightarrow> bus_view" where
  "spec13_idle T = (\<lambda>(p, H). if p = Low then (if tgt_pull T H then High else Idle, wired T True H) else (p, H))"

definition spec13_start :: "i2c_target \<Rightarrow> bus_view \<Rightarrow> i2c_event list" where
  "spec13_start T = (\<lambda>(p, H). case spec13_idle T (p, H) of (p, H) \<Rightarrow> if p = Idle then H @ [EvStart] else H)"

definition spec13_stop :: "i2c_target \<Rightarrow> bus_view \<Rightarrow> bus_view" where
  "spec13_stop T = (\<lambda>(p, H). case p of
     Idle \<Rightarrow> (Idle, H @ [EvStart, EvStop])
   | High \<Rightarrow> (High, H)
   | Low \<Rightarrow> if tgt_pull T H then (High, H @ [EvBit False]) else (Idle, H @ [EvBit False, EvStop]))"

fun spec13_bytes :: "i2c_target \<Rightarrow> u8 list \<Rightarrow> i2c_event list \<Rightarrow> int \<times> i2c_event list" where
  "spec13_bytes T [] H = (I2C_OK, H)"
| "spec13_bytes T (v # vs) H =
     (case spec_write_byte T v H of (rc, H) \<Rightarrow> if rc \<noteq> I2C_OK then (rc, H) else spec13_bytes T vs H)"

definition msg_bytes :: "i2c_msg \<Rightarrow> u8 list" where
  "msg_bytes m = map ((!) (the (im_buf m))) [0..<unat (im_len m)]"

definition spec13_msg :: "i2c_target \<Rightarrow> u8 \<Rightarrow> nat \<Rightarrow> i2c_msg \<Rightarrow> bus_view \<Rightarrow> int \<times> bus_view" where
  "spec13_msg T addr index m b =
     (let is_read = (im_flags m AND I2C_MSG_READ \<noteq> 0) in
      if im_buf m = None \<or> im_len m = 0 \<or> index \<noteq> 0 \<and> im_flags m AND I2C_MSG_RESTART = 0
      then (I2C_ERR_ARGUMENT, spec13_stop T b)
      else case spec_write_byte T (push_bit 1 addr OR (if is_read then 1 else 0)) (spec13_start T b) of (rc, H) \<Rightarrow>
      if rc \<noteq> I2C_OK then (rc, spec13_stop T (Low, H))
      else if is_read then (I2C_ERR_UNSUPPORTED, spec13_stop T (Low, H))
      else case spec13_bytes T (msg_bytes m) H of (rc, H) \<Rightarrow>
      (rc, if rc \<noteq> I2C_OK \<or> im_flags m AND I2C_MSG_STOP \<noteq> 0 then spec13_stop T (Low, H) else (Low, H)))"

fun spec13_msgs :: "i2c_target \<Rightarrow> u8 \<Rightarrow> nat \<Rightarrow> i2c_msg list \<Rightarrow> bus_view \<Rightarrow> int \<times> bus_view" where
  "spec13_msgs T addr index [] b = (I2C_OK, b)"
| "spec13_msgs T addr index (m # ms) b =
     (case spec13_msg T addr index m b of (rc, b) \<Rightarrow>
      if rc \<noteq> I2C_OK then (rc, b) else spec13_msgs T addr (Suc index) ms b)"

definition spec13_transfer :: "i2c_target \<Rightarrow> u8 \<Rightarrow> i2c_msg list option \<Rightarrow> bus_view \<Rightarrow> int \<times> bus_view" where
  "spec13_transfer T addr msgs b =
     (if msgs = None \<or> msgs = Some [] then (I2C_ERR_ARGUMENT, b)
      else if addr > 0x7F then (I2C_ERR_ADDRESS, b)
      else spec13_msgs T addr 0 (the msgs) (spec13_idle T b))"

abbreviation (input) shows_bus :: "i2c_target \<Rightarrow> bus_view \<Rightarrow> i2c_wire \<Rightarrow> bool" where
  "shows_bus T b w \<equiv> wire_at T (fst b) (snd b) w"

lemma send_byte_wire:
  assumes "at_low T H w" "prompt T"
  obtains w' where "i2c_receive_ack (lab13_wire T) (i2c_send_byte (lab13_wire T) v w) = (fst (spec_write_byte T v H), w')"
    "at_low T (snd (spec_write_byte T v H)) w'"
proof -
  have "at_low T (wired_bits T (msb_bits v) H) (i2c_send_byte (lab13_wire T) v w)"
    using send_bits_wire [OF assms order.refl] by (simp add: i2c_send_byte_def msb_bits_def)
  from ack_wire [OF this assms(2)] obtain w' where
    "i2c_receive_ack (lab13_wire T) (i2c_send_byte (lab13_wire T) v w) =
      (if tgt_pull T (wired_bits T (msb_bits v) H) then I2C_OK else I2C_ERR_NACK, w')"
    "at_low T (wired T True (wired_bits T (msb_bits v) H)) w'" .
  then show ?thesis by (intro that [of w']) (simp_all add: spec_write_byte_def Let_def)
qed

lemma bus_idle_wire:
  assumes "shows_bus T b w" "prompt T"
  shows "shows_bus T (spec13_idle T b) (i2c_bus_idle (lab13_wire T) w)"
proof (cases "fst b")
  case Low
  then have low: "at_low T (snd b) w" using assms(1) by simp
  have "t_pull (set_sda True w) = tgt_pull T (snd b)" "t_hold (set_sda True w) = 0" "m_sda (set_sda True w)"
    using set_sda_low [OF low, of True] by (simp_all add: at_low_def)
  then show ?thesis
    using Low clock(2) [OF low assms(2), of True]
    by (cases b) (auto simp: i2c_bus_idle_def spec13_idle_def at_idle_def at_high_def)
qed (use assms(1) in \<open>cases b; auto simp: i2c_bus_idle_def spec13_idle_def at_idle_def at_high_def set_sda_def
  set_scl_def sda_line_def scl_line_def Let_def\<close>)+

lemma start_wire:
  assumes "shows_bus T b w" "prompt T"
  shows "at_low T (spec13_start T b) (i2c_start (lab13_wire T) w)"
    and "i2c_restart (lab13_wire T) w = i2c_start (lab13_wire T) w"
proof -
  let ?w = "i2c_bus_idle (lab13_wire T) w"
  obtain p H where b: "spec13_idle T b = (p, H)" by (rule prod.exhaust)
  have at: "wire_at T p H ?w" "p \<noteq> Low" using bus_idle_wire [OF assms] b by (auto simp: spec13_idle_def split: prod.splits if_splits)
  have scl: "m_scl (set_sda False ?w)" "history (set_sda False ?w) = (if p = Idle then H @ [EvStart] else H)"
    using at by (cases p; auto simp: at_idle_def at_high_def set_sda_def sda_line_def scl_line_def Let_def)+
  have "i2c_start (lab13_wire T) w = set_scl T False (set_sda False ?w)"
    by (simp add: i2c_start_def i2c_bus_idle_def Let_def)
  moreover have "spec13_start T b = history (set_sda False ?w)" using b scl(2) by (cases b) (simp add: spec13_start_def)
  ultimately show "at_low T (spec13_start T b) (i2c_start (lab13_wire T) w)" using fall [OF scl(1), of T] by simp
qed (simp add: i2c_start_def i2c_restart_def)

lemma stop_wire:
  assumes "shows_bus T b w" "prompt T"
  shows "shows_bus T (spec13_stop T b) (i2c_stop (lab13_wire T) w)"
proof (cases "fst b")
  case Low
  then have low: "at_low T (snd b) w" using assms(1) by simp
  let ?w1 = "set_sda False w"
  have w1: "t_pull ?w1 = tgt_pull T (snd b)" "t_hold ?w1 = 0" "\<not> m_sda ?w1"
    using set_sda_low [OF low, of False] by (simp_all add: at_low_def)
  let ?w2 = "?w1\<lparr>m_scl := True, history := snd b @ [EvBit False]\<rparr>"
  have "i2c_stop (lab13_wire T) w = set_sda True ?w2"
    using clock(2) [OF low assms(2), of False] by (simp add: i2c_stop_def wired_def Let_def)
  moreover have "shows_bus T (spec13_stop T b) (set_sda True ?w2)"
    using Low w1 by (cases b) (auto simp: spec13_stop_def at_idle_def at_high_def set_sda_def sda_line_def scl_line_def Let_def)
  ultimately show ?thesis by simp
qed (use assms(1) in \<open>cases b; auto simp: i2c_stop_def spec13_stop_def at_idle_def at_high_def set_sda_def set_scl_def
  sda_line_def scl_line_def Let_def\<close>)+

section \<open>The transfer follows the specification\<close>

lemma write_bytes_wire:
  assumes "at_low T H w" "prompt T"
  obtains w' where "i2c_write_bytes (lab13_wire T) buf ks w = (fst (spec13_bytes T (map ((!) buf) ks) H), w')"
    "at_low T (snd (spec13_bytes T (map ((!) buf) ks) H)) w'"
  using assms
proof (induction ks arbitrary: w H thesis)
  case Nil
  then show ?case by simp
next
  case (Cons k ks)
  obtain rc H1 where s: "spec_write_byte T (buf ! k) H = (rc, H1)" by (rule prod.exhaust)
  obtain w1 where w1: "i2c_receive_ack (lab13_wire T) (i2c_send_byte (lab13_wire T) (buf ! k) w) = (rc, w1)" "at_low T H1 w1"
    using send_byte_wire [OF Cons.prems(2,3), of "buf ! k"] s by (metis fst_conv snd_conv)
  show ?case
  proof (cases "rc = I2C_OK")
    case True
    obtain w2 where "i2c_write_bytes (lab13_wire T) buf ks w1 = (fst (spec13_bytes T (map ((!) buf) ks) H1), w2)"
      "at_low T (snd (spec13_bytes T (map ((!) buf) ks) H1)) w2" by (rule Cons.IH [OF _ w1(2) Cons.prems(3)])
    then show ?thesis using Cons.prems(1) [of w2] w1(1) s True by simp
  next
    case False
    then show ?thesis using Cons.prems(1) [of w1] w1 s by simp
  qed
qed

lemma transfer_msg_wire:
  assumes "shows_bus T b w" "prompt T" "addr \<le> 0x7F"
  shows "case spec13_msg T addr index m b of (rc, b') \<Rightarrow>
    \<exists>w'. transfer_msg (lab13_wire T) addr index m w = (rc, w') \<and> shows_bus T b' w'"
proof -
  let ?i2c = "lab13_wire T"
  define r where "r \<longleftrightarrow> im_flags m AND I2C_MSG_READ \<noteq> 0"
  define a where "a = push_bit 1 addr OR (if r then 1 else 0)"
  note spec = spec13_msg_def [of T addr index m b, unfolded Let_def, folded r_def, folded a_def]
  note code = transfer_msg_def [of ?i2c addr index m w, unfolded Let_def, folded r_def]
  show ?thesis
  proof (cases "im_buf m = None \<or> im_len m = 0 \<or> index \<noteq> 0 \<and> im_flags m AND I2C_MSG_RESTART = 0")
    case True
    then have "transfer_msg ?i2c addr index m w = (I2C_ERR_ARGUMENT, i2c_stop ?i2c w)"
      "spec13_msg T addr index m b = (I2C_ERR_ARGUMENT, spec13_stop T b)" unfolding spec code by auto
    then show ?thesis using stop_wire [OF assms(1,2)] by simp
  next
    case False
    then have ok: "\<not> (im_buf m = None \<or> im_len m = 0)" "\<not> (index \<noteq> 0 \<and> im_flags m AND I2C_MSG_RESTART = 0)" by auto
    let ?w1 = "i2c_start ?i2c w" and ?H1 = "spec13_start T b"
    note st = start_wire [OF assms(1,2)]
    obtain rc2 H2 where s2: "spec_write_byte T a ?H1 = (rc2, H2)" by (rule prod.exhaust)
    obtain w2 where w2: "i2c_send_address ?i2c addr r ?w1 = (rc2, w2)" "at_low T H2 w2"
      using send_byte_wire [OF st(1) assms(2), of a] s2 assms(3)
      unfolding i2c_send_address_def a_def [symmetric] by (metis fst_conv snd_conv linorder_not_less)
    have start: "(if index = 0 then i2c_start ?i2c w else i2c_restart ?i2c w) = ?w1" by (simp add: st(2))
    have stop: "at_low T H' w' \<Longrightarrow> shows_bus T (spec13_stop T (Low, H')) (i2c_stop ?i2c w')" for H' w'
      using stop_wire [of T "(Low, H')" w'] assms(2) by simp
    have code': "transfer_msg ?i2c addr index m w =
       (if rc2 \<noteq> I2C_OK then (rc2, i2c_stop ?i2c w2) else if r then (I2C_ERR_UNSUPPORTED, i2c_stop ?i2c w2)
        else case i2c_write_bytes ?i2c (the (im_buf m)) [0..<unat (im_len m)] w2 of (ret, w) \<Rightarrow>
          if ret \<noteq> I2C_OK then (ret, i2c_stop ?i2c w)
          else (I2C_OK, if im_flags m AND I2C_MSG_STOP \<noteq> 0 then i2c_stop ?i2c w else w))"
      unfolding code start w2(1) prod.case if_not_P [OF ok(1)] if_not_P [OF ok(2)]
      using ok(1) by (simp add: i2c_write_message_def del: not_None_eq)
    obtain w3 where w3: "i2c_write_bytes ?i2c (the (im_buf m)) [0..<unat (im_len m)] w2 = (fst (spec13_bytes T (msg_bytes m) H2), w3)"
      "at_low T (snd (spec13_bytes T (msg_bytes m) H2)) w3"
      unfolding msg_bytes_def by (rule write_bytes_wire [OF w2(2) assms(2)])
    obtain rc3 H3 where s3: "spec13_bytes T (msg_bytes m) H2 = (rc3, H3)" by (rule prod.exhaust)
    have low3: "at_low T H3 w3" "fst (spec13_bytes T (msg_bytes m) H2) = rc3" using w3(2) s3 by simp_all
    have spec': "spec13_msg T addr index m b =
       (if rc2 \<noteq> I2C_OK then (rc2, spec13_stop T (Low, H2)) else if r then (I2C_ERR_UNSUPPORTED, spec13_stop T (Low, H2))
        else (rc3, if rc3 \<noteq> I2C_OK \<or> im_flags m AND I2C_MSG_STOP \<noteq> 0 then spec13_stop T (Low, H3) else (Low, H3)))"
      unfolding spec using ok by (auto simp add: s2 s3)
    have "transfer_msg ?i2c addr index m w = (fst (spec13_msg T addr index m b),
        if rc2 \<noteq> I2C_OK \<or> r then i2c_stop ?i2c w2
        else if rc3 \<noteq> I2C_OK \<or> im_flags m AND I2C_MSG_STOP \<noteq> 0 then i2c_stop ?i2c w3 else w3)"
      unfolding code' spec' w3(1) low3(2) prod.case by simp
    moreover have "shows_bus T (snd (spec13_msg T addr index m b))
       (if rc2 \<noteq> I2C_OK \<or> r then i2c_stop ?i2c w2
        else if rc3 \<noteq> I2C_OK \<or> im_flags m AND I2C_MSG_STOP \<noteq> 0 then i2c_stop ?i2c w3 else w3)"
      unfolding spec' using stop [OF w2(2)] stop [OF low3(1)] low3(1) by simp
    ultimately show ?thesis by (simp add: case_prod_beta)
  qed
qed

lemma transfer_msgs_wire:
  "shows_bus T b w \<Longrightarrow> prompt T \<Longrightarrow> addr \<le> 0x7F \<Longrightarrow> case spec13_msgs T addr index ms b of (rc, b') \<Rightarrow>
    \<exists>w'. transfer_msgs (lab13_wire T) addr index ms w = (rc, w') \<and> shows_bus T b' w'"
proof (induction ms arbitrary: index b w)
  case (Cons m ms)
  obtain rc b1 where s: "spec13_msg T addr index m b = (rc, b1)" by (rule prod.exhaust)
  then obtain w1 where w1: "transfer_msg (lab13_wire T) addr index m w = (rc, w1)" "shows_bus T b1 w1"
    using transfer_msg_wire [OF Cons.prems, of index m] by auto
  show ?case using Cons.IH [OF w1(2) Cons.prems(2,3), of "Suc index"] w1 s by (auto split: prod.splits)
qed simp

lemma bitbang_transfer_wire:
  assumes "shows_bus T b w" "prompt T"
  shows "case spec13_transfer T addr msgs b of (rc, b') \<Rightarrow>
    \<exists>w'. i2c_transfer_bitbang (lab13_wire T) addr msgs w = (rc, w') \<and> shows_bus T b' w'"
proof (cases "msgs = None \<or> msgs = Some [] \<or> addr > 0x7F")
  case True
  then show ?thesis using assms(1) by (auto simp: spec13_transfer_def i2c_transfer_bitbang_def split: option.splits)
next
  case False
  then obtain ms where ms: "msgs = Some ms" "ms \<noteq> []" "addr \<le> 0x7F" by (cases msgs) auto
  then have "\<not> addr > 0x7F" by simp
  then show ?thesis
    using transfer_msgs_wire [OF bus_idle_wire [OF assms] assms(2) ms(3), of 0 ms]
    using ms by (simp add: spec13_transfer_def i2c_transfer_bitbang_def)
qed

section \<open>What the specification says\<close>

lemma spec13_stop_phase: "fst (spec13_stop T b) \<noteq> Low"
  by (auto simp: spec13_stop_def split: prod.splits i2c_phase.splits)

lemma spec13_msg_error: "spec13_msg T addr index m b = (rc, b') \<Longrightarrow> rc \<noteq> I2C_OK \<Longrightarrow> fst b' \<noteq> Low"
  by (auto simp: spec13_msg_def Let_def spec13_stop_phase split: prod.splits if_splits)

lemma spec13_msgs_error: "spec13_msgs T addr index ms b = (rc, b') \<Longrightarrow> rc \<noteq> I2C_OK \<Longrightarrow> fst b' \<noteq> Low"
  by (induction ms arbitrary: index b) (auto split: prod.splits if_splits dest: spec13_msg_error)

lemma spec13_transfer_error:
  "spec13_transfer T addr msgs (Idle, H) = (rc, b') \<Longrightarrow> rc \<noteq> I2C_OK \<Longrightarrow> fst b' \<noteq> Low"
  by (auto simp: spec13_transfer_def dest: spec13_msgs_error split: if_splits)

text \<open>The events of a list of write messages with a target that acknowledges.\<close>

definition write_msg :: "nat \<Rightarrow> i2c_msg \<Rightarrow> bool" where
  "write_msg index m \<longleftrightarrow> im_buf m \<noteq> None \<and> im_len m \<noteq> 0 \<and> im_flags m AND I2C_MSG_READ = 0 \<and>
     (index = 0 \<or> im_flags m AND I2C_MSG_RESTART \<noteq> 0)"

fun write_events :: "u8 \<Rightarrow> i2c_phase \<Rightarrow> i2c_msg list \<Rightarrow> i2c_event list" where
  "write_events addr p [] = []"
| "write_events addr p (m # ms) =
     (let stop = (im_flags m AND I2C_MSG_STOP \<noteq> 0) in
      (if p = Idle then [] else [EvBit True]) @ [EvStart] @ concat (map acked_frame (push_bit 1 addr # msg_bytes m)) @
      (if stop then [EvBit False, EvStop] else []) @ write_events addr (if stop then Idle else Low) ms)"

lemma acked_bytes:
  assumes "listening T" "bits_since H mod 9 = 0"
  shows "spec13_bytes T vs H = (I2C_OK, H @ concat (map acked_frame vs)) \<and> bits_since (H @ concat (map acked_frame vs)) mod 9 = 0"
  using assms(2)
proof (induction vs arbitrary: H)
  case (Cons v vs)
  note b = listening_byte [OF assms(1) Cons.prems, of v]
  show ?case using Cons.IH [OF b(2)] b(1) by simp
qed simp

text \<open>Before a message the bus is idle, or low after whole frames.\<close>

definition between :: "i2c_phase \<Rightarrow> i2c_event list \<Rightarrow> bool" where
  "between p H \<longleftrightarrow> p = Idle \<or> p = Low \<and> bits_since H mod 9 = 0"

lemma write_msg_events:
  assumes "listening T" "between p H" "write_msg index m"
  shows "let p' = if im_flags m AND I2C_MSG_STOP \<noteq> 0 then Idle else Low; H' = H @ write_events addr p [m] in
    spec13_msg T addr index m (p, H) = (I2C_OK, p', H') \<and> between p' H'"
proof -
  let ?H1 = "H @ (if p = Idle then [] else [EvBit True]) @ [EvStart]"
  have low: "bits_since G mod 9 = 0 \<Longrightarrow> \<not> tgt_pull T G" for G using assms(1) by (simp add: listening_def)
  have start: "spec13_start T (p, H) = ?H1"
    using assms(2) low [of H] by (auto simp: spec13_start_def spec13_idle_def between_def wired_def)
  have "bits_since ?H1 mod 9 = 0" by (simp flip: append_assoc)
  from listening_byte [OF assms(1) this] have addr: "spec_write_byte T (push_bit 1 addr) ?H1 = (I2C_OK, ?H1 @ acked_frame (push_bit 1 addr))"
    "bits_since (?H1 @ acked_frame (push_bit 1 addr)) mod 9 = 0" by blast+
  let ?H3 = "(?H1 @ acked_frame (push_bit 1 addr)) @ concat (map acked_frame (msg_bytes m))"
  have data: "spec13_bytes T (msg_bytes m) (?H1 @ acked_frame (push_bit 1 addr)) = (I2C_OK, ?H3)" "bits_since ?H3 mod 9 = 0"
    using acked_bytes [OF assms(1) addr(2)] by blast+
  have a: "push_bit 1 addr OR (if im_flags m AND I2C_MSG_READ \<noteq> 0 then 1 else 0) = push_bit 1 addr"
    and g: "\<not> (im_buf m = None \<or> im_len m = 0 \<or> index \<noteq> 0 \<and> im_flags m AND I2C_MSG_RESTART = 0)"
    and r: "\<not> im_flags m AND I2C_MSG_READ \<noteq> 0" using assms(3) by (auto simp: write_msg_def)
  have "spec13_msg T addr index m (p, H) =
      (I2C_OK, if im_flags m AND I2C_MSG_STOP \<noteq> 0 then (Idle, ?H3 @ [EvBit False, EvStop]) else (Low, ?H3))"
    unfolding spec13_msg_def Let_def if_not_P [OF g] a start addr(1) prod.case data(1)
    using r low [OF data(2)] by (simp add: data(1) spec13_stop_def)
  then show ?thesis using data(2) by (simp add: Let_def between_def)
qed

lemma write_msgs_events:
  assumes "listening T" "between p H" "\<forall>i < length ms. write_msg (index + i) (ms ! i)"
  shows "\<exists>p'. spec13_msgs T addr index ms (p, H) = (I2C_OK, p', H @ write_events addr p ms)"
  using assms(2,3)
proof (induction ms arbitrary: index p H)
  case (Cons m ms)
  have "write_msg index m" using Cons.prems(2) by force
  note m = write_msg_events [OF assms(1) Cons.prems(1) this, of addr, unfolded Let_def]
  have "\<forall>i < length ms. write_msg (Suc index + i) (ms ! i)" using Cons.prems(2) by force
  from Cons.IH [OF conjunct2 [OF m] this] conjunct1 [OF m] show ?case by (auto simp: Let_def)
qed simp

lemma write_transfer:
  assumes "listening T" "ms \<noteq> []" "addr \<le> 0x7F" "\<forall>i < length ms. write_msg i (ms ! i)"
  shows "\<exists>p'. spec13_transfer T addr (Some ms) (Idle, H) = (I2C_OK, p', H @ write_events addr Idle ms)"
proof -
  have "\<not> addr > 0x7F" using assms(3) by simp
  then show ?thesis using write_msgs_events [OF assms(1), of Idle H ms 0 addr] assms(2,4)
    by (simp add: spec13_transfer_def spec13_idle_def between_def)
qed

section \<open>Properties\<close>

text \<open>C22.  Refinement: with a target that does not stretch the clock, from any state of the bus, a
  transfer returns what the specification on the history of the bus returns and leaves the bus where the
  specification does.\<close>

theorem i2c_bitbang_refines:
  assumes "wire_at T p H w" "prompt T"
  shows "case spec13_transfer T addr msgs (p, H) of (rc, p', H') \<Rightarrow>
    \<exists>w'. i2c_transfer_bitbang (lab13_wire T) addr msgs w = (rc, w') \<and> wire_at T p' H' w'"
  using bitbang_transfer_wire [of T "(p, H)" w addr msgs] assms by (auto split: prod.splits)

text \<open>Note.  A list of write messages, each after the first with the restart flag, succeeds with a target
  that acknowledges, and the bus sees exactly a start condition, the address with the write bit, the bytes
  of each message in order, and a stop condition where a message asks for one.\<close>

theorem i2c_bitbang_writes:
  assumes "at_idle H w" "prompt T" "listening T" "ms \<noteq> []" "addr \<le> 0x7F"
    and "\<forall>i < length ms. write_msg i (ms ! i)"
  shows "case i2c_transfer_bitbang (lab13_wire T) addr (Some ms) w of (rc, w') \<Rightarrow>
    rc = I2C_OK \<and> history w' = H @ write_events addr Idle ms"
proof -
  obtain p' where s: "spec13_transfer T addr (Some ms) (Idle, H) = (I2C_OK, p', H @ write_events addr Idle ms)"
    using write_transfer [OF assms(3-6)] by blast
  obtain w' where "i2c_transfer_bitbang (lab13_wire T) addr (Some ms) w = (I2C_OK, w')"
    "wire_at T p' (H @ write_events addr Idle ms) w'"
    using bitbang_transfer_wire [of T "(Idle, H)" w addr "Some ms"] assms(1,2) s by auto
  then show ?thesis by (cases p') (auto simp: at_idle_def at_low_def at_high_def)
qed

text \<open>Note.  Every failed transfer that began on an idle bus leaves SCL high, and SDA high too unless the
  target holds it.\<close>

theorem i2c_bitbang_error_releases:
  assumes "at_idle H w" "prompt T"
    and "i2c_transfer_bitbang (lab13_wire T) addr msgs w = (rc, w')" "rc \<noteq> I2C_OK"
  shows "scl_line w' \<and> (at_idle (history w') w' \<or> t_pull w')"
proof -
  obtain rc' p' H' where s: "spec13_transfer T addr msgs (Idle, H) = (rc', p', H')" by (rule prod_cases3)
  then have "rc' = rc" "wire_at T p' H' w'" using bitbang_transfer_wire [of T "(Idle, H)" w addr msgs] assms(1-3) by auto
  then show ?thesis using spec13_transfer_error [OF s] assms(4)
    by (cases p') (auto simp: at_idle_def at_high_def scl_line_def)
qed

text \<open>Note.  A first message without data is refused, but only after a start and a stop condition on the
  bus.\<close>

theorem i2c_bitbang_empty_first:
  assumes "at_idle H w" "prompt T" "addr \<le> 0x7F" "im_buf m = None \<or> im_len m = 0"
  shows "case i2c_transfer_bitbang (lab13_wire T) addr (Some (m # ms)) w of (rc, w') \<Rightarrow>
    rc = I2C_ERR_ARGUMENT \<and> history w' = H @ [EvStart, EvStop]"
proof -
  have "\<not> addr > 0x7F" using assms(3) by simp
  then have "spec13_transfer T addr (Some (m # ms)) (Idle, H) = (I2C_ERR_ARGUMENT, Idle, H @ [EvStart, EvStop])"
    using assms(4) by (auto simp: spec13_transfer_def spec13_idle_def spec13_msg_def spec13_stop_def Let_def)
  then show ?thesis using bitbang_transfer_wire [of T "(Idle, H)" w addr "Some (m # ms)"] assms(1,2) by (auto simp: at_idle_def)
qed

text \<open>Note.  The program writes 0xAB to register 0x10 of the EEPROM at address 0x50 and reports success.\<close>

theorem lab13_main_writes_register:
  assumes "at_idle H w" "prompt T" "listening T"
  shows "case lab13_main (lab13_wire T) w of (rc, w') \<Rightarrow> rc = I2C_OK \<and>
    history w' = H @ [EvStart] @ acked_frame 0xA0 @ acked_frame 0x10 @ acked_frame 0xAB @ [EvBit False, EvStop]"
proof -
  let ?m = "\<lparr>im_buf = Some [0x10, 0xAB], im_len = 2, im_flags = 2\<rparr> :: i2c_msg"
  have "write_msg 0 ?m" "msg_bytes ?m = [0x10, 0xAB]" "(0x50 :: u8) \<le> 0x7F"
    by (simp_all add: write_msg_def msg_bytes_def upt_rec)
  then have e: "write_events 0x50 Idle [?m] = [EvStart] @ acked_frame 0xA0 @ acked_frame 0x10 @ acked_frame 0xAB @ [EvBit False, EvStop]"
    by (simp add: Let_def)
  obtain p' where s: "spec13_transfer T 0x50 (Some [?m]) (Idle, H) = (I2C_OK, p', H @ write_events 0x50 Idle [?m])"
    using write_transfer [OF assms(3), of "[?m]" "0x50" H] \<open>write_msg 0 ?m\<close> \<open>(0x50 :: u8) \<le> 0x7F\<close> by auto
  obtain w' where "i2c_transfer_bitbang (lab13_wire T) 0x50 (Some [?m]) w = (I2C_OK, w')"
    "wire_at T p' (H @ write_events 0x50 Idle [?m]) w'"
    using bitbang_transfer_wire [of T "(Idle, H)" w "0x50" "Some [?m]"] assms(1,2) s by auto
  then show ?thesis unfolding lab13_main_def Let_def e
    by (cases p') (auto simp: at_idle_def at_low_def at_high_def)
qed

section \<open>Concrete targets\<close>

definition acking :: i2c_target where
  "acking = \<lparr>tgt_pull = (\<lambda>H. bits_since H mod 9 = 8), tgt_hold = (\<lambda>_. 0)\<rparr>"

definition silent :: i2c_target where
  "silent = \<lparr>tgt_pull = (\<lambda>_. False), tgt_hold = (\<lambda>_. 0)\<rparr>"

text \<open>A target that acknowledges but holds SCL for one poll of each clock.\<close>

definition stretching :: i2c_target where
  "stretching = \<lparr>tgt_pull = (\<lambda>H. bits_since H mod 9 = 8), tgt_hold = (\<lambda>_. 1)\<rparr>"

definition released_wire :: i2c_wire where
  "released_wire = \<lparr>m_sda = True, m_scl = True, t_pull = False, t_hold = 0, history = []\<rparr>"

lemma acking: "prompt acking" "listening acking" "prompt silent" "at_idle [] released_wire"
  by (simp_all add: acking_def silent_def prompt_def listening_def released_wire_def at_idle_def)

theorem i2c_bitbang_refines_witness:
  "case spec13_transfer acking 0x50 (Some [\<lparr>im_buf = Some [7], im_len = 1, im_flags = 2\<rparr>]) (Idle, []) of (rc, p', H') \<Rightarrow>
    \<exists>w'. i2c_transfer_bitbang (lab13_wire acking) 0x50 (Some [\<lparr>im_buf = Some [7], im_len = 1, im_flags = 2\<rparr>]) released_wire =
      (rc, w') \<and> wire_at acking p' H' w'"
  by (rule i2c_bitbang_refines) (simp_all add: acking)

theorem i2c_bitbang_writes_witness:
  "case i2c_transfer_bitbang (lab13_wire acking) 0x50
      (Some [\<lparr>im_buf = Some [1], im_len = 1, im_flags = 0\<rparr>, \<lparr>im_buf = Some [2], im_len = 1, im_flags = 6\<rparr>]) released_wire of (rc, w') \<Rightarrow>
    rc = I2C_OK \<and> history w' = [] @ write_events 0x50 Idle
      [\<lparr>im_buf = Some [1], im_len = 1, im_flags = 0\<rparr>, \<lparr>im_buf = Some [2], im_len = 1, im_flags = 6\<rparr>]"
  by (rule i2c_bitbang_writes) (auto simp: acking write_msg_def less_Suc_eq)

theorem i2c_bitbang_error_releases_witness:
  "\<exists>rc w'. i2c_transfer_bitbang (lab13_wire silent) 0x50 (Some [\<lparr>im_buf = Some [7], im_len = 1, im_flags = 2\<rparr>]) released_wire =
     (rc, w') \<and> rc \<noteq> I2C_OK \<and> scl_line w' \<and> (at_idle (history w') w' \<or> t_pull w')"
proof -
  obtain rc w' where t: "i2c_transfer_bitbang (lab13_wire silent) 0x50 (Some [\<lparr>im_buf = Some [7], im_len = 1, im_flags = 2\<rparr>])
      released_wire = (rc, w')" by (rule prod.exhaust)
  moreover have "rc \<noteq> I2C_OK"
    using bitbang_transfer_wire [of silent "(Idle, [])" released_wire "0x50" "Some [\<lparr>im_buf = Some [7], im_len = 1, im_flags = 2\<rparr>]"] acking t
    by (simp add: spec13_transfer_def spec13_idle_def spec13_msg_def spec13_start_def spec_write_byte_def Let_def silent_def)
  ultimately show ?thesis using i2c_bitbang_error_releases [OF acking(4,3) t] by blast
qed

theorem i2c_bitbang_empty_first_witness:
  "case i2c_transfer_bitbang (lab13_wire acking) 0x50 (Some [\<lparr>im_buf = None, im_len = 1, im_flags = 2\<rparr>]) released_wire of (rc, w') \<Rightarrow>
    rc = I2C_ERR_ARGUMENT \<and> history w' = [] @ [EvStart, EvStop]"
  by (rule i2c_bitbang_empty_first) (simp_all add: acking)

theorem lab13_main_writes_register_witness:
  "case lab13_main (lab13_wire acking) released_wire of (rc, w') \<Rightarrow> rc = I2C_OK \<and>
    history w' = [] @ [EvStart] @ acked_frame 0xA0 @ acked_frame 0x10 @ acked_frame 0xAB @ [EvBit False, EvStop]"
  by (rule lab13_main_writes_register) (simp_all add: acking)

text \<open>The same write to the stretching target: the master samples and moves on before SCL rises, no bit
  of the address reaches the target, and the transfer reports a NACK.\<close>

lemma i2c_bitbang_ignores_stretching:
  "fst (lab13_main (lab13_wire stretching) released_wire) = I2C_ERR_NACK"
  by code_simp

end
