(* ===== verification/I2c_Simulated.thy ===== *)
theory I2c_Simulated
  imports I2c_Bitbang
begin

text \<open>
  labs/lab14_mps2_mmio_i2c/i2c_message.c: the copy of the master of lab13 that lab14 keeps beside its own.  It takes
  every byte for acknowledged.  The accesses are the record \<open>lab13_i2c\<close>, the message that of lab13, whose header
  the lab repeats.  The copy is compared with its original.
\<close>

abbreviation (input) I2C_SIMULATE_ACK :: int where "I2C_SIMULATE_ACK \<equiv> 1"

section \<open>Lines, conditions and bytes\<close>

fun lab14_nop_loop :: "nat \<Rightarrow> 'w \<Rightarrow> 'w" where
  "lab14_nop_loop 0 w = w"
| "lab14_nop_loop (Suc i) w = lab14_nop_loop i w"

definition lab14_i2c_delay :: "'w \<Rightarrow> 'w" where
  "lab14_i2c_delay w = lab14_nop_loop 100 w"

definition lab14_i2c_scl_high :: "'w lab13_i2c \<Rightarrow> 'w \<Rightarrow> 'w" where
  "lab14_i2c_scl_high i2c w = lab14_i2c_delay (write_CONTROL i2c (I2C_SCL_Msk i2c) w)"

definition lab14_i2c_scl_low :: "'w lab13_i2c \<Rightarrow> 'w \<Rightarrow> 'w" where
  "lab14_i2c_scl_low i2c w = lab14_i2c_delay (write_CONTROLC i2c (I2C_SCL_Msk i2c) w)"

definition lab14_i2c_sda_high :: "'w lab13_i2c \<Rightarrow> 'w \<Rightarrow> 'w" where
  "lab14_i2c_sda_high i2c w = lab14_i2c_delay (write_CONTROL i2c (I2C_SDA_Msk i2c) w)"

definition lab14_i2c_sda_low :: "'w lab13_i2c \<Rightarrow> 'w \<Rightarrow> 'w" where
  "lab14_i2c_sda_low i2c w = lab14_i2c_delay (write_CONTROLC i2c (I2C_SDA_Msk i2c) w)"

definition lab14_i2c_sda_read :: "'w lab13_i2c \<Rightarrow> 'w \<Rightarrow> int \<times> 'w" where
  "lab14_i2c_sda_read i2c w = (case read_CONTROL i2c w of (v, w) \<Rightarrow> (of_bool (v AND I2C_SDA_Msk i2c \<noteq> 0), w))"

definition lab14_i2c_bus_idle :: "'w lab13_i2c \<Rightarrow> 'w \<Rightarrow> 'w" where
  "lab14_i2c_bus_idle i2c w = lab14_i2c_scl_high i2c (lab14_i2c_sda_high i2c w)"

definition lab14_i2c_start :: "'w lab13_i2c \<Rightarrow> 'w \<Rightarrow> 'w" where
  "lab14_i2c_start i2c w =
     (let w = lab14_i2c_sda_high i2c w; w = lab14_i2c_scl_high i2c w; w = lab14_i2c_sda_low i2c w in lab14_i2c_scl_low i2c w)"

definition lab14_i2c_restart :: "'w lab13_i2c \<Rightarrow> 'w \<Rightarrow> 'w" where
  "lab14_i2c_restart i2c w =
     (let w = lab14_i2c_sda_high i2c w; w = lab14_i2c_scl_high i2c w; w = lab14_i2c_sda_low i2c w in lab14_i2c_scl_low i2c w)"

definition lab14_i2c_stop :: "'w lab13_i2c \<Rightarrow> 'w \<Rightarrow> 'w" where
  "lab14_i2c_stop i2c w = (let w = lab14_i2c_sda_low i2c w; w = lab14_i2c_scl_high i2c w in lab14_i2c_sda_high i2c w)"

fun lab14_send_bits :: "'w lab13_i2c \<Rightarrow> nat \<Rightarrow> u8 \<Rightarrow> 'w \<Rightarrow> 'w" where
  "lab14_send_bits i2c 0 val w = w"
| "lab14_send_bits i2c (Suc n) val w =
     (let w = (if val AND 0x80 \<noteq> 0 then lab14_i2c_sda_high i2c w else lab14_i2c_sda_low i2c w);
          w = lab14_i2c_scl_high i2c w; w = lab14_i2c_scl_low i2c w
      in lab14_send_bits i2c n (push_bit 1 val) w)"

definition lab14_i2c_send_byte :: "'w lab13_i2c \<Rightarrow> u8 \<Rightarrow> 'w \<Rightarrow> 'w" where
  "lab14_i2c_send_byte i2c val w = lab14_send_bits i2c 8 val w"

text \<open>With \<open>I2C_SIMULATE_ACK\<close> the line is not read.\<close>

definition lab14_i2c_receive_ack :: "'w lab13_i2c \<Rightarrow> 'w \<Rightarrow> int \<times> 'w" where
  "lab14_i2c_receive_ack i2c w =
     (let w = lab14_i2c_sda_high i2c w; w = lab14_i2c_scl_high i2c w in
      case (if I2C_SIMULATE_ACK \<noteq> 0 then (0, w) else lab14_i2c_sda_read i2c w) of (nack, w) \<Rightarrow>
      let w = lab14_i2c_scl_low i2c w in (if nack = 0 then I2C_OK else I2C_ERR_NACK, w))"

definition lab14_i2c_send_address :: "'w lab13_i2c \<Rightarrow> u8 \<Rightarrow> bool \<Rightarrow> 'w \<Rightarrow> int \<times> 'w" where
  "lab14_i2c_send_address i2c target_addr is_read w =
     (if target_addr > 0x7F then (I2C_ERR_ADDRESS, w)
      else lab14_i2c_receive_ack i2c (lab14_i2c_send_byte i2c (push_bit 1 target_addr OR (if is_read then 1 else 0)) w))"

fun lab14_i2c_write_bytes :: "'w lab13_i2c \<Rightarrow> u8 list \<Rightarrow> nat list \<Rightarrow> 'w \<Rightarrow> int \<times> 'w" where
  "lab14_i2c_write_bytes i2c buf [] w = (I2C_OK, w)"
| "lab14_i2c_write_bytes i2c buf (index # rest) w =
     (case lab14_i2c_receive_ack i2c (lab14_i2c_send_byte i2c (buf ! index) w) of (ret, w) \<Rightarrow>
      if ret \<noteq> I2C_OK then (ret, w) else lab14_i2c_write_bytes i2c buf rest w)"

definition lab14_i2c_write_message :: "'w lab13_i2c \<Rightarrow> i2c_msg option \<Rightarrow> 'w \<Rightarrow> int \<times> 'w" where
  "lab14_i2c_write_message i2c msg w =
     (case msg of None \<Rightarrow> (I2C_ERR_ARGUMENT, w)
      | Some m \<Rightarrow>
        if im_buf m = None \<or> im_len m = 0 then (I2C_ERR_ARGUMENT, w)
        else lab14_i2c_write_bytes i2c (the (im_buf m)) [0..<unat (im_len m)] w)"

section \<open>Transfers\<close>

text \<open>One pass of the loop over the messages.  A return from inside the loop is a result other than
  \<open>I2C_OK\<close>.\<close>

definition lab14_transfer_msg :: "'w lab13_i2c \<Rightarrow> u8 \<Rightarrow> nat \<Rightarrow> i2c_msg \<Rightarrow> 'w \<Rightarrow> int \<times> 'w" where
  "lab14_transfer_msg i2c target_addr index msg w =
     (if im_buf msg = None \<or> im_len msg = 0 then (I2C_ERR_ARGUMENT, lab14_i2c_stop i2c w)
      else
        let is_read = (im_flags msg AND I2C_MSG_READ \<noteq> 0) in
        if index \<noteq> 0 \<and> im_flags msg AND I2C_MSG_RESTART = 0 then (I2C_ERR_ARGUMENT, lab14_i2c_stop i2c w)
        else
          let w = (if index = 0 then lab14_i2c_start i2c w else lab14_i2c_restart i2c w) in
          case lab14_i2c_send_address i2c target_addr is_read w of (ret, w) \<Rightarrow>
          if ret \<noteq> I2C_OK then (ret, lab14_i2c_stop i2c w)
          else if is_read then (I2C_ERR_UNSUPPORTED, lab14_i2c_stop i2c w)
          else
            case lab14_i2c_write_message i2c (Some msg) w of (ret, w) \<Rightarrow>
            if ret \<noteq> I2C_OK then (ret, lab14_i2c_stop i2c w)
            else (I2C_OK, if im_flags msg AND I2C_MSG_STOP \<noteq> 0 then lab14_i2c_stop i2c w else w))"

fun lab14_transfer_msgs :: "'w lab13_i2c \<Rightarrow> u8 \<Rightarrow> nat \<Rightarrow> i2c_msg list \<Rightarrow> 'w \<Rightarrow> int \<times> 'w" where
  "lab14_transfer_msgs i2c target_addr index [] w = (I2C_OK, w)"
| "lab14_transfer_msgs i2c target_addr index (msg # rest) w =
     (case lab14_transfer_msg i2c target_addr index msg w of (ret, w) \<Rightarrow>
      if ret \<noteq> I2C_OK then (ret, w) else lab14_transfer_msgs i2c target_addr (Suc index) rest w)"

text \<open>The array and its count are the list of the messages, at most 255 of them.\<close>

definition lab14_i2c_transfer_bitbang :: "'w lab13_i2c \<Rightarrow> u8 \<Rightarrow> i2c_msg list option \<Rightarrow> 'w \<Rightarrow> int \<times> 'w" where
  "lab14_i2c_transfer_bitbang i2c target_addr msgs w =
     (case msgs of None \<Rightarrow> (I2C_ERR_ARGUMENT, w)
      | Some ms \<Rightarrow>
        if ms = [] then (I2C_ERR_ARGUMENT, w)
        else if target_addr > 0x7F then (I2C_ERR_ADDRESS, w)
        else lab14_transfer_msgs i2c target_addr 0 ms (lab14_i2c_bus_idle i2c w))"

section \<open>The copy and its original\<close>

lemma lab14_loops: "lab14_nop_loop n w = w" "lab14_i2c_delay w = w" "i2c_delay w = w"
proof -
  show "lab14_nop_loop n w = w" for n :: nat by (induction n) auto
  then show "lab14_i2c_delay w = w" "i2c_delay w = w" by (simp_all add: lab14_i2c_delay_def i2c_delay_def)
qed

lemma lab14_lines:
  "lab14_i2c_scl_high = i2c_scl_high" "lab14_i2c_scl_low = i2c_scl_low" "lab14_i2c_sda_high = i2c_sda_high" "lab14_i2c_sda_low = i2c_sda_low"
  by (simp_all add: fun_eq_iff lab14_loops lab14_i2c_scl_high_def i2c_scl_high_def lab14_i2c_scl_low_def i2c_scl_low_def
      lab14_i2c_sda_high_def i2c_sda_high_def lab14_i2c_sda_low_def i2c_sda_low_def)

lemma lab14_conditions:
  "lab14_i2c_bus_idle = i2c_bus_idle" "lab14_i2c_start = i2c_start" "lab14_i2c_restart = i2c_restart" "lab14_i2c_stop = i2c_stop"
  by (simp_all add: fun_eq_iff lab14_lines lab14_i2c_bus_idle_def i2c_bus_idle_def lab14_i2c_start_def i2c_start_def
      lab14_i2c_restart_def i2c_restart_def lab14_i2c_stop_def i2c_stop_def)

lemma lab14_bytes: "lab14_i2c_send_byte i2c v w = i2c_send_byte i2c v w"
proof -
  have "lab14_send_bits i2c n v w = send_bits i2c n v w" for n v w
    by (induction n arbitrary: v w) (simp_all add: lab14_lines)
  then show ?thesis by (simp add: lab14_i2c_send_byte_def i2c_send_byte_def)
qed

text \<open>A read of the lines changes nothing.\<close>

definition quiet_reads :: "'w lab13_i2c \<Rightarrow> bool" where
  "quiet_reads i2c \<longleftrightarrow> (\<forall>w. snd (read_CONTROL i2c w) = w)"

lemma lab14_ack: "quiet_reads i2c \<Longrightarrow> lab14_i2c_receive_ack i2c w = (I2C_OK, snd (i2c_receive_ack i2c w))"
  by (auto simp: quiet_reads_def lab14_i2c_receive_ack_def i2c_receive_ack_def i2c_sda_read_def lab14_lines Let_def split: prod.splits)
    (metis snd_conv)+

lemma ack_result: "fst (i2c_receive_ack i2c w) = I2C_OK \<or> fst (i2c_receive_ack i2c w) = I2C_ERR_NACK"
  by (auto simp: i2c_receive_ack_def Let_def split: prod.splits)

text \<open>\<open>follows\<close>: a result of the copy, and of the original.\<close>

definition follows :: "int \<times> 'w \<Rightarrow> int \<times> 'w \<Rightarrow> bool" where
  "follows r14 r13 \<longleftrightarrow> fst r14 \<noteq> I2C_ERR_NACK \<and> (fst r13 \<noteq> I2C_ERR_NACK \<longrightarrow> r14 = r13)"

lemma follows_refl: "fst r \<noteq> I2C_ERR_NACK \<Longrightarrow> follows r r"
  by (simp add: follows_def)

lemma address_follows:
  "quiet_reads i2c \<Longrightarrow> follows (lab14_i2c_send_address i2c a r w) (i2c_send_address i2c a r w)"
  using ack_result [of i2c]
  by (auto simp: follows_def lab14_i2c_send_address_def i2c_send_address_def lab14_ack lab14_bytes prod_eq_iff)

lemma bytes_follow: "quiet_reads i2c \<Longrightarrow> follows (lab14_i2c_write_bytes i2c buf ks w) (i2c_write_bytes i2c buf ks w)"
proof (induction ks arbitrary: w)
  case (Cons k ks)
  then show ?case using ack_result [of i2c "i2c_send_byte i2c (buf ! k) w"]
    by (auto simp: follows_def lab14_ack lab14_bytes split: prod.splits)
qed (simp add: follows_def)

lemma message_follows:
  "quiet_reads i2c \<Longrightarrow> follows (lab14_i2c_write_message i2c m w) (i2c_write_message i2c m w)"
  by (auto simp: lab14_i2c_write_message_def i2c_write_message_def bytes_follow follows_refl split: option.splits)

lemma transfer_msg_follows:
  assumes "quiet_reads i2c"
  shows "follows (lab14_transfer_msg i2c addr index m w) (transfer_msg i2c addr index m w)"
proof -
  let ?w = "if index = 0 then i2c_start i2c w else i2c_restart i2c w" and ?r = "im_flags m AND I2C_MSG_READ \<noteq> 0"
  obtain rc w1 rc' w1' where a: "lab14_i2c_send_address i2c addr ?r ?w = (rc, w1)" "i2c_send_address i2c addr ?r ?w = (rc', w1')"
    by (meson prod.exhaust)
  have f: "follows (rc, w1) (rc', w1')" using address_follows [OF assms, of addr ?r ?w] a by simp
  obtain x y x' y' where b: "lab14_i2c_write_message i2c (Some m) w1 = (x, y)" "i2c_write_message i2c (Some m) w1 = (x', y')"
    by (meson prod.exhaust)
  have g: "follows (x, y) (x', y')" using message_follows [OF assms, of "Some m" w1] b by simp
  note step = lab14_transfer_msg_def transfer_msg_def lab14_conditions Let_def a prod.case
  show ?thesis
  proof (cases "rc' = I2C_ERR_NACK")
    case True
    then show ?thesis using f g unfolding step b by (auto simp: follows_def)
  next
    case False
    then have "rc' = rc" "w1' = w1" using f by (simp_all add: follows_def)
    then show ?thesis using f g unfolding step by (simp add: b follows_def)
  qed
qed

lemma transfer_msgs_follow:
  "quiet_reads i2c \<Longrightarrow> follows (lab14_transfer_msgs i2c addr index ms w) (transfer_msgs i2c addr index ms w)"
proof (induction ms arbitrary: index w)
  case (Cons m ms)
  then show ?case using transfer_msg_follows [OF Cons.prems, of addr index m w]
    by (auto simp: follows_def split: prod.splits)
qed (simp add: follows_def)

section \<open>Properties\<close>

text \<open>C38.  The copy never reports a missing acknowledgement, whatever is on the bus; and whenever its original does
  not report one either, it does exactly the same.\<close>

theorem lab14_copy_never_nacks:
  assumes "quiet_reads i2c"
  shows "fst (lab14_i2c_transfer_bitbang i2c addr msgs w) \<noteq> I2C_ERR_NACK \<and>
    (fst (i2c_transfer_bitbang i2c addr msgs w) \<noteq> I2C_ERR_NACK \<longrightarrow>
       lab14_i2c_transfer_bitbang i2c addr msgs w = i2c_transfer_bitbang i2c addr msgs w)"
  using transfer_msgs_follow [OF assms]
  by (auto simp: follows_def lab14_i2c_transfer_bitbang_def i2c_transfer_bitbang_def lab14_conditions split: option.splits)

text \<open>An access record with the lines in one register, as a world.\<close>

definition pins_i2c :: "u32 lab13_i2c" where
  "pins_i2c = \<lparr>read_CONTROL = \<lambda>w. (w, w), write_CONTROL = \<lambda>v w. w OR v, write_CONTROLC = \<lambda>v w. w AND NOT v, I2C_SCL_Msk = 1, I2C_SDA_Msk = 2\<rparr>"

theorem lab14_copy_never_nacks_witness:
  "quiet_reads pins_i2c \<and> fst (lab14_i2c_transfer_bitbang pins_i2c 0x50 (Some [\<lparr>im_buf = Some [1], im_len = 1, im_flags = 2\<rparr>]) 3) \<noteq> I2C_ERR_NACK"
proof -
  have "quiet_reads pins_i2c" by (simp add: quiet_reads_def pins_i2c_def)
  from this lab14_copy_never_nacks [OF this, of "0x50" "Some [\<lparr>im_buf = Some [1], im_len = 1, im_flags = 2\<rparr>]" 3] show ?thesis by simp
qed

end
