(* ===== verification/Reg_Access.thy ===== *)
theory Reg_Access
  imports Prelude
begin

text \<open>
  labs/lab21_i2c_register_update_zephyr: read, write and masked update of one register of an I2C target
  (src/reg_access.c) and the program that tries them on a sensor and leaves it as it was
  (src/main.c).  Zephyr's I2C driver is the parameter \<open>i2c_api\<close>; the locales \<open>reg_target\<close> and
  \<open>reg_target_working\<close> say what the code relies on, and the driver double of tests/host_contract.c
  provides them.
\<close>

section \<open>Register access (reg_access.h, reg_access.c)\<close>

record i2c_client =
  cl_bus :: "dev option"
  cl_addr :: u16

text \<open>The driver: readiness; a write; a write followed by a read into a buffer, which a failed call
  may leave changed.\<close>

record 'w i2c_api =
  i2c_ready :: "dev \<Rightarrow> 'w \<Rightarrow> bool"
  i2c_write :: "dev \<Rightarrow> u8 list \<Rightarrow> u16 \<Rightarrow> 'w \<Rightarrow> int \<times> 'w"
  i2c_write_read :: "dev \<Rightarrow> u16 \<Rightarrow> u8 list \<Rightarrow> u8 list \<Rightarrow> 'w \<Rightarrow> int \<times> u8 list \<times> 'w"

definition validate_client :: "'w i2c_api \<Rightarrow> i2c_client option \<Rightarrow> 'w \<Rightarrow> int" where
  "validate_client api client w =
     (case client of None \<Rightarrow> - EINVAL
      | Some c \<Rightarrow>
        if cl_bus c = None \<or> cl_addr c > 0x7F then - EINVAL
        else if \<not> i2c_ready api (the (cl_bus c)) w then - ENODEV
        else 0)"

text \<open>The out parameter is passed with its content and returned; None is NULL.\<close>

definition reg_read_byte :: "'w i2c_api \<Rightarrow> i2c_client option \<Rightarrow> u8 \<Rightarrow> u8 option \<Rightarrow> 'w \<Rightarrow> int \<times> u8 option \<times> 'w" where
  "reg_read_byte api client reg out w =
     (if out = None then (- EINVAL, out, w)
      else
        let rc = validate_client api client w in
        if rc \<noteq> 0 then (rc, out, w)
        else case i2c_write_read api (the (cl_bus (the client))) (cl_addr (the client)) [reg] [the out] w of (rc, buf, w) \<Rightarrow>
          (rc, Some (hd buf), w))"

definition reg_write_byte :: "'w i2c_api \<Rightarrow> i2c_client option \<Rightarrow> u8 \<Rightarrow> u8 \<Rightarrow> 'w \<Rightarrow> int \<times> 'w" where
  "reg_write_byte api client reg val w =
     (let tx = [reg, val]; rc = validate_client api client w in
      if rc \<noteq> 0 then (rc, w) else i2c_write api (the (cl_bus (the client))) tx (cl_addr (the client)) w)"

text \<open>\<open>junk\<close> is the indeterminate content of the local \<open>old_value\<close>.\<close>

definition reg_update_byte :: "'w i2c_api \<Rightarrow> u8 \<Rightarrow> i2c_client option \<Rightarrow> u8 \<Rightarrow> u8 \<Rightarrow> u8 \<Rightarrow> 'w \<Rightarrow> int \<times> 'w" where
  "reg_update_byte api junk client reg msk val w =
     (case reg_read_byte api client reg (Some junk) w of (rc, old_value, w) \<Rightarrow>
      if rc \<noteq> 0 then (rc, w)
      else
        let old_value = the old_value; new_value = (old_value AND NOT msk) OR (val AND msk) in
        if new_value = old_value then (0, w) else reg_write_byte api client reg new_value w)"

section \<open>The program (main.c)\<close>

datatype lab21_stage =
  LAB21_STAGE_RESET | LAB21_STAGE_BUS_READY | LAB21_STAGE_READ_ORIGINAL | LAB21_STAGE_DIRECT_WRITE |
  LAB21_STAGE_VERIFY_WRITE | LAB21_STAGE_RESTORE_AFTER_WRITE | LAB21_STAGE_UPDATE |
  LAB21_STAGE_VERIFY_UPDATE | LAB21_STAGE_NOOP_UPDATE | LAB21_STAGE_FINAL_RESTORE |
  LAB21_STAGE_DONE | LAB21_STAGE_ERROR

abbreviation (input) LAB21_NOT_RUN :: int where "LAB21_NOT_RUN \<equiv> - 999"

text \<open>What the device tree says of the sensor: \<open>DT_REG_ADDR(I2C_NODE)\<close>, the client \<open>g_sensor\<close> and
  the three test properties, already converted to bytes.\<close>

record lab21_dt =
  dt_mmio_base :: u32
  dt_bus :: dev
  dt_addr :: u16
  TEST_REG :: u8
  TEST_MASK :: u8
  TEST_VALUE :: u8

definition g_sensor :: "lab21_dt \<Rightarrow> i2c_client" where
  "g_sensor dt = \<lparr>cl_bus = Some (dt_bus dt), cl_addr = dt_addr dt\<rparr>"

record lab21 =
  g_lab21_stage :: lab21_stage
  g_i2c_mmio_base :: u32
  g_sensor_addr :: u16
  g_test_reg :: u8
  g_test_mask :: u8
  g_test_value :: u8
  g_original_value :: u8
  g_direct_write_value :: u8
  g_after_direct_write :: u8
  g_expected_update_value :: u8
  g_after_update :: u8
  g_read_original_rc :: int
  g_direct_write_rc :: int
  g_verify_write_rc :: int
  g_restore_after_write_rc :: int
  g_update_rc :: int
  g_verify_update_rc :: int
  g_noop_update_rc :: int
  g_final_restore_rc :: int

definition lab21_reset :: lab21 where
  "lab21_reset = \<lparr>g_lab21_stage = LAB21_STAGE_RESET, g_i2c_mmio_base = 0, g_sensor_addr = 0, g_test_reg = 0,
     g_test_mask = 0, g_test_value = 0, g_original_value = 0, g_direct_write_value = 0, g_after_direct_write = 0,
     g_expected_update_value = 0, g_after_update = 0, g_read_original_rc = LAB21_NOT_RUN,
     g_direct_write_rc = LAB21_NOT_RUN, g_verify_write_rc = LAB21_NOT_RUN, g_restore_after_write_rc = LAB21_NOT_RUN,
     g_update_rc = LAB21_NOT_RUN, g_verify_update_rc = LAB21_NOT_RUN, g_noop_update_rc = LAB21_NOT_RUN,
     g_final_restore_rc = LAB21_NOT_RUN\<rparr>"

text \<open>\<open>lab21_error\<close> parks: the model returns the globals it parks with.\<close>

definition lab21_error :: "lab21 \<Rightarrow> lab21" where
  "lab21_error g = g\<lparr>g_lab21_stage := LAB21_STAGE_ERROR\<rparr>"

text \<open>Tests 3 and 4 of main: the masked update, the redundant update and the last restore.  \<open>val\<close> is
  the local \<open>value\<close>.\<close>

definition lab21_main_update :: "'w i2c_api \<Rightarrow> lab21_dt \<Rightarrow> u8 \<Rightarrow> u8 \<Rightarrow> lab21 \<Rightarrow> 'w \<Rightarrow> lab21 \<times> 'w" where
  "lab21_main_update api dt junk val g w =
     (let sensor = Some (g_sensor dt);
          g = g\<lparr>g_expected_update_value := (g_original_value g AND NOT (TEST_MASK dt)) OR (TEST_VALUE dt AND TEST_MASK dt),
                g_lab21_stage := LAB21_STAGE_UPDATE\<rparr> in
      case reg_update_byte api junk sensor (TEST_REG dt) (TEST_MASK dt) (TEST_VALUE dt) w of (rc, w) \<Rightarrow>
      let g = g\<lparr>g_update_rc := rc\<rparr> in
      if g_update_rc g \<noteq> 0 then (lab21_error g, w) else
      let g = g\<lparr>g_lab21_stage := LAB21_STAGE_VERIFY_UPDATE\<rparr> in
      case reg_read_byte api sensor (TEST_REG dt) (Some val) w of (rc, val, w) \<Rightarrow>
      let g = g\<lparr>g_verify_update_rc := rc\<rparr> in
      if g_verify_update_rc g \<noteq> 0 then (lab21_error g, w) else
      let g = g\<lparr>g_after_update := the val\<rparr> in
      if g_after_update g \<noteq> g_expected_update_value g then (lab21_error g, w) else
      let g = g\<lparr>g_lab21_stage := LAB21_STAGE_NOOP_UPDATE\<rparr> in
      case reg_update_byte api junk sensor (TEST_REG dt) (TEST_MASK dt) (g_after_update g) w of (rc, w) \<Rightarrow>
      let g = g\<lparr>g_noop_update_rc := rc\<rparr> in
      if g_noop_update_rc g \<noteq> 0 then (lab21_error g, w) else
      let g = g\<lparr>g_lab21_stage := LAB21_STAGE_FINAL_RESTORE\<rparr> in
      case reg_write_byte api sensor (TEST_REG dt) (g_original_value g) w of (rc, w) \<Rightarrow>
      let g = g\<lparr>g_final_restore_rc := rc\<rparr> in
      if g_final_restore_rc g \<noteq> 0 then (lab21_error g, w)
      else (g\<lparr>g_lab21_stage := LAB21_STAGE_DONE\<rparr>, w))"

definition lab21_main :: "'w i2c_api \<Rightarrow> lab21_dt \<Rightarrow> u8 \<Rightarrow> u8 \<Rightarrow> lab21 \<Rightarrow> 'w \<Rightarrow> lab21 \<times> 'w" where
  "lab21_main api dt junk val g w =
     (let sensor = Some (g_sensor dt);
          g = g\<lparr>g_lab21_stage := LAB21_STAGE_RESET, g_i2c_mmio_base := dt_mmio_base dt, g_sensor_addr := dt_addr dt,
                g_test_reg := TEST_REG dt, g_test_mask := TEST_MASK dt, g_test_value := TEST_VALUE dt\<rparr> in
      if \<not> i2c_ready api (dt_bus dt) w then (lab21_error g, w) else
      let g = g\<lparr>g_lab21_stage := LAB21_STAGE_BUS_READY\<rparr>; g = g\<lparr>g_lab21_stage := LAB21_STAGE_READ_ORIGINAL\<rparr> in
      case reg_read_byte api sensor (TEST_REG dt) (Some val) w of (rc, val, w) \<Rightarrow>
      let g = g\<lparr>g_read_original_rc := rc\<rparr> in
      if g_read_original_rc g \<noteq> 0 then (lab21_error g, w) else
      let g = g\<lparr>g_original_value := the val\<rparr>;
          g = g\<lparr>g_direct_write_value := g_original_value g XOR TEST_MASK dt, g_lab21_stage := LAB21_STAGE_DIRECT_WRITE\<rparr> in
      case reg_write_byte api sensor (TEST_REG dt) (g_direct_write_value g) w of (rc, w) \<Rightarrow>
      let g = g\<lparr>g_direct_write_rc := rc\<rparr> in
      if g_direct_write_rc g \<noteq> 0 then (lab21_error g, w) else
      let g = g\<lparr>g_lab21_stage := LAB21_STAGE_VERIFY_WRITE\<rparr> in
      case reg_read_byte api sensor (TEST_REG dt) val w of (rc, val, w) \<Rightarrow>
      let g = g\<lparr>g_verify_write_rc := rc\<rparr> in
      if g_verify_write_rc g \<noteq> 0 then (lab21_error g, w) else
      let g = g\<lparr>g_after_direct_write := the val\<rparr> in
      if g_after_direct_write g \<noteq> g_direct_write_value g then (lab21_error g, w) else
      let g = g\<lparr>g_lab21_stage := LAB21_STAGE_RESTORE_AFTER_WRITE\<rparr> in
      case reg_write_byte api sensor (TEST_REG dt) (g_original_value g) w of (rc, w) \<Rightarrow>
      let g = g\<lparr>g_restore_after_write_rc := rc\<rparr> in
      if g_restore_after_write_rc g \<noteq> 0 then (lab21_error g, w)
      else lab21_main_update api dt junk (the val) g w)"

section \<open>What the code relies on\<close>

text \<open>A target with a bank of byte registers.  A call that succeeds has done what it says; a failed
  write may have reached the register.\<close>

locale reg_target =
  fixes api :: "'w i2c_api" and contents :: "'w \<Rightarrow> u8 \<Rightarrow> u8" and I :: "'w \<Rightarrow> bool" and d :: dev and addr :: u16
  assumes write_inv: "I w \<Longrightarrow> i2c_write api d [r, v] addr w = (rc, w') \<Longrightarrow> I w'"
    and write_ok: "I w \<Longrightarrow> i2c_write api d [r, v] addr w = (0, w') \<Longrightarrow> contents w' = (contents w)(r := v)"
    and write_fail: "I w \<Longrightarrow> i2c_write api d [r, v] addr w = (rc, w') \<Longrightarrow>
      contents w' = contents w \<or> contents w' = (contents w)(r := v)"
    and read_inv: "I w \<Longrightarrow> i2c_write_read api d addr [r] [x] w = (rc, buf, w') \<Longrightarrow>
      I w' \<and> contents w' = contents w"
    and read_ok: "I w \<Longrightarrow> i2c_write_read api d addr [r] [x] w = (0, buf, w') \<Longrightarrow> buf = [contents w r]"

text \<open>While \<open>ok\<close> holds the bus is ready and every call succeeds.\<close>

locale reg_target_working = reg_target +
  fixes ok :: "'a \<Rightarrow> bool"
  assumes ok_inv: "ok w \<Longrightarrow> I w \<and> i2c_ready api d w"
    and ok_write: "ok w \<Longrightarrow> \<exists>w'. i2c_write api d [r, v] addr w = (0, w') \<and> ok w'"
    and ok_read: "ok w \<Longrightarrow> \<exists>buf w'. i2c_write_read api d addr [r] [x] w = (0, buf, w') \<and> ok w'"

definition masked :: "u8 \<Rightarrow> u8 \<Rightarrow> u8 \<Rightarrow> u8" where
  "masked msk new old = (old AND NOT msk) OR (new AND msk)"

lemma bit_masked: "bit (masked msk new old) i \<longleftrightarrow> (if bit msk i then bit new i else bit old i)" for msk :: u8
  by (cases "i < 8") (auto simp: masked_def bit_simps dest: bit_imp_le_length)

lemma masked_idem [simp]: "masked msk (masked msk new old) (masked msk new old) = masked msk new old"
  by (rule bit_word_eqI) (simp add: bit_masked)

lemma validate_reg: "validate_client api (Some c) w = 0 \<longleftrightarrow>
    (\<exists>d. cl_bus c = Some d \<and> i2c_ready api d w) \<and> cl_addr c \<le> 0x7F"
  by (auto simp: validate_client_def)

text \<open>A client that is NULL, has no bus, or is the target at the address on the bus.\<close>

definition client_of :: "dev \<Rightarrow> u16 \<Rightarrow> i2c_client option \<Rightarrow> bool" where
  "client_of d addr client \<longleftrightarrow>
     (case client of None \<Rightarrow> True | Some c \<Rightarrow> (cl_bus c = None \<or> cl_bus c = Some d) \<and> cl_addr c = addr)"

context reg_target
begin

lemma client_call: "client_of d addr client \<Longrightarrow> validate_client api client w = 0 \<Longrightarrow>
    cl_bus (the client) = Some d \<and> cl_addr (the client) = addr"
  by (cases client) (auto simp: client_of_def validate_client_def split: if_splits)

lemma read_byte:
  assumes "I w" "client_of d addr client" "reg_read_byte api client r out w = (rc, out', w')"
  shows "I w' \<and> contents w' = contents w \<and> (rc = 0 \<longrightarrow> out' = Some (contents w r))"
proof (cases "out = None \<or> validate_client api client w \<noteq> 0")
  case True
  then show ?thesis using assms by (auto simp: reg_read_byte_def split: if_splits)
next
  case False
  then obtain x buf where x: "out = Some x" "i2c_write_read api d addr [r] [x] w = (rc, buf, w')" "out' = Some (hd buf)"
    using assms(3) client_call [OF assms(2), of w] by (auto simp: reg_read_byte_def split: prod.splits)
  show ?thesis using read_inv [OF assms(1) x(2)] read_ok [OF assms(1), of r x buf w'] x by auto
qed

lemma write_byte:
  assumes "I w" "client_of d addr client" "reg_write_byte api client r v w = (rc, w')"
  shows "I w' \<and> (contents w' = (contents w)(r := v) \<or> rc \<noteq> 0 \<and> contents w' = contents w)"
proof (cases "validate_client api client w = 0")
  case True
  then have "i2c_write api d [r, v] addr w = (rc, w')"
    using assms(3) client_call [OF assms(2) True] by (simp add: reg_write_byte_def)
  then show ?thesis using write_inv write_ok write_fail assms(1) by (metis (full_types))
next
  case False
  then show ?thesis using assms by (auto simp: reg_write_byte_def)
qed

lemma update_byte:
  assumes "I w" "client_of d addr client" "reg_update_byte api junk client r msk v w = (rc, w')"
  shows "I w' \<and> (contents w' = (contents w)(r := masked msk v (contents w r)) \<or> rc \<noteq> 0 \<and> contents w' = contents w)"
proof -
  obtain rc1 old w1 where rd: "reg_read_byte api client r (Some junk) w = (rc1, old, w1)" by (metis prod_cases3)
  note r = read_byte [OF assms(1,2) rd]
  show ?thesis
  proof (cases "rc1 = 0")
    case False
    then show ?thesis using assms(3) rd r by (simp add: reg_update_byte_def)
  next
    case True
    let ?new = "masked msk v (contents w r)"
    have upd: "(if ?new = contents w r then (0, w1) else reg_write_byte api client r ?new w1) = (rc, w')"
      using assms(3) rd r True by (auto simp: reg_update_byte_def masked_def Let_def split: if_splits)
    have here1: "I w1" "contents w1 = contents w" using r by simp_all
    show ?thesis
    proof (cases "?new = contents w r")
      case True
      then show ?thesis using upd here1 by (auto simp: fun_upd_idem)
    next
      case False
      then have "reg_write_byte api client r ?new w1 = (rc, w')" using upd by simp
      from write_byte [OF here1(1) assms(2) this] show ?thesis using here1(2) by auto
    qed
  qed
qed

text \<open>A call confined to register \<open>R\<close>: the invariant holds and no other register changes.\<close>

definition only :: "u8 \<Rightarrow> 'w \<Rightarrow> 'w \<Rightarrow> bool" where
  "only R w w' \<longleftrightarrow> I w' \<and> (\<forall>r. r \<noteq> R \<longrightarrow> contents w' r = contents w r)"

lemma only_trans: "only R w w1 \<Longrightarrow> only R w1 w2 \<Longrightarrow> only R w w2"
  by (simp add: only_def)

lemma calls_only:
  assumes "I w" "client_of d addr client"
  shows "reg_read_byte api client R out w = (rc, out', w') \<Longrightarrow> only R w w' \<and> contents w' R = contents w R \<and> (rc = 0 \<longrightarrow> out' = Some (contents w R))"
    and "reg_write_byte api client R v w = (rc, w') \<Longrightarrow> only R w w' \<and> (rc = 0 \<longrightarrow> contents w' R = v)"
    and "reg_update_byte api junk client R msk v w = (rc, w') \<Longrightarrow> only R w w'"
  using read_byte [OF assms] write_byte [OF assms] update_byte [OF assms] by (fastforce simp: only_def)+

lemma main_update_only:
  assumes "I w" "cl_addr (g_sensor dt) = addr" "dt_bus dt = d"
    and "lab21_main_update api dt junk val g w = (g', w')"
  shows "only (TEST_REG dt) w w' \<and> (g_lab21_stage g' = LAB21_STAGE_DONE \<longrightarrow> contents w' (TEST_REG dt) = g_original_value g)"
proof -
  let ?s = "Some (g_sensor dt)" and ?R = "TEST_REG dt"
  have c: "client_of d addr ?s" using assms(2,3) by (simp add: client_of_def g_sensor_def)
  obtain rc1 w1 where 1: "reg_update_byte api junk ?s ?R (TEST_MASK dt) (TEST_VALUE dt) w = (rc1, w1)" by (rule prod.exhaust)
  have o1: "only ?R w w1" by (rule calls_only(3) [OF assms(1) c 1])
  obtain rc2 out2 w2 where 2: "reg_read_byte api ?s ?R (Some val) w1 = (rc2, out2, w2)" by (rule prod_cases3)
  have o2: "only ?R w w2" using calls_only(1) [OF _ c 2] o1 by (auto simp: only_def)
  obtain rc3 w3 where 3: "reg_update_byte api junk ?s ?R (TEST_MASK dt)
      ((g_original_value g AND NOT (TEST_MASK dt)) OR (TEST_VALUE dt AND TEST_MASK dt)) w2 = (rc3, w3)" by (rule prod.exhaust)
  have o3: "only ?R w w3" using calls_only(3) [OF _ c 3] o2 by (auto simp: only_def)
  obtain rc4 w4 where 4: "reg_write_byte api ?s ?R (g_original_value g) w3 = (rc4, w4)" by (rule prod.exhaust)
  have o4: "only ?R w w4" "rc4 = 0 \<Longrightarrow> contents w4 ?R = g_original_value g"
    using calls_only(2) [OF _ c 4] o3 by (auto simp: only_def)
  show ?thesis
    using assms(4) o1 o2 o3 o4
    by (auto simp: lab21_main_update_def Let_def 1 2 3 4 lab21_error_def split: if_splits)
qed

lemma main_only:
  assumes "I w" "dt_addr dt = addr" "dt_bus dt = d" "lab21_main api dt junk val g w = (g', w')"
  shows "only (TEST_REG dt) w w' \<and> (g_lab21_stage g' = LAB21_STAGE_DONE \<longrightarrow> contents w' = contents w)"
proof -
  let ?s = "Some (g_sensor dt)" and ?R = "TEST_REG dt"
  have a: "cl_addr (g_sensor dt) = addr" using assms(2) by (simp add: g_sensor_def)
  have c: "client_of d addr ?s" using assms(2,3) by (simp add: client_of_def g_sensor_def)
  obtain rc1 out1 w1 where 1: "reg_read_byte api ?s ?R (Some val) w = (rc1, out1, w1)" by (rule prod_cases3)
  obtain v where o1: "only ?R w w1" "v = contents w ?R" "rc1 = 0 \<Longrightarrow> out1 = Some v"
    using calls_only(1) [OF assms(1) c 1] by auto
  obtain rc2 w2 where 2: "reg_write_byte api ?s ?R (v XOR TEST_MASK dt) w1 = (rc2, w2)" by (rule prod.exhaust)
  have o2: "only ?R w w2" using calls_only(2) [OF _ c 2] o1 by (auto simp: only_def)
  obtain rc3 out3 w3 where 3: "reg_read_byte api ?s ?R (Some v) w2 = (rc3, out3, w3)" by (rule prod_cases3)
  have o3: "only ?R w w3" using calls_only(1) [OF _ c 3] o2 by (auto simp: only_def)
  obtain rc4 w4 where 4: "reg_write_byte api ?s ?R v w3 = (rc4, w4)" by (rule prod.exhaust)
  have o4: "only ?R w w4" using calls_only(2) [OF _ c 4] o3 by (auto simp: only_def)
  have upd: "lab21_main_update api dt junk x h w4 = (g', w') \<Longrightarrow> only ?R w w' \<and>
      (g_lab21_stage g' = LAB21_STAGE_DONE \<longrightarrow> contents w' ?R = g_original_value h)" for x h
    using main_update_only [OF _ a assms(3)] o4 by (auto simp: only_def)
  have w: "only ?R w w" using assms(1) by (simp add: only_def)
  have "only ?R w w' \<and> (g_lab21_stage g' = LAB21_STAGE_DONE \<longrightarrow> contents w' ?R = v)"
  proof (cases "rc1 = 0")
    case False
    then show ?thesis using assms(3,4) w o1(1) by (auto simp: lab21_main_def Let_def 1 lab21_error_def split: if_splits)
  next
    case True
    note out1 = o1(3) [OF True]
    show ?thesis using assms(3,4) w o1(1) o2 o3 o4 True
      by (auto simp: lab21_main_def Let_def 1 out1 2 3 4 lab21_error_def split: if_splits dest!: upd)
  qed
  then have "only ?R w w' \<and> (g_lab21_stage g' = LAB21_STAGE_DONE \<longrightarrow> contents w' ?R = contents w ?R)" using o1(2) by simp
  then show ?thesis unfolding only_def by (metis ext)
qed

end

context reg_target_working
begin

lemma ok_call:
  assumes "ok w" "client_of d addr (Some c)" "cl_bus c \<noteq> None" "addr \<le> 0x7F"
  shows "validate_client api (Some c) w = 0" "cl_bus c = Some d" "cl_addr c = addr"
  using assms ok_inv [OF assms(1)] by (auto simp: client_of_def validate_client_def)

lemma read_works:
  assumes "ok w" "client_of d addr (Some c)" "cl_bus c \<noteq> None" "addr \<le> 0x7F"
  obtains w' where "reg_read_byte api (Some c) r (Some x) w = (0, Some (contents w r), w')" "ok w'" "contents w' = contents w"
proof -
  obtain buf w' where r: "i2c_write_read api d addr [r] [x] w = (0, buf, w')" "ok w'" using ok_read [OF assms(1)] by blast
  then show ?thesis using that ok_call [OF assms] read_ok [OF _ r(1)] read_inv [OF _ r(1)] ok_inv [OF assms(1)]
    by (simp add: reg_read_byte_def)
qed

lemma write_works:
  assumes "ok w" "client_of d addr (Some c)" "cl_bus c \<noteq> None" "addr \<le> 0x7F"
  obtains w' where "reg_write_byte api (Some c) r v w = (0, w')" "ok w'" "contents w' = (contents w)(r := v)"
proof -
  obtain w' where r: "i2c_write api d [r, v] addr w = (0, w')" "ok w'" using ok_write [OF assms(1)] by blast
  then show ?thesis using that ok_call [OF assms] write_ok [OF _ r(1)] ok_inv [OF assms(1)]
    by (simp add: reg_write_byte_def)
qed

lemma update_works:
  assumes "ok w" "client_of d addr (Some c)" "cl_bus c \<noteq> None" "addr \<le> 0x7F"
  obtains w' where "reg_update_byte api junk (Some c) r msk v w = (0, w')" "ok w'"
    "contents w' = (contents w)(r := masked msk v (contents w r))"
proof -
  obtain w1 where 1: "reg_read_byte api (Some c) r (Some junk) w = (0, Some (contents w r), w1)" "ok w1" "contents w1 = contents w"
    by (rule read_works [OF assms])
  obtain w2 where 2: "reg_write_byte api (Some c) r (masked msk v (contents w r)) w1 = (0, w2)" "ok w2"
    "contents w2 = (contents w1)(r := masked msk v (contents w r))"
    by (rule write_works [OF 1(2) assms(2-4)])
  show ?thesis
  proof (cases "masked msk v (contents w r) = contents w r")
    case True
    then show ?thesis using that [of w1] 1 by (simp add: reg_update_byte_def masked_def Let_def fun_upd_idem)
  next
    case False
    then show ?thesis using that [of w2] 1 2 by (simp add: reg_update_byte_def masked_def Let_def)
  qed
qed

lemma main_update_works:
  assumes "ok w" "dt_addr dt = addr" "dt_bus dt = d" "addr \<le> 0x7F" "contents w (TEST_REG dt) = g_original_value g"
  shows "\<exists>g' w'. lab21_main_update api dt junk val g w = (g', w') \<and> g_lab21_stage g' = LAB21_STAGE_DONE \<and> ok w' \<and>
    g_after_update g' = masked (TEST_MASK dt) (TEST_VALUE dt) (g_original_value g)"
proof -
  let ?c = "g_sensor dt" and ?R = "TEST_REG dt" and ?v = "masked (TEST_MASK dt) (TEST_VALUE dt) (g_original_value g)"
  have c: "client_of d addr (Some ?c)" "cl_bus ?c \<noteq> None" using assms(2,3) by (simp_all add: client_of_def g_sensor_def)
  obtain w1 where 1: "reg_update_byte api junk (Some ?c) ?R (TEST_MASK dt) (TEST_VALUE dt) w = (0, w1)" "ok w1" "contents w1 ?R = ?v"
    using assms(5) by (metis update_works [OF assms(1) c assms(4)] fun_upd_same)
  obtain w2 where 2: "reg_read_byte api (Some ?c) ?R (Some val) w1 = (0, Some ?v, w2)" "ok w2" "contents w2 ?R = ?v"
    using 1(3) by (metis read_works [OF 1(2) c assms(4)])
  obtain w3 where 3: "reg_update_byte api junk (Some ?c) ?R (TEST_MASK dt) ?v w2 = (0, w3)" "ok w3"
    by (metis update_works [OF 2(2) c assms(4)])
  obtain w4 where 4: "reg_write_byte api (Some ?c) ?R (g_original_value g) w3 = (0, w4)" "ok w4"
    by (metis write_works [OF 3(2) c assms(4)])
  show ?thesis using 1 2 3 4 by (simp add: lab21_main_update_def Let_def flip: masked_def)
qed

lemma main_works:
  assumes "ok w" "dt_addr dt = addr" "dt_bus dt = d" "addr \<le> 0x7F"
  shows "\<exists>g' w'. lab21_main api dt junk val g w = (g', w') \<and> g_lab21_stage g' = LAB21_STAGE_DONE \<and>
    contents w' = contents w \<and> g_after_update g' = masked (TEST_MASK dt) (TEST_VALUE dt) (contents w (TEST_REG dt))"
proof -
  let ?c = "g_sensor dt" and ?R = "TEST_REG dt" and ?v = "contents w (TEST_REG dt)"
  have c: "client_of d addr (Some ?c)" "cl_bus ?c \<noteq> None" using assms(2,3) by (simp_all add: client_of_def g_sensor_def)
  note rd = read_works [OF _ c assms(4)] and wr = write_works [OF _ c assms(4)]
  obtain w1 where 1: "reg_read_byte api (Some ?c) ?R (Some val) w = (0, Some ?v, w1)" "ok w1" by (rule rd [OF assms(1)])
  obtain w2 where 2: "reg_write_byte api (Some ?c) ?R (?v XOR TEST_MASK dt) w1 = (0, w2)" "ok w2"
    "contents w2 ?R = ?v XOR TEST_MASK dt" by (metis wr [OF 1(2)] fun_upd_same)
  obtain w3 where 3: "reg_read_byte api (Some ?c) ?R (Some ?v) w2 = (0, Some (?v XOR TEST_MASK dt), w3)" "ok w3"
    by (metis rd [OF 2(2)] 2(3))
  obtain w4 where 4: "reg_write_byte api (Some ?c) ?R ?v w3 = (0, w4)" "ok w4" "contents w4 ?R = ?v"
    by (metis wr [OF 3(2)] fun_upd_same)
  obtain g' w' where m: "lab21_main api dt junk val g w = (g', w')" by (rule prod.exhaust)
  have ready: "i2c_ready api d w" using ok_inv [OF assms(1)] by simp
  obtain h where h: "lab21_main api dt junk val g w = lab21_main_update api dt junk (?v XOR TEST_MASK dt) h w4" "g_original_value h = ?v"
    using 1 2 3 4 ready assms(3) by (simp add: lab21_main_def Let_def)
  have "contents w4 (TEST_REG dt) = g_original_value h" using 4(3) h(2) by simp
  then have fine: "g_lab21_stage g' = LAB21_STAGE_DONE" "g_after_update g' = masked (TEST_MASK dt) (TEST_VALUE dt) ?v"
    using main_update_works [OF 4(2) assms(2-4), of h junk "?v XOR TEST_MASK dt"] m h by auto
  show ?thesis using fine m main_only [OF _ assms(2,3) m] ok_inv [OF assms(1)] by blast
qed

end

section \<open>The driver double of tests/host_contract.c\<close>

text \<open>Register banks per bus and address, error codes to return, and whether a failed call still
  stores what it read or writes the register.  The CHECK macros stop the test and have no
  counterpart.\<close>

record i2c_mock =
  mk_registers :: "dev \<Rightarrow> u16 \<Rightarrow> u8 \<Rightarrow> u8"
  mk_ready :: "dev \<Rightarrow> bool"
  mk_reads :: nat
  mk_writes :: nat
  mk_trace :: string
  mk_read_error :: int
  mk_write_error :: int
  mk_modify_read_on_error :: bool
  mk_commit_write_on_error :: bool
  mk_unready_after_read :: bool

definition mock_write_read :: "dev \<Rightarrow> u16 \<Rightarrow> u8 list \<Rightarrow> u8 list \<Rightarrow> i2c_mock \<Rightarrow> int \<times> u8 list \<times> i2c_mock" where
  "mock_write_read dev addr tx buf m =
     (let m = m\<lparr>mk_reads := mk_reads m + 1, mk_trace := mk_trace m @ ''R''\<rparr>;
          buf = (if mk_read_error m = 0 \<or> mk_modify_read_on_error m then [mk_registers m dev addr (hd tx)] else buf);
          m = (if mk_unready_after_read m then m\<lparr>mk_ready := (mk_ready m)(dev := False)\<rparr> else m)
      in (mk_read_error m, buf, m))"

definition mock_write :: "dev \<Rightarrow> u8 list \<Rightarrow> u16 \<Rightarrow> i2c_mock \<Rightarrow> int \<times> i2c_mock" where
  "mock_write dev buf addr m =
     (let m = m\<lparr>mk_writes := mk_writes m + 1, mk_trace := mk_trace m @ ''W''\<rparr>;
          m = (if mk_write_error m = 0 \<or> mk_commit_write_on_error m
               then m\<lparr>mk_registers := (mk_registers m)(dev := (mk_registers m dev)(addr :=
                      (mk_registers m dev addr)(buf ! 0 := buf ! 1)))\<rparr> else m)
      in (mk_write_error m, m))"

definition mock_api :: "i2c_mock i2c_api" where
  "mock_api = \<lparr>i2c_ready = (\<lambda>dev m. mk_ready m dev), i2c_write = mock_write, i2c_write_read = mock_write_read\<rparr>"

definition mock_ok :: "dev \<Rightarrow> i2c_mock \<Rightarrow> bool" where
  "mock_ok dev m \<longleftrightarrow> mk_ready m dev \<and> mk_read_error m = 0 \<and> mk_write_error m = 0 \<and> \<not> mk_unready_after_read m"

interpretation mock: reg_target_working mock_api "\<lambda>m. mk_registers m dev addr" "\<lambda>_. True" dev addr "mock_ok dev"
  for dev addr
  by unfold_locales
    (auto simp: mock_api_def mock_write_def mock_write_read_def mock_ok_def Let_def split: if_splits)

definition mock_reset :: i2c_mock where
  "mock_reset = \<lparr>mk_registers = (\<lambda>_ _ _. 0x3C), mk_ready = (\<lambda>_. True), mk_reads = 0, mk_writes = 0, mk_trace = [],
     mk_read_error = 0, mk_write_error = 0, mk_modify_read_on_error = False, mk_commit_write_on_error = False,
     mk_unready_after_read = False\<rparr>"

lemma mock_reset [simp]: "mock_ok dev mock_reset"
  by (simp add: mock_ok_def mock_reset_def)

definition overlay :: lab21_dt where
  "overlay = \<lparr>dt_mmio_base = 0x4002A000, dt_bus = 0, dt_addr = 0x2A, TEST_REG = 0x10, TEST_MASK = 0x0F, TEST_VALUE = 0x05\<rparr>"

section \<open>Properties\<close>

text \<open>C29.  A masked update of a register either reaches the register - the bits of the mask are those of
  the value, the others are kept - or, only if it reports an error, changes nothing.  No other register
  changes.\<close>

theorem reg_update_byte_bits:
  assumes "reg_target api contents I d addr" "I w" "client_of d addr client"
    and "reg_update_byte api junk client r msk v w = (rc, w')"
  shows "(\<forall>r'. r' \<noteq> r \<longrightarrow> contents w' r' = contents w r') \<and>
    ((\<forall>i. bit (contents w' r) i = (if bit msk i then bit v i else bit (contents w r) i)) \<or>
     rc \<noteq> 0 \<and> contents w' r = contents w r)"
  using reg_target.update_byte [OF assms] by (auto simp: bit_masked)

theorem reg_update_byte_bits_witness:
  "\<exists>rc w'. reg_update_byte mock_api 0 (Some \<lparr>cl_bus = Some 0, cl_addr = 0x2A\<rparr>) 0x10 0x0F 0x05 mock_reset = (rc, w') \<and>
    (\<forall>r'. r' \<noteq> 0x10 \<longrightarrow> mk_registers w' 0 0x2A r' = mk_registers mock_reset 0 0x2A r')"
proof -
  obtain rc w' where u: "reg_update_byte mock_api 0 (Some \<lparr>cl_bus = Some 0, cl_addr = 0x2A\<rparr>) 0x10 0x0F 0x05 mock_reset = (rc, w')"
    by (rule prod.exhaust)
  show ?thesis
    using reg_update_byte_bits [OF mock.reg_target_axioms [of 0 "0x2A"] TrueI _ u] u by (simp add: client_of_def)
qed

text \<open>Note.  An update that would store the value already there is one read and no write.\<close>

theorem reg_update_byte_redundant:
  assumes "reg_read_byte api client r (Some junk) w = (0, Some old, w1)" "old AND msk = v AND msk"
  shows "reg_update_byte api junk client r msk v w = (0, w1)"
proof -
  have "masked msk v old = old"
    by (rule bit_word_eqI) (use assms(2) in \<open>auto simp: bit_masked dest: arg_cong [where f = "\<lambda>x. bit x _"] simp: bit_and_iff\<close>)
  then show ?thesis using assms(1) by (simp add: reg_update_byte_def masked_def)
qed

theorem reg_update_byte_redundant_witness:
  "\<exists>w1. reg_update_byte mock_api 0 (Some \<lparr>cl_bus = Some 0, cl_addr = 0x2A\<rparr>) 0x10 0x0F 0x5C mock_reset = (0, w1) \<and> mk_writes w1 = 0"
proof -
  have "reg_read_byte mock_api (Some \<lparr>cl_bus = Some 0, cl_addr = 0x2A\<rparr>) 0x10 (Some 0) mock_reset =
      (0, Some 0x3C, mock_reset\<lparr>mk_reads := 1, mk_trace := ''R''\<rparr>)"
    by (simp add: reg_read_byte_def validate_client_def mock_api_def mock_write_read_def mock_reset_def)
  from reg_update_byte_redundant [OF this, of "0x0F" "0x5C"] show ?thesis by (simp add: mock_reset_def)
qed

text \<open>Note.  Whatever the driver's errors, the program changes no register but the one it tests, and if it
  reaches its last stage that register holds its original value again.\<close>

theorem lab21_main_restores:
  assumes "reg_target api contents I d addr" "I w" "dt_addr dt = addr" "dt_bus dt = d"
    and "lab21_main api dt junk val g w = (g', w')"
  shows "(\<forall>r. r \<noteq> TEST_REG dt \<longrightarrow> contents w' r = contents w r) \<and>
    (g_lab21_stage g' = LAB21_STAGE_DONE \<longrightarrow> contents w' = contents w)"
  using reg_target.main_only [OF assms] by (simp add: reg_target.only_def [OF assms(1)])

theorem lab21_main_restores_witness:
  "\<exists>g' w'. lab21_main mock_api overlay 0 0 lab21_reset mock_reset = (g', w') \<and>
     (g_lab21_stage g' = LAB21_STAGE_DONE \<longrightarrow> mk_registers w' 0 0x2A = mk_registers mock_reset 0 0x2A)"
proof -
  obtain g' w' where m: "lab21_main mock_api overlay 0 0 lab21_reset mock_reset = (g', w')" by (rule prod.exhaust)
  show ?thesis using lab21_main_restores [OF mock.reg_target_axioms [of 0 "0x2A"] TrueI _ _ m] m by (simp add: overlay_def)
qed

text \<open>Note.  With a working driver and a seven-bit address the program passes all its tests; it has seen the
  masked value and the registers are as before.\<close>

theorem lab21_main_done:
  assumes "reg_target_working api contents I d addr ok" "ok w" "dt_addr dt = addr" "dt_bus dt = d" "addr \<le> 0x7F"
  shows "\<exists>g' w'. lab21_main api dt junk val g w = (g', w') \<and> g_lab21_stage g' = LAB21_STAGE_DONE \<and>
    contents w' = contents w \<and>
    g_after_update g' = (contents w (TEST_REG dt) AND NOT (TEST_MASK dt)) OR (TEST_VALUE dt AND TEST_MASK dt)"
  using reg_target_working.main_works [OF assms] by (simp add: masked_def)

theorem lab21_main_done_witness:
  "\<exists>g' w'. lab21_main mock_api overlay 0 0 lab21_reset mock_reset = (g', w') \<and> g_lab21_stage g' = LAB21_STAGE_DONE \<and>
    mk_registers w' 0 0x2A = mk_registers mock_reset 0 0x2A \<and> g_after_update g' = 0x35"
proof -
  have "reg_target_working mock_api (\<lambda>m. mk_registers m 0 0x2A) (\<lambda>_. True) 0 0x2A (mock_ok 0)"
    by (rule mock.reg_target_working_axioms)
  from lab21_main_done [OF this mock_reset, of overlay 0 0 lab21_reset]
  show ?thesis by (simp add: overlay_def mock_reset_def)
qed

end
