(* ===== verification/Spi_Command.thy ===== *)
theory Spi_Command
  imports Prelude
begin

text \<open>
  labs/lab22_spi_command_read_zephyr: a command/reply transfer over Zephyr's SPI API
  (src/spi_command.c), the fixed clock adapter its controller needs
  (drivers/clock_control/lab22_fixed_clock.c) and the loopback test program (src/main.c).

  Zephyr's SPI and GPIO drivers are the parameter \<open>spi_api\<close>; the locale \<open>spi_link\<close> says what the code
  relies on, and the double of tests/host_contract.c provides it.  The constants of the SPI API are
  those of the header the repository reviews against Zephyr's
  (tests/include/zephyr/drivers/spi.h).
\<close>

section \<open>The SPI API\<close>

abbreviation (input) SPI_OP_MODE_CONTROLLER :: u32 where "SPI_OP_MODE_CONTROLLER \<equiv> 0"
abbreviation (input) SPI_MODE_CPOL :: u32 where "SPI_MODE_CPOL \<equiv> 0x2"
abbreviation (input) SPI_MODE_CPHA :: u32 where "SPI_MODE_CPHA \<equiv> 0x4"
abbreviation (input) SPI_MODE_LOOP :: u32 where "SPI_MODE_LOOP \<equiv> 0x8"
abbreviation (input) SPI_TRANSFER_MSB :: u32 where "SPI_TRANSFER_MSB \<equiv> 0"
abbreviation (input) SPI_HALF_DUPLEX :: u32 where "SPI_HALF_DUPLEX \<equiv> 0x800"
abbreviation (input) SPI_HOLD_ON_CS :: u32 where "SPI_HOLD_ON_CS \<equiv> 0x1000"
abbreviation (input) SPI_LOCK_ON :: u32 where "SPI_LOCK_ON \<equiv> 0x2000"
abbreviation (input) SPI_CS_ACTIVE_HIGH :: u32 where "SPI_CS_ACTIVE_HIGH \<equiv> 0x4000"
abbreviation (input) SPI_FRAME_FORMAT_TI :: u32 where "SPI_FRAME_FORMAT_TI \<equiv> 0x8000"
abbreviation (input) GPIO_ACTIVE_LOW :: u16 where "GPIO_ACTIVE_LOW \<equiv> 1"

definition SPI_OP_MODE_GET :: "u32 \<Rightarrow> u32" where "SPI_OP_MODE_GET op = op AND 1"
definition SPI_WORD_SET :: "u32 \<Rightarrow> u32" where "SPI_WORD_SET n = push_bit 5 n"
definition SPI_WORD_SIZE_GET :: "u32 \<Rightarrow> u32" where "SPI_WORD_SIZE_GET op = drop_bit 5 op AND 0x3F"

record gpio_dt_spec =
  gpio_port :: "dev option"
  gpio_pin :: u32
  gpio_dt_flags :: u16

record spi_cs_control =
  cs_gpio :: gpio_dt_spec
  cs_delay :: u32
  cs_is_gpio :: bool

record spi_config =
  spi_frequency :: u32
  spi_operation :: u32
  spi_peripheral :: u16
  spi_cs :: spi_cs_control
  spi_word_delay :: u16

text \<open>A buffer descriptor: None is NULL (zeros are sent, received bytes dropped).  Receive buffers
  are passed with their content and returned.\<close>

record spi_buf =
  sb_buf :: "u8 list option"
  sb_len :: nat

record 'w spi_api =
  spi_dev_ready :: "dev \<Rightarrow> 'w \<Rightarrow> bool"
  spi_transceive :: "dev \<Rightarrow> spi_config \<Rightarrow> spi_buf list \<Rightarrow> spi_buf list \<Rightarrow> 'w \<Rightarrow> int \<times> spi_buf list \<times> 'w"

definition spi_cs_is_gpio :: "spi_config \<Rightarrow> bool" where
  "spi_cs_is_gpio config = cs_is_gpio (spi_cs config)"

definition gpio_is_ready_dt :: "'w spi_api \<Rightarrow> gpio_dt_spec \<Rightarrow> 'w \<Rightarrow> bool" where
  "gpio_is_ready_dt api gp w \<longleftrightarrow> gpio_port gp \<noteq> None \<and> spi_dev_ready api (the (gpio_port gp)) w"

section \<open>Command and reply (spi_command.h, spi_command.c)\<close>

abbreviation (input) SPI_COMMAND_MAX_REPLY :: nat where "SPI_COMMAND_MAX_REPLY \<equiv> 16"

record spi_client =
  sp_bus :: "dev option"
  sp_config :: "spi_config option"

definition spi_client_ready :: "'w spi_api \<Rightarrow> spi_client option \<Rightarrow> 'w \<Rightarrow> int" where
  "spi_client_ready api client w =
     (case client of None \<Rightarrow> - EINVAL
      | Some c \<Rightarrow>
        if sp_bus c = None \<or> sp_config c = None then - EINVAL
        else
          let config = the (sp_config c); operation = spi_operation config in
          if spi_frequency config = 0 then - EINVAL
          else
            let allowed = SPI_WORD_SET 8 OR SPI_MODE_CPOL OR SPI_MODE_CPHA OR SPI_MODE_LOOP OR SPI_CS_ACTIVE_HIGH in
            if SPI_OP_MODE_GET operation \<noteq> SPI_OP_MODE_CONTROLLER then - ENOTSUP
            else if SPI_WORD_SIZE_GET operation \<noteq> 8 \<or> operation AND NOT allowed \<noteq> 0 then - ENOTSUP
            else if operation AND SPI_HALF_DUPLEX \<noteq> 0 then - ENOTSUP
            else if operation AND SPI_FRAME_FORMAT_TI \<noteq> 0 then - ENOTSUP
            else if operation AND SPI_HOLD_ON_CS \<noteq> 0 \<or> operation AND SPI_LOCK_ON \<noteq> 0 then - ENOTSUP
            else if \<not> spi_dev_ready api (the (sp_bus c)) w then - ENODEV
            else if spi_cs_is_gpio config then
              (if gpio_port (cs_gpio (spi_cs config)) = None then - EINVAL
               else if \<not> gpio_is_ready_dt api (cs_gpio (spi_cs config)) w then - ENODEV
               else
                 let gpio_active_low = (gpio_dt_flags (cs_gpio (spi_cs config)) AND GPIO_ACTIVE_LOW \<noteq> 0);
                     gpio_active_high = (operation AND SPI_CS_ACTIVE_HIGH \<noteq> 0)
                 in if gpio_active_low = gpio_active_high then - EINVAL else 0)
            else if operation AND SPI_MODE_LOOP = 0 then - ENOTSUP
            else 0)"

text \<open>\<open>reply\<close> is the memory from the pointer on; the bytes after \<open>reply_len\<close> are not the driver's.\<close>

definition spi_command_read :: "'w spi_api \<Rightarrow> spi_client option \<Rightarrow> u8 \<Rightarrow> u8 list option \<Rightarrow> nat \<Rightarrow> 'w \<Rightarrow>
    int \<times> u8 list option \<times> 'w" where
  "spi_command_read api client command reply reply_len w =
     (if reply = None \<or> reply_len = 0 then (- EINVAL, reply, w)
      else if reply_len > SPI_COMMAND_MAX_REPLY then (- EMSGSIZE, reply, w)
      else
        let rc = spi_client_ready api client w in
        if rc \<noteq> 0 then (rc, reply, w)
        else
          let tx = [\<lparr>sb_buf = Some [command], sb_len = 1\<rparr>, \<lparr>sb_buf = None, sb_len = reply_len\<rparr>];
              rx = [\<lparr>sb_buf = None, sb_len = 1\<rparr>, \<lparr>sb_buf = Some (take reply_len (the reply)), sb_len = reply_len\<rparr>]
          in case spi_transceive api (the (sp_bus (the client))) (the (sp_config (the client))) tx rx w of (rc, rx, w) \<Rightarrow>
            (rc, Some (the (sb_buf (rx ! 1)) @ drop reply_len (the reply)), w))"

section \<open>The clock adapter (lab22_fixed_clock.c)\<close>

datatype clock_control_status = CLOCK_CONTROL_STATUS_STARTING | CLOCK_CONTROL_STATUS_OFF |
  CLOCK_CONTROL_STATUS_ON | CLOCK_CONTROL_STATUS_UNKNOWN

record lab22_clock_config =
  rate_hz :: u32

definition lab22_clock_on :: int where "lab22_clock_on = 0"
definition lab22_clock_off :: int where "lab22_clock_off = 0"

definition lab22_clock_get_rate :: "lab22_clock_config \<Rightarrow> u32 option \<Rightarrow> int \<times> u32 option" where
  "lab22_clock_get_rate config rate = (if rate = None then (- EINVAL, rate) else (0, Some (rate_hz config)))"

definition lab22_clock_get_status :: clock_control_status where
  "lab22_clock_get_status = CLOCK_CONTROL_STATUS_ON"

definition lab22_clock_init :: int where "lab22_clock_init = 0"

section \<open>The test program (main.c)\<close>

abbreviation (input) LAB22_NOT_RUN :: int where "LAB22_NOT_RUN \<equiv> - 999"
abbreviation (input) COMMAND :: u8 where "COMMAND \<equiv> 0x9F"
abbreviation (input) SHORT_REPLY :: nat where "SHORT_REPLY \<equiv> 3"
abbreviation (input) FILL :: u8 where "FILL \<equiv> 0xCC"

datatype lab22_stage =
  LAB22_STAGE_RESET | LAB22_STAGE_READY | LAB22_STAGE_SHORT_REPLY | LAB22_STAGE_MAX_REPLY |
  LAB22_STAGE_INVALID_ARGS | LAB22_STAGE_DONE | LAB22_STAGE_ERROR

record lab22 =
  g_storage :: "u8 list"
  g_lab22_stage :: lab22_stage
  g_lab22_failed_stage :: lab22_stage
  g22_ready_rc :: int
  g_short_rc :: int
  g_max_rc :: int
  g_null_rc :: int
  g_zero_rc :: int
  g_oversize_rc :: int
  g_short_check :: int
  g_max_check :: int
  g_invalid_check :: int
  g_spi_mmio_base :: u32
  g_spi_cr0 :: u32
  g_spi_cr1 :: u32
  g_spi_cpsr :: u32
  g_command :: u8
  g_short_reply :: "u8 list"
  g_max_reply :: "u8 list"

definition lab22_reset :: lab22 where
  "lab22_reset = \<lparr>g_storage = replicate 18 0, g_lab22_stage = LAB22_STAGE_RESET, g_lab22_failed_stage = LAB22_STAGE_RESET,
     g22_ready_rc = LAB22_NOT_RUN, g_short_rc = LAB22_NOT_RUN, g_max_rc = LAB22_NOT_RUN, g_null_rc = LAB22_NOT_RUN, g_zero_rc = LAB22_NOT_RUN,
     g_oversize_rc = LAB22_NOT_RUN, g_short_check = LAB22_NOT_RUN, g_max_check = LAB22_NOT_RUN, g_invalid_check = LAB22_NOT_RUN,
     g_spi_mmio_base = 0, g_spi_cr0 = 0, g_spi_cr1 = 0, g_spi_cpsr = 0, g_command = 0,
     g_short_reply = replicate 3 0, g_max_reply = replicate 16 0\<rparr>"

text \<open>What the device tree fixes: the controller, its configuration, its base address; and the
  register reads of \<open>sys_read32\<close>.\<close>

record 'w lab22_dt =
  dt22_bus :: dev
  g_spi_config :: spi_config
  dt22_base :: u32
  sys_read32 :: "u32 \<Rightarrow> 'w \<Rightarrow> u32 \<times> 'w"

definition g22_sensor :: "'w lab22_dt \<Rightarrow> spi_client" where
  "g22_sensor dt = \<lparr>sp_bus = Some (dt22_bus dt), sp_config = Some (g_spi_config dt)\<rparr>"

definition lab22_fail :: "lab22 \<Rightarrow> lab22" where
  "lab22_fail g = g\<lparr>g_lab22_failed_stage := g_lab22_stage g, g_lab22_stage := LAB22_STAGE_ERROR\<rparr>"

definition prepare_storage :: "lab22 \<Rightarrow> lab22" where
  "prepare_storage g = g\<lparr>g_storage := ((replicate 18 FILL)[0 := 0xA5])[17 := 0x5A]\<rparr>"

definition verify_storage :: "u8 list \<Rightarrow> nat \<Rightarrow> int" where
  "verify_storage storage len =
     (if storage ! 0 \<noteq> 0xA5 \<or> storage ! 17 \<noteq> 0x5A then - 1
      else if list_ex (\<lambda>i. storage ! (i + 1) \<noteq> (if i < len then 0 else FILL)) [0..<SPI_COMMAND_MAX_REPLY] then - 1
      else 0)"

text \<open>A call with the reply pointer \<open>&g_storage[1]\<close>.\<close>

definition storage_read :: "'w spi_api \<Rightarrow> 'w lab22_dt \<Rightarrow> nat \<Rightarrow> lab22 \<Rightarrow> 'w \<Rightarrow> int \<times> lab22 \<times> 'w" where
  "storage_read api dt len g w =
     (case spi_command_read api (Some (g22_sensor dt)) COMMAND (Some (drop 1 (g_storage g))) len w of (rc, reply, w) \<Rightarrow>
        (rc, g\<lparr>g_storage := take 1 (g_storage g) @ the reply\<rparr>, w))"

text \<open>Test 4 of main.\<close>

definition lab22_main_invalid :: "'w spi_api \<Rightarrow> 'w lab22_dt \<Rightarrow> lab22 \<Rightarrow> 'w \<Rightarrow> lab22 \<times> 'w" where
  "lab22_main_invalid api dt g w =
     (let g = prepare_storage (g\<lparr>g_lab22_stage := LAB22_STAGE_INVALID_ARGS\<rparr>) in
      case spi_command_read api (Some (g22_sensor dt)) COMMAND None 1 w of (null_rc, _, w) \<Rightarrow>
      let g = g\<lparr>g_null_rc := null_rc\<rparr> in
      case storage_read api dt 0 g w of (zero_rc, g, w) \<Rightarrow>
      let g = g\<lparr>g_zero_rc := zero_rc\<rparr> in
      case storage_read api dt (SPI_COMMAND_MAX_REPLY + 1) g w of (oversize_rc, g, w) \<Rightarrow>
      let g = g\<lparr>g_oversize_rc := oversize_rc, g_invalid_check := verify_storage (g_storage g) 0\<rparr> in
      if g_null_rc g \<noteq> - EINVAL \<or> g_zero_rc g \<noteq> - EINVAL \<or> g_oversize_rc g \<noteq> - EMSGSIZE \<or> g_invalid_check g \<noteq> 0
      then (lab22_fail g, w)
      else (g\<lparr>g_lab22_stage := LAB22_STAGE_DONE\<rparr>, w))"

definition lab22_main :: "'w spi_api \<Rightarrow> 'w lab22_dt \<Rightarrow> lab22 \<Rightarrow> 'w \<Rightarrow> lab22 \<times> 'w" where
  "lab22_main api dt g w =
     (let g = g\<lparr>g_lab22_stage := LAB22_STAGE_RESET, g_spi_mmio_base := dt22_base dt, g_command := COMMAND\<rparr>;
          g = g\<lparr>g_lab22_stage := LAB22_STAGE_READY\<rparr>;
          g = g\<lparr>g22_ready_rc := spi_client_ready api (Some (g22_sensor dt)) w\<rparr> in
      if g22_ready_rc g \<noteq> 0 then (lab22_fail g, w) else
      let g = prepare_storage (g\<lparr>g_lab22_stage := LAB22_STAGE_SHORT_REPLY\<rparr>) in
      case storage_read api dt SHORT_REPLY g w of (rc, g, w) \<Rightarrow>
      let g = g\<lparr>g_short_rc := rc, g_short_check := verify_storage (g_storage g) SHORT_REPLY,
                g_short_reply := take SHORT_REPLY (drop 1 (g_storage g))\<rparr> in
      case sys_read32 dt (g_spi_mmio_base g) w of (cr0, w) \<Rightarrow>
      case sys_read32 dt (g_spi_mmio_base g + 0x04) w of (cr1, w) \<Rightarrow>
      case sys_read32 dt (g_spi_mmio_base g + 0x10) w of (cpsr, w) \<Rightarrow>
      let g = g\<lparr>g_spi_cr0 := cr0, g_spi_cr1 := cr1, g_spi_cpsr := cpsr\<rparr> in
      if g_short_rc g \<noteq> 0 \<or> g_short_check g \<noteq> 0 \<or> g_spi_cr1 g AND 3 \<noteq> 3 then (lab22_fail g, w) else
      let g = prepare_storage (g\<lparr>g_lab22_stage := LAB22_STAGE_MAX_REPLY\<rparr>) in
      case storage_read api dt SPI_COMMAND_MAX_REPLY g w of (rc, g, w) \<Rightarrow>
      let g = g\<lparr>g_max_rc := rc, g_max_check := verify_storage (g_storage g) SPI_COMMAND_MAX_REPLY,
                g_max_reply := take SPI_COMMAND_MAX_REPLY (drop 1 (g_storage g))\<rparr> in
      if g_max_rc g \<noteq> 0 \<or> g_max_check g \<noteq> 0 then (lab22_fail g, w)
      else lab22_main_invalid api dt g w)"

section \<open>What the code relies on\<close>

text \<open>The bytes a list of descriptors sends, and received bytes stored into descriptors.\<close>

fun gather :: "spi_buf list \<Rightarrow> u8 list" where
  "gather [] = []"
| "gather (b # bs) = (case sb_buf b of None \<Rightarrow> replicate (sb_len b) 0 | Some x \<Rightarrow> take (sb_len b) x) @ gather bs"

fun scatter :: "u8 list \<Rightarrow> spi_buf list \<Rightarrow> spi_buf list" where
  "scatter bytes [] = []"
| "scatter bytes (b # bs) =
     (let here = take (sb_len b) bytes in
      b\<lparr>sb_buf := map_option (\<lambda>x. here @ drop (length here) x) (sb_buf b)\<rparr> # scatter (drop (sb_len b) bytes) bs)"

text \<open>A transfer exchanges frames with the device: \<open>answer\<close> gives the byte received for each byte
  sent.  A failed transfer may have stored the bytes of the frames before it failed.\<close>

locale spi_link =
  fixes api :: "'w spi_api" and d :: dev and answer :: "spi_config \<Rightarrow> 'w \<Rightarrow> u8 list \<Rightarrow> u8 list"
  assumes answer_length: "length (answer cfg w bytes) = length bytes"
    and transfer_ok: "length (gather tx) = sum_list (map sb_len rx) \<Longrightarrow>
      spi_transceive api d cfg tx rx w = (0, rx', w') \<Longrightarrow> rx' = scatter (answer cfg w (gather tx)) rx"
    and transfer_fail: "length (gather tx) = sum_list (map sb_len rx) \<Longrightarrow>
      spi_transceive api d cfg tx rx w = (rc, rx', w') \<Longrightarrow> \<exists>n. rx' = scatter (take n (answer cfg w (gather tx))) rx"

section \<open>Accepted clients\<close>

lemma operation_bits:
  "op AND NOT (0x410E::u32) = 0 \<and> drop_bit 5 op AND 0x3F = 8 \<longleftrightarrow> op AND NOT 0x400E = 0x100"
  unfolding u32_bits by (simp add: bit_simps) auto

text \<open>The tests after the mask test cannot fail.\<close>

lemma operation_mask:
  "op AND NOT (0x410E::u32) = 0 \<Longrightarrow> op AND 1 = 0 \<and> op AND 0x800 = 0 \<and> op AND 0x1000 = 0 \<and> op AND 0x2000 = 0 \<and> op AND 0x8000 = 0"
  unfolding u32_bits by (simp add: bit_simps)

text \<open>Controller, eight-bit words, most significant bit first, any clock mode; loopback or a GPIO chip
  select whose polarity is given once.\<close>

definition operation_ok :: "spi_config \<Rightarrow> bool" where
  "operation_ok cfg \<longleftrightarrow> spi_frequency cfg \<noteq> 0 \<and> spi_operation cfg AND NOT 0x400E = 0x100"

definition select_ok :: "'w spi_api \<Rightarrow> spi_config \<Rightarrow> 'w \<Rightarrow> bool" where
  "select_ok api cfg w \<longleftrightarrow>
     (if spi_cs_is_gpio cfg
      then gpio_is_ready_dt api (cs_gpio (spi_cs cfg)) w \<and> bit (gpio_dt_flags (cs_gpio (spi_cs cfg))) 0 \<noteq> bit (spi_operation cfg) 14
      else bit (spi_operation cfg) 3)"

lemma client_ready_iff:
  "spi_client_ready api client w = 0 \<longleftrightarrow>
    (\<exists>bus cfg. client = Some \<lparr>sp_bus = Some bus, sp_config = Some cfg\<rparr> \<and> operation_ok cfg \<and> spi_dev_ready api bus w \<and> select_ok api cfg w)"
proof (cases "\<exists>bus cfg. client = Some \<lparr>sp_bus = Some bus, sp_config = Some cfg\<rparr>")
  case True
  then obtain bus cfg where c: "client = Some \<lparr>sp_bus = Some bus, sp_config = Some cfg\<rparr>" by blast
  let ?op = "spi_operation cfg"
  have allowed: "SPI_WORD_SET 8 = 0x100" by (simp add: SPI_WORD_SET_def)
  have bits: "?op AND 8 = 0 \<longleftrightarrow> \<not> bit ?op 3" "?op AND 0x4000 = 0 \<longleftrightarrow> \<not> bit ?op 14"
    "\<And>f. (f :: u16) AND 1 = 0 \<longleftrightarrow> \<not> bit f 0"
    using flag_clear [of ?op 3] flag_clear [of ?op 14] flag_clear [of "_ :: u16" 0] by simp_all
  have gpio: "gpio_is_ready_dt api gp w \<Longrightarrow> gpio_port gp \<noteq> None" for gp by (simp add: gpio_is_ready_dt_def)
  show ?thesis
  proof (cases "?op AND NOT 0x410E = 0 \<and> drop_bit 5 ?op AND 0x3F = 8")
    case True
    note m = operation_mask [OF conjunct1 [OF True]]
    have "spi_client_ready api client w = 0 \<longleftrightarrow> spi_frequency cfg \<noteq> 0 \<and> spi_dev_ready api bus w \<and> select_ok api cfg w"
      using True m gpio [of "cs_gpio (spi_cs cfg)"]
      by (auto simp: spi_client_ready_def c Let_def allowed SPI_OP_MODE_GET_def SPI_WORD_SIZE_GET_def select_ok_def bits)
    moreover have "operation_ok cfg \<longleftrightarrow> spi_frequency cfg \<noteq> 0"
      using True operation_bits [of ?op] unfolding operation_ok_def by blast
    ultimately show ?thesis using c by auto
  next
    case False
    then have bad: "\<not> operation_ok cfg" using operation_bits [of ?op] unfolding operation_ok_def by blast
    have "spi_client_ready api client w \<noteq> 0"
      using False by (auto simp: spi_client_ready_def c Let_def allowed SPI_OP_MODE_GET_def SPI_WORD_SIZE_GET_def)
    then show ?thesis using bad c by auto
  qed
next
  case False
  then have "spi_client_ready api client w = - EINVAL"
    by (cases client; cases "the client"; cases "sp_bus (the client)"; cases "sp_config (the client)") (auto simp: spi_client_ready_def)
  then show ?thesis using False by auto
qed

section \<open>Transfers\<close>

lemma scatter_pair:
  "m = length x \<Longrightarrow> scatter bytes [\<lparr>sb_buf = None, sb_len = 1\<rparr>, \<lparr>sb_buf = Some x, sb_len = m\<rparr>] =
    [\<lparr>sb_buf = None, sb_len = 1\<rparr>, \<lparr>sb_buf = Some (take m (drop 1 bytes) @ drop (length (take m (drop 1 bytes))) x), sb_len = m\<rparr>]"
  by (simp add: Let_def)

lemma rejected:
  "reply = None \<or> n = 0 \<or> n > SPI_COMMAND_MAX_REPLY \<or> spi_client_ready api client w \<noteq> 0 \<Longrightarrow>
    \<exists>rc. spi_command_read api client command reply n w = (rc, reply, w) \<and> rc \<noteq> 0"
  by (auto simp: spi_command_read_def Let_def)

context spi_link
begin

lemma command_read:
  assumes "spi_client_ready api (Some c) w = 0" "sp_bus c = Some d" "sp_config c = Some cfg"
    and "0 < n" "n \<le> SPI_COMMAND_MAX_REPLY" "n \<le> length reply"
    and "spi_command_read api (Some c) command (Some reply) n w = (rc, reply', w')"
  shows "\<exists>k. k \<le> n \<and> (rc = 0 \<longrightarrow> k = n) \<and>
    reply' = Some (take k (drop 1 (answer cfg w (command # replicate n 0))) @ drop k reply)"
proof -
  let ?tx = "[\<lparr>sb_buf = Some [command], sb_len = 1\<rparr>, \<lparr>sb_buf = None, sb_len = n\<rparr>]"
  let ?rx = "[\<lparr>sb_buf = None, sb_len = 1\<rparr>, \<lparr>sb_buf = Some (take n reply), sb_len = n\<rparr>]"
  let ?a = "answer cfg w (command # replicate n 0)"
  have g: "gather ?tx = command # replicate n 0" "length (gather ?tx) = sum_list (map sb_len ?rx)" by simp_all
  have len: "length ?a = Suc n" by (simp add: answer_length)
  obtain rx' where t: "spi_transceive api d cfg ?tx ?rx w = (rc, rx', w')"
    "reply' = Some (the (sb_buf (rx' ! 1)) @ drop n reply)"
    using assms by (auto simp: spi_command_read_def Let_def split: prod.splits)
  obtain k where k: "rx' = scatter (take k ?a) ?rx" "rc = 0 \<Longrightarrow> k = Suc n"
  proof (cases "rc = 0")
    case True
    then have "rx' = scatter (take (Suc n) ?a) ?rx" using transfer_ok [OF g(2), of cfg w rx' w'] t(1) g(1) len by simp
    then show ?thesis using that by blast
  next
    case False
    then show ?thesis using transfer_fail [OF g(2) t(1)] g(1) that by auto
  qed
  let ?b = "take n (drop 1 (take k ?a))"
  have b: "?b = take (min n (k - 1)) (drop 1 ?a)" by (simp add: drop_take min.commute)
  have lb: "length ?b = min n (k - 1)" using len by (simp add: min_def) arith
  have "reply' = Some ((?b @ drop (length ?b) (take n reply)) @ drop n reply)"
    using t(2) k(1) scatter_pair [of n "take n reply" "take k ?a"] assms(6) by simp
  moreover have "drop (min n (k - 1)) (take n reply) @ drop n reply = drop (min n (k - 1)) reply"
    using drop_append [of "min n (k - 1)" "take n reply" "drop n reply"] assms(6) by simp
  ultimately have "reply' = Some (?b @ drop (length ?b) reply)" unfolding lb by simp
  then show ?thesis unfolding lb unfolding b using k(2) by (intro exI [of _ "min n (k - 1)"]) auto
qed

end

section \<open>The program on a loopback\<close>

text \<open>A controller in loopback mode whose transfers succeed and whose CR1 shows loopback and enable.\<close>

locale spi_loopback = spi_link api "dt22_bus dt" answer
  for api :: "'w spi_api" and dt :: "'w lab22_dt" and answer +
  assumes ready: "spi_client_ready api (Some (g22_sensor dt)) w = 0"
    and echoes: "answer (g_spi_config dt) w bytes = bytes"
    and works: "\<exists>rx' w'. spi_transceive api (dt22_bus dt) (g_spi_config dt) tx rx w = (0, rx', w')"
    and cr1: "fst (sys_read32 dt (dt22_base dt + 4) w) AND 3 = 3"

definition prepared :: "u8 list" where
  "prepared = 0xA5 # replicate 16 0xCC @ [0x5A]"

definition replied :: "nat \<Rightarrow> u8 list" where
  "replied n = 0xA5 # replicate n 0 @ replicate (16 - n) 0xCC @ [0x5A]"

lemma prepare_storage: "prepare_storage g = g\<lparr>g_storage := prepared\<rparr>"
  unfolding prepare_storage_def prepared_def by (simp add: replicate_eq_replicate numeral_eq_Suc)

lemma replied_checks:
  "verify_storage (replied 3) 3 = 0" "verify_storage (replied 16) 16 = 0" "verify_storage prepared 0 = 0"
  "take 3 (drop (Suc 0) (replied 3)) = replicate 3 0" "take 16 (drop (Suc 0) (replied 16)) = replicate 16 0"
  unfolding replied_def prepared_def by code_simp+

context spi_loopback
begin

lemma storage_read_works:
  assumes "0 < n" "n \<le> 16" "g_storage g = prepared"
  obtains w' where "storage_read api dt n g w = (0, g\<lparr>g_storage := replied n\<rparr>, w')"
proof -
  obtain rc reply' w' where r: "spi_command_read api (Some (g22_sensor dt)) 0x9F (Some (drop 1 prepared)) n w = (rc, reply', w')"
    by (rule prod_cases3)
  have sensor: "sp_bus (g22_sensor dt) = Some (dt22_bus dt)" "sp_config (g22_sensor dt) = Some (g_spi_config dt)"
    by (simp_all add: g22_sensor_def)
  have "rc = 0" using r assms(1,2) ready works sensor
    by (auto simp: spi_command_read_def Let_def split: prod.splits) (metis fst_conv)+
  moreover have len: "n \<le> length (drop 1 prepared)" using assms(2) by (simp add: prepared_def)
  ultimately have "reply' = Some (take n (drop 1 (0x9F # replicate n 0)) @ drop n (drop 1 prepared))"
    using command_read [OF ready sensor assms(1,2) len r] echoes by auto
  moreover have "take 1 prepared @ take n (drop 1 (0x9F # replicate n 0)) @ drop n (drop 1 prepared) = replied n"
    using assms(2) by (simp add: prepared_def replied_def drop_append)
  ultimately have "storage_read api dt n g w = (0, g\<lparr>g_storage := replied n\<rparr>, w')"
    using r assms(3) \<open>rc = 0\<close> by (simp add: storage_read_def)
  then show ?thesis by (rule that)
qed

lemma main_invalid_done:
  "\<exists>g' w'. lab22_main_invalid api dt g w = (g', w') \<and> g_lab22_stage g' = LAB22_STAGE_DONE \<and>
    g_null_rc g' = - EINVAL \<and> g_zero_rc g' = - EINVAL \<and> g_oversize_rc g' = - EMSGSIZE \<and>
    g_short_reply g' = g_short_reply g \<and> g_max_reply g' = g_max_reply g"
  by (simp add: lab22_main_invalid_def prepare_storage storage_read_def spi_command_read_def Let_def replied_checks)

lemma main_done:
  "\<exists>g' w'. lab22_main api dt g w = (g', w') \<and> g_lab22_stage g' = LAB22_STAGE_DONE \<and>
    g_null_rc g' = - EINVAL \<and> g_zero_rc g' = - EINVAL \<and> g_oversize_rc g' = - EMSGSIZE \<and>
    g_short_reply g' = replicate 3 0 \<and> g_max_reply g' = replicate 16 0"
proof -
  obtain g1 where g1: "g1 = g\<lparr>g_spi_mmio_base := dt22_base dt, g_command := 0x9F,
      g22_ready_rc := 0, g_lab22_stage := LAB22_STAGE_SHORT_REPLY, g_storage := prepared\<rparr>" by blast
  then obtain w1 where 1: "storage_read api dt 3 g1 w = (0, g1\<lparr>g_storage := replied 3\<rparr>, w1)"
    using storage_read_works [of 3 g1 w] by auto
  obtain cr0 w2 where 2: "sys_read32 dt (dt22_base dt) w1 = (cr0, w2)" by (rule prod.exhaust)
  obtain cr1 w3 where 3: "sys_read32 dt (dt22_base dt + 4) w2 = (cr1, w3)" "cr1 AND 3 = 3" using cr1 [of w2] by (metis fst_conv prod.exhaust)
  obtain cpsr w4 where 4: "sys_read32 dt (dt22_base dt + 0x10) w3 = (cpsr, w4)" by (rule prod.exhaust)
  obtain g2 where g2: "g2 = g1\<lparr>g_short_rc := 0, g_short_check := 0, g_short_reply := replicate 3 0, g_spi_cr0 := cr0,
      g_spi_cr1 := cr1, g_spi_cpsr := cpsr, g_lab22_stage := LAB22_STAGE_MAX_REPLY, g_storage := prepared\<rparr>" by blast
  then obtain w5 where 5: "storage_read api dt 16 g2 w4 = (0, g2\<lparr>g_storage := replied 16\<rparr>, w5)"
    using storage_read_works [of 16 g2 w4] by auto
  have "lab22_main api dt g w = lab22_main_invalid api dt
      (g2\<lparr>g_storage := replied 16, g_max_rc := 0, g_max_check := 0, g_max_reply := replicate 16 0\<rparr>) w5"
    using 1 2 3 4 5 ready by (simp add: lab22_main_def Let_def prepare_storage replied_checks g1 g2)
  then show ?thesis using main_invalid_done [of _ w5] g2 by fastforce
qed

end

section \<open>The double of tests/host_contract.c\<close>

text \<open>Readiness of devices, the number of frames after which a transfer stops, and its result.  In
  loopback mode the device echoes; otherwise it answers with a fixed function of the command.\<close>

record spi_mock =
  sm_ready :: "dev \<Rightarrow> bool"
  sm_calls :: nat
  sm_wire_limit :: nat
  sm_result :: int

definition reply_byte :: "u8 \<Rightarrow> nat \<Rightarrow> u8" where
  "reply_byte command index =
     (if command = 0x9F \<and> index < 3 then [0xEF, 0x40, 0x18] ! index
      else ucast ((ucast command * 37 + of_nat index * 29 :: u32) XOR 0xA5))"

definition mock_answer :: "spi_config \<Rightarrow> u8 list \<Rightarrow> u8 list" where
  "mock_answer cfg bytes =
     map (\<lambda>i. if spi_operation cfg AND SPI_MODE_LOOP \<noteq> 0 then bytes ! i
              else if i = 0 then hd bytes XOR 0xFF else reply_byte (hd bytes) (i - 1)) [0..<length bytes]"

definition mock_transceive :: "dev \<Rightarrow> spi_config \<Rightarrow> spi_buf list \<Rightarrow> spi_buf list \<Rightarrow> spi_mock \<Rightarrow> int \<times> spi_buf list \<times> spi_mock" where
  "mock_transceive dev cfg tx rx m =
     (let answer = mock_answer cfg (gather tx); limit = (if sm_result m = 0 then length answer else sm_wire_limit m) in
      (sm_result m, scatter (take limit answer) rx, m\<lparr>sm_calls := sm_calls m + 1\<rparr>))"

definition spi_mock_api :: "spi_mock spi_api" where
  "spi_mock_api = \<lparr>spi_dev_ready = (\<lambda>dev m. sm_ready m dev), spi_transceive = mock_transceive\<rparr>"

lemma length_mock_answer [simp]: "length (mock_answer cfg bytes) = length bytes"
  by (simp add: mock_answer_def)

lemma some_take: "\<exists>n. scatter xs rx = scatter (take n xs) rx"
  by (rule exI [of _ "length xs"]) simp

interpretation spi_mock: spi_link spi_mock_api dev "\<lambda>cfg m. mock_answer cfg" for dev
  by unfold_locales (auto simp: spi_mock_api_def mock_transceive_def Let_def some_take split: if_splits)

text \<open>A loopback controller that is always there.\<close>

definition loop_api :: "unit spi_api" where
  "loop_api = \<lparr>spi_dev_ready = (\<lambda>_ _. True), spi_transceive = (\<lambda>_ cfg tx rx w. (0, scatter (mock_answer cfg (gather tx)) rx, w))\<rparr>"

definition loop_config :: spi_config where
  "loop_config = \<lparr>spi_frequency = 781250, spi_operation = 0x108, spi_peripheral = 0,
     spi_cs = \<lparr>cs_gpio = \<lparr>gpio_port = None, gpio_pin = 0, gpio_dt_flags = 0\<rparr>, cs_delay = 0, cs_is_gpio = False\<rparr>, spi_word_delay = 0\<rparr>"

definition loop_dt :: "unit lab22_dt" where
  "loop_dt = \<lparr>dt22_bus = 0, g_spi_config = loop_config, dt22_base = 0x40026000, sys_read32 = (\<lambda>_ w. (3, w))\<rparr>"

interpretation loopback: spi_loopback loop_api loop_dt "\<lambda>cfg m. mock_answer cfg"
proof unfold_locales
  show "spi_client_ready loop_api (Some (g22_sensor loop_dt)) w = 0" for w
    by (cases w) (simp add: spi_client_ready_def g22_sensor_def loop_dt_def loop_api_def loop_config_def SPI_OP_MODE_GET_def
      SPI_WORD_SIZE_GET_def SPI_WORD_SET_def spi_cs_is_gpio_def Let_def)
  show "mock_answer (g_spi_config loop_dt) bytes = bytes" for bytes
    by (simp add: mock_answer_def loop_dt_def loop_config_def map_nth)
qed (auto simp: loop_api_def loop_dt_def some_take)

section \<open>Properties\<close>

text \<open>Note.  A client is accepted exactly if it has a controller and a configuration with a frequency,
  controller mode, eight-bit words, most significant bit first, any clock mode and single lines, the
  controller is ready, and the device is selected by a ready GPIO whose polarity is stated once, or by
  loopback.\<close>

theorem spi_client_ready_iff:
  "spi_client_ready api client w = 0 \<longleftrightarrow>
    (\<exists>bus cfg. client = Some \<lparr>sp_bus = Some bus, sp_config = Some cfg\<rparr> \<and> operation_ok cfg \<and> spi_dev_ready api bus w \<and> select_ok api cfg w)"
  by (rule client_ready_iff)

text \<open>C32.  A transfer of an accepted client sends the command and \<open>n\<close> zero bytes and drops the first byte
  received.  If it succeeds the reply is the \<open>n\<close> bytes after it; if it fails the reply begins with some of
  them.  The bytes behind are never touched.\<close>

theorem spi_command_read_reply:
  assumes "spi_link api d answer" "spi_client_ready api (Some c) w = 0" "sp_bus c = Some d" "sp_config c = Some cfg"
    and "0 < n" "n \<le> SPI_COMMAND_MAX_REPLY" "n \<le> length reply"
    and "spi_command_read api (Some c) command (Some reply) n w = (rc, reply', w')"
  shows "\<exists>k. k \<le> n \<and> (rc = 0 \<longrightarrow> k = n) \<and>
    reply' = Some (take k (drop 1 (answer cfg w (command # replicate n 0))) @ drop k reply)"
  by (rule spi_link.command_read [OF assms])

text \<open>A flash-like device behind a GPIO select answers the command 0x9F with its three id bytes.\<close>

definition id_client :: spi_client where
  "id_client = \<lparr>sp_bus = Some 0, sp_config = Some (loop_config\<lparr>spi_operation := 0x100,
     spi_cs := \<lparr>cs_gpio = \<lparr>gpio_port = Some 1, gpio_pin = 0, gpio_dt_flags = 1\<rparr>, cs_delay = 0, cs_is_gpio = True\<rparr>\<rparr>)\<rparr>"

definition id_mock :: spi_mock where
  "id_mock = \<lparr>sm_ready = (\<lambda>_. True), sm_calls = 0, sm_wire_limit = 0, sm_result = 0\<rparr>"

theorem spi_command_read_reply_witness:
  "\<exists>w'. spi_command_read spi_mock_api (Some id_client) 0x9F (Some [0xCC, 0xCC, 0xCC, 0x5A]) 3 id_mock = (0, Some [0xEF, 0x40, 0x18, 0x5A], w')"
proof -
  have ready: "spi_client_ready spi_mock_api (Some id_client) id_mock = 0"
    by (simp add: spi_client_ready_def id_client_def spi_mock_api_def id_mock_def loop_config_def SPI_OP_MODE_GET_def
      SPI_WORD_SIZE_GET_def SPI_WORD_SET_def spi_cs_is_gpio_def gpio_is_ready_dt_def Let_def)
  obtain rc reply' w' where r: "spi_command_read spi_mock_api (Some id_client) 0x9F (Some [0xCC, 0xCC, 0xCC, 0x5A]) 3 id_mock = (rc, reply', w')"
    by (rule prod_cases3)
  then have rc: "rc = 0" using ready by (auto simp: spi_command_read_def Let_def spi_mock_api_def mock_transceive_def id_mock_def)
  have ans: "take 3 (drop 1 (mock_answer (the (sp_config id_client)) (0x9F # replicate 3 0))) = [0xEF, 0x40, 0x18]"
    by code_simp
  have "sp_bus id_client = Some 0" "sp_config id_client = Some (the (sp_config id_client))" by (simp_all add: id_client_def)
  from spi_command_read_reply [OF spi_mock.spi_link_axioms ready this _ _ _ r] rc ans r show ?thesis by auto
qed

text \<open>Note.  A call with no buffer, no length, too long a length or a client that is not ready returns an
  error, makes no transfer and leaves the reply alone.\<close>

theorem spi_command_read_rejects:
  assumes "reply = None \<or> n = 0 \<or> n > SPI_COMMAND_MAX_REPLY \<or> spi_client_ready api client w \<noteq> 0"
  shows "\<exists>rc. spi_command_read api client command reply n w = (rc, reply, w) \<and> rc \<noteq> 0"
  by (rule rejected [OF assms])

theorem spi_command_read_rejects_witness:
  "\<exists>rc. spi_command_read spi_mock_api None 0x9F (Some [1, 2]) 2 id_mock = (rc, Some [1, 2], id_mock) \<and> rc \<noteq> 0"
  by (rule spi_command_read_rejects) (simp add: spi_client_ready_def)

text \<open>Note.  On a loopback controller the program reaches its last stage: both replies are the zero bytes
  it sent, the frame around the buffer is intact, and the three bad calls got the errors it expects.\<close>

theorem lab22_main_done:
  assumes "spi_loopback api dt answer"
  shows "\<exists>g' w'. lab22_main api dt g w = (g', w') \<and> g_lab22_stage g' = LAB22_STAGE_DONE \<and>
    g_null_rc g' = - EINVAL \<and> g_zero_rc g' = - EINVAL \<and> g_oversize_rc g' = - EMSGSIZE \<and>
    g_short_reply g' = replicate 3 0 \<and> g_max_reply g' = replicate 16 0"
  by (rule spi_loopback.main_done [OF assms])

theorem lab22_main_done_witness:
  "\<exists>g' w'. lab22_main loop_api loop_dt lab22_reset () = (g', w') \<and> g_lab22_stage g' = LAB22_STAGE_DONE"
  using lab22_main_done [OF loopback.spi_loopback_axioms, of lab22_reset "()"] by auto

end
