(* ===== verification/Spi_Bitbang.thy ===== *)
theory Spi_Bitbang
  imports Prelude
begin

text \<open>
  labs/lab15_spi_transaction: an SPI controller in software (spi_bitbang.c) over a table of pin
  operations, the device the lab simulates behind it (simulated_spi_device.c), and the program that
  reads its id (main.c).

  The pin operations act on a world \<open>'w\<close>.  Besides the simulated device the theory has a reference
  peripheral that follows the four SPI modes edge by edge; it is not code of the repository, and the
  controller is shown to exchange bytes with it in every mode, bit order and select polarity.
\<close>

section \<open>The controller (spi_bitbang.h, spi_bitbang.c)\<close>

datatype spi_mode = SPI_MODE_0 | SPI_MODE_1 | SPI_MODE_2 | SPI_MODE_3

datatype spi_bit_order = SPI_MSB_FIRST | SPI_LSB_FIRST

abbreviation (input) SPI_OK :: int where "SPI_OK \<equiv> 0"
abbreviation (input) SPI_ERROR_INVALID_ARGUMENT :: int where "SPI_ERROR_INVALID_ARGUMENT \<equiv> - 1"

record 'w spi_bitbang_ops =
  op_set_sclk :: "(u8 \<Rightarrow> 'w \<Rightarrow> 'w) option"
  op_set_mosi :: "(u8 \<Rightarrow> 'w \<Rightarrow> 'w) option"
  op_set_cs :: "(u8 \<Rightarrow> 'w \<Rightarrow> 'w) option"
  op_get_miso :: "('w \<Rightarrow> u8 \<times> 'w) option"
  op_delay_half_cycle :: "('w \<Rightarrow> 'w) option"

record 'w spi_bitbang_bus =
  sb_ops :: "'w spi_bitbang_ops option"
  sb_mode :: spi_mode
  sb_bit_order :: spi_bit_order
  sb_cs_active_low :: u8

abbreviation (input) "set_sclk bus \<equiv> the (op_set_sclk (the (sb_ops bus)))"
abbreviation (input) "set_mosi bus \<equiv> the (op_set_mosi (the (sb_ops bus)))"
abbreviation (input) "set_cs bus \<equiv> the (op_set_cs (the (sb_ops bus)))"
abbreviation (input) "get_miso bus \<equiv> the (op_get_miso (the (sb_ops bus)))"
abbreviation (input) "delay_half_cycle bus \<equiv> the (op_delay_half_cycle (the (sb_ops bus)))"

definition spi_get_cpol :: "spi_mode \<Rightarrow> u8" where
  "spi_get_cpol mode = (if mode = SPI_MODE_2 \<or> mode = SPI_MODE_3 then 1 else 0)"

definition spi_get_cpha :: "spi_mode \<Rightarrow> u8" where
  "spi_get_cpha mode = (if mode = SPI_MODE_1 \<or> mode = SPI_MODE_3 then 1 else 0)"

definition spi_get_tx_bit :: "u8 \<Rightarrow> nat \<Rightarrow> spi_bit_order \<Rightarrow> u8" where
  "spi_get_tx_bit val bit_index order =
     (if order = SPI_MSB_FIRST then drop_bit (7 - bit_index) val AND 1 else drop_bit bit_index val AND 1)"

definition spi_store_rx_bit :: "u8 \<Rightarrow> nat \<Rightarrow> u8 \<Rightarrow> spi_bit_order \<Rightarrow> u8" where
  "spi_store_rx_bit val bit_index rx_bit order =
     (let shift = (if order = SPI_MSB_FIRST then 7 - bit_index else bit_index) in
      if rx_bit \<noteq> 0 then val OR push_bit shift 1 else val)"

definition spi_bitbang_select :: "'w spi_bitbang_bus \<Rightarrow> 'w \<Rightarrow> 'w" where
  "spi_bitbang_select bus w = (let active_level = (if sb_cs_active_low bus \<noteq> 0 then 0 else 1) in set_cs bus active_level w)"

definition spi_bitbang_deselect :: "'w spi_bitbang_bus \<Rightarrow> 'w \<Rightarrow> 'w" where
  "spi_bitbang_deselect bus w =
     (let inactive_level = (if sb_cs_active_low bus \<noteq> 0 then 1 else 0); idle_level = spi_get_cpol (sb_mode bus);
          w = set_sclk bus idle_level w
      in set_cs bus inactive_level w)"

definition spi_bitbang_init :: "'w spi_bitbang_bus option \<Rightarrow> 'w \<Rightarrow> int \<times> 'w" where
  "spi_bitbang_init bus w =
     (if bus = None \<or> sb_ops (the bus) = None \<or> op_set_sclk (the (sb_ops (the bus))) = None \<or>
         op_set_mosi (the (sb_ops (the bus))) = None \<or> op_set_cs (the (sb_ops (the bus))) = None \<or>
         op_get_miso (the (sb_ops (the bus))) = None \<or> op_delay_half_cycle (the (sb_ops (the bus))) = None
      then (SPI_ERROR_INVALID_ARGUMENT, w)
      else
        let idle_level = spi_get_cpol (sb_mode (the bus));
            w = set_sclk (the bus) idle_level w;
            w = set_mosi (the bus) 0 w
        in (SPI_OK, spi_bitbang_select (the bus) w))"

fun transfer_bits :: "'w spi_bitbang_bus \<Rightarrow> u8 \<Rightarrow> nat list \<Rightarrow> u8 \<Rightarrow> 'w \<Rightarrow> u8 \<times> 'w" where
  "transfer_bits bus tx_byte [] rx_byte w = (rx_byte, w)"
| "transfer_bits bus tx_byte (bit_index # rest) rx_byte w =
     (let cpol = spi_get_cpol (sb_mode bus); cpha = spi_get_cpha (sb_mode bus);
          idle_level = cpol; active_level = cpol XOR 1;
          tx_bit = spi_get_tx_bit tx_byte bit_index (sb_bit_order bus) in
      if cpha = 0 then
        (let w = set_mosi bus tx_bit w; w = delay_half_cycle bus w; w = set_sclk bus active_level w in
         case get_miso bus w of (rx_bit, w) \<Rightarrow>
         let rx_byte = spi_store_rx_bit rx_byte bit_index rx_bit (sb_bit_order bus);
             w = delay_half_cycle bus w; w = set_sclk bus idle_level w
         in transfer_bits bus tx_byte rest rx_byte w)
      else
        (let w = set_sclk bus active_level w; w = set_mosi bus tx_bit w;
             w = delay_half_cycle bus w; w = set_sclk bus idle_level w in
         case get_miso bus w of (rx_bit, w) \<Rightarrow>
         let rx_byte = spi_store_rx_bit rx_byte bit_index rx_bit (sb_bit_order bus);
             w = delay_half_cycle bus w
         in transfer_bits bus tx_byte rest rx_byte w))"

definition spi_bitbang_transfer_byte :: "'w spi_bitbang_bus \<Rightarrow> u8 \<Rightarrow> 'w \<Rightarrow> u8 \<times> 'w" where
  "spi_bitbang_transfer_byte bus tx_byte w = transfer_bits bus tx_byte [0..<8] 0 w"

fun transfer_spi_bytes :: "'w spi_bitbang_bus \<Rightarrow> u8 list option \<Rightarrow> nat list \<Rightarrow> u8 list option \<Rightarrow> 'w \<Rightarrow> u8 list option \<times> 'w" where
  "transfer_spi_bytes bus tx_buffer [] rx_buffer w = (rx_buffer, w)"
| "transfer_spi_bytes bus tx_buffer (index # rest) rx_buffer w =
     (let tx_byte = (case tx_buffer of Some tx \<Rightarrow> tx ! index | None \<Rightarrow> 0xFF) in
      case spi_bitbang_transfer_byte bus tx_byte w of (rx_byte, w) \<Rightarrow>
      transfer_spi_bytes bus tx_buffer rest (map_option (\<lambda>rx. rx[index := rx_byte]) rx_buffer) w)"

definition spi_bitbang_transfer :: "'w spi_bitbang_bus option \<Rightarrow> u8 list option \<Rightarrow> u8 list option \<Rightarrow> nat \<Rightarrow> 'w \<Rightarrow>
    int \<times> u8 list option \<times> 'w" where
  "spi_bitbang_transfer bus tx_buffer rx_buffer len w =
     (if bus = None \<or> tx_buffer = None \<and> rx_buffer = None then (SPI_ERROR_INVALID_ARGUMENT, rx_buffer, w)
      else
        let w = spi_bitbang_select (the bus) w in
        case transfer_spi_bytes (the bus) tx_buffer [0..<len] rx_buffer w of (rx_buffer, w) \<Rightarrow>
        (SPI_OK, rx_buffer, spi_bitbang_deselect (the bus) w))"

section \<open>The simulated device (simulated_spi_device.h, simulated_spi_device.c)\<close>

record simulated_spi_device =
  sd_sclk :: u8
  sd_mosi :: u8
  sd_miso :: u8
  sd_cs :: u8
  sd_clock_edge_count :: u32
  sd_delay_count :: u32
  sd_selected :: u8
  sd_command_received :: u8
  sd_response_byte_index :: u8
  sd_response_bit_index :: u8
  sd_response :: "u8 list"

definition simulated_set_sclk :: "u8 \<Rightarrow> simulated_spi_device \<Rightarrow> simulated_spi_device" where
  "simulated_set_sclk level d =
     (let d = (if sd_sclk d \<noteq> level then d\<lparr>sd_clock_edge_count := sd_clock_edge_count d + 1\<rparr> else d) in d\<lparr>sd_sclk := level\<rparr>)"

definition simulated_set_mosi :: "u8 \<Rightarrow> simulated_spi_device \<Rightarrow> simulated_spi_device" where
  "simulated_set_mosi level d = d\<lparr>sd_mosi := level\<rparr>"

definition simulated_set_cs :: "u8 \<Rightarrow> simulated_spi_device \<Rightarrow> simulated_spi_device" where
  "simulated_set_cs level d =
     (let d = d\<lparr>sd_cs := level\<rparr> in
      if level = 0 then d\<lparr>sd_selected := 1, sd_command_received := 0, sd_response_byte_index := 0, sd_response_bit_index := 0\<rparr>
      else d\<lparr>sd_selected := 0, sd_miso := 1\<rparr>)"

definition simulated_get_miso :: "simulated_spi_device \<Rightarrow> u8 \<times> simulated_spi_device" where
  "simulated_get_miso d =
     (if sd_selected d = 0 then (1, d)
      else if sd_command_received d = 0 then
        (let d = d\<lparr>sd_response_bit_index := sd_response_bit_index d + 1\<rparr>;
             d = (if sd_response_bit_index d = 8 then d\<lparr>sd_command_received := 1, sd_response_bit_index := 0\<rparr> else d)
         in (1, d\<lparr>sd_miso := 1\<rparr>))
      else if sd_response_byte_index d \<ge> 3 then (1, d\<lparr>sd_miso := 1\<rparr>)
      else
        (let response_byte = sd_response d ! unat (sd_response_byte_index d);
             b = drop_bit (7 - unat (sd_response_bit_index d)) response_byte AND 1;
             d = d\<lparr>sd_response_bit_index := sd_response_bit_index d + 1\<rparr>;
             d = (if sd_response_bit_index d = 8
                  then d\<lparr>sd_response_bit_index := 0, sd_response_byte_index := sd_response_byte_index d + 1\<rparr> else d)
         in (b, d\<lparr>sd_miso := b\<rparr>)))"

definition simulated_delay_half_cycle :: "simulated_spi_device \<Rightarrow> simulated_spi_device" where
  "simulated_delay_half_cycle d = d\<lparr>sd_delay_count := sd_delay_count d + 1\<rparr>"

definition g_simulated_spi_ops :: "simulated_spi_device spi_bitbang_ops" where
  "g_simulated_spi_ops = \<lparr>op_set_sclk = Some simulated_set_sclk, op_set_mosi = Some simulated_set_mosi,
     op_set_cs = Some simulated_set_cs, op_get_miso = Some simulated_get_miso,
     op_delay_half_cycle = Some simulated_delay_half_cycle\<rparr>"

definition simulated_spi_device_init :: "simulated_spi_device option \<Rightarrow> simulated_spi_device option" where
  "simulated_spi_device_init device =
     map_option (\<lambda>d. d\<lparr>sd_sclk := 0, sd_mosi := 0, sd_miso := 1, sd_cs := 1, sd_clock_edge_count := 0, sd_delay_count := 0,
       sd_selected := 0, sd_command_received := 0, sd_response_byte_index := 0, sd_response_bit_index := 0,
       sd_response := [0xEF, 0x40, 0x18]\<rparr>) device"

section \<open>The program (main.c)\<close>

abbreviation (input) SPI_COMMAND_READ_ID :: u8 where "SPI_COMMAND_READ_ID \<equiv> 0x9F"

datatype lab15_stage =
  LAB15_STAGE_RESET | LAB15_STAGE_INIT | LAB15_STAGE_TRANSFER | LAB15_STAGE_VERIFY | LAB15_STAGE_DONE | LAB15_STAGE_ERROR

record lab15 =
  g_lab15_stage :: lab15_stage
  g_spi_init_result :: int
  g_spi_transfer_result :: int
  g_spi_verify_result :: int
  g_spi_tx :: "u8 list"
  g_spi_rx :: "u8 list"
  g_spi_clock_edges :: u32
  g_spi_delay_calls :: u32
  g_simulated_device :: simulated_spi_device

definition configure_spi_bus :: "simulated_spi_device spi_bitbang_bus" where
  "configure_spi_bus = \<lparr>sb_ops = Some g_simulated_spi_ops, sb_mode = SPI_MODE_0, sb_bit_order = SPI_MSB_FIRST, sb_cs_active_low = 1\<rparr>"

text \<open>main up to the loop it parks in.\<close>

definition lab15_main :: "lab15 \<Rightarrow> lab15" where
  "lab15_main g =
     (let g = g\<lparr>g_lab15_stage := LAB15_STAGE_RESET,
                g_simulated_device := the (simulated_spi_device_init (Some (g_simulated_device g)))\<rparr>;
          bus = configure_spi_bus; tx_buffer = [SPI_COMMAND_READ_ID, 0xFF, 0xFF, 0xFF]; rx_buffer = [0, 0, 0, 0];
          g = g\<lparr>g_spi_tx := tx_buffer, g_lab15_stage := LAB15_STAGE_INIT\<rparr> in
      case spi_bitbang_init (Some bus) (g_simulated_device g) of (rc, d) \<Rightarrow>
      let g = g\<lparr>g_spi_init_result := rc, g_simulated_device := d\<rparr> in
      if g_spi_init_result g \<noteq> SPI_OK then g\<lparr>g_lab15_stage := LAB15_STAGE_ERROR\<rparr>
      else
        let g = g\<lparr>g_lab15_stage := LAB15_STAGE_TRANSFER\<rparr> in
        case spi_bitbang_transfer (Some bus) (Some tx_buffer) (Some rx_buffer) 4 (g_simulated_device g) of (rc, rx, d) \<Rightarrow>
        let rx_buffer = the rx;
            g = g\<lparr>g_spi_transfer_result := rc, g_simulated_device := d, g_spi_rx := rx_buffer,
                  g_spi_clock_edges := sd_clock_edge_count d, g_spi_delay_calls := sd_delay_count d,
                  g_lab15_stage := LAB15_STAGE_VERIFY\<rparr>
        in if g_spi_transfer_result g = SPI_OK \<and> rx_buffer ! 0 = 0xFF \<and> rx_buffer ! 1 = 0xEF \<and> rx_buffer ! 2 = 0x40 \<and> rx_buffer ! 3 = 0x18
           then g\<lparr>g_spi_verify_result := 0, g_lab15_stage := LAB15_STAGE_DONE\<rparr>
           else g\<lparr>g_spi_verify_result := - 1, g_lab15_stage := LAB15_STAGE_ERROR\<rparr>)"

section \<open>A reference peripheral\<close>

text \<open>The four modes, edge by edge.  The edge away from the idle level is the leading one.  With
  CPHA 0 a bit is sampled at the leading edge and the next one put out at the trailing edge; with CPHA 1
  it is put out at the leading edge and sampled at the trailing edge.  \<open>rp_in\<close> holds the levels of MOSI
  it has sampled while selected, \<open>rp_shifted\<close> counts the edges that put out a bit, and \<open>out\<close> is what it
  sends.\<close>

record spi_ref =
  rp_sclk :: u8
  rp_mosi :: u8
  rp_cs :: u8
  rp_in :: "bool list"
  rp_shifted :: nat

definition ref_set_sclk :: "spi_mode \<Rightarrow> u8 \<Rightarrow> u8 \<Rightarrow> spi_ref \<Rightarrow> spi_ref" where
  "ref_set_sclk mode select level r =
     (if level = rp_sclk r \<or> rp_cs r \<noteq> select then r\<lparr>rp_sclk := level\<rparr>
      else if (level \<noteq> spi_get_cpol mode) = (spi_get_cpha mode = 0)
      then r\<lparr>rp_sclk := level, rp_in := rp_in r @ [rp_mosi r \<noteq> 0]\<rparr>
      else r\<lparr>rp_sclk := level, rp_shifted := rp_shifted r + 1\<rparr>)"

definition ref_get_miso :: "spi_mode \<Rightarrow> (nat \<Rightarrow> bool) \<Rightarrow> spi_ref \<Rightarrow> u8 \<times> spi_ref" where
  "ref_get_miso mode out r = (of_bool (out (if spi_get_cpha mode = 0 then rp_shifted r else rp_shifted r - 1)), r)"

definition ref_ops :: "spi_mode \<Rightarrow> u8 \<Rightarrow> (nat \<Rightarrow> bool) \<Rightarrow> spi_ref spi_bitbang_ops" where
  "ref_ops mode select out = \<lparr>op_set_sclk = Some (ref_set_sclk mode select), op_set_mosi = Some (\<lambda>level r. r\<lparr>rp_mosi := level\<rparr>),
     op_set_cs = Some (\<lambda>level r. r\<lparr>rp_cs := level\<rparr>), op_get_miso = Some (ref_get_miso mode out),
     op_delay_half_cycle = Some (\<lambda>r. r)\<rparr>"

definition ref_bus :: "spi_mode \<Rightarrow> spi_bit_order \<Rightarrow> u8 \<Rightarrow> (nat \<Rightarrow> bool) \<Rightarrow> spi_ref spi_bitbang_bus" where
  "ref_bus mode order cs_low out = \<lparr>sb_ops = Some (ref_ops mode (if cs_low \<noteq> 0 then 0 else 1) out), sb_mode = mode,
     sb_bit_order = order, sb_cs_active_low = cs_low\<rparr>"

section \<open>Bits of a byte in their order on the wire\<close>

definition wire_pos :: "spi_bit_order \<Rightarrow> nat \<Rightarrow> nat" where
  "wire_pos order i = (if order = SPI_MSB_FIRST then 7 - i else i)"

definition wire_bits :: "spi_bit_order \<Rightarrow> u8 \<Rightarrow> bool list" where
  "wire_bits order v = map (\<lambda>i. bit v (wire_pos order i)) [0..<8]"

definition wire_byte :: "spi_bit_order \<Rightarrow> (nat \<Rightarrow> bool) \<Rightarrow> u8" where
  "wire_byte order f = foldr (\<lambda>i v. if f i then v OR push_bit (wire_pos order i) 1 else v) (rev [0..<8]) 0"

lemma wire_pos: "i < 8 \<Longrightarrow> wire_pos order i < 8" "i < 8 \<Longrightarrow> wire_pos order (wire_pos order i) = i"
  by (auto simp: wire_pos_def)

lemma tx_bit: "i < 8 \<Longrightarrow> (spi_get_tx_bit v i order \<noteq> 0) = bit v (wire_pos order i)"
proof -
  have "(drop_bit n v AND 1 \<noteq> 0) = bit v n" for n
    using flag_clear [of "drop_bit n v" 0] by (simp add: bit_drop_bit_eq)
  then show "(spi_get_tx_bit v i order \<noteq> 0) = bit v (wire_pos order i)" by (simp add: spi_get_tx_bit_def wire_pos_def)
qed

lemma rx_bit: "i < 8 \<Longrightarrow> bit (spi_store_rx_bit v i b order) j = (bit v j \<or> b \<noteq> 0 \<and> j = wire_pos order i)"
  by (auto simp: spi_store_rx_bit_def wire_pos_def Let_def bit_simps)

text \<open>One clock of the controller against the reference peripheral.\<close>

abbreviation (input) idle_ref :: "spi_mode \<Rightarrow> u8 \<Rightarrow> spi_ref \<Rightarrow> bool" where
  "idle_ref mode cs_low r \<equiv> rp_sclk r = spi_get_cpol mode \<and> rp_cs r = (if cs_low \<noteq> 0 then 0 else 1)"

lemma cpol_xor: "spi_get_cpol mode XOR 1 \<noteq> spi_get_cpol mode"
  by (simp add: spi_get_cpol_def)

lemma transfer_bits_ref:
  assumes "\<forall>i \<in> set ks. i < 8" "idle_ref mode cs_low r"
  shows "\<exists>r' v'. transfer_bits (ref_bus mode order cs_low out) tx ks v r = (v', r') \<and> idle_ref mode cs_low r' \<and>
    rp_in r' = rp_in r @ map (\<lambda>i. bit tx (wire_pos order i)) ks \<and> rp_shifted r' = rp_shifted r + length ks \<and>
    (\<forall>j. bit v' j \<longleftrightarrow> bit v j \<or> (\<exists>k < length ks. out (rp_shifted r + k) \<and> j = wire_pos order (ks ! k)))"
  using assms
proof (induction ks arbitrary: v r)
  case (Cons i ks)
  have i: "i < 8" using Cons.prems(1) by simp
  let ?b = "of_bool (out (rp_shifted r)) :: u8"
  let ?v = "spi_store_rx_bit v i ?b order"
  let ?r = "r\<lparr>rp_mosi := spi_get_tx_bit tx i order, rp_in := rp_in r @ [bit tx (wire_pos order i)], rp_shifted := rp_shifted r + 1\<rparr>"
  have step: "transfer_bits (ref_bus mode order cs_low out) tx (i # ks) v r = transfer_bits (ref_bus mode order cs_low out) tx ks ?v ?r"
    using Cons.prems(2) tx_bit [OF i, of tx order] cpol_xor [of mode]
    by (cases r) (simp add: ref_bus_def ref_ops_def ref_set_sclk_def ref_get_miso_def Let_def)
  obtain r' v' where IH: "transfer_bits (ref_bus mode order cs_low out) tx ks ?v ?r = (v', r')" "idle_ref mode cs_low r'"
    "rp_in r' = rp_in ?r @ map (\<lambda>i. bit tx (wire_pos order i)) ks" "rp_shifted r' = rp_shifted ?r + length ks"
    "\<forall>j. bit v' j \<longleftrightarrow> bit ?v j \<or> (\<exists>k < length ks. out (rp_shifted ?r + k) \<and> j = wire_pos order (ks ! k))"
    using Cons.IH [of ?r ?v] Cons.prems by auto
  have res: "bit v' j \<longleftrightarrow> bit v j \<or> (\<exists>k < length (i # ks). out (rp_shifted r + k) \<and> j = wire_pos order ((i # ks) ! k))" for j
    using IH(5) rx_bit [OF i, of v ?b order j] by (auto simp: less_Suc_eq_0_disj)
  have "rp_in r' = rp_in r @ map (\<lambda>i. bit tx (wire_pos order i)) (i # ks)" "rp_shifted r' = rp_shifted r + length (i # ks)"
    using IH(3,4) by simp_all
  then show ?case unfolding step using IH(1,2) res by blast
qed simp

lemma bit_wire_byte:
  "bit (wire_byte order f) j \<longleftrightarrow> j < 8 \<and> f (wire_pos order j)"
proof -
  have "bit (foldr (\<lambda>i v. if f i then v OR push_bit (wire_pos order i) 1 else v) is (0 :: u8)) j \<longleftrightarrow>
      j < 8 \<and> (\<exists>i \<in> set is. f i \<and> j = wire_pos order i)" for "is"
    by (induction "is") (auto simp: bit_simps)
  then show ?thesis unfolding wire_byte_def by (auto simp: wire_pos)
qed

text \<open>A byte survives the wire.\<close>

lemma wire_byte_bits: "wire_byte order ((!) (wire_bits order v)) = v"
  by (rule bit_word_eqI) (auto simp: bit_wire_byte wire_bits_def wire_pos)

lemma transfer_byte_ref:
  assumes "idle_ref mode cs_low r"
  shows "\<exists>r'. spi_bitbang_transfer_byte (ref_bus mode order cs_low out) tx r = (wire_byte order (\<lambda>i. out (rp_shifted r + i)), r') \<and>
    idle_ref mode cs_low r' \<and> rp_in r' = rp_in r @ wire_bits order tx \<and> rp_shifted r' = rp_shifted r + 8"
proof -
  obtain r' v' where t: "transfer_bits (ref_bus mode order cs_low out) tx [0..<8] 0 r = (v', r')" "idle_ref mode cs_low r'"
    "rp_in r' = rp_in r @ wire_bits order tx" "rp_shifted r' = rp_shifted r + 8"
    "\<forall>j. bit v' j \<longleftrightarrow> (\<exists>k < 8. out (rp_shifted r + k) \<and> j = wire_pos order ([0..<8] ! k))"
    using transfer_bits_ref [where ks = "[0..<8]" and v = 0 and r = r and mode = mode and cs_low = cs_low and order = order and out = out and tx = tx] assms
    by (auto simp: wire_bits_def)
  have "(\<exists>k < 8. out (rp_shifted r + k) \<and> j = wire_pos order ([0..<8] ! k)) \<longleftrightarrow>
      (\<exists>k < 8. out (rp_shifted r + k) \<and> j = wire_pos order k)" for j by (simp cong: conj_cong)
  moreover have "(\<exists>k < 8. out (rp_shifted r + k) \<and> j = wire_pos order k) \<longleftrightarrow> j < 8 \<and> out (rp_shifted r + wire_pos order j)" for j
    by (metis wire_pos)
  ultimately have "v' = wire_byte order (\<lambda>i. out (rp_shifted r + i))"
    using t(5) by (intro bit_word_eqI) (simp add: bit_wire_byte)
  then show ?thesis using t(1-4) by (auto simp: spi_bitbang_transfer_byte_def)
qed

definition tx_bytes :: "u8 list option \<Rightarrow> nat \<Rightarrow> u8 list" where
  "tx_bytes tx n = (case tx of Some b \<Rightarrow> take n b | None \<Rightarrow> replicate n 0xFF)"

definition rx_bytes :: "spi_bit_order \<Rightarrow> (nat \<Rightarrow> bool) \<Rightarrow> nat \<Rightarrow> u8 list" where
  "rx_bytes order out n = map (\<lambda>k. wire_byte order (\<lambda>i. out (8 * k + i))) [0..<n]"

lemma transfer_spi_bytes_ref:
  assumes "idle_ref mode cs_low r" "\<forall>b. tx = Some b \<longrightarrow> m + n \<le> length b"
    and "\<forall>b. rx = Some b \<longrightarrow> m + n \<le> length b"
  shows "\<exists>r'. transfer_spi_bytes (ref_bus mode order cs_low out) tx [m..<m + n] rx r =
      (map_option (\<lambda>b. take m b @ rx_bytes order (\<lambda>i. out (rp_shifted r + i)) n @ drop (m + n) b) rx, r') \<and> idle_ref mode cs_low r' \<and>
    rp_in r' = rp_in r @ concat (map (wire_bits order) (map (\<lambda>k. case tx of Some b \<Rightarrow> b ! k | None \<Rightarrow> 0xFF) [m..<m + n]))"
  using assms
proof (induction n arbitrary: m r rx)
  case 0
  then show ?case by (cases rx) (auto simp: rx_bytes_def)
next
  case (Suc n)
  let ?bus = "ref_bus mode order cs_low out" and ?b = "case tx of Some b \<Rightarrow> b ! m | None \<Rightarrow> 0xFF"
  let ?v = "wire_byte order (\<lambda>i. out (rp_shifted r + i))"
  obtain r1 where 1: "spi_bitbang_transfer_byte ?bus ?b r = (?v, r1)" "idle_ref mode cs_low r1"
    "rp_in r1 = rp_in r @ wire_bits order ?b" "rp_shifted r1 = rp_shifted r + 8"
    using transfer_byte_ref [OF Suc.prems(1)] by blast
  let ?rx = "map_option (\<lambda>b. b[m := ?v]) rx"
  have len: "\<forall>b. tx = Some b \<longrightarrow> Suc m + n \<le> length b" "\<forall>b. ?rx = Some b \<longrightarrow> Suc m + n \<le> length b"
    using Suc.prems(2,3) by auto
  obtain r2 where 2: "transfer_spi_bytes ?bus tx [Suc m..<Suc m + n] ?rx r1 =
      (map_option (\<lambda>b. take (Suc m) b @ rx_bytes order (\<lambda>i. out (rp_shifted r1 + i)) n @ drop (Suc m + n) b) ?rx, r2)"
    "idle_ref mode cs_low r2"
    "rp_in r2 = rp_in r1 @ concat (map (wire_bits order) (map (\<lambda>k. case tx of Some b \<Rightarrow> b ! k | None \<Rightarrow> 0xFF) [Suc m..<Suc m + n]))"
    using Suc.IH [OF 1(2) len] by blast
  have range: "[m..<m + Suc n] = m # [Suc m..<Suc m + n]" by (simp add: upt_rec)
  have shift: "rx_bytes order (\<lambda>i. out (rp_shifted r + i)) (Suc n) = ?v # rx_bytes order (\<lambda>i. out (rp_shifted r1 + i)) n"
    by (simp add: rx_bytes_def 1(4) map_upt_Suc add.assoc del: upt_Suc)
  have "map_option (\<lambda>b. take (Suc m) b @ rx_bytes order (\<lambda>i. out (rp_shifted r1 + i)) n @ drop (Suc m + n) b) ?rx =
      map_option (\<lambda>b. take m b @ rx_bytes order (\<lambda>i. out (rp_shifted r + i)) (Suc n) @ drop (m + Suc n) b) rx"
    using Suc.prems(3) by (cases rx) (simp_all add: shift take_Suc_conv_app_nth)
  moreover have "transfer_spi_bytes ?bus tx [m..<m + Suc n] rx r = transfer_spi_bytes ?bus tx [Suc m..<Suc m + n] ?rx r1"
    unfolding range transfer_spi_bytes.simps Let_def 1(1) by simp
  ultimately show ?case unfolding range using 1(3) 2 by (simp del: upt_Suc transfer_spi_bytes.simps)
qed

lemma transfer_ref:
  assumes "rp_sclk r = spi_get_cpol mode" "rp_in r = []" "rp_shifted r = 0" "tx \<noteq> None \<or> rx \<noteq> None"
    and "\<forall>b. tx = Some b \<longrightarrow> n \<le> length b" "\<forall>b. rx = Some b \<longrightarrow> n \<le> length b"
  shows "\<exists>r'. spi_bitbang_transfer (Some (ref_bus mode order cs_low out)) tx rx n r =
      (SPI_OK, map_option (\<lambda>b. rx_bytes order out n @ drop n b) rx, r') \<and>
    rp_in r' = concat (map (wire_bits order) (tx_bytes tx n)) \<and>
    rp_sclk r' = spi_get_cpol mode \<and> rp_cs r' = (if cs_low \<noteq> 0 then 1 else 0)"
proof -
  let ?bus = "ref_bus mode order cs_low out"
  let ?r = "spi_bitbang_select ?bus r"
  have sel: "idle_ref mode cs_low ?r" "rp_in ?r = []" "rp_shifted ?r = 0"
    using assms(1-3) by (simp_all add: spi_bitbang_select_def ref_bus_def ref_ops_def Let_def)
  have bytes: "map (\<lambda>k. case tx of Some b \<Rightarrow> b ! k | None \<Rightarrow> 0xFF) [0..<n] = tx_bytes tx n"
    using assms(5) by (cases tx) (auto simp: tx_bytes_def list_eq_iff_nth_eq)
  obtain r1 where 1: "transfer_spi_bytes ?bus tx [0..<n] rx ?r = (map_option (\<lambda>b. rx_bytes order out n @ drop n b) rx, r1)"
    "idle_ref mode cs_low r1" "rp_in r1 = concat (map (wire_bits order) (tx_bytes tx n))"
    using transfer_spi_bytes_ref [OF sel(1), where tx = tx and m = 0 and n = n and rx = rx and order = order and out = out] assms(5,6) sel(2,3)
    by (auto simp: bytes)
  have "rp_in (spi_bitbang_deselect ?bus r1) = rp_in r1" "rp_sclk (spi_bitbang_deselect ?bus r1) = spi_get_cpol mode"
    "rp_cs (spi_bitbang_deselect ?bus r1) = (if cs_low \<noteq> 0 then 1 else 0)"
    using 1(2) by (simp_all add: spi_bitbang_deselect_def ref_bus_def ref_ops_def ref_set_sclk_def Let_def)
  then show ?thesis using 1 assms(4) by (auto simp: spi_bitbang_transfer_def Let_def)
qed

text \<open>A peripheral that sends the bytes \<open>bs\<close>.\<close>

definition sends :: "spi_bit_order \<Rightarrow> u8 list \<Rightarrow> nat \<Rightarrow> bool" where
  "sends order bs i = concat (map (wire_bits order) bs) ! i"

lemma length_wire_bits [simp]: "length (wire_bits order v) = 8"
  by (simp add: wire_bits_def)

lemma concat_wire_bits: "k < length bs \<Longrightarrow> i < 8 \<Longrightarrow> concat (map (wire_bits order) bs) ! (8 * k + i) = wire_bits order (bs ! k) ! i"
proof (induction bs arbitrary: k)
  case (Cons b bs)
  then show ?case by (cases k) (simp_all add: nth_append)
qed simp

lemma rx_bytes_sends:
  assumes "n \<le> length bs"
  shows "rx_bytes order (sends order bs) n = take n bs"
proof (rule nth_equalityI)
  fix k assume "k < length (rx_bytes order (sends order bs) n)"
  then have k: "k < n" "k < length bs" using assms by (simp_all add: rx_bytes_def)
  have "wire_byte order (\<lambda>i. sends order bs (8 * k + i)) = wire_byte order ((!) (wire_bits order (bs ! k)))"
    by (rule bit_word_eqI) (simp add: bit_wire_byte sends_def concat_wire_bits [OF k(2)] wire_pos cong: conj_cong)
  then show "rx_bytes order (sends order bs) n ! k = take n bs ! k" using k by (simp add: rx_bytes_def wire_byte_bits)
qed (use assms in \<open>simp add: rx_bytes_def\<close>)

section \<open>Properties\<close>

text \<open>C18.  In each of the four modes, both bit orders and either select polarity, a transfer of \<open>n\<close>
  bytes with a peripheral that follows the mode exchanges bytes both ways: the receive buffer holds the
  bytes the peripheral sent, the peripheral has sampled exactly the bits of the transmitted bytes (0xFF
  without a transmit buffer), and the bus ends deselected with the clock idle.\<close>

theorem spi_bitbang_transfer_exchanges:
  assumes "rp_sclk r = spi_get_cpol mode" "rp_in r = []" "rp_shifted r = 0" "n \<le> length bs" "tx \<noteq> None \<or> rx \<noteq> None"
    and "\<forall>b. tx = Some b \<longrightarrow> n \<le> length b" "\<forall>b. rx = Some b \<longrightarrow> n \<le> length b"
  shows "\<exists>r'. spi_bitbang_transfer (Some (ref_bus mode order cs_low (sends order bs))) tx rx n r =
      (SPI_OK, map_option (\<lambda>b. take n bs @ drop n b) rx, r') \<and>
    rp_in r' = concat (map (wire_bits order) (tx_bytes tx n)) \<and>
    rp_sclk r' = spi_get_cpol mode \<and> rp_cs r' = (if cs_low \<noteq> 0 then 1 else 0)"
  using transfer_ref [OF assms(1-3,5-7), of order cs_low "sends order bs"] by (simp add: rx_bytes_sends [OF assms(4)])

theorem spi_bitbang_transfer_exchanges_witness:
  "\<exists>r'. spi_bitbang_transfer (Some (ref_bus SPI_MODE_3 SPI_LSB_FIRST 1 (sends SPI_LSB_FIRST [0x12, 0x34]))) (Some [0x9F, 0xAA])
      (Some [0, 0]) 2 \<lparr>rp_sclk = 1, rp_mosi = 0, rp_cs = 1, rp_in = [], rp_shifted = 0\<rparr> = (SPI_OK, Some [0x12, 0x34], r') \<and>
    rp_in r' = concat (map (wire_bits SPI_LSB_FIRST) [0x9F, 0xAA])"
  using spi_bitbang_transfer_exchanges [of "\<lparr>rp_sclk = 1, rp_mosi = 0, rp_cs = 1, rp_in = [], rp_shifted = 0\<rparr>" SPI_MODE_3 2
      "[0x12, 0x34]" "Some [0x9F, 0xAA]" "Some [0, 0]" SPI_LSB_FIRST 1]
  by (auto simp: spi_get_cpol_def tx_bytes_def)

definition blank_device :: simulated_spi_device where
  "blank_device = \<lparr>sd_sclk = 0, sd_mosi = 0, sd_miso = 0, sd_cs = 0, sd_clock_edge_count = 0, sd_delay_count = 0,
     sd_selected = 0, sd_command_received = 0, sd_response_byte_index = 0, sd_response_bit_index = 0, sd_response = [0, 0, 0]\<rparr>"

lemma device_init: "simulated_spi_device_init (Some d) = simulated_spi_device_init (Some blank_device)"
  by (cases d) (simp add: simulated_spi_device_init_def blank_device_def)

lemma init_transfer:
  "case spi_bitbang_init (Some configure_spi_bus) (the (simulated_spi_device_init (Some blank_device))) of (rc, d) \<Rightarrow>
   case spi_bitbang_transfer (Some configure_spi_bus) (Some [0x9F, 0xFF, 0xFF, 0xFF]) (Some [0, 0, 0, 0]) 4 d of (rc', rx, d') \<Rightarrow>
     rc = 0 \<and> rc' = 0 \<and> rx = Some [0xFF, 0xEF, 0x40, 0x18] \<and> sd_clock_edge_count d' = 64 \<and> sd_delay_count d' = 64"
  by code_simp

text \<open>Note.  The program reads the id of the simulated device: it ends in its last stage with the bytes
  FF EF 40 18, after 64 clock edges and 64 half-cycle delays, whatever its globals were before.\<close>

theorem lab15_main_reads_id:
  "let g' = lab15_main g in g_lab15_stage g' = LAB15_STAGE_DONE \<and> g_spi_rx g' = [0xFF, 0xEF, 0x40, 0x18] \<and>
     g_spi_clock_edges g' = 64 \<and> g_spi_delay_calls g' = 64"
  using init_transfer by (auto simp: lab15_main_def Let_def device_init [of "g_simulated_device g"] split: prod.splits)

text \<open>The initialisation leaves the device selected.\<close>

lemma spi_bitbang_init_selects:
  "rp_cs (snd (spi_bitbang_init (Some (ref_bus mode order cs_low out)) r)) = (if cs_low \<noteq> 0 then 0 else 1)"
  by (simp add: spi_bitbang_init_def spi_bitbang_select_def ref_bus_def ref_ops_def Let_def)

text \<open>The simulated device never looks at MOSI: every command is answered with the id.\<close>

lemma simulated_device_ignores_command:
  "simulated_get_miso (simulated_set_mosi level d) =
     (fst (simulated_get_miso d), simulated_set_mosi level (snd (simulated_get_miso d)))"
  by (simp add: simulated_get_miso_def simulated_set_mosi_def Let_def)

end
