(* ===== verification/Ssp.thy ===== *)
theory Ssp
  imports Prelude
begin

text \<open>
  labs/lab16_hardware_spi_controller: a driver for the PL022 SPI controller of the MPS2 board
  (mps2_ssp.c), its board configuration (board_ssp.c) and the loopback test program (main.c).

  The controller and the vendor's header with its register layout are not part of the repository:
  \<open>ssp_regs\<close> is the record of its register accesses and masks on a world \<open>'w\<close>.  The locale \<open>ssp_layout\<close>
  states the fields of CR0 that the PL022 manual documents, the locale \<open>ssp_port\<close> how its FIFOs behave;
  a small PL022 model provides both.
\<close>

section \<open>Data (mps2_ssp.h)\<close>

datatype mps2_ssp_mode = MPS2_SSP_MODE_0 | MPS2_SSP_MODE_1 | MPS2_SSP_MODE_2 | MPS2_SSP_MODE_3

abbreviation (input) MPS2_SSP_OK :: int where "MPS2_SSP_OK \<equiv> 0"
abbreviation (input) MPS2_SSP_ERROR_ARGUMENT :: int where "MPS2_SSP_ERROR_ARGUMENT \<equiv> - 1"
abbreviation (input) MPS2_SSP_ERROR_TX_TIMEOUT :: int where "MPS2_SSP_ERROR_TX_TIMEOUT \<equiv> - 3"
abbreviation (input) MPS2_SSP_ERROR_RX_TIMEOUT :: int where "MPS2_SSP_ERROR_RX_TIMEOUT \<equiv> - 4"
abbreviation (input) MPS2_SSP_ERROR_BUSY_TIMEOUT :: int where "MPS2_SSP_ERROR_BUSY_TIMEOUT \<equiv> - 5"

record mps2_ssp_config =
  cfg_mode :: mps2_ssp_mode
  cfg_data_bits :: u8
  cfg_loopback :: u8
  cfg_cpsdvsr :: u16
  cfg_scr :: u8
  cfg_input_clock_hz :: u32

record 'w ssp_regs =
  rd_CR0 :: "'w \<Rightarrow> u32 \<times> 'w"
  rd_CR1 :: "'w \<Rightarrow> u32 \<times> 'w"
  rd_SR :: "'w \<Rightarrow> u32 \<times> 'w"
  rd_CPSR :: "'w \<Rightarrow> u32 \<times> 'w"
  rd_IMSC :: "'w \<Rightarrow> u32 \<times> 'w"
  rd_DR :: "'w \<Rightarrow> u32 \<times> 'w"
  wr_CR0 :: "u32 \<Rightarrow> 'w \<Rightarrow> 'w"
  wr_CR1 :: "u32 \<Rightarrow> 'w \<Rightarrow> 'w"
  wr_CPSR :: "u32 \<Rightarrow> 'w \<Rightarrow> 'w"
  wr_IMSC :: "u32 \<Rightarrow> 'w \<Rightarrow> 'w"
  wr_DMACR :: "u32 \<Rightarrow> 'w \<Rightarrow> 'w"
  wr_DR :: "u32 \<Rightarrow> 'w \<Rightarrow> 'w"
  SSP_CR0_DSS_Pos :: nat
  SSP_CR0_FRF_MOT :: u32
  SSP_CR0_SCR_Pos :: nat
  SSP_CR0_SCR_Msk :: u32
  SSP_CR0_SCR_DFLT :: u32
  SSP_CR0_SPH_Msk :: u32
  SSP_CR0_SPO_Msk :: u32
  SSP_CR1_LBM_Msk :: u32
  SSP_CR1_SSE_Msk :: u32
  SSP_CR1_MS_Msk :: u32
  SSP_SR_TNF_Msk :: u32
  SSP_SR_RNE_Msk :: u32
  SSP_SR_BSY_Msk :: u32
  SSP_CPSR_DFLT :: u16
  SSP_IMSC_RXIM_Msk :: u32
  SSP_IMSC_RTIM_Msk :: u32

record 'w mps2_ssp =
  ssp_reg :: "'w ssp_regs"
  ssp_timeout_cycles :: u32
  ssp_actual_clock_hz :: u32

section \<open>The driver (mps2_ssp.c)\<close>

definition build_cr0 :: "'w ssp_regs \<Rightarrow> mps2_ssp_config \<Rightarrow> u32" where
  "build_cr0 regs cfg =
     (let val = push_bit (SSP_CR0_DSS_Pos regs) (ucast (cfg_data_bits cfg) - 1);
          val = val OR SSP_CR0_FRF_MOT regs;
          val = val OR push_bit (SSP_CR0_SCR_Pos regs) (ucast (cfg_scr cfg))
      in case cfg_mode cfg of
           MPS2_SSP_MODE_0 \<Rightarrow> val
         | MPS2_SSP_MODE_1 \<Rightarrow> val OR SSP_CR0_SPH_Msk regs
         | MPS2_SSP_MODE_2 \<Rightarrow> val OR SSP_CR0_SPO_Msk regs
         | MPS2_SSP_MODE_3 \<Rightarrow> val OR (SSP_CR0_SPO_Msk regs OR SSP_CR0_SPH_Msk regs))"

text \<open>The division of the clock has no defined result when the divisor is zero: None.\<close>

definition mps2_ssp_init :: "'w mps2_ssp option \<Rightarrow> mps2_ssp_config option \<Rightarrow> 'w \<Rightarrow> (int \<times> 'w mps2_ssp option \<times> 'w) option" where
  "mps2_ssp_init ssp cfg w =
     (case (ssp, cfg) of
        (Some s, Some c) \<Rightarrow>
          if cfg_input_clock_hz c = 0 then Some (MPS2_SSP_ERROR_ARGUMENT, ssp, w)
          else
            let regs = ssp_reg s in
            case rd_CR1 regs w of (v, w) \<Rightarrow>
            let w = wr_CR1 regs (v AND NOT (SSP_CR1_SSE_Msk regs)) w;
                w = wr_IMSC regs 0 w;
                w = wr_DMACR regs 0 w;
                w = wr_CPSR regs (ucast (cfg_cpsdvsr c)) w;
                w = wr_CR0 regs (build_cr0 regs c) w;
                cr1 = 0;
                cr1 = (if cfg_loopback c \<noteq> 0 then cr1 OR SSP_CR1_LBM_Msk regs else cr1);
                cr1 = cr1 AND NOT (SSP_CR1_MS_Msk regs);
                cr1 = cr1 OR SSP_CR1_SSE_Msk regs;
                w = wr_CR1 regs cr1 w;
                divisor = ucast (cfg_cpsdvsr c) * (ucast (cfg_scr c) + 1) :: u32
            in if divisor = 0 then None
               else Some (MPS2_SSP_OK, Some (s\<lparr>ssp_actual_clock_hz := cfg_input_clock_hz c div divisor\<rparr>), w)
      | _ \<Rightarrow> Some (MPS2_SSP_ERROR_ARGUMENT, ssp, w))"

text \<open>The loop of \<open>wait_flag\<close>, with the value of \<open>timeout\<close>: one poll more than the timeout.\<close>

fun wait_flag_loop :: "'w ssp_regs \<Rightarrow> u32 \<Rightarrow> nat \<Rightarrow> 'w \<Rightarrow> int \<times> 'w" where
  "wait_flag_loop regs flag timeout w =
     (case rd_SR regs w of (v, w) \<Rightarrow>
      if v AND flag = 0 then (case timeout of 0 \<Rightarrow> (- 1, w) | Suc t \<Rightarrow> wait_flag_loop regs flag t w) else (0, w))"

declare wait_flag_loop.simps [simp del]

definition wait_flag :: "'w mps2_ssp \<Rightarrow> u32 \<Rightarrow> 'w \<Rightarrow> int \<times> 'w" where
  "wait_flag ssp flag w = wait_flag_loop (ssp_reg ssp) flag (unat (ssp_timeout_cycles ssp)) w"

fun ssp_transfer_loop :: "'w mps2_ssp \<Rightarrow> u8 list \<Rightarrow> nat list \<Rightarrow> u8 list \<Rightarrow> 'w \<Rightarrow> int \<times> u8 list \<times> 'w" where
  "ssp_transfer_loop ssp tx [] rx w = (MPS2_SSP_OK, rx, w)"
| "ssp_transfer_loop ssp tx (i # rest) rx w =
     (case wait_flag ssp (SSP_SR_TNF_Msk (ssp_reg ssp)) w of (r, w) \<Rightarrow>
      if r \<noteq> 0 then (MPS2_SSP_ERROR_TX_TIMEOUT, rx, w)
      else
        let w = wr_DR (ssp_reg ssp) (ucast (tx ! i)) w in
        case wait_flag ssp (SSP_SR_RNE_Msk (ssp_reg ssp)) w of (r, w) \<Rightarrow>
        if r \<noteq> 0 then (MPS2_SSP_ERROR_RX_TIMEOUT, rx, w)
        else
          case rd_DR (ssp_reg ssp) w of (v, w) \<Rightarrow>
          ssp_transfer_loop ssp tx rest (rx[i := ucast (v AND 0xFF)]) w)"

definition mps2_ssp_transfer :: "'w mps2_ssp \<Rightarrow> u8 list \<Rightarrow> u8 list \<Rightarrow> nat \<Rightarrow> 'w \<Rightarrow> int \<times> u8 list \<times> 'w" where
  "mps2_ssp_transfer ssp tx rx len w = ssp_transfer_loop ssp tx [0..<len] rx w"

fun wait_idle_loop :: "'w ssp_regs \<Rightarrow> nat \<Rightarrow> 'w \<Rightarrow> int \<times> 'w" where
  "wait_idle_loop regs timeout w =
     (case rd_SR regs w of (v, w) \<Rightarrow>
      if v AND SSP_SR_BSY_Msk regs \<noteq> 0
      then (case timeout of 0 \<Rightarrow> (MPS2_SSP_ERROR_BUSY_TIMEOUT, w) | Suc t \<Rightarrow> wait_idle_loop regs t w)
      else (MPS2_SSP_OK, w))"

declare wait_idle_loop.simps [simp del]

definition mps2_ssp_wait_idle :: "'w mps2_ssp \<Rightarrow> 'w \<Rightarrow> int \<times> 'w" where
  "mps2_ssp_wait_idle ssp w = wait_idle_loop (ssp_reg ssp) (unat (ssp_timeout_cycles ssp)) w"

definition mps2_ssp_enable_interrupts :: "'w mps2_ssp \<Rightarrow> u32 \<Rightarrow> 'w \<Rightarrow> 'w" where
  "mps2_ssp_enable_interrupts ssp msk w = (case rd_IMSC (ssp_reg ssp) w of (v, w) \<Rightarrow> wr_IMSC (ssp_reg ssp) (v OR msk) w)"

definition mps2_ssp_disable_interrupts :: "'w mps2_ssp \<Rightarrow> u32 \<Rightarrow> 'w \<Rightarrow> 'w" where
  "mps2_ssp_disable_interrupts ssp msk w = (case rd_IMSC (ssp_reg ssp) w of (v, w) \<Rightarrow> wr_IMSC (ssp_reg ssp) (v AND NOT msk) w)"

section \<open>Board and program (board_ssp.c, main.c)\<close>

abbreviation (input) BOARD_SSP_TIMEOUT_CYCLES :: u32 where "BOARD_SSP_TIMEOUT_CYCLES \<equiv> 100000"

definition BOARD_SSP_CPSDVSR :: "'w ssp_regs \<Rightarrow> u16" where
  "BOARD_SSP_CPSDVSR regs = SSP_CPSR_DFLT regs"

definition BOARD_SSP_SCR :: "'w ssp_regs \<Rightarrow> u8" where
  "BOARD_SSP_SCR regs = ucast (drop_bit (SSP_CR0_SCR_Pos regs) (SSP_CR0_SCR_DFLT regs AND SSP_CR0_SCR_Msk regs))"

definition g_board_ssp3 :: "'w ssp_regs \<Rightarrow> 'w mps2_ssp" where
  "g_board_ssp3 regs = \<lparr>ssp_reg = regs, ssp_timeout_cycles = BOARD_SSP_TIMEOUT_CYCLES, ssp_actual_clock_hz = 0\<rparr>"

definition g_board_ssp3_config :: "'w ssp_regs \<Rightarrow> mps2_ssp_config" where
  "g_board_ssp3_config regs = \<lparr>cfg_mode = MPS2_SSP_MODE_0, cfg_data_bits = 8, cfg_loopback = 1,
     cfg_cpsdvsr = BOARD_SSP_CPSDVSR regs, cfg_scr = BOARD_SSP_SCR regs, cfg_input_clock_hz = 0\<rparr>"

definition board_ssp3_init :: "u32 \<Rightarrow> 'w mps2_ssp \<Rightarrow> mps2_ssp_config \<Rightarrow> 'w \<Rightarrow> (int \<times> 'w mps2_ssp \<times> mps2_ssp_config \<times> 'w) option" where
  "board_ssp3_init SystemCoreClock ssp config w =
     (let config = config\<lparr>cfg_input_clock_hz := SystemCoreClock\<rparr> in
      map_option (\<lambda>(r, ssp, w). (r, the ssp, config, w)) (mps2_ssp_init (Some ssp) (Some config) w))"

definition board_ssp3_reset_runtime_state :: "'w mps2_ssp \<Rightarrow> 'w mps2_ssp" where
  "board_ssp3_reset_runtime_state ssp = ssp\<lparr>ssp_actual_clock_hz := 0\<rparr>"

abbreviation (input) TRANSFER_SIZE :: nat where "TRANSFER_SIZE \<equiv> 4"

record 'w lab16 =
  g16_ssp :: "'w mps2_ssp"
  g16_config :: mps2_ssp_config
  g_stage :: u32
  tx_buffer :: "u8 list"
  rx_buffer :: "u8 list"
  init_result :: int
  transfer_result :: int
  verify_result :: int
  reg_cr0 :: u32
  reg_cr1 :: u32
  reg_sr :: u32
  reg_cpsr :: u32
  reg_imsc :: u32

definition capture_register :: "'w lab16 \<Rightarrow> 'w \<Rightarrow> 'w lab16 \<times> 'w" where
  "capture_register g w =
     (let regs = ssp_reg (g16_ssp g) in
      case rd_CR0 regs w of (cr0, w) \<Rightarrow>
      case rd_CR1 regs w of (cr1, w) \<Rightarrow>
      case rd_SR regs w of (sr, w) \<Rightarrow>
      case rd_CPSR regs w of (cpsr, w) \<Rightarrow>
      case rd_IMSC regs w of (imsc, w) \<Rightarrow>
      (g\<lparr>reg_cr0 := cr0, reg_cr1 := cr1, reg_sr := sr, reg_cpsr := cpsr, reg_imsc := imsc\<rparr>, w))"

definition verify_buffers :: "'w lab16 \<Rightarrow> int" where
  "verify_buffers g = fold (\<lambda>i r. if tx_buffer g ! i \<noteq> rx_buffer g ! i then - 1 else r) [0..<TRANSFER_SIZE] 0"

text \<open>main up to its final loop; the register copies it ends with were taken while the interrupts were
  enabled.\<close>

definition lab16_main :: "u32 \<Rightarrow> 'w lab16 \<Rightarrow> 'w \<Rightarrow> ('w lab16 \<times> 'w) option" where
  "lab16_main SystemCoreClock g w =
     (let g = g\<lparr>tx_buffer := [0x9F, 0xA5, 0x5A, 0xFF], rx_buffer := replicate TRANSFER_SIZE 0, g_stage := 1\<rparr> in
      case board_ssp3_init SystemCoreClock (g16_ssp g) (g16_config g) w of
        None \<Rightarrow> None
      | Some (r, ssp, config, w) \<Rightarrow>
        let g = g\<lparr>init_result := r, g16_ssp := ssp, g16_config := config\<rparr> in
        case capture_register g w of (g, w) \<Rightarrow>
        let g = g\<lparr>g_stage := 2\<rparr> in
        case mps2_ssp_transfer (g16_ssp g) (tx_buffer g) (rx_buffer g) TRANSFER_SIZE w of (r, rx, w) \<Rightarrow>
        let g = g\<lparr>transfer_result := r, rx_buffer := rx\<rparr> in
        case capture_register g w of (g, w) \<Rightarrow>
        let g = g\<lparr>verify_result := verify_buffers g, g_stage := 3\<rparr>;
            regs = ssp_reg (g16_ssp g); msk = SSP_IMSC_RXIM_Msk regs OR SSP_IMSC_RTIM_Msk regs;
            w = mps2_ssp_enable_interrupts (g16_ssp g) msk w in
        case capture_register g w of (g, w) \<Rightarrow>
        let w = mps2_ssp_disable_interrupts (g16_ssp g) msk w
        in Some (g\<lparr>g_stage := 4\<rparr>, w))"

section \<open>CR0\<close>

text \<open>The fields of CR0 in the PL022 manual: size in bits 3:0, frame format in 5:4, SPO in 6, SPH in 7, SCR
  in 15:8.\<close>

locale ssp_layout =
  fixes regs :: "'w ssp_regs"
  assumes layout: "SSP_CR0_DSS_Pos regs = 0" "SSP_CR0_FRF_MOT regs = 0" "SSP_CR0_SCR_Pos regs = 8"
    "SSP_CR0_SPO_Msk regs = 0x40" "SSP_CR0_SPH_Msk regs = 0x80"

lemma data_bits_field:
  assumes "1 \<le> n" "n \<le> 16"
  shows "bit (ucast (n :: u8) - 1 :: u32) i \<Longrightarrow> i < 4"
proof -
  have "unat n - 1 < 16" "0 < unat n" using assms by (simp_all add: word_le_nat_alt)
  moreover have "(ucast n - 1 :: u32) = of_nat (unat n - 1)"
    using assms by (simp add: unsigned_eq_0_iff of_nat_diff word_le_nat_alt)
  ultimately have "unat (ucast n - 1 :: u32) < 16" by (simp only: unat_of_nat) simp
  then have "take_bit 4 (unat (ucast n - 1 :: u32)) = unat (ucast n - 1 :: u32)" by (simp add: take_bit_nat_eq_self)
  moreover assume "bit (ucast n - 1 :: u32) i"
  then have "bit (unat (ucast n - 1 :: u32)) i" by (simp add: bit_unsigned_iff bit_imp_le_length)
  ultimately show "i < 4" by (metis bit_take_bit_iff)
qed

context ssp_layout
begin

lemma build_cr0_bits:
  assumes "1 \<le> cfg_data_bits c" "cfg_data_bits c \<le> 16"
  shows "bit (build_cr0 regs c) i \<longleftrightarrow>
    i < 4 \<and> bit (ucast (cfg_data_bits c) - 1 :: u32) i \<or> 8 \<le> i \<and> i < 16 \<and> bit (cfg_scr c) (i - 8) \<or>
    i = 6 \<and> cfg_mode c \<in> {MPS2_SSP_MODE_2, MPS2_SSP_MODE_3} \<or> i = 7 \<and> cfg_mode c \<in> {MPS2_SSP_MODE_1, MPS2_SSP_MODE_3}"
proof -
  define D where "D = bit (ucast (cfg_data_bits c) - 1 :: u32) i"
  have f: "D \<Longrightarrow> i < 4" using data_bits_field [OF assms, of i] by (simp add: D_def)
  have m: "bit (SSP_CR0_SPO_Msk regs) i = (i = 6)" "bit (SSP_CR0_SPH_Msk regs) i = (i = 7)"
    unfolding layout using bit_exp_iff [where 'a = "32 word", of 6 i] bit_exp_iff [where 'a = "32 word", of 7 i] by auto
  define S where "S \<longleftrightarrow> 8 \<le> i \<and> i < 16 \<and> bit (cfg_scr c) (i - 8)"
  have scr: "bit (push_bit 8 (ucast (cfg_scr c)) :: u32) i \<longleftrightarrow> S"
    unfolding S_def by (auto simp: bit_push_bit_iff bit_ucast_iff dest: bit_imp_le_length)
  have spec: "(i < 4 \<and> D \<or> 8 \<le> i \<and> i < 16 \<and> bit (cfg_scr c) (i - 8) \<or> R) \<longleftrightarrow> D \<or> S \<or> R" for R
    using f by (auto simp: S_def)
  show ?thesis unfolding D_def [symmetric] spec
    by (cases "cfg_mode c") (auto simp: build_cr0_def layout(1-3) m bit_or_iff scr simp flip: D_def)
qed

end

section \<open>FIFOs\<close>

text \<open>The controller holds the frames exchanged and not yet read, at most \<open>depth\<close> of them.  TNF shows
  while there is room; RNE shows at the latest \<open>lag\<close> polls after a write, and not when nothing is held.
  A written byte comes back as \<open>answer\<close>.\<close>

locale ssp_port =
  fixes regs :: "'w ssp_regs" and I :: "'w \<Rightarrow> bool" and held :: "'w \<Rightarrow> u8 list" and lag :: "'w \<Rightarrow> nat"
    and answer :: "u8 \<Rightarrow> u8" and depth L :: nat
  assumes sr: "I w \<Longrightarrow> rd_SR regs w = (v, w') \<Longrightarrow> I w' \<and> held w' = held w \<and> lag w' = lag w - 1"
    and tnf: "I w \<Longrightarrow> rd_SR regs w = (v, w') \<Longrightarrow> length (held w) < depth \<Longrightarrow> v AND SSP_SR_TNF_Msk regs \<noteq> 0"
    and rne: "I w \<Longrightarrow> rd_SR regs w = (v, w') \<Longrightarrow> held w \<noteq> [] \<Longrightarrow> lag w = 0 \<Longrightarrow> v AND SSP_SR_RNE_Msk regs \<noteq> 0"
    and write_dr: "I w \<Longrightarrow> length (held w) < depth \<Longrightarrow> I (wr_DR regs (ucast x) w) \<and>
      held (wr_DR regs (ucast x) w) = held w @ [answer x] \<and> lag (wr_DR regs (ucast x) w) \<le> L"
    and read_dr: "I w \<Longrightarrow> held w = q # qs \<Longrightarrow> \<exists>v w'. rd_DR regs w = (v, w') \<and> v AND 0xFF = ucast q \<and> I w' \<and> held w' = qs"
begin

lemma wait_tnf:
  assumes "I w" "length (held w) < depth" "ssp_reg s = regs"
  obtains w' where "wait_flag s (SSP_SR_TNF_Msk regs) w = (0, w')" "I w'" "held w' = held w"
proof -
  obtain v w' where r: "rd_SR regs w = (v, w')" by (rule prod.exhaust)
  show ?thesis
    using that [of w'] sr [OF assms(1) r] tnf [OF assms(1) r assms(2)] r assms(3)
    by (simp add: wait_flag_def wait_flag_loop.simps [of _ _ _ w])
qed

lemma wait_rne_loop:
  "I w \<Longrightarrow> held w \<noteq> [] \<Longrightarrow> lag w \<le> n \<Longrightarrow> \<exists>w'. wait_flag_loop regs (SSP_SR_RNE_Msk regs) n w = (0, w') \<and> I w' \<and> held w' = held w"
proof (induction n arbitrary: w)
  case 0
  obtain v w' where r: "rd_SR regs w = (v, w')" by (rule prod.exhaust)
  show ?case using sr [OF 0(1) r] rne [OF 0(1) r 0(2)] 0(3) r by (simp add: wait_flag_loop.simps [of _ _ _ w])
next
  case (Suc n)
  obtain v w' where r: "rd_SR regs w = (v, w')" by (rule prod.exhaust)
  note s = sr [OF Suc.prems(1) r]
  show ?case
  proof (cases "v AND SSP_SR_RNE_Msk regs = 0")
    case True
    then have "lag w \<noteq> 0" using rne [OF Suc.prems(1) r Suc.prems(2)] by blast
    then have "\<exists>w''. wait_flag_loop regs (SSP_SR_RNE_Msk regs) n w' = (0, w'') \<and> I w'' \<and> held w'' = held w'"
      using Suc.IH [of w'] Suc.prems s by auto
    then show ?thesis using True r s by (simp add: wait_flag_loop.simps [of _ _ _ w])
  next
    case False
    then show ?thesis using r s by (simp add: wait_flag_loop.simps [of _ _ _ w])
  qed
qed

lemma transfer_loop:
  assumes "I w" "length (held w) < depth" "ssp_reg s = regs" "L \<le> unat (ssp_timeout_cycles s)" "m + n \<le> length rx"
  shows "\<exists>w'. ssp_transfer_loop s tx [m..<m + n] rx w =
      (MPS2_SSP_OK, take m rx @ take n (held w @ map (\<lambda>i. answer (tx ! i)) [m..<m + n]) @ drop (m + n) rx, w') \<and>
    I w' \<and> held w' = drop n (held w @ map (\<lambda>i. answer (tx ! i)) [m..<m + n])"
  using assms(1,2,5)
proof (induction n arbitrary: m w rx)
  case 0
  then show ?case by simp
next
  case (Suc n)
  obtain w1 where 1: "wait_flag s (SSP_SR_TNF_Msk regs) w = (0, w1)" "I w1" "held w1 = held w"
    by (rule wait_tnf [OF Suc.prems(1,2) assms(3)])
  let ?w2 = "wr_DR regs (ucast (tx ! m)) w1" and ?a = "\<lambda>i. answer (tx ! i)"
  have 2: "I ?w2" "held ?w2 = held w @ [?a m]" "lag ?w2 \<le> L" using write_dr [OF 1(2), of "tx ! m"] 1(3) Suc.prems(2) by simp_all
  obtain w3 where 3: "wait_flag s (SSP_SR_RNE_Msk regs) ?w2 = (0, w3)" "I w3" "held w3 = held w @ [?a m]"
    using wait_rne_loop [OF 2(1), of "unat (ssp_timeout_cycles s)"] 2 assms(3,4) by (auto simp: wait_flag_def)
  obtain q qs where q: "held w @ [?a m] = q # qs" "length qs = length (held w)" by (cases "held w") auto
  obtain v w4 where 4: "rd_DR regs w3 = (v, w4)" "v AND 0xFF = ucast q" "I w4" "held w4 = qs"
    using read_dr [OF 3(2)] 3(3) q(1) by metis
  have byte: "ucast (v AND 0xFF) = q" unfolding 4(2) by (rule bit_word_eqI) (simp add: bit_simps)
  let ?rx = "rx[m := q]"
  have len: "length (held w4) < depth" "Suc m + n \<le> length ?rx" using 4(4) q(2) Suc.prems(2,3) by simp_all
  have range: "[m..<m + Suc n] = m # [Suc m..<Suc m + n]" by (simp add: upt_rec)
  have stream: "held w @ map ?a [m..<m + Suc n] = q # held w4 @ map ?a [Suc m..<Suc m + n]"
    unfolding range using q(1) 4(4) by (simp del: upt_Suc)
  obtain w5 where 5: "ssp_transfer_loop s tx [Suc m..<Suc m + n] ?rx w4 =
      (MPS2_SSP_OK, take (Suc m) ?rx @ take n (held w4 @ map ?a [Suc m..<Suc m + n]) @ drop (Suc m + n) ?rx, w5)"
    "I w5" "held w5 = drop n (held w4 @ map ?a [Suc m..<Suc m + n])"
    using Suc.IH [OF 4(3) len] by blast
  have "take (Suc m) ?rx @ xs @ drop (Suc m + n) ?rx = take m rx @ q # xs @ drop (m + Suc n) rx" for xs
    using Suc.prems(3) by (simp add: take_Suc_conv_app_nth)
  moreover have "ssp_transfer_loop s tx [m..<m + Suc n] rx w = ssp_transfer_loop s tx [Suc m..<Suc m + n] ?rx w4"
    unfolding range using 1(1) 3(1) 4(1) byte by (simp add: assms(3) Let_def del: upt_Suc)
  ultimately show ?case unfolding stream using 5 by (simp del: upt_Suc)
qed

end

text \<open>A port that never shows a flag.\<close>

lemma wait_flag_never:
  assumes "\<And>w. fst (rd_SR (ssp_reg s) w) AND flag = 0"
  shows "fst (wait_flag s flag w) = - 1"
proof -
  have "fst (wait_flag_loop (ssp_reg s) flag n w) = - 1" for n
  proof (induction n arbitrary: w)
    case 0
    then show ?case using assms [of w] by (cases "rd_SR (ssp_reg s) w") (simp add: wait_flag_loop.simps [of _ _ _ w])
  next
    case (Suc n)
    then show ?case using assms [of w] by (cases "rd_SR (ssp_reg s) w") (simp add: wait_flag_loop.simps [of _ _ _ w])
  qed
  then show ?thesis by (simp add: wait_flag_def)
qed

section \<open>A PL022 model\<close>

text \<open>The registers the driver uses, the receive FIFO in loopback mode, and the number of status reads
  until a written frame has come back.  DR is not connected when the port is disabled or not looped
  back.\<close>

record pl022 =
  pl_CR0 :: u32
  pl_CR1 :: u32
  pl_CPSR :: u32
  pl_IMSC :: u32
  pl_DMACR :: u32
  pl_fifo :: "u8 list"
  pl_lag :: nat

definition pl022_regs :: "nat \<Rightarrow> pl022 ssp_regs" where
  "pl022_regs latency =
     \<lparr>rd_CR0 = (\<lambda>w. (pl_CR0 w, w)), rd_CR1 = (\<lambda>w. (pl_CR1 w, w)),
      rd_SR = (\<lambda>w. ((if length (pl_fifo w) < 8 then 2 else 0) OR (if pl_fifo w \<noteq> [] \<and> pl_lag w = 0 then 4 else 0),
                    w\<lparr>pl_lag := pl_lag w - 1\<rparr>)),
      rd_CPSR = (\<lambda>w. (pl_CPSR w, w)), rd_IMSC = (\<lambda>w. (pl_IMSC w, w)),
      rd_DR = (\<lambda>w. case pl_fifo w of [] \<Rightarrow> (0, w) | q # qs \<Rightarrow> (ucast q, w\<lparr>pl_fifo := qs\<rparr>)),
      wr_CR0 = (\<lambda>v w. w\<lparr>pl_CR0 := v\<rparr>), wr_CR1 = (\<lambda>v w. w\<lparr>pl_CR1 := v\<rparr>), wr_CPSR = (\<lambda>v w. w\<lparr>pl_CPSR := v\<rparr>),
      wr_IMSC = (\<lambda>v w. w\<lparr>pl_IMSC := v\<rparr>), wr_DMACR = (\<lambda>v w. w\<lparr>pl_DMACR := v\<rparr>),
      wr_DR = (\<lambda>v w. if pl_CR1 w AND 3 = 3 then w\<lparr>pl_fifo := pl_fifo w @ [ucast v], pl_lag := latency\<rparr> else w),
      SSP_CR0_DSS_Pos = 0, SSP_CR0_FRF_MOT = 0, SSP_CR0_SCR_Pos = 8, SSP_CR0_SCR_Msk = 0xFF00, SSP_CR0_SCR_DFLT = 0x300,
      SSP_CR0_SPH_Msk = 0x80, SSP_CR0_SPO_Msk = 0x40, SSP_CR1_LBM_Msk = 1, SSP_CR1_SSE_Msk = 2, SSP_CR1_MS_Msk = 4,
      SSP_SR_TNF_Msk = 2, SSP_SR_RNE_Msk = 4, SSP_SR_BSY_Msk = 16, SSP_CPSR_DFLT = 8, SSP_IMSC_RXIM_Msk = 4, SSP_IMSC_RTIM_Msk = 2\<rparr>"

lemma byte_word [simp]: "ucast (ucast (x :: u8) :: u32) = x" "(ucast x :: u32) AND 0xFF = ucast x"
proof -
  show "ucast (ucast x :: u32) = x" by (rule bit_word_eqI) (simp add: bit_simps)
  have "(ucast x :: u32) AND mask 8 = ucast x" by (rule bit_word_eqI) (auto simp: bit_simps dest: bit_imp_le_length)
  then show "(ucast x :: u32) AND 0xFF = ucast x" by (simp add: mask_eq_exp_minus_1)
qed

interpretation pl022: ssp_layout "pl022_regs latency" for latency
  by unfold_locales (simp_all add: pl022_regs_def)

interpretation pl022_port: ssp_port "pl022_regs latency" "\<lambda>w. pl_CR1 w AND 3 = 3 \<and> pl_IMSC w = imsc" pl_fifo pl_lag id 8 latency
  for latency imsc
  by unfold_locales (auto simp: pl022_regs_def)

lemma verify_equal: "tx_buffer g = rx_buffer g \<Longrightarrow> verify_buffers g = 0"
  by (simp add: verify_buffers_def numeral_eq_Suc)

lemma pl022_transfer:
  assumes "pl_CR1 w AND 3 = 3" "pl_fifo w = []" "latency \<le> unat (ssp_timeout_cycles s)" "ssp_reg s = pl022_regs latency"
    and "length tx = n" "length rx = n"
  shows "\<exists>w'. mps2_ssp_transfer s tx rx n w = (MPS2_SSP_OK, tx, w') \<and> pl_IMSC w' = pl_IMSC w"
proof -
  have "map (\<lambda>i. id (tx ! i)) [0..<n] = tx" using assms(5) by (auto simp: map_nth)
  then show ?thesis
    using pl022_port.transfer_loop [of w "pl_IMSC w", OF _ _ assms(4,3), of 0 n rx tx] assms(1,2,5,6)
    by (auto simp: mps2_ssp_transfer_def)
qed

lemma capture_pl022:
  assumes "ssp_reg (g16_ssp g) = pl022_regs latency"
  shows "capture_register g w = (g\<lparr>reg_cr0 := pl_CR0 w, reg_cr1 := pl_CR1 w, reg_sr := fst (rd_SR (pl022_regs latency) w),
    reg_cpsr := pl_CPSR w, reg_imsc := pl_IMSC w\<rparr>, w\<lparr>pl_lag := pl_lag w - 1\<rparr>)"
  unfolding capture_register_def assms Let_def by (simp add: pl022_regs_def)

definition board_regs_of :: "'w lab16 \<Rightarrow> 'w ssp_regs \<Rightarrow> bool" where
  "board_regs_of g regs \<longleftrightarrow> g16_ssp g = g_board_ssp3 regs \<and> g16_config g = g_board_ssp3_config regs"

lemma main_pl022:
  assumes "board_regs_of g (pl022_regs latency)" "latency \<le> 100000" "pl_fifo w = []" "clock \<noteq> 0"
  shows "\<exists>g' w'. lab16_main clock g w = Some (g', w') \<and> init_result g' = MPS2_SSP_OK \<and> transfer_result g' = MPS2_SSP_OK \<and>
    rx_buffer g' = [0x9F, 0xA5, 0x5A, 0xFF] \<and> verify_result g' = 0 \<and> g_stage g' = 4 \<and>
    ssp_actual_clock_hz (g16_ssp g') = clock div 32 \<and> reg_imsc g' = 6 \<and> pl_IMSC w' = 0"
proof -
  let ?regs = "pl022_regs latency"
  let ?s = "(g_board_ssp3 ?regs)\<lparr>ssp_actual_clock_hz := clock div 32\<rparr>"
  let ?w = "w\<lparr>pl_CR0 := 0x307, pl_CR1 := 3, pl_CPSR := 8, pl_IMSC := 0, pl_DMACR := 0\<rparr>"
  have ini: "board_ssp3_init clock (g_board_ssp3 ?regs) (g_board_ssp3_config ?regs) w =
      Some (MPS2_SSP_OK, ?s, (g_board_ssp3_config ?regs)\<lparr>cfg_input_clock_hz := clock\<rparr>, ?w)"
    using assms(4) by (simp add: board_ssp3_init_def mps2_ssp_init_def g_board_ssp3_def g_board_ssp3_config_def pl022_regs_def
      BOARD_SSP_CPSDVSR_def BOARD_SSP_SCR_def build_cr0_def Let_def)
  have regs: "ssp_reg ?s = ?regs" "unat (ssp_timeout_cycles ?s) = 100000" by (simp_all add: g_board_ssp3_def)
  let ?w1 = "?w\<lparr>pl_lag := pl_lag w - 1\<rparr>"
  obtain w2 where t: "mps2_ssp_transfer ?s [0x9F, 0xA5, 0x5A, 0xFF] [0, 0, 0, 0] 4 ?w1 =
      (MPS2_SSP_OK, [0x9F, 0xA5, 0x5A, 0xFF], w2)" "pl_IMSC w2 = 0"
    using pl022_transfer [of ?w1 latency ?s "[0x9F, 0xA5, 0x5A, 0xFF]" 4 "[0, 0, 0, 0]"] assms(2,3) regs
    by auto
  have g: "g16_ssp g = g_board_ssp3 ?regs" "g16_config g = g_board_ssp3_config ?regs" using assms(1) by (simp_all add: board_regs_of_def)
  have msk: "SSP_IMSC_RXIM_Msk ?regs OR SSP_IMSC_RTIM_Msk ?regs = 6" by (simp add: pl022_regs_def)
  have irq: "mps2_ssp_enable_interrupts ?s 6 v = v\<lparr>pl_IMSC := pl_IMSC v OR 6\<rparr>"
    "mps2_ssp_disable_interrupts ?s 6 v = v\<lparr>pl_IMSC := pl_IMSC v AND NOT 6\<rparr>" for v
    by (simp_all add: mps2_ssp_enable_interrupts_def mps2_ssp_disable_interrupts_def regs) (simp_all add: pl022_regs_def)
  have "replicate 4 (0 :: u8) = [0, 0, 0, 0]" by (simp add: numeral_eq_Suc)
  then show ?thesis
    using ini t regs(1)
    by (simp add: lab16_main_def Let_def g capture_pl022 verify_equal msk irq)
qed

section \<open>Properties\<close>

text \<open>C34.  On a port whose FIFOs behave as documented, with a timeout that covers its latency, a transfer
  succeeds and stores the answers to the bytes it sent, in order, behind whatever the receive FIFO still
  held: only from an empty FIFO are the received bytes those of this transfer.\<close>

theorem mps2_ssp_transfer_stream:
  assumes "ssp_port regs I held lag answer depth L" "I w" "length (held w) < depth" "ssp_reg s = regs"
    and "L \<le> unat (ssp_timeout_cycles s)" "n \<le> length rx" "n \<le> length tx"
  shows "\<exists>w'. mps2_ssp_transfer s tx rx n w = (MPS2_SSP_OK, take n (held w @ map answer (take n tx)) @ drop n rx, w') \<and>
    I w' \<and> held w' = drop n (held w @ map answer (take n tx))"
proof -
  have "map (\<lambda>i. answer (tx ! i)) [0..<n] = map answer (take n tx)" using assms(7) by (simp add: list_eq_iff_nth_eq)
  then show ?thesis using ssp_port.transfer_loop [OF assms(1-5), of 0 n rx tx] assms(6) by (simp add: mps2_ssp_transfer_def)
qed

theorem mps2_ssp_transfer_stream_witness:
  "\<exists>w'. mps2_ssp_transfer (g_board_ssp3 (pl022_regs 5)) [1, 2, 3] [0, 0, 0] 3
      \<lparr>pl_CR0 = 0, pl_CR1 = 3, pl_CPSR = 8, pl_IMSC = 0, pl_DMACR = 0, pl_fifo = [0xEE], pl_lag = 0\<rparr> = (MPS2_SSP_OK, [0xEE, 1, 2], w') \<and>
    pl_fifo w' = [3]"
proof -
  have "ssp_port (pl022_regs 5) (\<lambda>w. pl_CR1 w AND 3 = 3 \<and> pl_IMSC w = 0) pl_fifo pl_lag id 8 5" by (rule pl022_port.ssp_port_axioms)
  from mps2_ssp_transfer_stream [OF this, of "\<lparr>pl_CR0 = 0, pl_CR1 = 3, pl_CPSR = 8, pl_IMSC = 0, pl_DMACR = 0, pl_fifo = [0xEE], pl_lag = 0\<rparr>"
      "g_board_ssp3 (pl022_regs 5)" 3 "[0, 0, 0]" "[1, 2, 3]"]
  show ?thesis by (auto simp: g_board_ssp3_def)
qed

text \<open>Note.  A port that never reports room ends the transfer at once with the transmit timeout, and one that
  never reports a received frame with the receive timeout; the receive buffer is as it was.\<close>

theorem mps2_ssp_transfer_times_out:
  assumes "0 < n"
    and "(\<forall>w. fst (rd_SR (ssp_reg s) w) AND SSP_SR_TNF_Msk (ssp_reg s) = 0) \<and> rc = MPS2_SSP_ERROR_TX_TIMEOUT \<or>
      (\<forall>w. fst (rd_SR (ssp_reg s) w) AND SSP_SR_TNF_Msk (ssp_reg s) \<noteq> 0) \<and>
      (\<forall>w. fst (rd_SR (ssp_reg s) w) AND SSP_SR_RNE_Msk (ssp_reg s) = 0) \<and> rc = MPS2_SSP_ERROR_RX_TIMEOUT"
  shows "\<exists>w'. mps2_ssp_transfer s tx rx n w = (rc, rx, w')"
  using assms(2)
proof (elim disjE conjE)
  assume a: "\<forall>w. fst (rd_SR (ssp_reg s) w) AND SSP_SR_TNF_Msk (ssp_reg s) = 0" "rc = MPS2_SSP_ERROR_TX_TIMEOUT"
  have range: "[0..<n] = 0 # [1..<n]" using assms(1) by (simp add: upt_rec)
  show ?thesis
    using wait_flag_never [of s "SSP_SR_TNF_Msk (ssp_reg s)" w] a unfolding mps2_ssp_transfer_def range
    by (cases "wait_flag s (SSP_SR_TNF_Msk (ssp_reg s)) w") simp
next
  assume a: "\<forall>w. fst (rd_SR (ssp_reg s) w) AND SSP_SR_TNF_Msk (ssp_reg s) \<noteq> 0"
    "\<forall>w. fst (rd_SR (ssp_reg s) w) AND SSP_SR_RNE_Msk (ssp_reg s) = 0" "rc = MPS2_SSP_ERROR_RX_TIMEOUT"
  have range: "[0..<n] = 0 # [1..<n]" using assms(1) by (simp add: upt_rec)
  obtain v w1 where r: "rd_SR (ssp_reg s) w = (v, w1)" by (rule prod.exhaust)
  then have "v AND SSP_SR_TNF_Msk (ssp_reg s) \<noteq> 0" using a(1) by (metis fst_conv)
  then have "wait_flag s (SSP_SR_TNF_Msk (ssp_reg s)) w = (0, w1)"
    using r by (simp add: wait_flag_def wait_flag_loop.simps [of _ _ _ w])
  then show ?thesis
    using wait_flag_never [of s "SSP_SR_RNE_Msk (ssp_reg s)" "wr_DR (ssp_reg s) (ucast (tx ! 0)) w1"] a(2,3)
    unfolding mps2_ssp_transfer_def range
    by (cases "wait_flag s (SSP_SR_RNE_Msk (ssp_reg s)) (wr_DR (ssp_reg s) (ucast (tx ! 0)) w1)") (simp add: Let_def)
qed

theorem mps2_ssp_transfer_times_out_witness:
  "\<exists>w'. mps2_ssp_transfer (g_board_ssp3 ((pl022_regs 0)\<lparr>rd_SR := \<lambda>w. (0, w)\<rparr>)) [1] [7] 1
      \<lparr>pl_CR0 = 0, pl_CR1 = 3, pl_CPSR = 8, pl_IMSC = 0, pl_DMACR = 0, pl_fifo = [], pl_lag = 0\<rparr> = (MPS2_SSP_ERROR_TX_TIMEOUT, [7], w')"
  by (rule mps2_ssp_transfer_times_out) (simp_all add: g_board_ssp3_def)

text \<open>Note.  For a frame size of 1 to 16 bits CR0 holds the size less one in bits 3:0, the clock rate in bits
  15:8, the polarity of the mode in bit 6 and its phase in bit 7, and nothing else.\<close>

theorem build_cr0_fields:
  assumes "ssp_layout regs" "1 \<le> cfg_data_bits c" "cfg_data_bits c \<le> 16"
  shows "bit (build_cr0 regs c) i \<longleftrightarrow>
    i < 4 \<and> bit (ucast (cfg_data_bits c) - 1 :: u32) i \<or> 8 \<le> i \<and> i < 16 \<and> bit (cfg_scr c) (i - 8) \<or>
    i = 6 \<and> cfg_mode c \<in> {MPS2_SSP_MODE_2, MPS2_SSP_MODE_3} \<or> i = 7 \<and> cfg_mode c \<in> {MPS2_SSP_MODE_1, MPS2_SSP_MODE_3}"
  by (rule ssp_layout.build_cr0_bits [OF assms])

theorem build_cr0_fields_witness:
  "bit (build_cr0 (pl022_regs 0) \<lparr>cfg_mode = MPS2_SSP_MODE_3, cfg_data_bits = 8, cfg_loopback = 0, cfg_cpsdvsr = 2,
     cfg_scr = 3, cfg_input_clock_hz = 1\<rparr>) 6"
  by (subst build_cr0_fields [OF pl022.ssp_layout_axioms]) simp_all

text \<open>Note.  On a looped back PL022 of any latency up to the board's timeout, with an empty receive FIFO and a
  known clock, the program initialises the port for a clock of a 32nd of the input, receives what it sent,
  and ends with the interrupt mask as it was set and cleared.\<close>

theorem lab16_main_loopback:
  assumes "board_regs_of g (pl022_regs latency)" "latency \<le> 100000" "pl_fifo w = []" "clock \<noteq> 0"
  shows "\<exists>g' w'. lab16_main clock g w = Some (g', w') \<and> init_result g' = MPS2_SSP_OK \<and> transfer_result g' = MPS2_SSP_OK \<and>
    rx_buffer g' = [0x9F, 0xA5, 0x5A, 0xFF] \<and> verify_result g' = 0 \<and> g_stage g' = 4 \<and>
    ssp_actual_clock_hz (g16_ssp g') = clock div 32 \<and> reg_imsc g' = 6 \<and> pl_IMSC w' = 0"
  by (rule main_pl022 [OF assms])

definition lab16_reset :: "pl022 lab16" where
  "lab16_reset = \<lparr>g16_ssp = g_board_ssp3 (pl022_regs 3), g16_config = g_board_ssp3_config (pl022_regs 3), g_stage = 0,
     tx_buffer = replicate 4 0, rx_buffer = replicate 4 0, init_result = 0, transfer_result = 0, verify_result = 0,
     reg_cr0 = 0, reg_cr1 = 0, reg_sr = 0, reg_cpsr = 0, reg_imsc = 0\<rparr>"

theorem lab16_main_loopback_witness:
  "\<exists>g' w'. lab16_main 25000000 lab16_reset \<lparr>pl_CR0 = 0, pl_CR1 = 0, pl_CPSR = 0, pl_IMSC = 0, pl_DMACR = 0, pl_fifo = [], pl_lag = 0\<rparr> =
     Some (g', w') \<and> ssp_actual_clock_hz (g16_ssp g') = 781250"
proof -
  have "board_regs_of lab16_reset (pl022_regs 3)" by (simp add: board_regs_of_def lab16_reset_def)
  from lab16_main_loopback [OF this, of "\<lparr>pl_CR0 = 0, pl_CR1 = 0, pl_CPSR = 0, pl_IMSC = 0, pl_DMACR = 0, pl_fifo = [], pl_lag = 0\<rparr>" 25000000]
  show ?thesis by auto
qed

text \<open>A divisor of zero is not refused: the clock computation is undefined.\<close>

lemma mps2_ssp_init_zero_divisor:
  "cfg_input_clock_hz c \<noteq> 0 \<Longrightarrow> cfg_cpsdvsr c = 0 \<Longrightarrow> mps2_ssp_init (Some s) (Some c) w = None"
  by (simp add: mps2_ssp_init_def Let_def case_prod_beta)

end
