(* ===== verification/Mps2_I2c.thy ===== *)
theory Mps2_I2c
  imports I2c_Wire
begin

text \<open>
  labs/lab14_mps2_mmio_i2c/mps2_i2c.c: an I2C master that drives SDA and SCL through the set, clear and
  read registers of the MPS2 I2C peripheral.

  The peripheral and the bus behind it are not part of the repository.  The driver is defined over a
  record of register accesses on a world \<open>'w\<close>; the second half of the theory gives an open-drain bus
  with an arbitrary target, which the header SMM_MPS2.h and the I2C specification describe, and
  relates the driver on that bus to a specification on the history of bus conditions.
\<close>

section \<open>Registers and data (mps2_i2c.h)\<close>

record 'w MPS2_I2C_TypeDef =
  rd_CONTROL :: "'w \<Rightarrow> u32 \<times> 'w"
  wr_CONTROLS :: "u32 \<Rightarrow> 'w \<Rightarrow> 'w"
  wr_CONTROLC :: "u32 \<Rightarrow> 'w \<Rightarrow> 'w"
  MPS2_I2C_SDA_MASK :: u32
  MPS2_I2C_SCL_MASK :: u32

abbreviation (input) MPS2_I2C_MSG_WRITE :: u8 where "MPS2_I2C_MSG_WRITE \<equiv> 0"
abbreviation (input) MPS2_I2C_MSG_READ :: u8 where "MPS2_I2C_MSG_READ \<equiv> 1"
abbreviation (input) MPS2_I2C_MSG_STOP :: u8 where "MPS2_I2C_MSG_STOP \<equiv> 2"
abbreviation (input) MPS2_I2C_MSG_RESTART :: u8 where "MPS2_I2C_MSG_RESTART \<equiv> 4"

abbreviation (input) MPS2_I2C_OK :: int where "MPS2_I2C_OK \<equiv> 0"
abbreviation (input) MPS2_I2C_ERR_ARGUMENT :: int where "MPS2_I2C_ERR_ARGUMENT \<equiv> - 1"
abbreviation (input) MPS2_I2C_ERR_ADDRESS :: int where "MPS2_I2C_ERR_ADDRESS \<equiv> - 2"
abbreviation (input) MPS2_I2C_ERR_NACK :: int where "MPS2_I2C_ERR_NACK \<equiv> - 3"
abbreviation (input) MPS2_I2C_ERR_TIMEOUT :: int where "MPS2_I2C_ERR_TIMEOUT \<equiv> - 4"
abbreviation (input) MPS2_I2C_ERR_BUS_BUSY :: int where "MPS2_I2C_ERR_BUS_BUSY \<equiv> - 5"

record 'w mps2_i2c_bus =
  bus_regs :: "'w MPS2_I2C_TypeDef option"
  delay_cycles :: u32
  timeout_cycles :: u32

record mps2_i2c_msg =
  msg_buf :: "u8 list option"
  msg_len :: nat
  msg_flags :: u8

section \<open>Lines (mps2_i2c.c)\<close>

definition bus_valid :: "'w mps2_i2c_bus option \<Rightarrow> bool" where
  "bus_valid bus = (case bus of None \<Rightarrow> False
     | Some b \<Rightarrow> bus_regs b \<noteq> None \<and> delay_cycles b \<noteq> 0 \<and> timeout_cycles b \<noteq> 0)"

abbreviation (input) regs :: "'w mps2_i2c_bus \<Rightarrow> 'w MPS2_I2C_TypeDef" where "regs bus \<equiv> the (bus_regs bus)"

text \<open>A counted delay loop: it ends after \<open>delay_cycles\<close> iterations and has no effect but time.\<close>

fun delay_loop :: "nat \<Rightarrow> 'w \<Rightarrow> 'w" where
  "delay_loop 0 w = w"
| "delay_loop (Suc n) w = delay_loop n w"

definition mps2_i2c_bit_delay :: "'w mps2_i2c_bus \<Rightarrow> 'w \<Rightarrow> 'w" where
  "mps2_i2c_bit_delay bus w = delay_loop (unat (delay_cycles bus)) w"

definition sda_is_high :: "'w mps2_i2c_bus \<Rightarrow> 'w \<Rightarrow> bool \<times> 'w" where
  "sda_is_high bus w = (case rd_CONTROL (regs bus) w of (v, w) \<Rightarrow> (v AND MPS2_I2C_SDA_MASK (regs bus) \<noteq> 0, w))"

definition scl_is_high :: "'w mps2_i2c_bus \<Rightarrow> 'w \<Rightarrow> bool \<times> 'w" where
  "scl_is_high bus w = (case rd_CONTROL (regs bus) w of (v, w) \<Rightarrow> (v AND MPS2_I2C_SCL_MASK (regs bus) \<noteq> 0, w))"

definition sda_release :: "'w mps2_i2c_bus \<Rightarrow> 'w \<Rightarrow> 'w" where
  "sda_release bus w = mps2_i2c_bit_delay bus (wr_CONTROLS (regs bus) (MPS2_I2C_SDA_MASK (regs bus)) w)"

definition scl_release :: "'w mps2_i2c_bus \<Rightarrow> 'w \<Rightarrow> 'w" where
  "scl_release bus w = mps2_i2c_bit_delay bus (wr_CONTROLS (regs bus) (MPS2_I2C_SCL_MASK (regs bus)) w)"

fun wait_scl_polls :: "'w mps2_i2c_bus \<Rightarrow> nat \<Rightarrow> 'w \<Rightarrow> int \<times> 'w" where
  "wait_scl_polls bus 0 w = (MPS2_I2C_ERR_TIMEOUT, w)"
| "wait_scl_polls bus (Suc k) w =
     (case scl_is_high bus w of (high, w) \<Rightarrow>
        if high then (MPS2_I2C_OK, mps2_i2c_bit_delay bus w) else wait_scl_polls bus k w)"

definition wait_scl_high :: "'w mps2_i2c_bus \<Rightarrow> 'w \<Rightarrow> int \<times> 'w" where
  "wait_scl_high bus w = wait_scl_polls bus (unat (timeout_cycles bus)) (scl_release bus w)"

definition sda_drive_low :: "'w mps2_i2c_bus \<Rightarrow> 'w \<Rightarrow> 'w" where
  "sda_drive_low bus w = mps2_i2c_bit_delay bus (wr_CONTROLC (regs bus) (MPS2_I2C_SDA_MASK (regs bus)) w)"

definition scl_drive_low :: "'w mps2_i2c_bus \<Rightarrow> 'w \<Rightarrow> 'w" where
  "scl_drive_low bus w = mps2_i2c_bit_delay bus (wr_CONTROLC (regs bus) (MPS2_I2C_SCL_MASK (regs bus)) w)"

definition bus_release :: "'w mps2_i2c_bus \<Rightarrow> 'w \<Rightarrow> 'w" where
  "bus_release bus w = scl_release bus (sda_release bus w)"

definition bus_is_idle :: "'w mps2_i2c_bus \<Rightarrow> 'w \<Rightarrow> bool \<times> 'w" where
  "bus_is_idle bus w =
     (let lines = MPS2_I2C_SDA_MASK (regs bus) OR MPS2_I2C_SCL_MASK (regs bus) in
      case rd_CONTROL (regs bus) w of (v, w) \<Rightarrow> (v AND lines = lines, w))"

section \<open>Conditions, bits and bytes\<close>

definition generate_start :: "'w mps2_i2c_bus \<Rightarrow> 'w \<Rightarrow> int \<times> 'w" where
  "generate_start bus w =
     (let w = sda_release bus w in
      case wait_scl_high bus w of (result, w) \<Rightarrow>
      if result \<noteq> MPS2_I2C_OK then (result, w)
      else case sda_is_high bus w of (high, w) \<Rightarrow>
        if \<not> high then (MPS2_I2C_ERR_BUS_BUSY, w)
        else (MPS2_I2C_OK, scl_drive_low bus (sda_drive_low bus w)))"

definition generate_restart :: "'w mps2_i2c_bus \<Rightarrow> 'w \<Rightarrow> int \<times> 'w" where
  "generate_restart bus w = generate_start bus w"

definition generate_stop :: "'w mps2_i2c_bus \<Rightarrow> 'w \<Rightarrow> int \<times> 'w" where
  "generate_stop bus w =
     (let w = scl_drive_low bus w; w = sda_drive_low bus w in
      case wait_scl_high bus w of (result, w) \<Rightarrow>
      let w = sda_release bus w in
      if result \<noteq> MPS2_I2C_OK then (result, w)
      else case bus_is_idle bus w of (is_idle, w) \<Rightarrow>
        (if is_idle then MPS2_I2C_OK else MPS2_I2C_ERR_BUS_BUSY, w))"

definition write_bit :: "'w mps2_i2c_bus \<Rightarrow> u8 \<Rightarrow> 'w \<Rightarrow> int \<times> 'w" where
  "write_bit bus bit_value w =
     (let w = (if bit_value \<noteq> 0 then sda_release bus w else sda_drive_low bus w) in
      case wait_scl_high bus w of (result, w) \<Rightarrow>
      if result \<noteq> MPS2_I2C_OK then (result, w) else (MPS2_I2C_OK, scl_drive_low bus w))"

text \<open>The out parameter is never NULL here: its value is returned if it is stored.\<close>

definition read_bit :: "'w mps2_i2c_bus \<Rightarrow> 'w \<Rightarrow> int \<times> u8 option \<times> 'w" where
  "read_bit bus w =
     (let w = sda_release bus w in
      case wait_scl_high bus w of (result, w) \<Rightarrow>
      if result \<noteq> MPS2_I2C_OK then (result, None, w)
      else case sda_is_high bus w of (high, w) \<Rightarrow>
        (MPS2_I2C_OK, Some (if high then 1 else 0), scl_drive_low bus w))"

definition receive_ack :: "'w mps2_i2c_bus \<Rightarrow> 'w \<Rightarrow> int \<times> 'w" where
  "receive_ack bus w =
     (case read_bit bus w of (result, nack, w) \<Rightarrow>
      if result \<noteq> MPS2_I2C_OK then (result, w)
      else (if the nack = 0 then MPS2_I2C_OK else MPS2_I2C_ERR_NACK, w))"

fun write_bits :: "'w mps2_i2c_bus \<Rightarrow> nat \<Rightarrow> u8 \<Rightarrow> 'w \<Rightarrow> int \<times> 'w" where
  "write_bits bus 0 val w = (MPS2_I2C_OK, w)"
| "write_bits bus (Suc k) val w =
     (case write_bit bus (if val AND 0x80 \<noteq> 0 then 1 else 0) w of (result, w) \<Rightarrow>
      if result \<noteq> MPS2_I2C_OK then (result, w) else write_bits bus k (push_bit 1 val) w)"

definition write_byte :: "'w mps2_i2c_bus \<Rightarrow> u8 \<Rightarrow> 'w \<Rightarrow> int \<times> 'w" where
  "write_byte bus val w =
     (case write_bits bus 8 val w of (result, w) \<Rightarrow>
      if result \<noteq> MPS2_I2C_OK then (result, w) else receive_ack bus w)"

fun read_bits :: "'w mps2_i2c_bus \<Rightarrow> nat \<Rightarrow> u8 \<Rightarrow> 'w \<Rightarrow> int \<times> u8 \<times> 'w" where
  "read_bits bus 0 received w = (MPS2_I2C_OK, received, w)"
| "read_bits bus (Suc k) received w =
     (case read_bit bus w of (result, input_bit, w) \<Rightarrow>
      if result \<noteq> MPS2_I2C_OK then (result, received, w)
      else read_bits bus k (push_bit 1 received OR the input_bit) w)"

definition read_byte :: "'w mps2_i2c_bus \<Rightarrow> u8 option \<Rightarrow> bool \<Rightarrow> 'w \<Rightarrow> int \<times> u8 option \<times> 'w" where
  "read_byte bus val send_ack w =
     (if val = None then (MPS2_I2C_ERR_ARGUMENT, val, w)
      else case read_bits bus 8 0 w of (result, received, w) \<Rightarrow>
        if result \<noteq> MPS2_I2C_OK then (result, val, w)
        else case write_bit bus (if send_ack then 0 else 1) w of (result, w) \<Rightarrow>
          (result, if result = MPS2_I2C_OK then Some received else val, w))"

definition send_address :: "'w mps2_i2c_bus \<Rightarrow> u8 \<Rightarrow> bool \<Rightarrow> 'w \<Rightarrow> int \<times> 'w" where
  "send_address bus target_addr is_read w =
     write_byte bus (push_bit 1 target_addr OR (if is_read then 1 else 0)) w"

section \<open>Transfers\<close>

definition recover_pulses :: "'w mps2_i2c_bus \<Rightarrow> 'w \<Rightarrow> int \<times> bool \<times> 'w" where
  "recover_pulses bus w =
     (let w = scl_drive_low bus w in
      case wait_scl_high bus w of (result, w) \<Rightarrow>
      if result \<noteq> MPS2_I2C_OK then (result, False, w)
      else case sda_is_high bus w of (high, w) \<Rightarrow> (MPS2_I2C_OK, high, w))"

fun recover_loop :: "'w mps2_i2c_bus \<Rightarrow> nat \<Rightarrow> 'w \<Rightarrow> int \<times> 'w" where
  "recover_loop bus 0 w = (MPS2_I2C_OK, w)"
| "recover_loop bus (Suc k) w =
     (case recover_pulses bus w of (result, high, w) \<Rightarrow>
      if result \<noteq> MPS2_I2C_OK then (result, w)
      else if high then (MPS2_I2C_OK, w) else recover_loop bus k w)"

definition mps2_i2c_recover_bus :: "'w mps2_i2c_bus option \<Rightarrow> 'w \<Rightarrow> int \<times> 'w" where
  "mps2_i2c_recover_bus bus w =
     (if \<not> bus_valid bus then (MPS2_I2C_ERR_ARGUMENT, w)
      else
        let bus = the bus; w = sda_release bus w in
        case wait_scl_high bus w of (result, w) \<Rightarrow>
        if result \<noteq> MPS2_I2C_OK then (result, w)
        else case sda_is_high bus w of (high, w) \<Rightarrow>
          if high then (MPS2_I2C_OK, w)
          else case recover_loop bus 9 w of (result, w) \<Rightarrow>
            if result \<noteq> MPS2_I2C_OK then (result, w) else generate_stop bus w)"

definition mps2_i2c_init :: "'w mps2_i2c_bus option \<Rightarrow> 'w \<Rightarrow> int \<times> 'w" where
  "mps2_i2c_init bus w =
     (if \<not> bus_valid bus then (MPS2_I2C_ERR_ARGUMENT, w)
      else
        let w = bus_release (the bus) w in
        case bus_is_idle (the bus) w of (is_idle, w) \<Rightarrow>
        if is_idle then (MPS2_I2C_OK, w) else mps2_i2c_recover_bus bus w)"

text \<open>The check of a message against its predecessor.\<close>

definition message_bad :: "mps2_i2c_msg list \<Rightarrow> nat \<Rightarrow> bool" where
  "message_bad messages index \<longleftrightarrow>
     (let message = messages ! index;
          allowed = MPS2_I2C_MSG_READ OR MPS2_I2C_MSG_STOP OR MPS2_I2C_MSG_RESTART in
      (msg_buf message = None \<or> msg_len message = 0 \<or> msg_flags message AND NOT allowed \<noteq> 0) \<or>
      (0 < index \<and> msg_flags (messages ! (index - 1)) AND MPS2_I2C_MSG_STOP = 0 \<and>
       msg_flags message AND MPS2_I2C_MSG_RESTART = 0))"

fun transfer_bytes :: "'w mps2_i2c_bus \<Rightarrow> bool \<Rightarrow> mps2_i2c_msg \<Rightarrow> nat list \<Rightarrow> 'w \<Rightarrow> int \<times> mps2_i2c_msg \<times> 'w" where
  "transfer_bytes bus is_read message [] w = (MPS2_I2C_OK, message, w)"
| "transfer_bytes bus is_read message (byte # rest) w =
     (case (if is_read
            then (case read_byte bus (Some (the (msg_buf message) ! byte)) (byte + 1 < msg_len message) w of
                   (result, v, w) \<Rightarrow> (result, message\<lparr>msg_buf := Some ((the (msg_buf message))[byte := the v])\<rparr>, w))
            else (case write_byte bus (the (msg_buf message) ! byte) w of (result, w) \<Rightarrow> (result, message, w)))
      of (result, message, w) \<Rightarrow>
        if result \<noteq> MPS2_I2C_OK then (result, message, w) else transfer_bytes bus is_read message rest w)"

text \<open>One pass of the message loop; the flag of the result says whether the loop goes on.\<close>

definition transfer_message :: "'w mps2_i2c_bus \<Rightarrow> u8 \<Rightarrow> bool \<Rightarrow> mps2_i2c_msg \<Rightarrow> 'w \<Rightarrow> int \<times> mps2_i2c_msg \<times> 'w" where
  "transfer_message bus target_addr active message w =
     (let is_read = (msg_flags message AND MPS2_I2C_MSG_READ \<noteq> 0) in
      case (if active then generate_restart bus w else generate_start bus w) of (result, w) \<Rightarrow>
      if result \<noteq> MPS2_I2C_OK then (result, message, if active then snd (generate_stop bus w) else w)
      else
      case send_address bus target_addr is_read w of (result, w) \<Rightarrow>
      if result \<noteq> MPS2_I2C_OK then (result, message, snd (generate_stop bus w))
      else
      case transfer_bytes bus is_read message [0..<msg_len message] w of (result, message, w) \<Rightarrow>
      if result \<noteq> MPS2_I2C_OK then (result, message, snd (generate_stop bus w))
      else if msg_flags message AND MPS2_I2C_MSG_STOP \<noteq> 0
      then (case generate_stop bus w of (result, w) \<Rightarrow> (result, message, w))
      else (MPS2_I2C_OK, message, w))"

fun transfer_messages :: "'w mps2_i2c_bus \<Rightarrow> u8 \<Rightarrow> bool \<Rightarrow> mps2_i2c_msg list \<Rightarrow> 'w \<Rightarrow> int \<times> mps2_i2c_msg list \<times> 'w" where
  "transfer_messages bus target_addr active [] w = (MPS2_I2C_OK, [], w)"
| "transfer_messages bus target_addr active (message # rest) w =
     (case transfer_message bus target_addr active message w of (result, message, w) \<Rightarrow>
      if result \<noteq> MPS2_I2C_OK then (result, message # rest, w)
      else case transfer_messages bus target_addr True rest w of (result, rest, w) \<Rightarrow> (result, message # rest, w))"

definition mps2_i2c_transfer :: "'w mps2_i2c_bus option \<Rightarrow> mps2_i2c_msg list option \<Rightarrow> u8 \<Rightarrow> 'w \<Rightarrow>
    int \<times> mps2_i2c_msg list option \<times> 'w" where
  "mps2_i2c_transfer bus messages target_addr w =
     (if \<not> bus_valid bus \<or> messages = None \<or> the messages = [] then (MPS2_I2C_ERR_ARGUMENT, messages, w)
      else if target_addr = 0x7F then (MPS2_I2C_ERR_ADDRESS, messages, w)
      else if list_ex (message_bad (the messages)) [0..<length (the messages)]
      then (MPS2_I2C_ERR_ARGUMENT, messages, w)
      else case transfer_messages (the bus) target_addr False (the messages) w of (result, messages, w) \<Rightarrow>
        (result, Some messages, w))"

definition mps2_i2c_probe :: "'w mps2_i2c_bus option \<Rightarrow> u8 \<Rightarrow> 'w \<Rightarrow> int \<times> 'w" where
  "mps2_i2c_probe bus target_addr w =
     (if \<not> bus_valid bus then (MPS2_I2C_ERR_ARGUMENT, w)
      else if target_addr > 0x7F then (MPS2_I2C_ERR_ADDRESS, w)
      else
        let bus = the bus in
        case generate_start bus w of (result, w) \<Rightarrow>
        if result \<noteq> MPS2_I2C_OK then (result, w)
        else case send_address bus target_addr False w of (result, w) \<Rightarrow>
        case generate_stop bus w of (stop_result, w) \<Rightarrow>
        if result \<noteq> MPS2_I2C_OK then (result, w) else (stop_result, w))"

section \<open>The driver on the wire\<close>

definition wire_regs :: "i2c_target \<Rightarrow> i2c_wire MPS2_I2C_TypeDef" where
  "wire_regs T = \<lparr>rd_CONTROL = (\<lambda>w. case poll_lines w of ((sda, scl), w) \<Rightarrow>
       ((if scl then 1 else 0) OR (if sda then 2 else 0), w)),
     wr_CONTROLS = (\<lambda>v w. let w = (if v AND 2 \<noteq> 0 then set_sda True w else w) in
       if v AND 1 \<noteq> 0 then set_scl T True w else w),
     wr_CONTROLC = (\<lambda>v w. let w = (if v AND 2 \<noteq> 0 then set_sda False w else w) in
       if v AND 1 \<noteq> 0 then set_scl T False w else w),
     MPS2_I2C_SDA_MASK = 2, MPS2_I2C_SCL_MASK = 1\<rparr>"

definition wire_bus :: "i2c_target \<Rightarrow> u32 \<Rightarrow> u32 \<Rightarrow> i2c_wire mps2_i2c_bus" where
  "wire_bus T d n = \<lparr>bus_regs = Some (wire_regs T), delay_cycles = d, timeout_cycles = n\<rparr>"

lemma delay_loop [simp]: "delay_loop n w = w"
  by (induction n) auto

lemma bit_delay [simp]: "mps2_i2c_bit_delay bus w = w"
  by (simp add: mps2_i2c_bit_delay_def)

lemma wire_ops [simp]:
  "sda_is_high (wire_bus T d n) w = (sda_line w, snd (poll_lines w))"
  "scl_is_high (wire_bus T d n) w = (scl_line w, snd (poll_lines w))"
  "bus_is_idle (wire_bus T d n) w = (sda_line w \<and> scl_line w, snd (poll_lines w))"
  "sda_release (wire_bus T d n) w = set_sda True w" "sda_drive_low (wire_bus T d n) w = set_sda False w"
  "scl_release (wire_bus T d n) w = set_scl T True w" "scl_drive_low (wire_bus T d n) w = set_scl T False w"
  by (auto simp: sda_is_high_def scl_is_high_def bus_is_idle_def sda_release_def sda_drive_low_def scl_release_def
      scl_drive_low_def wire_bus_def wire_regs_def poll_lines_def Let_def)

lemma wait_polls:
  "m_scl w \<Longrightarrow> t_hold w < k \<Longrightarrow> wait_scl_polls (wire_bus T d n) k w =
     (MPS2_I2C_OK, if t_hold w = 0 then w else scl_rise (w\<lparr>t_hold := 0\<rparr>))"
proof (induction k arbitrary: w)
  case (Suc k)
  show ?case
  proof (cases "t_hold w = 0")
    case True
    then show ?thesis using Suc.prems by (simp add: scl_line_def poll_lines_def)
  next
    case False
    let ?w = "w\<lparr>t_hold := t_hold w - 1\<rparr>"
    show ?thesis
    proof (cases "t_hold w = 1")
      case True
      have "wait_scl_polls (wire_bus T d n) k (scl_rise (w\<lparr>t_hold := 0\<rparr>)) = (MPS2_I2C_OK, scl_rise (w\<lparr>t_hold := 0\<rparr>))"
        using Suc.IH [of "scl_rise (w\<lparr>t_hold := 0\<rparr>)"] Suc.prems True by (simp add: scl_rise_def)
      then show ?thesis using Suc.prems True by (simp add: scl_line_def poll_lines_def Let_def)
    next
      case more: False
      then have "t_hold w - 1 \<noteq> 0" using False by simp
      then show ?thesis using Suc.IH [of ?w] Suc.prems False by (simp add: scl_line_def poll_lines_def Let_def)
    qed
  qed
qed simp

lemma wait_scl_high_wire:
  "wait_scl_high (wire_bus T d n) w = wait_scl_polls (wire_bus T d n) (unat n) (set_scl T True w)"
  by (simp add: wait_scl_high_def) (simp add: wire_bus_def)

lemma wait_from_low:
  assumes "at_low T H w" "tgt_hold T H < unat n"
  shows "wait_scl_high (wire_bus T d n) w = (MPS2_I2C_OK, w\<lparr>m_scl := True, history := H @ [EvBit (sda_line w)]\<rparr>)"
proof -
  let ?w = "w\<lparr>m_scl := True, t_hold := tgt_hold T H\<rparr>" and ?w' = "w\<lparr>m_scl := True, history := H @ [EvBit (sda_line w)]\<rparr>"
  have H: "history w = H" "\<not> m_scl w" "t_hold w = 0" using assms(1) by (simp_all add: at_low_def)
  have rise: "scl_rise (?w\<lparr>t_hold := 0\<rparr>) = ?w'" using H by (cases w) (simp add: scl_rise_def sda_line_def)
  have w0: "tgt_hold T H = 0 \<Longrightarrow> ?w\<lparr>t_hold := 0\<rparr> = ?w" by simp
  show ?thesis
  proof (cases "tgt_hold T H = 0")
    case True
    then have "set_scl T True w = ?w'" using H rise w0 by (simp add: set_scl_def Let_def)
    moreover have "m_scl ?w'" "t_hold ?w' < unat n" using H assms(2) by simp_all
    ultimately show ?thesis using wait_polls [of ?w' "unat n" T d n] H by (simp add: wait_scl_high_wire)
  next
    case False
    then have "set_scl T True w = ?w" using H by (simp add: set_scl_def Let_def)
    then show ?thesis using wait_polls [of ?w "unat n" T d n] False assms(2) rise by (simp add: wait_scl_high_wire)
  qed
qed

lemma wait_from_high:
  assumes "m_scl w" "t_hold w = 0" "n \<noteq> 0"
  shows "wait_scl_high (wire_bus T d n) w = (MPS2_I2C_OK, w)"
  using assms wait_polls [of w "unat n" T d n] by (simp add: wait_scl_high_wire set_scl_def unat_gt_0)

text \<open>A target that never stretches the clock beyond the driver's patience.\<close>

definition patient :: "i2c_target \<Rightarrow> u32 \<Rightarrow> bool" where
  "patient T n \<longleftrightarrow> (\<forall>H. tgt_hold T H < unat n)"

lemma patient_nz: "patient T n \<Longrightarrow> n \<noteq> 0"
  by (auto simp: patient_def)

lemma write_bit_wire:
  assumes "at_low T H w" "patient T n"
  obtains w' where "write_bit (wire_bus T d n) b w = (MPS2_I2C_OK, w')" "at_low T (wired T (b \<noteq> 0) H) w'"
proof -
  let ?w1 = "set_sda (b \<noteq> 0) w"
  have low: "at_low T H ?w1" "m_sda ?w1 \<longleftrightarrow> b \<noteq> 0" using set_sda_low [OF assms(1)] by simp_all
  have line: "sda_line ?w1 \<longleftrightarrow> b \<noteq> 0 \<and> \<not> tgt_pull T H" using low by (simp add: sda_line_def at_low_def)
  have "tgt_hold T H < unat n" using assms(2) by (simp add: patient_def)
  note wait = wait_from_low [OF low(1) this, of d]
  let ?w2 = "?w1\<lparr>m_scl := True, history := H @ [EvBit (sda_line ?w1)]\<rparr>"
  have "write_bit (wire_bus T d n) b w = (MPS2_I2C_OK, set_scl T False ?w2)"
    using wait by (cases "b = 0") (simp_all add: write_bit_def Let_def)
  moreover have "at_low T (wired T (b \<noteq> 0) H) (set_scl T False ?w2)"
    using fall [of ?w2 T] line by (simp add: wired_def)
  ultimately show ?thesis by (rule that)
qed

lemma read_bit_wire:
  assumes "at_low T H w" "patient T n"
  obtains w' where "read_bit (wire_bus T d n) w = (MPS2_I2C_OK, Some (of_bool (\<not> tgt_pull T H)), w')"
    "at_low T (wired T True H) w'"
proof -
  let ?w1 = "set_sda True w"
  have low: "at_low T H ?w1" "m_sda ?w1" using set_sda_low [OF assms(1)] by simp_all
  have line: "sda_line ?w1 \<longleftrightarrow> \<not> tgt_pull T H" using low by (simp add: sda_line_def at_low_def)
  have "tgt_hold T H < unat n" using assms(2) by (simp add: patient_def)
  note wait = wait_from_low [OF low(1) this, of d]
  let ?w2 = "?w1\<lparr>m_scl := True, history := H @ [EvBit (sda_line ?w1)]\<rparr>"
  have poll: "snd (poll_lines ?w2) = ?w2" "sda_line ?w2 = sda_line ?w1"
    using low(1) by (simp_all add: poll_lines_def at_low_def sda_line_def)
  have "read_bit (wire_bus T d n) w = (MPS2_I2C_OK, Some (of_bool (\<not> tgt_pull T H)), set_scl T False ?w2)"
    using wait poll line by (simp add: read_bit_def Let_def)
  moreover have "at_low T (wired T True H) (set_scl T False ?w2)" using fall [of ?w2 T] line by (simp add: wired_def)
  ultimately show ?thesis by (rule that)
qed

lemma write_bits_wire:
  assumes "at_low T H w" "patient T n" "k \<le> 8"
  obtains w' where "write_bits (wire_bus T d n) k v w = (MPS2_I2C_OK, w')"
    "at_low T (wired_bits T (map (\<lambda>i. bit v (7 - i)) [0..<k]) H) w'"
  using assms
proof (induction k arbitrary: v w H thesis)
  case 0
  then show ?case by simp
next
  case (Suc k)
  have b: "(if v AND 0x80 \<noteq> 0 then 1 else 0 :: u8) \<noteq> 0 \<longleftrightarrow> bit v 7" using flag_clear [of v 7] by simp
  obtain w1 where w1: "write_bit (wire_bus T d n) (if v AND 0x80 \<noteq> 0 then 1 else 0) w = (MPS2_I2C_OK, w1)"
    "at_low T (wired T (bit v 7) H) w1"
    using write_bit_wire [OF Suc.prems(2,3), of d "if v AND 0x80 \<noteq> 0 then 1 else 0"] unfolding b by metis
  have k7: "k \<le> 7" "k \<le> 8" using Suc.prems(4) by simp_all
  obtain w2 where w2: "write_bits (wire_bus T d n) k (push_bit 1 v) w1 = (MPS2_I2C_OK, w2)"
    "at_low T (wired_bits T (map (\<lambda>i. bit (push_bit 1 v) (7 - i)) [0..<k]) (wired T (bit v 7) H)) w2"
    using Suc.IH [OF _ w1(2) Suc.prems(3) k7(2), of "push_bit 1 v"] by metis
  have "write_bits (wire_bus T d n) (Suc k) v w = (MPS2_I2C_OK, w2)"
    using w2(1) unfolding write_bits.simps w1(1) prod.case by simp
  then show ?case by (rule Suc.prems(1)) (use w2(2) in \<open>simp only: top_bits [OF k7(1)] wired_bits.simps\<close>)
qed

lemma receive_ack_wire:
  assumes "at_low T H w" "patient T n"
  obtains w' where "receive_ack (wire_bus T d n) w = (if tgt_pull T H then MPS2_I2C_OK else MPS2_I2C_ERR_NACK, w')"
    "at_low T (wired T True H) w'"
  by (rule read_bit_wire [OF assms, of d]) (auto simp: receive_ack_def intro: that)

lemma read_bits_wire:
  assumes "at_low T H w" "patient T n"
  obtains w' where "read_bits (wire_bus T d n) k acc w = (MPS2_I2C_OK, byte_of_bits acc (sampled_bits T k H), w')"
    "at_low T (wired_bits T (replicate k True) H) w'"
  using assms
proof (induction k arbitrary: acc w H thesis)
  case 0
  then show ?case by simp
next
  case (Suc k)
  obtain w1 where w1: "read_bit (wire_bus T d n) w = (MPS2_I2C_OK, Some (of_bool (\<not> tgt_pull T H)), w1)"
    "at_low T (wired T True H) w1" by (rule read_bit_wire [OF Suc.prems(2,3)])
  obtain w2 where "read_bits (wire_bus T d n) k (push_bit 1 acc OR of_bool (\<not> tgt_pull T H)) w1 =
      (MPS2_I2C_OK, byte_of_bits (push_bit 1 acc OR of_bool (\<not> tgt_pull T H)) (sampled_bits T k (wired T True H)), w2)"
    "at_low T (wired_bits T (replicate k True) (wired T True H)) w2"
    using Suc.IH [OF _ w1(2) Suc.prems(3)] by metis
  then show ?case using w1(1) by (intro Suc.prems(1) [of w2]) simp_all
qed

section \<open>Bytes and frames on the history\<close>

definition spec_read_byte :: "i2c_target \<Rightarrow> bool \<Rightarrow> i2c_event list \<Rightarrow> u8 \<times> i2c_event list" where
  "spec_read_byte T send_ack H =
     (byte_of_bits 0 (sampled_bits T 8 H), wired T (\<not> send_ack) (wired_bits T (replicate 8 True) H))"

lemma write_byte_wire:
  assumes "at_low T H w" "patient T n"
  obtains w' where "write_byte (wire_bus T d n) v w = (fst (spec_write_byte T v H), w')"
    "at_low T (snd (spec_write_byte T v H)) w'"
proof -
  obtain w1 where w1: "write_bits (wire_bus T d n) 8 v w = (MPS2_I2C_OK, w1)" "at_low T (wired_bits T (msb_bits v) H) w1"
    unfolding msb_bits_def by (rule write_bits_wire [OF assms order.refl])
  show ?thesis
    by (rule receive_ack_wire [OF w1(2) assms(2), of d])
       (use w1(1) in \<open>auto simp: write_byte_def spec_write_byte_def Let_def intro: that\<close>)
qed

lemma read_byte_wire:
  assumes "at_low T H w" "patient T n"
  obtains w' where "read_byte (wire_bus T d n) (Some old) send_ack w = (MPS2_I2C_OK, Some (fst (spec_read_byte T send_ack H)), w')"
    "at_low T (snd (spec_read_byte T send_ack H)) w'"
proof -
  obtain w1 where w1: "read_bits (wire_bus T d n) 8 0 w = (MPS2_I2C_OK, byte_of_bits 0 (sampled_bits T 8 H), w1)"
    "at_low T (wired_bits T (replicate 8 True) H) w1" by (rule read_bits_wire [OF assms])
  obtain w2 where w2: "write_bit (wire_bus T d n) (if send_ack then 0 else 1) w1 = (MPS2_I2C_OK, w2)"
    "at_low T (wired T ((if send_ack then 0 else 1 :: u8) \<noteq> 0) (wired_bits T (replicate 8 True) H)) w2"
    by (rule write_bit_wire [OF w1(2) assms(2)])
  show ?thesis
    by (rule that [of w2])
       (use w1(1) w2 in \<open>simp_all add: read_byte_def spec_read_byte_def split: if_split_asm\<close>)
qed

section \<open>Conditions\<close>

text \<open>A start needs SDA high; the target can prevent it by holding SDA low.\<close>

definition spec_start :: "i2c_target \<Rightarrow> i2c_phase \<Rightarrow> i2c_event list \<Rightarrow> int \<times> i2c_phase \<times> i2c_event list" where
  "spec_start T p H =
     (if p = Idle then (MPS2_I2C_OK, Low, H @ [EvStart])
      else if tgt_pull T H then (MPS2_I2C_ERR_BUS_BUSY, High, H @ [EvBit False])
      else (MPS2_I2C_OK, Low, H @ [EvBit True, EvStart]))"

definition spec_stop :: "i2c_target \<Rightarrow> i2c_event list \<Rightarrow> int \<times> i2c_phase \<times> i2c_event list" where
  "spec_stop T H =
     (if tgt_pull T H then (MPS2_I2C_ERR_BUS_BUSY, High, H @ [EvBit False])
      else (MPS2_I2C_OK, Idle, H @ [EvBit False, EvStop]))"

lemma generate_start_wire:
  assumes "wire_at T p H w" "patient T n" "p \<noteq> High" "spec_start T p H = (rc, p', H')"
  obtains w' where "generate_start (wire_bus T d n) w = (rc, w')" "wire_at T p' H' w'"
proof (cases "p = Idle")
  case True
  then have idle: "history w = H" "m_scl w" "m_sda w" "t_hold w = 0" "\<not> t_pull w" using assms(1) by (simp_all add: at_idle_def)
  have lines: "set_sda True w = w" "sda_line w" "scl_line w" "poll_lines w = ((True, True), w)"
    using idle by (simp_all add: set_sda_def sda_line_def scl_line_def poll_lines_def Let_def)
  let ?w1 = "set_sda False w"
  have w1: "m_scl ?w1" "history ?w1 = H @ [EvStart]"
    using idle by (simp_all add: set_sda_def sda_line_def scl_line_def Let_def)
  have "generate_start (wire_bus T d n) w = (MPS2_I2C_OK, set_scl T False ?w1)"
    using lines wait_from_high [OF idle(2,4) patient_nz [OF assms(2)], of T d] by (simp add: generate_start_def Let_def)
  then show ?thesis using that fall [OF w1(1), of T] w1(2) True assms(4) by (simp add: spec_start_def)
next
  case False
  then have low: "at_low T H w" using assms(1,3) by (cases p) simp_all
  let ?w1 = "set_sda True w"
  have low1: "at_low T H ?w1" "m_sda ?w1" using set_sda_low [OF low] by simp_all
  have line: "sda_line ?w1 \<longleftrightarrow> \<not> tgt_pull T H" using low1 by (simp add: sda_line_def at_low_def)
  have "tgt_hold T H < unat n" using assms(2) by (simp add: patient_def)
  note wait = wait_from_low [OF low1(1) this, of d]
  let ?w2 = "?w1\<lparr>m_scl := True, history := H @ [EvBit (sda_line ?w1)]\<rparr>"
  have w2: "poll_lines ?w2 = ((sda_line ?w1, True), ?w2)" "sda_line ?w2 = sda_line ?w1" "scl_line ?w2" "t_pull ?w2 = tgt_pull T H"
    using low1(1) by (simp_all add: poll_lines_def at_low_def sda_line_def scl_line_def)
  show ?thesis
  proof (cases "tgt_pull T H")
    case True
    have "generate_start (wire_bus T d n) w = (MPS2_I2C_ERR_BUS_BUSY, ?w2)"
      using wait w2 line True by (simp add: generate_start_def Let_def)
    moreover have "at_high (H @ [EvBit False]) ?w2 \<and> t_pull ?w2" using low1(1) line True w2(4) by (simp add: at_high_def at_low_def)
    ultimately show ?thesis using that True False assms(4) by (simp add: spec_start_def)
  next
    case pull: False
    let ?w3 = "set_sda False ?w2"
    have w3: "m_scl ?w3" "history ?w3 = H @ [EvBit True, EvStart]"
      using w2 pull line low1 by (simp_all add: set_sda_def sda_line_def Let_def)
    have "generate_start (wire_bus T d n) w = (MPS2_I2C_OK, set_scl T False ?w3)"
      using wait w2 line pull by (simp add: generate_start_def Let_def)
    then show ?thesis using that fall [OF w3(1), of T] w3(2) False pull assms(4) by (simp add: spec_start_def)
  qed
qed

lemma generate_stop_wire:
  assumes "at_low T H (set_scl T False w)" "patient T n" "spec_stop T H = (rc, p', H')"
  obtains w' where "generate_stop (wire_bus T d n) w = (rc, w')" "wire_at T p' H' w'"
proof -
  let ?w0 = "set_scl T False w"
  let ?w1 = "set_sda False ?w0"
  have low: "at_low T H ?w1" "\<not> m_sda ?w1" using set_sda_low [OF assms(1)] by simp_all
  have "tgt_hold T H < unat n" using assms(2) by (simp add: patient_def)
  note wait = wait_from_low [OF low(1) this, of d]
  let ?w2 = "?w1\<lparr>m_scl := True, history := H @ [EvBit (sda_line ?w1)]\<rparr>"
  let ?w3 = "set_sda True ?w2"
  have line: "\<not> sda_line ?w1" using low(2) by (simp add: sda_line_def)
  have w2: "scl_line ?w2" "\<not> sda_line ?w2" "t_pull ?w2 = tgt_pull T H" "t_hold ?w2 = 0" "m_scl ?w2"
    using low by (simp_all add: at_low_def sda_line_def scl_line_def)
  have w3: "m_sda ?w3" "m_scl ?w3" "t_hold ?w3 = 0" "t_pull ?w3 = tgt_pull T H"
    "history ?w3 = H @ (if tgt_pull T H then [EvBit False] else [EvBit False, EvStop])"
    using w2 line by (simp_all add: set_sda_def sda_line_def Let_def)
  have poll: "poll_lines ?w3 = ((\<not> tgt_pull T H, True), ?w3)" "sda_line ?w3 \<longleftrightarrow> \<not> tgt_pull T H" "scl_line ?w3"
    using w3 by (simp_all add: poll_lines_def sda_line_def scl_line_def)
  have "generate_stop (wire_bus T d n) w = (if \<not> tgt_pull T H then MPS2_I2C_OK else MPS2_I2C_ERR_BUS_BUSY, ?w3)"
    using wait poll by (simp add: generate_stop_def Let_def)
  moreover have "wire_at T p' H' ?w3"
    using w3 assms(3) by (auto simp: spec_stop_def at_high_def at_idle_def split: if_splits)
  ultimately show ?thesis using that assms(3) by (auto simp: spec_stop_def split: if_splits)
qed

section \<open>Transfers refine a specification on the history\<close>

fun spec_bytes :: "i2c_target \<Rightarrow> bool \<Rightarrow> mps2_i2c_msg \<Rightarrow> nat list \<Rightarrow> i2c_event list \<Rightarrow> int \<times> mps2_i2c_msg \<times> i2c_event list" where
  "spec_bytes T is_read m [] H = (MPS2_I2C_OK, m, H)"
| "spec_bytes T is_read m (k # rest) H =
     (if is_read
      then (case spec_read_byte T (k + 1 < msg_len m) H of (v, H) \<Rightarrow>
              spec_bytes T is_read (m\<lparr>msg_buf := Some ((the (msg_buf m))[k := v])\<rparr>) rest H)
      else (case spec_write_byte T (the (msg_buf m) ! k) H of (rc, H) \<Rightarrow>
              if rc \<noteq> MPS2_I2C_OK then (rc, m, H) else spec_bytes T is_read m rest H))"

definition spec_message :: "i2c_target \<Rightarrow> u8 \<Rightarrow> i2c_phase \<Rightarrow> mps2_i2c_msg \<Rightarrow> i2c_event list \<Rightarrow>
    int \<times> mps2_i2c_msg \<times> i2c_phase \<times> i2c_event list" where
  "spec_message T addr p m H =
     (let is_read = (msg_flags m AND MPS2_I2C_MSG_READ \<noteq> 0) in
      case spec_start T p H of (rc, p, H) \<Rightarrow>
      if rc \<noteq> MPS2_I2C_OK then (rc, m, snd (spec_stop T H))
      else case spec_write_byte T (push_bit 1 addr OR (if is_read then 1 else 0)) H of (rc, H) \<Rightarrow>
      if rc \<noteq> MPS2_I2C_OK then (rc, m, snd (spec_stop T H))
      else case spec_bytes T is_read m [0..<msg_len m] H of (rc, m, H) \<Rightarrow>
      if rc \<noteq> MPS2_I2C_OK then (rc, m, snd (spec_stop T H))
      else if msg_flags m AND MPS2_I2C_MSG_STOP \<noteq> 0 then (case spec_stop T H of (rc, p, H) \<Rightarrow> (rc, m, p, H))
      else (MPS2_I2C_OK, m, Low, H))"

fun spec_messages :: "i2c_target \<Rightarrow> u8 \<Rightarrow> i2c_phase \<Rightarrow> mps2_i2c_msg list \<Rightarrow> i2c_event list \<Rightarrow>
    int \<times> mps2_i2c_msg list \<times> i2c_phase \<times> i2c_event list" where
  "spec_messages T addr p [] H = (MPS2_I2C_OK, [], p, H)"
| "spec_messages T addr p (m # rest) H =
     (case spec_message T addr p m H of (rc, m, p, H) \<Rightarrow>
      if rc \<noteq> MPS2_I2C_OK then (rc, m # rest, p, H)
      else case spec_messages T addr p rest H of (rc, rest, p, H) \<Rightarrow> (rc, m # rest, p, H))"

lemma transfer_bytes_wire:
  assumes "at_low T H w" "patient T n"
  obtains w' rc m' H' where "spec_bytes T is_read m ks H = (rc, m', H')"
    "transfer_bytes (wire_bus T d n) is_read m ks w = (rc, m', w')" "at_low T H' w'"
  using assms
proof (induction ks arbitrary: m w H thesis)
  case Nil
  then show ?case by simp
next
  case (Cons k ks)
  show ?case
  proof (cases is_read)
    case True
    obtain w1 where w1: "read_byte (wire_bus T d n) (Some (the (msg_buf m) ! k)) (k + 1 < msg_len m) w =
        (MPS2_I2C_OK, Some (fst (spec_read_byte T (k + 1 < msg_len m) H)), w1)"
      "at_low T (snd (spec_read_byte T (k + 1 < msg_len m) H)) w1" by (rule read_byte_wire [OF Cons.prems(2,3)])
    let ?m = "m\<lparr>msg_buf := Some ((the (msg_buf m))[k := fst (spec_read_byte T (k + 1 < msg_len m) H)])\<rparr>"
    obtain w' rc m' H' where "spec_bytes T is_read ?m ks (snd (spec_read_byte T (k + 1 < msg_len m) H)) = (rc, m', H')"
      "transfer_bytes (wire_bus T d n) is_read ?m ks w1 = (rc, m', w')" "at_low T H' w'"
      by (rule Cons.IH [OF _ w1(2) Cons.prems(3)])
    then show ?thesis using w1(1) True by (intro Cons.prems(1)) (simp_all add: case_prod_beta)
  next
    case False
    obtain w1 where w1: "write_byte (wire_bus T d n) (the (msg_buf m) ! k) w =
        (fst (spec_write_byte T (the (msg_buf m) ! k) H), w1)"
      "at_low T (snd (spec_write_byte T (the (msg_buf m) ! k) H)) w1" by (rule write_byte_wire [OF Cons.prems(2,3)])
    obtain w' rc m' H' where rest: "spec_bytes T is_read m ks (snd (spec_write_byte T (the (msg_buf m) ! k) H)) = (rc, m', H')"
      "transfer_bytes (wire_bus T d n) is_read m ks w1 = (rc, m', w')" "at_low T H' w'"
      by (rule Cons.IH [OF _ w1(2) Cons.prems(3)])
    show ?thesis
    proof (cases "fst (spec_write_byte T (the (msg_buf m) ! k) H) = MPS2_I2C_OK")
      case True
      then show ?thesis using w1(1) rest False by (intro Cons.prems(1)) (simp_all add: case_prod_beta)
    next
      case nack: False
      then show ?thesis using w1 False by (intro Cons.prems(1)) (simp_all add: case_prod_beta)
    qed
  qed
qed

lemma stop_pair:
  assumes "wire_at T p H w" "patient T n"
  shows "wire_at T (fst (snd (spec_stop T H))) (snd (snd (spec_stop T H))) (snd (generate_stop (wire_bus T d n) w))"
    and "fst (generate_stop (wire_bus T d n) w) = fst (spec_stop T H)"
proof -
  obtain rc p' H' where s: "spec_stop T H = (rc, p', H')" by (rule prod_cases3)
  obtain w' where "generate_stop (wire_bus T d n) w = (rc, w')" "wire_at T p' H' w'"
    by (rule generate_stop_wire [OF to_low [OF assms(1)] assms(2) s])
  then show "wire_at T (fst (snd (spec_stop T H))) (snd (snd (spec_stop T H))) (snd (generate_stop (wire_bus T d n) w))"
    "fst (generate_stop (wire_bus T d n) w) = fst (spec_stop T H)" using s by simp_all
qed

lemma spec_start_phase: "spec_start T p H = (rc, p', H') \<Longrightarrow> (if rc = MPS2_I2C_OK then p' = Low else p' = High \<and> p \<noteq> Idle)"
  by (auto simp: spec_start_def split: if_splits)

lemma transfer_message_wire:
  assumes "wire_at T p H w" "patient T n" "p \<noteq> High" "active \<or> p = Idle"
  shows "case spec_message T addr p m H of (rc, m', p', H') \<Rightarrow>
    \<exists>w'. transfer_message (wire_bus T d n) addr active m w = (rc, m', w') \<and> wire_at T p' H' w'"
proof -
  let ?bus = "wire_bus T d n"
  define r where "r \<longleftrightarrow> msg_flags m AND MPS2_I2C_MSG_READ \<noteq> 0"
  define a where "a = push_bit 1 addr OR (if r then 1 else 0)"
  note spec = spec_message_def [of T addr p m H, unfolded Let_def, folded r_def, folded a_def]
  note code = transfer_message_def [of ?bus addr active m w, unfolded Let_def, folded r_def]
  obtain rc1 p1 H1 where s1: "spec_start T p H = (rc1, p1, H1)" by (rule prod_cases3)
  obtain w1 where w1: "generate_start ?bus w = (rc1, w1)" "wire_at T p1 H1 w1"
    by (rule generate_start_wire [OF assms(1-3) s1])
  have start: "(if active then generate_restart ?bus w else generate_start ?bus w) = (rc1, w1)"
    using w1(1) by (simp add: generate_restart_def)
  show ?thesis
  proof (cases "rc1 = MPS2_I2C_OK")
    case False
    then have "active" using spec_start_phase [OF s1] assms(4) by simp
    then show ?thesis
      unfolding spec code start s1 prod.case
      using False stop_pair(1) [OF w1(2) assms(2), of d] by (simp add: case_prod_beta)
  next
    case ok1: True
    then have low1: "at_low T H1 w1" using w1(2) spec_start_phase [OF s1] by simp
    obtain rc2 H2 where s2: "spec_write_byte T a H1 = (rc2, H2)" by (rule prod.exhaust)
    obtain w2 where w2: "send_address ?bus addr r w1 = (rc2, w2)" "at_low T H2 w2"
      using write_byte_wire [OF low1 assms(2), of d a] s2 unfolding send_address_def a_def [symmetric] by (metis fst_conv snd_conv)
    have wire2: "wire_at T Low H2 w2" using w2(2) by simp
    show ?thesis
    proof (cases "rc2 = MPS2_I2C_OK")
      case False
      then show ?thesis
        unfolding spec code start s1 s2 w2(1) prod.case
        using ok1 stop_pair(1) [OF wire2 assms(2), of d] by (simp add: case_prod_beta s2 w2(1))
    next
      case ok2: True
      obtain w3 rc3 m3 H3 where b: "spec_bytes T r m [0..<msg_len m] H2 = (rc3, m3, H3)"
        "transfer_bytes ?bus r m [0..<msg_len m] w2 = (rc3, m3, w3)" "at_low T H3 w3"
        by (rule transfer_bytes_wire [OF w2(2) assms(2)])
      have wire3: "wire_at T Low H3 w3" using b(3) by simp
      note stop = stop_pair [OF wire3 assms(2), of d]
      show ?thesis
      proof (cases "rc3 = MPS2_I2C_OK")
        case False
        then show ?thesis unfolding spec code start s1 prod.case
          using ok1 ok2 stop(1) by (simp add: s2 b(1,2) w2(1) case_prod_beta)
      next
        case ok3: True
        then show ?thesis
          unfolding spec code start s1 prod.case
          using ok1 ok2 stop b(3)
          by (cases "generate_stop ?bus w3") (simp add: s2 b(1,2) w2(1) case_prod_beta)
      qed
    qed
  qed
qed

lemma spec_message_phase: "spec_message T addr p m H = (MPS2_I2C_OK, m', p', H') \<Longrightarrow> p' \<noteq> High"
  by (auto simp: spec_message_def spec_stop_def Let_def split: prod.splits if_splits)

lemma transfer_messages_wire:
  assumes "wire_at T p H w" "patient T n" "p \<noteq> High" "active \<or> p = Idle"
  shows "case spec_messages T addr p ms H of (rc, ms', p', H') \<Rightarrow>
    \<exists>w'. transfer_messages (wire_bus T d n) addr active ms w = (rc, ms', w') \<and> wire_at T p' H' w'"
  using assms
proof (induction ms arbitrary: p H w active)
  case Nil
  then show ?case by simp
next
  case (Cons m ms)
  obtain rc m' p1 H1 where sm: "spec_message T addr p m H = (rc, m', p1, H1)" by (metis prod_cases4)
  then obtain w1 where w1: "transfer_message (wire_bus T d n) addr active m w = (rc, m', w1)" "wire_at T p1 H1 w1"
    using transfer_message_wire [OF Cons.prems, where addr = addr and m = m and d = d] by auto
  show ?case
  proof (cases "rc = MPS2_I2C_OK")
    case False
    then show ?thesis using sm w1 by simp
  next
    case True
    then have "p1 \<noteq> High" using spec_message_phase sm by blast
    then show ?thesis using Cons.IH [OF w1(2) Cons.prems(2), of True] sm w1(1) True by (auto split: prod.splits)
  qed
qed

text \<open>A message list the driver accepts.\<close>

definition messages_ok :: "mps2_i2c_msg list \<Rightarrow> bool" where
  "messages_ok ms \<longleftrightarrow> ms \<noteq> [] \<and> \<not> list_ex (message_bad ms) [0..<length ms]"

lemma listening_bytes:
  assumes "listening T" "bits_since H mod 9 = 0"
  shows "spec_bytes T False m ks H = (MPS2_I2C_OK, m, H @ concat (map (\<lambda>k. acked_frame (the (msg_buf m) ! k)) ks))"
    and "bits_since (H @ concat (map (\<lambda>k. acked_frame (the (msg_buf m) ! k)) ks)) mod 9 = 0"
  using assms(2)
proof (induction ks arbitrary: H)
  case (Cons k ks)
  {
    case 1
    note b = listening_byte [OF assms(1) 1, of "the (msg_buf m) ! k"]
    show ?case using Cons.IH(1) [OF b(2)] b(1) by simp
  next
    case 2
    note b = listening_byte [OF assms(1) 2, of "the (msg_buf m) ! k"]
    show ?case using Cons.IH(2) [OF b(2)] by simp
  }
qed simp_all

text \<open>After a NACK comes a stop condition, unless the target holds SDA.\<close>

definition nack_end :: "i2c_target \<Rightarrow> i2c_phase \<Rightarrow> i2c_event list \<Rightarrow> bool" where
  "nack_end T p H \<longleftrightarrow> (\<exists>H0. \<not> tgt_pull T H0 \<and>
     (if tgt_pull T (H0 @ [EvBit True]) then p = High \<and> H = H0 @ [EvBit True, EvBit False]
      else p = Idle \<and> H = H0 @ [EvBit True, EvBit False, EvStop]))"

lemma nack_stop:
  assumes "spec_write_byte T v H = (rc, H')" "rc \<noteq> MPS2_I2C_OK" "snd (spec_stop T H') = (p, H'')"
  shows "rc = MPS2_I2C_ERR_NACK \<and> nack_end T p H''"
  using assms
  by (auto simp: spec_write_byte_def Let_def spec_stop_def nack_end_def wired_def split: if_splits
      intro!: exI [of _ "wired_bits T (msb_bits v) H"])

lemma spec_bytes_nack:
  "spec_bytes T is_read m ks H = (rc, m', H') \<Longrightarrow> rc \<noteq> MPS2_I2C_OK \<Longrightarrow> \<exists>v H0. spec_write_byte T v H0 = (rc, H')"
  by (induction ks arbitrary: m H) (auto split: prod.splits if_splits)

section \<open>Bus recovery\<close>

fun spec_recover :: "i2c_target \<Rightarrow> nat \<Rightarrow> i2c_event list \<Rightarrow> i2c_event list" where
  "spec_recover T 0 H = H"
| "spec_recover T (Suc k) H = (if tgt_pull T H then spec_recover T k (H @ [EvBit False]) else H @ [EvBit True])"

lemma recover_loop_wire:
  assumes "at_high H w" "m_sda w" "patient T n"
  obtains w' where "recover_loop (wire_bus T d n) k w = (MPS2_I2C_OK, w')" "at_high (spec_recover T k H) w'"
  using assms
proof (induction k arbitrary: w H thesis)
  case 0
  then show ?case by simp
next
  case (Suc k)
  let ?w1 = "set_scl T False w"
  have low: "at_low T H ?w1" using fall [of w T] Suc.prems(2) by (simp add: at_high_def)
  have sda: "m_sda ?w1" using Suc.prems(2,3) by (simp add: set_scl_def at_high_def)
  have line: "sda_line ?w1 \<longleftrightarrow> \<not> tgt_pull T H" using low sda by (simp add: sda_line_def at_low_def)
  have "tgt_hold T H < unat n" using Suc.prems(4) by (simp add: patient_def)
  note wait = wait_from_low [OF low this, of d]
  let ?w2 = "?w1\<lparr>m_scl := True, history := H @ [EvBit (sda_line ?w1)]\<rparr>"
  have w2: "poll_lines ?w2 = ((sda_line ?w1, True), ?w2)" "sda_line ?w2 = sda_line ?w1"
    using low by (simp_all add: poll_lines_def at_low_def sda_line_def scl_line_def)
  have high: "at_high (H @ [EvBit (\<not> tgt_pull T H)]) ?w2" using low line by (simp add: at_high_def at_low_def)
  have pulse: "recover_pulses (wire_bus T d n) w = (MPS2_I2C_OK, \<not> tgt_pull T H, ?w2)"
    using wait w2 line by (simp add: recover_pulses_def Let_def)
  show ?case
  proof (cases "tgt_pull T H")
    case False
    then show ?thesis using pulse high by (intro Suc.prems(1)) simp_all
  next
    case True
    then have "at_high (H @ [EvBit False]) ?w2" using high by simp
    then obtain w' where "recover_loop (wire_bus T d n) k ?w2 = (MPS2_I2C_OK, w')"
      "at_high (spec_recover T k (H @ [EvBit False])) w'"
      using Suc.IH [where H = "H @ [EvBit False]" and w = ?w2] sda Suc.prems(4) by auto
    then show ?thesis using pulse True by (intro Suc.prems(1)) simp_all
  qed
qed

lemma spec_recover_released:
  "(\<And>i. i < j \<Longrightarrow> tgt_pull T (H @ replicate i (EvBit False))) \<Longrightarrow> \<not> tgt_pull T (H @ replicate j (EvBit False)) \<Longrightarrow> j < k \<Longrightarrow>
     spec_recover T k H = H @ replicate j (EvBit False) @ [EvBit True]"
proof (induction k arbitrary: j H)
  case (Suc k)
  show ?case
  proof (cases j)
    case 0
    then show ?thesis using Suc.prems(2) by simp
  next
    case (Suc l)
    have "spec_recover T k (H @ [EvBit False]) = (H @ [EvBit False]) @ replicate l (EvBit False) @ [EvBit True]"
    proof (rule Suc.IH)
      show "tgt_pull T ((H @ [EvBit False]) @ replicate i (EvBit False))" if "i < l" for i
        using Suc.prems(1) [of "Suc i"] that Suc by simp
    qed (use Suc.prems(2,3) Suc in simp_all)
    moreover have "tgt_pull T H" using Suc.prems(1) [of 0] Suc by simp
    ultimately show ?thesis using Suc by simp
  qed
qed simp

lemma bus_valid_wire: "d \<noteq> 0 \<Longrightarrow> n \<noteq> 0 \<Longrightarrow> bus_valid (Some (wire_bus T d n))"
  by (simp add: bus_valid_def wire_bus_def)

lemma wait_polls_timeout:
  "m_scl w \<Longrightarrow> k \<le> t_hold w \<Longrightarrow> fst (wait_scl_polls (wire_bus T d n) k w) = MPS2_I2C_ERR_TIMEOUT"
proof (induction k arbitrary: w)
  case (Suc k)
  show ?case
  proof (cases "t_hold w = 1")
    case True
    then show ?thesis using Suc.prems by (simp add: scl_line_def)
  next
    case False
    then show ?thesis
      using Suc.IH [of "w\<lparr>t_hold := t_hold w - 1\<rparr>"] Suc.prems by (simp add: scl_line_def poll_lines_def Let_def)
  qed
qed simp

lemma spec_message_nack:
  assumes "spec_message T addr p m H = (MPS2_I2C_ERR_NACK, m', p', H')" "p \<noteq> High"
  shows "nack_end T p' H'"
proof -
  define r where "r \<longleftrightarrow> msg_flags m AND MPS2_I2C_MSG_READ \<noteq> 0"
  define a where "a = push_bit 1 addr OR (if r then 1 else 0)"
  note spec = spec_message_def [of T addr p m H, unfolded Let_def, folded r_def, folded a_def]
  obtain rc1 p1 H1 where s1: "spec_start T p H = (rc1, p1, H1)" by (rule prod_cases3)
  have rc1: "rc1 = MPS2_I2C_OK" using assms(1) s1 unfolding spec by (auto simp: spec_start_def split: if_splits)
  obtain rc2 H2 where s2: "spec_write_byte T a H1 = (rc2, H2)" by (rule prod.exhaust)
  show ?thesis
  proof (cases "rc2 = MPS2_I2C_OK")
    case False
    then show ?thesis using assms(1) rc1 s1 s2 nack_stop [OF s2 False, of p' H'] unfolding spec by simp
  next
    case ok: True
    obtain rc3 m3 H3 where s3: "spec_bytes T r m [0..<msg_len m] H2 = (rc3, m3, H3)" by (rule prod_cases3)
    show ?thesis
    proof (cases "rc3 = MPS2_I2C_OK")
      case True
      then show ?thesis using assms(1) rc1 s1 s2 s3 ok unfolding spec
        by (auto simp: spec_stop_def split: if_splits)
    next
      case False
      then obtain v H0 where "spec_write_byte T v H0 = (rc3, H3)" using spec_bytes_nack [OF s3] by blast
      from nack_stop [OF this False, of p' H'] show ?thesis using assms(1) rc1 s1 s2 s3 ok False unfolding spec by simp
    qed
  qed
qed

lemma spec_messages_nack:
  "spec_messages T addr p ms H = (MPS2_I2C_ERR_NACK, ms', p', H') \<Longrightarrow> p \<noteq> High \<Longrightarrow> nack_end T p' H'"
proof (induction ms arbitrary: p H ms')
  case (Cons m ms)
  obtain rc m' p1 H1 where sm: "spec_message T addr p m H = (rc, m', p1, H1)" by (metis prod_cases4)
  show ?case
  proof (cases "rc = MPS2_I2C_OK")
    case False
    then show ?thesis using Cons.prems sm spec_message_nack [of T addr p m H m' p1 H1] by simp
  next
    case True
    then have "p1 \<noteq> High" using spec_message_phase sm by blast
    then show ?thesis using Cons.IH [of p1 H1] Cons.prems(1) sm True by (auto split: prod.splits)
  qed
qed simp

lemma transfer_wire:
  assumes "at_idle H w" "patient T n" "d \<noteq> 0" "messages_ok ms" "addr \<noteq> 0x7F"
  shows "case spec_messages T addr Idle ms H of (rc, ms', p', H') \<Rightarrow>
    \<exists>w'. mps2_i2c_transfer (Some (wire_bus T d n)) (Some ms) addr w = (rc, Some ms', w') \<and> wire_at T p' H' w'"
proof -
  have "wire_at T Idle H w" using assms(1) by simp
  from transfer_messages_wire [OF this assms(2), where active = False and addr = addr and ms = ms and d = d]
  show ?thesis
    using assms(3-5) bus_valid_wire [OF assms(3) patient_nz [OF assms(2)], of T]
    by (auto simp: mps2_i2c_transfer_def messages_ok_def split: prod.splits)
qed

lemma transfer_write_frames:
  assumes "at_idle H w" "patient T n" "d \<noteq> 0" "listening T" "addr \<noteq> 0x7F" "0 < len" "len \<le> length bytes"
  shows "\<exists>w'. mps2_i2c_transfer (Some (wire_bus T d n))
      (Some [\<lparr>msg_buf = Some bytes, msg_len = len, msg_flags = MPS2_I2C_MSG_WRITE OR MPS2_I2C_MSG_STOP\<rparr>]) addr w =
    (MPS2_I2C_OK, Some [\<lparr>msg_buf = Some bytes, msg_len = len, msg_flags = MPS2_I2C_MSG_WRITE OR MPS2_I2C_MSG_STOP\<rparr>], w') \<and>
    at_idle (H @ [EvStart] @ acked_frame (push_bit 1 addr) @ concat (map acked_frame (take len bytes)) @ [EvBit False, EvStop]) w'"
proof -
  let ?m = "\<lparr>msg_buf = Some bytes, msg_len = len, msg_flags = MPS2_I2C_MSG_WRITE OR MPS2_I2C_MSG_STOP\<rparr>"
  let ?H1 = "(H @ [EvStart]) @ acked_frame (push_bit 1 addr)"
  let ?H2 = "?H1 @ concat (map (\<lambda>k. acked_frame (the (msg_buf ?m) ! k)) [0..<len])"
  have ok: "messages_ok [?m]" using assms(6) by (simp add: messages_ok_def message_bad_def)
  have z: "bits_since (H @ [EvStart]) mod 9 = 0" by simp
  note addr = listening_byte [OF assms(4) z, of "push_bit 1 addr"]
  note data = listening_bytes [OF assms(4) addr(2), of ?m "[0..<len]"]
  have "\<not> tgt_pull T ?H2" using data(2) assms(4) by (simp add: listening_def)
  then have stop: "spec_stop T ?H2 = (MPS2_I2C_OK, Idle, ?H2 @ [EvBit False, EvStop])" by (simp add: spec_stop_def)
  have "spec_message T addr Idle ?m H = (MPS2_I2C_OK, ?m, Idle, ?H2 @ [EvBit False, EvStop])"
    using addr(1) data(1) stop by (simp add: spec_message_def spec_start_def)
  moreover have "map (\<lambda>k. acked_frame (the (msg_buf ?m) ! k)) [0..<len] = map acked_frame (take len bytes)"
    using assms(7) by (intro nth_equalityI) simp_all
  ultimately show ?thesis
    using transfer_wire [OF assms(1-3) ok assms(5)] by simp
qed

section \<open>Properties\<close>

text \<open>C6.  Refinement: on any bus with any target that does not stretch the clock for ever, a transfer
  of accepted messages does to the history of the bus what the specification by conditions, bytes and
  acknowledgements says, with its result and its read data, and leaves the bus where it says.\<close>

theorem mps2_i2c_transfer_refines:
  assumes "at_idle H w" "patient T n" "d \<noteq> 0" "messages_ok ms" "addr \<noteq> 0x7F"
  shows "case spec_messages T addr Idle ms H of (rc, ms', p', H') \<Rightarrow>
    \<exists>w'. mps2_i2c_transfer (Some (wire_bus T d n)) (Some ms) addr w = (rc, Some ms', w') \<and> wire_at T p' H' w'"
  by (rule transfer_wire [OF assms])

text \<open>C11.  Writing: with a listening target, one message with a stop flag puts exactly a start, the
  address byte with the write bit, the bytes of the message, each acknowledged, and a stop on the bus.\<close>

theorem mps2_i2c_write_frames:
  assumes "at_idle H w" "patient T n" "d \<noteq> 0" "listening T" "addr \<noteq> 0x7F" "0 < len" "len \<le> length bytes"
  shows "\<exists>w'. mps2_i2c_transfer (Some (wire_bus T d n))
      (Some [\<lparr>msg_buf = Some bytes, msg_len = len, msg_flags = MPS2_I2C_MSG_WRITE OR MPS2_I2C_MSG_STOP\<rparr>]) addr w =
    (MPS2_I2C_OK, Some [\<lparr>msg_buf = Some bytes, msg_len = len, msg_flags = MPS2_I2C_MSG_WRITE OR MPS2_I2C_MSG_STOP\<rparr>], w') \<and>
    at_idle (H @ [EvStart] @ acked_frame (push_bit 1 addr) @ concat (map acked_frame (take len bytes)) @ [EvBit False, EvStop]) w'"
  by (rule transfer_write_frames [OF assms])

text \<open>C15.  No acknowledgement: a transfer that reports a missing acknowledgement has ended the
  transaction with a stop condition and left both lines high, unless the target itself holds SDA low.\<close>

theorem mps2_i2c_nack_stops:
  assumes "at_idle H w" "patient T n" "d \<noteq> 0" "messages_ok ms" "addr \<noteq> 0x7F"
    and "mps2_i2c_transfer (Some (wire_bus T d n)) (Some ms) addr w = (MPS2_I2C_ERR_NACK, ms', w')"
  shows "nack_end T (if t_pull w' then High else Idle) (history w') \<and> scl_line w' \<and> (t_pull w' \<or> sda_line w')"
proof -
  obtain rc ms2 p' H' where sp: "spec_messages T addr Idle ms H = (rc, ms2, p', H')" by (metis prod_cases4)
  then have rc: "rc = MPS2_I2C_ERR_NACK" and wire: "wire_at T p' H' w'"
    using transfer_wire [OF assms(1-5)] assms(6) by auto
  have nack: "nack_end T p' H'" using spec_messages_nack sp rc by blast
  then have p': "p' = High \<or> p' = Idle" by (auto simp: nack_end_def split: if_splits)
  show ?thesis
  proof (cases "p' = Idle")
    case True
    then show ?thesis using wire nack by (simp add: at_idle_def scl_line_def sda_line_def)
  next
    case False
    then show ?thesis using wire nack p' by (simp add: at_high_def scl_line_def)
  qed
qed

text \<open>Note.  Clock stretching: a bit succeeds exactly if the target releases SCL within
  \<open>timeout_cycles\<close> polls; otherwise it ends with a timeout.\<close>

theorem mps2_i2c_clock_stretching:
  assumes "at_low T H w"
  shows "fst (write_bit (wire_bus T d n) b w) = (if tgt_hold T H < unat n then MPS2_I2C_OK else MPS2_I2C_ERR_TIMEOUT) \<and>
    fst (read_bit (wire_bus T d n) w) = (if tgt_hold T H < unat n then MPS2_I2C_OK else MPS2_I2C_ERR_TIMEOUT)"
proof -
  have wait: "fst (wait_scl_high (wire_bus T d n) (set_sda v w)) =
      (if tgt_hold T H < unat n then MPS2_I2C_OK else MPS2_I2C_ERR_TIMEOUT)" for v
  proof (cases "tgt_hold T H < unat n")
    case True
    then show ?thesis using wait_from_low [of T H "set_sda v w" n d] set_sda_low [OF assms] by simp
  next
    case False
    have low: "at_low T H (set_sda v w)" using set_sda_low [OF assms] by simp
    show ?thesis
    proof (cases "tgt_hold T H = 0")
      case True
      then show ?thesis using False by (simp add: wait_scl_high_wire)
    next
      case hold: False
      then have "set_scl T True (set_sda v w) = (set_sda v w)\<lparr>m_scl := True, t_hold := tgt_hold T H\<rparr>"
        using low by (simp add: set_scl_def at_low_def Let_def)
      then show ?thesis using False by (simp add: wait_scl_high_wire wait_polls_timeout)
    qed
  qed
  show ?thesis
    using wait [of True] wait [of False]
    by (auto simp: write_bit_def read_bit_def Let_def split: prod.splits if_splits)
qed

text \<open>C36.  Bus recovery: a target that holds SDA low and lets go after fewer than nine clocks is
  recovered, ending with a stop condition and both lines high.\<close>

theorem mps2_i2c_recover_bus_recovers:
  assumes "at_high H w" "t_pull w" "patient T n" "d \<noteq> 0" "j < 9"
    and "\<And>i. i < j \<Longrightarrow> tgt_pull T (H @ replicate i (EvBit False))" "\<not> tgt_pull T (H @ replicate j (EvBit False))"
    and "\<not> tgt_pull T (H @ replicate j (EvBit False) @ [EvBit True])"
  shows "\<exists>w'. mps2_i2c_recover_bus (Some (wire_bus T d n)) w = (MPS2_I2C_OK, w') \<and>
    at_idle (H @ replicate j (EvBit False) @ [EvBit True, EvBit False, EvStop]) w'"
proof -
  let ?bus = "wire_bus T d n" and ?w1 = "set_sda True w"
  let ?H = "H @ replicate j (EvBit False) @ [EvBit True]"
  have w1: "at_high H ?w1" "m_sda ?w1" "\<not> sda_line ?w1" "poll_lines ?w1 = ((False, True), ?w1)"
    using assms(1,2) by (simp_all add: set_sda_def at_high_def sda_line_def scl_line_def poll_lines_def Let_def)
  have wait: "wait_scl_high ?bus ?w1 = (MPS2_I2C_OK, ?w1)"
    using w1(1) patient_nz [OF assms(3)] by (intro wait_from_high) (simp_all add: at_high_def)
  obtain w2 where w2: "recover_loop ?bus 9 ?w1 = (MPS2_I2C_OK, w2)" "at_high (spec_recover T 9 H) w2"
    by (rule recover_loop_wire [OF w1(1,2) assms(3)])
  have "spec_recover T 9 H = ?H" by (rule spec_recover_released [OF assms(6,7,5)])
  then have "at_low T ?H (set_scl T False w2)" using w2(2) fall [of w2 T] by (simp add: at_high_def)
  moreover have "spec_stop T ?H = (MPS2_I2C_OK, Idle, ?H @ [EvBit False, EvStop])" using assms(8) by (simp add: spec_stop_def)
  ultimately obtain w3 where "generate_stop ?bus w2 = (MPS2_I2C_OK, w3)" "wire_at T Idle (?H @ [EvBit False, EvStop]) w3"
    using generate_stop_wire [OF _ assms(3)] by metis
  then show ?thesis
    using wait w1 w2(1) bus_valid_wire [OF assms(4) patient_nz [OF assms(3)], of T]
    by (auto simp: mps2_i2c_recover_bus_def Let_def)
qed

text \<open>The address check rejects only 0x7F: an address with bit 7 set is accepted, and the bus sees the
  address without that bit.\<close>

lemma mps2_i2c_transfer_high_address:
  assumes "addr \<noteq> 0x7F" "bit addr 7"
  shows "send_address bus addr r w = send_address bus (addr AND 0x7F) r w"
proof -
  have m: "(0x7F :: u8) = mask 7" by (simp add: mask_eq_exp_minus_1)
  have "push_bit 1 (addr AND mask 7) = push_bit 1 addr"
    by (rule bit_word_eqI) (unfold bit_push_bit_iff bit_and_iff bit_mask_iff, auto)
  then show ?thesis unfolding send_address_def m by (simp only:)
qed

section \<open>Concrete targets\<close>

definition ack_target :: i2c_target where
  "ack_target = \<lparr>tgt_pull = (\<lambda>H. bits_since H mod 9 = 8), tgt_hold = (\<lambda>_. 2)\<rparr>"

definition silent_target :: i2c_target where
  "silent_target = \<lparr>tgt_pull = (\<lambda>_. False), tgt_hold = (\<lambda>_. 0)\<rparr>"

definition stuck_target :: i2c_target where
  "stuck_target = \<lparr>tgt_pull = (\<lambda>H. length H < 3), tgt_hold = (\<lambda>_. 1)\<rparr>"

definition idle_wire :: i2c_wire where
  "idle_wire = \<lparr>m_sda = True, m_scl = True, t_pull = False, t_hold = 0, history = []\<rparr>"

abbreviation (input) one_byte :: mps2_i2c_msg where
  "one_byte \<equiv> \<lparr>msg_buf = Some [0xAB], msg_len = 1, msg_flags = 2\<rparr>"

lemma target_facts:
  "at_idle [] idle_wire" "patient ack_target 10" "patient silent_target 10" "patient stuck_target 10" "listening ack_target"
  "messages_ok [one_byte]"
  by (simp_all add: at_idle_def idle_wire_def patient_def ack_target_def silent_target_def stuck_target_def listening_def
      messages_ok_def message_bad_def)

lemma silent_spec:
  "spec_messages silent_target 0x50 Idle [one_byte] [] = (MPS2_I2C_ERR_NACK, [one_byte], Idle,
     [EvStart] @ map EvBit (msb_bits 0xA0) @ [EvBit True, EvBit False, EvStop])"
proof -
  have w: "wired_bits silent_target bs H = H @ map EvBit bs" for bs H
    by (induction bs arbitrary: H) (simp_all add: wired_def silent_target_def)
  show ?thesis
    by (simp add: spec_message_def spec_start_def spec_write_byte_def spec_stop_def w Let_def)
       (simp add: silent_target_def wired_def)
qed

lemma mps2_i2c_transfer_refines_witness:
  "\<exists>w'. mps2_i2c_transfer (Some (wire_bus silent_target 5 10)) (Some [one_byte]) 0x50 idle_wire =
     (MPS2_I2C_ERR_NACK, Some [one_byte], w') \<and>
     at_idle ([EvStart] @ map EvBit (msb_bits 0xA0) @ [EvBit True, EvBit False, EvStop]) w'"
  using mps2_i2c_transfer_refines [OF target_facts(1,3) _ target_facts(6), of 5 "0x50", unfolded silent_spec] by simp

lemma mps2_i2c_write_frames_witness:
  "\<exists>w'. mps2_i2c_transfer (Some (wire_bus ack_target 5 10)) (Some [one_byte]) 0x50 idle_wire =
     (MPS2_I2C_OK, Some [one_byte], w') \<and>
     at_idle ([EvStart] @ acked_frame 0xA0 @ acked_frame 0xAB @ [EvBit False, EvStop]) w'"
  using mps2_i2c_write_frames [OF target_facts(1,2) _ target_facts(5), of 5 "0x50" 1 "[0xAB]"] by simp

lemma mps2_i2c_nack_stops_witness:
  "\<exists>ms' w'. mps2_i2c_transfer (Some (wire_bus silent_target 5 10)) (Some [one_byte]) 0x50 idle_wire =
     (MPS2_I2C_ERR_NACK, ms', w') \<and> scl_line w'"
proof -
  obtain w' where run: "mps2_i2c_transfer (Some (wire_bus silent_target 5 10)) (Some [one_byte]) 0x50 idle_wire =
      (MPS2_I2C_ERR_NACK, Some [one_byte], w')"
    using transfer_wire [OF target_facts(1,3) _ target_facts(6), of 5 "0x50", unfolded silent_spec] by auto
  show ?thesis using mps2_i2c_nack_stops [OF target_facts(1,3) _ target_facts(6) _ run] run by auto
qed

lemma mps2_i2c_clock_stretching_witness:
  "fst (write_bit (wire_bus ack_target 5 2) 1 (set_scl ack_target False idle_wire)) = MPS2_I2C_ERR_TIMEOUT \<and>
   fst (write_bit (wire_bus ack_target 5 3) 1 (set_scl ack_target False idle_wire)) = MPS2_I2C_OK"
proof -
  have "at_low ack_target [] (set_scl ack_target False idle_wire)"
    using fall [of idle_wire ack_target] by (simp add: idle_wire_def)
  from mps2_i2c_clock_stretching [OF this, of 5 2 1] mps2_i2c_clock_stretching [OF this, of 5 3 1]
  show ?thesis by (simp add: ack_target_def)
qed

lemma mps2_i2c_recover_bus_recovers_witness:
  "\<exists>w'. mps2_i2c_recover_bus (Some (wire_bus stuck_target 5 10)) (idle_wire\<lparr>t_pull := True\<rparr>) = (MPS2_I2C_OK, w') \<and>
    at_idle (replicate 3 (EvBit False) @ [EvBit True, EvBit False, EvStop]) w'"
  using mps2_i2c_recover_bus_recovers [of "[]" "idle_wire\<lparr>t_pull := True\<rparr>" stuck_target 10 5 3] target_facts(4)
  by (simp add: at_high_def idle_wire_def stuck_target_def)

end
