(* ===== verification/Eeprom_I2c.thy ===== *)
theory Eeprom_I2c
  imports Mps2_I2c
begin

text \<open>
  labs/lab14_mps2_mmio_i2c: an EEPROM on the I2C bus (eeprom.c), the board (board_device.c) and the
  program (main.c), over the master of Mps2_I2c.  size_t is 32 bits wide.  A store outside the
  transmit buffer is undefined in C: the result is then None.
\<close>

section \<open>Data (eeprom.h)\<close>

record 'w eeprom_device =
  ee_bus :: "'w mps2_i2c_bus option"
  ee_target_addr :: u8
  ee_address_width :: u8
  ee_page_size :: u32
  ee_ready_poll_limit :: u32

abbreviation (input) EEPROM_OK :: int where "EEPROM_OK \<equiv> 0"
abbreviation (input) EEPROM_ERR_ARGUMENT :: int where "EEPROM_ERR_ARGUMENT \<equiv> - 100"
abbreviation (input) EEPROM_ERR_ADDRESS_WIDTH :: int where "EEPROM_ERR_ADDRESS_WIDTH \<equiv> - 101"
abbreviation (input) EEPROM_ERR_PAGE_BOUNDARY :: int where "EEPROM_ERR_PAGE_BOUNDARY \<equiv> - 102"
abbreviation (input) EEPROM_ERR_TRANSFER :: int where "EEPROM_ERR_TRANSFER \<equiv> - 103"
abbreviation (input) EEPROM_ERR_NOT_READY :: int where "EEPROM_ERR_NOT_READY \<equiv> - 104"

abbreviation (input) EEPROM_MAX_PAYLOAD_SIZE :: nat where "EEPROM_MAX_PAYLOAD_SIZE \<equiv> 32"

section \<open>Operations (eeprom.c)\<close>

definition validate_range :: "'w eeprom_device \<Rightarrow> u16 \<Rightarrow> u32 \<Rightarrow> int" where
  "validate_range device memory_addr len =
     (let limit = (if ee_address_width device = 1 then Some (256 :: u32)
                   else if ee_address_width device = 2 then Some 65536 else None) in
      case limit of None \<Rightarrow> EEPROM_ERR_ADDRESS_WIDTH
      | Some limit \<Rightarrow>
        if ucast memory_addr \<ge> limit \<or> len > limit - ucast memory_addr then EEPROM_ERR_ARGUMENT else EEPROM_OK)"

text \<open>The bytes put at the start of the buffer; the C function returns their number.\<close>

definition build_memory_address :: "'w eeprom_device \<Rightarrow> u16 \<Rightarrow> u8 list" where
  "build_memory_address device memory_addr =
     (if ee_address_width device = 1 then [ucast memory_addr]
      else [ucast (drop_bit 8 memory_addr), ucast memory_addr])"

text \<open>\<open>tx_buffer[address_length + index] = data[index]\<close>, for each index of the list.\<close>

fun append_data :: "u8 list \<Rightarrow> nat \<Rightarrow> u8 list \<Rightarrow> nat list \<Rightarrow> u8 list option" where
  "append_data buf address_length data [] = Some buf"
| "append_data buf address_length data (index # rest) =
     (if address_length + index \<ge> length buf then None
      else append_data (buf[address_length + index := data ! index]) address_length data rest)"

fun wait_ready_attempts :: "'w eeprom_device \<Rightarrow> nat \<Rightarrow> 'w \<Rightarrow> int \<times> 'w" where
  "wait_ready_attempts device 0 w = (EEPROM_ERR_NOT_READY, w)"
| "wait_ready_attempts device (Suc k) w =
     (case mps2_i2c_probe (ee_bus device) (ee_target_addr device) w of (result, w) \<Rightarrow>
      if result = MPS2_I2C_OK then (EEPROM_OK, w)
      else if result \<noteq> MPS2_I2C_ERR_NACK then (EEPROM_ERR_TRANSFER, w)
      else wait_ready_attempts device k w)"

definition eeprom_wait_ready :: "'w eeprom_device option \<Rightarrow> 'w \<Rightarrow> int \<times> 'w" where
  "eeprom_wait_ready device w =
     (case device of None \<Rightarrow> (EEPROM_ERR_ARGUMENT, w)
      | Some dev \<Rightarrow>
        if ee_bus dev = None \<or> ee_ready_poll_limit dev = 0 then (EEPROM_ERR_ARGUMENT, w)
        else wait_ready_attempts dev (unat (ee_ready_poll_limit dev)) w)"

text \<open>The page size is compared with the enumeration constant \<open>-100\<close> converted to size_t, as in the
  code.  The uninitialised part of the transmit buffer is not sent: 0 stands for it.\<close>

definition eeprom_write :: "'w eeprom_device option \<Rightarrow> u16 \<Rightarrow> u8 list option \<Rightarrow> u32 \<Rightarrow> 'w \<Rightarrow> (int \<times> 'w) option" where
  "eeprom_write device memory_addr data len w =
     (case device of None \<Rightarrow> Some (EEPROM_ERR_ARGUMENT, w)
      | Some dev \<Rightarrow>
        if ee_bus dev = None \<or> data = None \<or> len = 0 \<or> ee_page_size dev = 0 \<or>
           ee_page_size dev > word_of_int EEPROM_ERR_ARGUMENT \<or> len > ee_page_size dev
        then Some (EEPROM_ERR_ARGUMENT, w)
        else
          let result = validate_range dev memory_addr len in
          if result \<noteq> EEPROM_OK then Some (result, w)
          else if len > ee_page_size dev - (ucast memory_addr mod ee_page_size dev)
          then Some (EEPROM_ERR_PAGE_BOUNDARY, w)
          else
            let addr = build_memory_address dev memory_addr;
                tx_buffer = addr @ replicate (2 + EEPROM_MAX_PAYLOAD_SIZE - length addr) 0 in
            case append_data tx_buffer (length addr) (the data) [0..<unat len] of None \<Rightarrow> None
            | Some tx_buffer \<Rightarrow>
              let message = \<lparr>msg_buf = Some tx_buffer, msg_len = length addr + unat len,
                             msg_flags = MPS2_I2C_MSG_WRITE OR MPS2_I2C_MSG_STOP\<rparr> in
              case mps2_i2c_transfer (ee_bus dev) (Some [message]) (ee_target_addr dev) w of (result, _, w) \<Rightarrow>
              if result \<noteq> MPS2_I2C_OK then Some (EEPROM_ERR_TRANSFER, w)
              else Some (eeprom_wait_ready device w))"

definition eeprom_write_byte :: "'w eeprom_device option \<Rightarrow> u16 \<Rightarrow> u8 \<Rightarrow> 'w \<Rightarrow> (int \<times> 'w) option" where
  "eeprom_write_byte device memory_addr val w = eeprom_write device memory_addr (Some [val]) 1 w"

definition eeprom_read :: "'w eeprom_device option \<Rightarrow> u16 \<Rightarrow> u8 list option \<Rightarrow> u32 \<Rightarrow> 'w \<Rightarrow> int \<times> u8 list option \<times> 'w" where
  "eeprom_read device memory_addr data len w =
     (case device of None \<Rightarrow> (EEPROM_ERR_ARGUMENT, data, w)
      | Some dev \<Rightarrow>
        if ee_bus dev = None \<or> data = None \<or> len = 0 then (EEPROM_ERR_ARGUMENT, data, w)
        else
          let result = validate_range dev memory_addr len in
          if result \<noteq> EEPROM_OK then (result, data, w)
          else
            let addr = build_memory_address dev memory_addr;
                messages = [\<lparr>msg_buf = Some addr, msg_len = length addr, msg_flags = MPS2_I2C_MSG_WRITE\<rparr>,
                            \<lparr>msg_buf = data, msg_len = unat len,
                             msg_flags = MPS2_I2C_MSG_READ OR (MPS2_I2C_MSG_RESTART OR MPS2_I2C_MSG_STOP)\<rparr>] in
            case mps2_i2c_transfer (ee_bus dev) (Some messages) (ee_target_addr dev) w of (result, messages, w) \<Rightarrow>
            (if result = MPS2_I2C_OK then EEPROM_OK else EEPROM_ERR_TRANSFER, msg_buf (the messages ! 1), w))"

definition eeprom_read_byte :: "'w eeprom_device option \<Rightarrow> u16 \<Rightarrow> u8 \<Rightarrow> 'w \<Rightarrow> int \<times> u8 \<times> 'w" where
  "eeprom_read_byte device memory_addr val w =
     (case eeprom_read device memory_addr (Some [val]) 1 w of (result, data, w) \<Rightarrow> (result, the data ! 0, w))"

section \<open>Board (board_device.c)\<close>

abbreviation (input) BOARD_I2C_TARGET_HZ :: u32 where "BOARD_I2C_TARGET_HZ \<equiv> 100000"
abbreviation (input) BOARD_DELAY_LOOP_CYCLES :: u32 where "BOARD_DELAY_LOOP_CYCLES \<equiv> 5"

definition board_i2c_delay_cycles :: "u32 \<Rightarrow> u32 \<Rightarrow> u32" where
  "board_i2c_delay_cycles core_clock_hz i2c_clock_hz =
     (if core_clock_hz = 0 \<or> i2c_clock_hz = 0 then 0
      else core_clock_hz div (2 * i2c_clock_hz) div BOARD_DELAY_LOOP_CYCLES)"

definition g_board_i2c_bus :: "'w MPS2_I2C_TypeDef \<Rightarrow> 'w mps2_i2c_bus" where
  "g_board_i2c_bus shield = \<lparr>bus_regs = Some shield, delay_cycles = 0, timeout_cycles = 10000\<rparr>"

definition g_board_eeprom :: "'w mps2_i2c_bus \<Rightarrow> 'w eeprom_device" where
  "g_board_eeprom bus = \<lparr>ee_bus = Some bus, ee_target_addr = 0x50, ee_address_width = 2, ee_page_size = 8,
     ee_ready_poll_limit = 1000\<rparr>"

definition board_devices_init :: "u32 \<Rightarrow> 'w mps2_i2c_bus \<Rightarrow> 'w \<Rightarrow> int \<times> 'w mps2_i2c_bus \<times> 'w" where
  "board_devices_init SystemCoreClock bus w =
     (let bus = bus\<lparr>delay_cycles := board_i2c_delay_cycles SystemCoreClock BOARD_I2C_TARGET_HZ\<rparr> in
      if delay_cycles bus = 0 then (MPS2_I2C_ERR_ARGUMENT, bus, w)
      else case mps2_i2c_init (Some bus) w of (result, w) \<Rightarrow> (result, bus, w))"

section \<open>Program (main.c)\<close>

datatype lab14_stage = LAB14_STAGE_RESET | LAB14_STAGE_BOARD_INIT | LAB14_STAGE_WRITE | LAB14_STAGE_READ
  | LAB14_STAGE_COMPARE | LAB14_STAGE_DONE | LAB14_STAGE_ERROR | LAB14_STAGE_PROBE

record 'w lab14 =
  g_lab14_stage :: lab14_stage
  g14_board_init_result :: int
  g14_i2c_probe_result :: int
  g14_eeprom_write_result :: int
  g14_eeprom_read_result :: int
  g14_eeprom_compare_result :: int
  g14_i2c_last_control :: u32
  g14_test_memory_addr :: u16
  g14_test_write_value :: u8
  g14_eeprom_read_value :: u8
  g14_bus :: "'w mps2_i2c_bus"

text \<open>The path to the labels \<open>error\<close> and \<open>finished\<close>.\<close>

definition lab14_finish :: "'w lab14 \<Rightarrow> 'w \<Rightarrow> 'w lab14 \<times> 'w" where
  "lab14_finish g w = (case rd_CONTROL (the (bus_regs (g14_bus g))) w of (v, w) \<Rightarrow> (g\<lparr>g14_i2c_last_control := v\<rparr>, w))"

definition lab14_error :: "'w lab14 \<Rightarrow> 'w \<Rightarrow> 'w lab14 \<times> 'w" where
  "lab14_error g w = lab14_finish (g\<lparr>g_lab14_stage := LAB14_STAGE_ERROR\<rparr>) w"

definition lab14_main :: "u32 \<Rightarrow> 'w lab14 \<Rightarrow> 'w \<Rightarrow> ('w lab14 \<times> 'w) option" where
  "lab14_main SystemCoreClock g w =
     (let g = g\<lparr>g_lab14_stage := LAB14_STAGE_RESET, g14_test_memory_addr := 0x10, g14_test_write_value := 0xAB,
                g14_eeprom_read_value := 0\<rparr>;
          g = g\<lparr>g_lab14_stage := LAB14_STAGE_BOARD_INIT\<rparr> in
      case board_devices_init SystemCoreClock (g14_bus g) w of (rc, bus, w) \<Rightarrow>
      let g = g\<lparr>g14_board_init_result := rc, g14_bus := bus\<rparr> in
      if g14_board_init_result g \<noteq> MPS2_I2C_OK then Some (lab14_error g w) else
      let g = g\<lparr>g_lab14_stage := LAB14_STAGE_PROBE\<rparr>; eeprom = g_board_eeprom (g14_bus g) in
      case mps2_i2c_probe (ee_bus eeprom) (ee_target_addr eeprom) w of (rc, w) \<Rightarrow>
      let g = g\<lparr>g14_i2c_probe_result := rc\<rparr> in
      if g14_i2c_probe_result g \<noteq> MPS2_I2C_OK then Some (lab14_error g w) else
      let g = g\<lparr>g_lab14_stage := LAB14_STAGE_WRITE\<rparr> in
      case eeprom_write_byte (Some eeprom) (g14_test_memory_addr g) (g14_test_write_value g) w of None \<Rightarrow> None
      | Some (rc, w) \<Rightarrow>
      let g = g\<lparr>g14_eeprom_write_result := rc\<rparr> in
      if g14_eeprom_write_result g \<noteq> EEPROM_OK then Some (lab14_error g w) else
      let g = g\<lparr>g_lab14_stage := LAB14_STAGE_READ\<rparr> in
      case eeprom_read_byte (Some eeprom) (g14_test_memory_addr g) 0 w of (rc, read_value, w) \<Rightarrow>
      let g = g\<lparr>g14_eeprom_read_result := rc, g14_eeprom_read_value := read_value\<rparr> in
      if g14_eeprom_read_result g \<noteq> EEPROM_OK then Some (lab14_error g w) else
      let g = g\<lparr>g_lab14_stage := LAB14_STAGE_COMPARE\<rparr>;
          g = g\<lparr>g14_eeprom_compare_result := (if g14_eeprom_read_value g = g14_test_write_value g then 0 else - 1)\<rparr> in
      if g14_eeprom_compare_result g \<noteq> 0 then Some (lab14_error g w)
      else Some (lab14_finish (g\<lparr>g_lab14_stage := LAB14_STAGE_DONE\<rparr>) w))"

section \<open>The transmit buffer\<close>

lemma append_data_upt:
  "k \<le> n \<Longrightarrow> al + n \<le> length buf \<Longrightarrow> append_data buf al data [k..<n] =
     Some (take (al + k) buf @ map ((!) data) [k..<n] @ drop (al + n) buf)"
proof (induction "n - k" arbitrary: k buf)
  case 0
  then show ?case by simp
next
  case (Suc l)
  then have kn: "k < n" by simp
  let ?buf = "buf[al + k := data ! k]"
  have "append_data ?buf al data [Suc k..<n] = Some (take (al + Suc k) ?buf @ map ((!) data) [Suc k..<n] @ drop (al + n) ?buf)"
    using Suc by simp
  moreover have "take (al + Suc k) ?buf = take (al + k) buf @ [data ! k]"
    using Suc.prems kn by (simp add: take_Suc_conv_app_nth)
  moreover have "drop (al + n) ?buf = drop (al + n) buf" using kn by simp
  ultimately show ?case using Suc.prems kn by (simp add: upt_conv_Cons)
qed

lemma append_data_overflow: "al + k < length buf \<Longrightarrow> length buf < al + n \<Longrightarrow> append_data buf al data [k..<n] = None"
proof (induction "length buf - (al + k)" arbitrary: k buf)
  case (Suc l)
  have "append_data (buf[al + k := data ! k]) al data [Suc k..<n] = None"
  proof (cases "al + Suc k < length buf")
    case True
    then show ?thesis using Suc by simp
  next
    case False
    then show ?thesis using Suc.prems by (simp add: upt_conv_Cons)
  qed
  then show ?case using Suc.prems by (simp add: upt_conv_Cons)
qed simp

lemma length_build: "length (build_memory_address dev a) = (if ee_address_width dev = 1 then 1 else 2)"
  by (simp add: build_memory_address_def)

text \<open>What the checks of \<open>eeprom_write\<close> accept: a range of the device inside one page.\<close>

definition write_accepted :: "'w eeprom_device \<Rightarrow> u16 \<Rightarrow> u32 \<Rightarrow> bool" where
  "write_accepted dev a len \<longleftrightarrow> ee_bus dev \<noteq> None \<and> len \<noteq> 0 \<and> ee_page_size dev \<noteq> 0 \<and> ee_page_size dev \<le> word_of_int EEPROM_ERR_ARGUMENT \<and>
     len \<le> ee_page_size dev \<and> validate_range dev a len = EEPROM_OK \<and>
     len \<le> ee_page_size dev - (ucast a mod ee_page_size dev)"

lemma write_accepted_page:
  assumes "write_accepted dev a len"
  shows "unat a mod unat (ee_page_size dev) + unat len \<le> unat (ee_page_size dev)"
proof -
  let ?p = "ee_page_size dev"
  have "?p \<noteq> 0" using assms by (simp add: write_accepted_def)
  then have lt: "(ucast a :: u32) mod ?p < ?p" by (simp add: word_mod_less_divisor word_gt_0)
  have um: "unat ((ucast a :: u32) mod ?p) = unat a mod unat ?p"
  proof -
    have "unat a < 2 ^ LENGTH(16)" by (rule unsigned_less)
    then show ?thesis by (simp add: unat_mod_distrib unsigned_ucast_eq take_bit_nat_eq_self)
  qed
  have "unat (?p - (ucast a mod ?p)) = unat ?p - unat a mod unat ?p"
    using lt um by (simp add: unat_sub)
  then have "unat len \<le> unat ?p - unat a mod unat ?p" using assms by (simp add: write_accepted_def word_le_nat_alt)
  moreover have "unat a mod unat ?p \<le> unat ?p" using lt um by (simp add: word_less_nat_alt)
  ultimately show ?thesis by simp
qed

lemma eeprom_write_run:
  assumes "write_accepted dev a len" "unat len + length (build_memory_address dev a) \<le> 34" "unat len \<le> length data"
  shows "\<exists>pad. eeprom_write (Some dev) a (Some data) len w =
    (case mps2_i2c_transfer (ee_bus dev) (Some [\<lparr>msg_buf = Some (build_memory_address dev a @ take (unat len) data @ pad),
        msg_len = length (build_memory_address dev a) + unat len, msg_flags = MPS2_I2C_MSG_WRITE OR MPS2_I2C_MSG_STOP\<rparr>])
        (ee_target_addr dev) w of (result, _, w) \<Rightarrow>
      if result \<noteq> MPS2_I2C_OK then Some (EEPROM_ERR_TRANSFER, w) else Some (eeprom_wait_ready (Some dev) w))"
proof -
  let ?a = "build_memory_address dev a"
  let ?buf = "?a @ replicate (2 + EEPROM_MAX_PAYLOAD_SIZE - length ?a) 0"
  have len: "length ?buf = 34" by (simp add: length_build)
  have "append_data ?buf (length ?a) data [0..<unat len] =
      Some (take (length ?a) ?buf @ map ((!) data) [0..<unat len] @ drop (length ?a + unat len) ?buf)"
    using append_data_upt [of 0 "unat len" "length ?a" ?buf data] assms(2) unfolding len by simp
  moreover have "map ((!) data) [0..<unat len] = take (unat len) data"
    using assms(3) by (intro nth_equalityI) simp_all
  ultimately have app: "append_data ?buf (length ?a) data [0..<unat len] =
      Some (?a @ take (unat len) data @ drop (length ?a + unat len) ?buf)" by simp
  have guards: "\<not> (ee_bus dev = None \<or> Some data = None \<or> len = 0 \<or> ee_page_size dev = 0 \<or>
      ee_page_size dev > word_of_int EEPROM_ERR_ARGUMENT \<or> len > ee_page_size dev)"
    "validate_range dev a len = EEPROM_OK" "\<not> len > ee_page_size dev - (ucast a mod ee_page_size dev)"
    using assms(1) by (simp_all add: write_accepted_def not_less)
  obtain b where b: "ee_bus dev = Some b" using assms(1) by (auto simp: write_accepted_def)
  show ?thesis
    unfolding eeprom_write_def option.case Let_def
    using guards app b by (intro exI [of _ "drop (length ?a + unat len) ?buf"]) (simp del: drop_append)
qed

section \<open>Probing on the wire\<close>

lemma probe_listening:
  assumes "at_idle H w" "patient T n" "d \<noteq> 0" "listening T" "addr \<le> 0x7F"
  obtains w' where "mps2_i2c_probe (Some (wire_bus T d n)) addr w = (MPS2_I2C_OK, w')"
    "at_idle (H @ [EvStart] @ acked_frame (push_bit 1 addr) @ [EvBit False, EvStop]) w'"
proof -
  let ?bus = "wire_bus T d n" and ?H1 = "H @ [EvStart]"
  let ?H2 = "?H1 @ acked_frame (push_bit 1 addr)"
  have "wire_at T Idle H w" using assms(1) by simp
  then obtain w1 where w1: "generate_start ?bus w = (MPS2_I2C_OK, w1)" "wire_at T Low ?H1 w1"
    using generate_start_wire [OF _ assms(2)] by (metis i2c_phase.distinct(3) spec_start_def)
  have z: "bits_since ?H1 mod 9 = 0" by simp
  note b = listening_byte [OF assms(4) z, of "push_bit 1 addr"]
  have low1: "at_low T ?H1 w1" using w1(2) by simp
  obtain w2 where w2: "write_byte ?bus (push_bit 1 addr) w1 = (MPS2_I2C_OK, w2)" "at_low T ?H2 w2"
    using write_byte_wire [OF low1 assms(2), of d "push_bit 1 addr"] unfolding b(1) fst_conv snd_conv by metis
  have send: "send_address ?bus addr False w1 = (MPS2_I2C_OK, w2)" using w2(1) by (simp add: send_address_def)
  have "\<not> tgt_pull T ?H2" using b(2) assms(4) by (simp add: listening_def)
  then have sp: "spec_stop T ?H2 = (MPS2_I2C_OK, Idle, ?H2 @ [EvBit False, EvStop])" by (simp add: spec_stop_def)
  have "wire_at T Low ?H2 w2" using w2(2) by simp
  then obtain w3 where w3: "generate_stop ?bus w2 = (MPS2_I2C_OK, w3)" "wire_at T Idle (?H2 @ [EvBit False, EvStop]) w3"
    using generate_stop_wire [OF to_low assms(2) sp] by metis
  have "mps2_i2c_probe (Some ?bus) addr w = (MPS2_I2C_OK, w3)"
    using w1(1) send w3(1) assms(5) bus_valid_wire [OF assms(3) patient_nz [OF assms(2)], of T]
    by (simp add: mps2_i2c_probe_def not_less)
  then show ?thesis by (rule that) (use w3(2) in simp)
qed

text \<open>The write transfer with a listening target, as a lemma for the write of the EEPROM.\<close>

lemma transfer_listening:
  assumes "at_idle H w" "patient T n" "d \<noteq> 0" "listening T" "addr \<noteq> 0x7F" "0 < len" "len \<le> length bytes"
  obtains w' ms where "mps2_i2c_transfer (Some (wire_bus T d n))
      (Some [\<lparr>msg_buf = Some bytes, msg_len = len, msg_flags = MPS2_I2C_MSG_WRITE OR MPS2_I2C_MSG_STOP\<rparr>]) addr w = (MPS2_I2C_OK, ms, w')"
    "at_idle (H @ [EvStart] @ acked_frame (push_bit 1 addr) @ concat (map acked_frame (take len bytes)) @ [EvBit False, EvStop]) w'"
  using transfer_write_frames [OF assms] by metis

section \<open>Properties\<close>

text \<open>C16.  A write to the EEPROM of a range inside one page is one bus transaction: start, device
  address, memory address high byte first, the data, stop; then the device is polled until it
  acknowledges.  With a listening target the result is success and this is all the bus sees.\<close>

theorem eeprom_write_transaction:
  assumes "at_idle H w" "patient T n" "d \<noteq> 0" "listening T" "ee_bus dev = Some (wire_bus T d n)"
    and "ee_target_addr dev < 0x7F" "ee_ready_poll_limit dev \<noteq> 0"
    and "write_accepted dev a len" "ee_page_size dev \<le> 32" "unat len \<le> length data"
  shows "\<exists>w'. eeprom_write (Some dev) a (Some data) len w = Some (EEPROM_OK, w') \<and>
    at_idle (H @ [EvStart] @ acked_frame (push_bit 1 (ee_target_addr dev)) @
      concat (map acked_frame (build_memory_address dev a @ take (unat len) data)) @ [EvBit False, EvStop] @
      [EvStart] @ acked_frame (push_bit 1 (ee_target_addr dev)) @ [EvBit False, EvStop]) w'"
proof -
  let ?a = "build_memory_address dev a" and ?t = "ee_target_addr dev"
  have "unat len \<le> unat (ee_page_size dev)" "unat (ee_page_size dev) \<le> 32"
    using assms(8,9) by (simp_all add: write_accepted_def word_le_nat_alt)
  then have small: "unat len + length ?a \<le> 34" by (simp add: length_build)
  obtain pad where run: "eeprom_write (Some dev) a (Some data) len w =
    (case mps2_i2c_transfer (Some (wire_bus T d n)) (Some [\<lparr>msg_buf = Some (?a @ take (unat len) data @ pad),
        msg_len = length ?a + unat len, msg_flags = MPS2_I2C_MSG_WRITE OR MPS2_I2C_MSG_STOP\<rparr>]) ?t w of (result, _, w) \<Rightarrow>
      if result \<noteq> MPS2_I2C_OK then Some (EEPROM_ERR_TRANSFER, w) else Some (eeprom_wait_ready (Some dev) w))"
    using eeprom_write_run [OF assms(8) small assms(10), of w] unfolding assms(5) by blast
  have t: "?t \<noteq> 0x7F" "?t \<le> 0x7F" using assms(6) by (auto simp: word_less_nat_alt word_le_nat_alt)
  have l: "0 < length ?a + unat len" "length ?a + unat len \<le> length (?a @ take (unat len) data @ pad)"
    using assms(10) by (simp_all add: length_build)
  obtain w1 ms where w1: "mps2_i2c_transfer (Some (wire_bus T d n)) (Some [\<lparr>msg_buf = Some (?a @ take (unat len) data @ pad),
        msg_len = length ?a + unat len, msg_flags = MPS2_I2C_MSG_WRITE OR MPS2_I2C_MSG_STOP\<rparr>]) ?t w = (MPS2_I2C_OK, ms, w1)"
    "at_idle (H @ [EvStart] @ acked_frame (push_bit 1 ?t) @
       concat (map acked_frame (take (length ?a + unat len) (?a @ take (unat len) data @ pad))) @ [EvBit False, EvStop]) w1"
    by (rule transfer_listening [OF assms(1-4) t(1) l])
  have tk: "take (length ?a + unat len) (?a @ take (unat len) data @ pad) = ?a @ take (unat len) data"
    using assms(10) by simp
  obtain w2 where w2: "mps2_i2c_probe (Some (wire_bus T d n)) ?t w1 = (MPS2_I2C_OK, w2)"
    "at_idle ((H @ [EvStart] @ acked_frame (push_bit 1 ?t) @ concat (map acked_frame (?a @ take (unat len) data)) @
       [EvBit False, EvStop]) @ [EvStart] @ acked_frame (push_bit 1 ?t) @ [EvBit False, EvStop]) w2"
    by (rule probe_listening [OF w1(2) [unfolded tk] assms(2-4) t(2)])
  have "0 < unat (ee_ready_poll_limit dev)" using assms(7) by (simp add: unat_gt_0)
  then obtain k where "unat (ee_ready_poll_limit dev) = Suc k" using gr0_implies_Suc by blast
  then have "eeprom_wait_ready (Some dev) w1 = (EEPROM_OK, w2)"
    using w2(1) assms(5,7) by (simp add: eeprom_wait_ready_def)
  then show ?thesis using run w1(1) w2(2) by simp
qed

text \<open>C17.  The transmit buffer: with a page size of at most 32 bytes a write never leaves it; a device
  with larger pages is not refused, and an accepted write of more than 32 bytes then writes past the
  end of the buffer.\<close>

theorem eeprom_write_buffer:
  assumes "write_accepted dev a len"
  shows "eeprom_write (Some dev) a (Some data) len w = None \<longleftrightarrow> unat len + length (build_memory_address dev a) > 34"
proof -
  let ?a = "build_memory_address dev a"
  let ?buf = "?a @ replicate (2 + EEPROM_MAX_PAYLOAD_SIZE - length ?a) 0"
  have len: "length ?buf = 34" "length ?a \<le> 2" by (simp_all add: length_build)
  have guards: "\<not> (ee_bus dev = None \<or> Some data = None \<or> len = 0 \<or> ee_page_size dev = 0 \<or>
      ee_page_size dev > word_of_int EEPROM_ERR_ARGUMENT \<or> len > ee_page_size dev)"
    "validate_range dev a len = EEPROM_OK" "\<not> len > ee_page_size dev - (ucast a mod ee_page_size dev)"
    using assms by (simp_all add: write_accepted_def not_less)
  obtain b where b: "ee_bus dev = Some b" using assms by (auto simp: write_accepted_def)
  show ?thesis
  proof (cases "unat len + length ?a > 34")
    case True
    then have "append_data ?buf (length ?a) data [0..<unat len] = None"
      using append_data_overflow [of "length ?a" 0 ?buf "unat len" data] unfolding len using len(2) by simp
    then show ?thesis using True guards b unfolding eeprom_write_def option.case Let_def by simp
  next
    case False
    then obtain buf where "append_data ?buf (length ?a) data [0..<unat len] = Some buf"
      using append_data_upt [of 0 "unat len" "length ?a" ?buf data] unfolding len by auto
    then show ?thesis using False guards b unfolding eeprom_write_def option.case Let_def
      by (simp split: prod.split)
  qed
qed

section \<open>Concrete instances\<close>

abbreviation (input) lab14_eeprom :: "i2c_wire eeprom_device" where
  "lab14_eeprom \<equiv> g_board_eeprom (wire_bus ack_target 5 10)"

lemma lab14_write_accepted: "write_accepted lab14_eeprom 0x10 1"
  by (simp add: write_accepted_def g_board_eeprom_def validate_range_def)

lemma eeprom_write_transaction_witness:
  "\<exists>w'. eeprom_write (Some lab14_eeprom) 0x10 (Some [0xAB]) 1 idle_wire = Some (EEPROM_OK, w') \<and>
    at_idle ([EvStart] @ acked_frame 0xA0 @ acked_frame 0x00 @ acked_frame 0x10 @ acked_frame 0xAB @ [EvBit False, EvStop] @
      [EvStart] @ acked_frame 0xA0 @ [EvBit False, EvStop]) w'"
  using eeprom_write_transaction [OF target_facts(1,2) _ target_facts(5), of 5 lab14_eeprom "0x10" 1 "[0xAB]"]
    lab14_write_accepted
  by (simp add: g_board_eeprom_def build_memory_address_def)

text \<open>A device with pages of 64 bytes, as an AT24C512 would need more than the buffer holds.\<close>

lemma eeprom_write_buffer_witness:
  "eeprom_write (Some (lab14_eeprom\<lparr>ee_page_size := 64\<rparr>)) 0 (Some (replicate 40 0)) 40 idle_wire = None"
proof -
  have "write_accepted (lab14_eeprom\<lparr>ee_page_size := 64\<rparr>) 0 40"
    by (simp add: write_accepted_def g_board_eeprom_def validate_range_def)
  from eeprom_write_buffer [OF this, of "replicate 40 0" idle_wire]
  show ?thesis by (simp add: length_build g_board_eeprom_def)
qed

end
