(* ===== verification/Spec2Isabelle.thy ===== *)
theory Spec2Isabelle
  imports Prelude Fault_Log Eeprom_Double Fault_Log_Main Boot_Log Flash_Double Boot_Log_Main Watchdog Watchdog_Main Pcie_Host Pcie_Enum Pcie_Resource Uart_Async Rx_Manager Ring_Buffer Pcie_Bridge Pcie_Programs Runtime Uart_Polling Core_Labs Optimization Startup Uart_Labs I2c_Simulated Reg_Access Spi_Command Spi_Bitbang Ssp I2c_Wire I2c_Bitbang Mps2_I2c Eeprom_I2c
begin

text \<open>
  Verification of the C code of the Cortex-M3 debug labs: the bare-metal programs labs/lab01 to lab18, the Zephyr
  applications labs/lab19 to lab25, the PCIe bridge programs labs/labh1 to labh3 with the bridge they run on, and
  the start-up code of platform.

  \<^bold>\<open>How the program is put together.\<close>  Every lab is a program of its own: a driver or a service (a few C files with
  a header), a board file that ties it to an address or to a simulated device, and a main that exercises it and
  parks in an endless loop with its verdict in globals for the debugger.  The labs build on each other in
  substance and not by linking: uart.c is repeated from lab09 to lab12, the PCIe configuration accessors from lab17
  to lab19.  Below them is the start-up code (platform/runtime), beside them the hardware of the board or, for
  the labh programs, Verilog of the repository.  In the Zephyr labs the drivers below and the kernel are
  Zephyr's.

  \<^bold>\<open>Theories and sources.\<close>
  \<^item> \<open>Prelude\<close>: integer types, errno values, device handles, lemmas on words and byte ranges.
  \<^item> \<open>Runtime\<close>: platform/runtime (copy_data, zero_bss, _sbrk, the destructor table), the constructor table of
    platform/selftest, and lab06 (relocate_far_text, the constructors, main).  \<open>Startup\<close>: the reset handler of
    startup.s, instruction by instruction, and lab06 from the reset on.
  \<^item> \<open>Core_Labs\<close>: lab01 to lab05; the processor is the parameter \<open>cpu\<close>, and \<open>m3\<close> is a machine with the exceptions and
    the MPU of ARMv7-M, on which lab05 and its MemManage fault run.  \<open>Optimization\<close>: lab07.
  \<^item> \<open>Uart_Polling\<close>: uart.c of lab08 to lab12, lab10's interrupt, lab12's driver table, console and retargeting.
    \<open>Ring_Buffer\<close>: lab11, the ring buffer and the program, whose main loop is a step machine interleaved with the
    interrupt.  \<open>Uart_Labs\<close>: the copies of uart.c in lab08, lab09, lab11 and lab12, and lab11 over the port of a UART.
  \<^item> \<open>I2c_Wire\<close>: an open-drain bus with an arbitrary target, the environment of the two I2C masters.
    \<open>I2c_Bitbang\<close>: lab13.  \<open>Mps2_I2c\<close>: lab14's master.  \<open>Eeprom_I2c\<close>: lab14's EEPROM driver, board and program.
    \<open>I2c_Simulated\<close>: the i2c_message.c beside lab14, lab13's master with the acknowledge bit simulated.
  \<^item> \<open>Spi_Bitbang\<close>: lab15, controller, simulated device, program.  \<open>Ssp\<close>: lab16, PL022 driver, board, program.
  \<^item> \<open>Pcie_Host\<close>: lab17.  \<open>Pcie_Enum\<close>: lab18, recursion over buses, devices and functions, the simulated controller.
    \<open>Pcie_Resource\<close>: lab19, BAR probing and address allocation.  \<open>Pcie_Bridge\<close> (with
    the register layouts of the bridge's two headers) and \<open>Pcie_Programs\<close>: the bridge RTL clock
    edge by clock edge, the three backends, and the drivers and programs of labh1, labh2 and labh3 on them.
  \<^item> \<open>Uart_Async\<close> and \<open>Rx_Manager\<close>: lab20, the asynchronous UART driver, and the manager that lends it buffers, composed
    with the interrupts as steps.
  \<^item> \<open>Reg_Access\<close>: lab21.  \<open>Spi_Command\<close>: lab22 with its clock adapter.
  \<^item> \<open>Boot_Log\<close>, \<open>Flash_Double\<close>, \<open>Boot_Log_Main\<close>: lab23.  \<open>Fault_Log\<close>, \<open>Eeprom_Double\<close>, \<open>Fault_Log_Main\<close>: lab24.  The doubles
    are the drivers of the labs' own tests/host_contract.c.  \<open>Watchdog\<close>, \<open>Watchdog_Main\<close>: lab25.
  \<^item> \<open>Spec2Isabelle\<close>: what holds across labs, the agreement of the I2C masters of lab13 and lab14 on the wire.

  \<^bold>\<open>State and operations.\<close>  A struct is a record with the fields of the source; a C function is a definition of the
  same name (suffixed or prefixed by its lab where names clash) that takes the state it reads and returns the state
  it writes beside its result; an early return is a branch, an errno or an enum value a number.  What is
  below the code is a world \<open>'w\<close> behind a record of functions.  Integers are words where they wrap or are masked.

  \<^bold>\<open>Parameters and contracts.\<close>  The vendor's CMSIS headers, the peripherals, Zephyr's drivers and kernel are records of
  functions and constants.  What the code needs of them is a locale, and each is interpreted on a concrete provider:
  the test doubles of the repository (\<open>ed\<close>, \<open>fm\<close>, \<open>wm\<close>, \<open>mock\<close>, \<open>spi_mock\<close>, \<open>loopback\<close>), its simulated devices (\<open>sim\<close>,
  \<open>sim18\<close>, \<open>sim18_bus\<close>), its RTL (\<open>h1\<close>, \<open>h2\<close>, \<open>h3\<close>), or a small model of the documented peripheral (\<open>qemu\<close>, \<open>cmsdk\<close>, \<open>pl022\<close>,
  \<open>pl022_port\<close>, \<open>layout\<close>).  The I2C masters need no contract: their theorems hold for every
  target that holds the clock no longer than the master waits, which for lab13 is not at all.

  \<^bold>\<open>What the lemmas show.\<close>
  \<^item> Storage (lab23, lab24): after a crash at any byte of an append recovery finds the old log or the new one; appends
    commit, survive a reboot and never retry blindly; corruption is detected; initialisation accepts exactly the
    well-formed images.
  \<^item> Concurrency (lab11, lab20, lab25): over every interleaving of interrupt, driver, task and main loop no byte is
    lost, duplicated or reordered without being counted, each buffer has one owner, and the watchdog is fed only when
    every task has reported since the last feed and never after a fault.
  \<^item> Buses (lab13 to lab16, lab22): the bit-level masters refine the transfer the bus specification describes, for
    every target; refused bytes end in a stop condition; stretching and a stuck bus are handled as far as the code
    handles them; SPI exchanges the words of both sides.
  \<^item> PCIe (lab17 to lab19, labh1 to labh3): accesses return what was written and bad addresses are refused, enumeration finds exactly what a
    recursive specification finds, BARs are sized and placed disjointly in their window, a poll ends in one of its
    three outcomes.
  \<^item> Core (lab01 to lab07, runtime): the loops of start-up end and build the image, the reset handler
    does what the C start-up does and lab06 runs from it, the MPU set-up of lab05 stops the
    unprivileged write, heap blocks follow each other.
  Some facts of these theories show the code to do otherwise than its comments, its sibling or its hardware: among
  them the handler of lab04 that never returns (\<open>lab04_handler_never_returns\<close>), the
  page check of the EEPROM driver against the wrong constant (\<open>eeprom_write_buffer\<close>), and the command written
  before its data in labh3 (\<open>labh3_write_sends_previous\<close>, \<open>labh3_main_misprobes\<close>).

  \<^bold>\<open>Bounds and partial functions.\<close>  No fuel is chosen here: the bounds are the code's own, the poll limits of lab14,
  lab16 and labh1 to labh3, the 64 bytes of the ring and the eight slots of the fault log.  Loops over a counter are structural
  or have a measure.  A loop that waits for hardware or another agent, or compares pointers, is a
  \<^theory_text>\<open>partial_function (option)\<close>; that it returns is shown from the contract (\<open>waits_for_room\<close>,
  \<open>startup_initialises_memory\<close>), characterised (\<open>test_volatile_returns\<close>) or refuted (\<open>lab04_handler_never_returns\<close>).  The endless
  loops at the end of the programs are the end of the models; those that work (lab11, lab12, lab20, lab25) are
  step relations or one turn.

  \<^bold>\<open>Not modelled.\<close>
  \<^item> lab00, an empty main; the vector tables, and the startup.s of platform/baremetal, which branches to main and no
    more.  Of the linker scripts only the layout of the symbols the code reads (\<open>linker_ok\<close>).
  \<^item> Zephyr's device tables, BUILD_ASSERTs and the structures its macros expand to: their values are parameters.
  \<^item> Timing, caches and the compiler: delays are counted and otherwise without effect, barriers have none, and
    volatile accesses happen in program order.  The RTL is modelled for the aligned word accesses the programs make.
  \<^item> The tests, apart from the doubles, and the scripts.
\<close>

section \<open>Two labs, one contract: the I2C masters of lab13 and lab14\<close>

text \<open>A write of lab14 does to the history what a write of lab13 does.\<close>

lemma spec_bytes_write:
  "spec_bytes T False m ks H =
     (case spec13_bytes T (map ((!) (the (msg_buf m))) ks) H of (rc, H') \<Rightarrow> (rc, m, H'))"
  by (induction ks arbitrary: H) (auto split: prod.splits)

lemma prompt_patient: "prompt T \<Longrightarrow> n \<noteq> 0 \<Longrightarrow> patient T n"
  by (simp add: prompt_def patient_def word_neq_0_conv word_less_nat_alt)

lemma spec_message_write:
  assumes "im_flags m' = 2" "msg_flags m = 2" "im_buf m' = msg_buf m" "msg_buf m \<noteq> None" "unat (im_len m') = msg_len m" "0 < msg_len m"
  shows "case spec13_msg T addr 0 m' (Idle, H) of (rc, p', H') \<Rightarrow>
    spec_message T addr Idle m H = (if rc = 0 \<and> p' = High then MPS2_I2C_ERR_BUS_BUSY else rc, m, p', H')"
proof -
  have n: "im_len m' \<noteq> 0" using assms(5,6) by auto
  show ?thesis using assms n
    by (auto simp: spec13_msg_def spec_message_def spec_start_def spec13_start_def spec13_idle_def spec13_stop_def spec_stop_def
        msg_bytes_def spec_bytes_write Let_def split: prod.splits)
qed

text \<open>C20.  The two masters agree: a write of one message puts the same conditions and bits on the bus, and
  reports the same, whatever a target that does not stretch the clock answers; except that only lab14's master
  reports that the target keeps SDA low at the final stop condition.\<close>

theorem i2c_masters_agree:
  assumes "at_idle H w" "prompt T" "d \<noteq> 0" "n \<noteq> 0" "addr < 0x7F" "unat len \<le> length bytes" "len \<noteq> 0"
  shows "case i2c_transfer_bitbang (lab13_wire T) addr (Some [\<lparr>im_buf = Some bytes, im_len = len, im_flags = 2\<rparr>]) w of (rc, w13) \<Rightarrow>
    case mps2_i2c_transfer (Some (wire_bus T d n)) (Some [\<lparr>msg_buf = Some bytes, msg_len = unat len, msg_flags = 2\<rparr>]) addr w of
      (rc', ms, w14) \<Rightarrow>
    rc' = (if rc = I2C_OK \<and> t_pull w13 then MPS2_I2C_ERR_BUS_BUSY else rc) \<and> history w14 = history w13 \<and> sda_line w14 = sda_line w13 \<and>
    scl_line w13 \<and> scl_line w14"
proof -
  let ?m13 = "\<lparr>im_buf = Some bytes, im_len = len, im_flags = 2\<rparr>" and ?m14 = "\<lparr>msg_buf = Some bytes, msg_len = unat len, msg_flags = 2\<rparr>"
  have n: "0 < unat len" using assms(7) by (simp add: word_neq_0_conv word_less_nat_alt)
  obtain rc p' H' where s: "spec13_msg T addr 0 ?m13 (Idle, H) = (rc, p', H')" by (rule prod_cases3)
  have "\<not> 0x7F < addr" using assms(5) by simp
  then have s13: "spec13_transfer T addr (Some [?m13]) (Idle, H) = (rc, p', H')"
    using s by (simp add: spec13_transfer_def spec13_idle_def)
  have s14: "spec_messages T addr Idle [?m14] H = (if rc = 0 \<and> p' = High then MPS2_I2C_ERR_BUS_BUSY else rc, [?m14], p', H')"
    using spec_message_write [of ?m13 ?m14 T addr H] s n by simp
  have "messages_ok [?m14]" using n assms(6) by (simp add: messages_ok_def message_bad_def)
  from transfer_wire [OF assms(1) prompt_patient [OF assms(2,4)] assms(3) this, of addr] obtain w14 where
    w14: "mps2_i2c_transfer (Some (wire_bus T d n)) (Some [?m14]) addr w =
      (if rc = 0 \<and> p' = High then MPS2_I2C_ERR_BUS_BUSY else rc, Some [?m14], w14)" "wire_at T p' H' w14"
    using s14 assms(5) by auto
  obtain w13 where w13: "i2c_transfer_bitbang (lab13_wire T) addr (Some [?m13]) w = (rc, w13)" "wire_at T p' H' w13"
    using bitbang_transfer_wire [of T "(Idle, H)" w addr "Some [?m13]"] assms(1,2) s13 by auto
  have "p' \<noteq> Low" using s by (auto simp: spec13_msg_def spec13_stop_def Let_def split: prod.splits if_splits)
  then show ?thesis using w13 w14
    by (cases p') (auto simp: at_idle_def at_high_def sda_line_def scl_line_def)
qed

theorem i2c_masters_agree_witness:
  "case i2c_transfer_bitbang (lab13_wire acking) 0x50 (Some [\<lparr>im_buf = Some [1, 2], im_len = 2, im_flags = 2\<rparr>]) released_wire of (rc, w13) \<Rightarrow>
   case mps2_i2c_transfer (Some (wire_bus acking 1 1)) (Some [\<lparr>msg_buf = Some [1, 2], msg_len = 2, msg_flags = 2\<rparr>]) 0x50 released_wire of
      (rc', ms, w14) \<Rightarrow> history w14 = history w13"
  using i2c_masters_agree [of "[]" released_wire acking 1 1 "0x50" 2 "[1, 2]"]
  by (simp add: acking split: prod.splits)

end
